(* ===== verification/Prelude.thy ===== *)
theory Prelude
  imports Main "HOL-Library.Word" "HOL-Library.Monad_Syntax"
begin

text \<open>
  What every component shares: the machine integers of the Go code, its slices and strings, the
  option monad for a call that may panic, and the generic lemmas on lists and words that the
  component theories use through the collections \<open>go_simps\<close> and \<open>len_simps\<close>.

  Go's \<open>[]byte\<close> is a list of 8-bit words and Go's \<open>string\<close> is Isabelle's \<open>string\<close>, whose
  characters are bytes. A nil slice and an empty slice are the same list. A value of type
  \<open>'a go\<close> is the result of a Go expression that may panic: \<open>None\<close> is the panic (an index or a
  slice bound out of range, a write to a nil map, an impossible allocation).
\<close>

unbundle bit_operations_syntax

named_theorems go_simps \<open>evaluation rules of indexing and slicing\<close>
named_theorems len_simps \<open>lengths of what the buffer and string operations leave\<close>

type_synonym byte = "8 word"
type_synonym bytes = "byte list"
type_synonym u16 = "16 word"
type_synonym u32 = "32 word"
type_synonym u64 = "64 word"
type_synonym 'a go = "'a option"

section \<open>Indexing and slicing\<close>

text \<open>\<open>xs[i]\<close> and \<open>xs[lo:hi]\<close>, which panic out of range.\<close>

definition go_at :: "'a list \<Rightarrow> nat \<Rightarrow> 'a go" where
  "go_at xs i = (if i < length xs then Some (xs ! i) else None)"

definition go_slice :: "nat \<Rightarrow> nat \<Rightarrow> 'a list \<Rightarrow> 'a list go" where
  "go_slice lo hi xs =
     (if lo \<le> hi \<and> hi \<le> length xs then Some (take (hi - lo) (drop lo xs)) else None)"

lemma go_at_Some [go_simps]: "i < length xs \<Longrightarrow> go_at xs i = Some (xs ! i)"
  by (simp add: go_at_def)

lemma go_at_eq_Some_iff: "go_at xs i = Some x \<longleftrightarrow> i < length xs \<and> xs ! i = x"
  by (auto simp: go_at_def)

lemma go_slice_Some [go_simps]:
  "lo \<le> hi \<Longrightarrow> hi \<le> length xs \<Longrightarrow> go_slice lo hi xs = Some (take (hi - lo) (drop lo xs))"
  by (simp add: go_slice_def)

lemma go_slice_eq_None_iff: "go_slice lo hi xs = None \<longleftrightarrow> hi < lo \<or> length xs < hi"
  by (auto simp: go_slice_def)

section \<open>Bytes and strings\<close>

definition char_of_byte :: "byte \<Rightarrow> char" where
  "char_of_byte b = char_of (unat b)"

definition byte_of_char :: "char \<Rightarrow> byte" where
  "byte_of_char c = of_nat (of_char c)"

text \<open>The conversions \<open>string(b)\<close> and \<open>[]byte(s)\<close>, and a string literal used as bytes.\<close>

definition go_string :: "bytes \<Rightarrow> string" where
  "go_string = map char_of_byte"

definition go_bytes :: "string \<Rightarrow> bytes" where
  "go_bytes = map byte_of_char"

lemma of_char_less_256: "of_char c < (256 :: nat)"
  by (metis of_char_mod_256 mod_less_divisor zero_less_numeral)

lemma char_of_byte_of_char [simp]: "char_of_byte (byte_of_char c) = c"
proof -
  have "unat (of_nat (of_char c) :: byte) = of_char c"
    using of_char_less_256 [of c] by (simp add: unat_of_nat)
  then show ?thesis by (simp add: char_of_byte_def byte_of_char_def)
qed

lemma byte_of_char_of_byte [simp]: "byte_of_char (char_of_byte b) = b"
proof -
  have "unat b < 256"
    using unsigned_less [of b, where 'a = nat] by simp
  then have "of_char (char_of (unat b)) = unat b"
    by (simp add: of_char_of)
  then show ?thesis by (simp add: char_of_byte_def byte_of_char_def)
qed

lemma go_string_bytes [simp]: "go_string (go_bytes s) = s"
  by (induction s) (auto simp: go_string_def go_bytes_def)

lemma go_bytes_string [simp]: "go_bytes (go_string b) = b"
  by (induction b) (auto simp: go_string_def go_bytes_def)

lemma length_go_string [simp, len_simps]: "length (go_string b) = length b"
  by (simp add: go_string_def)

lemma length_go_bytes [simp, len_simps]: "length (go_bytes s) = length s"
  by (simp add: go_bytes_def)

lemma go_string_append [simp]: "go_string (a @ b) = go_string a @ go_string b"
  by (simp add: go_string_def)

lemma go_string_inj: "go_string a = go_string b \<longleftrightarrow> a = b"
  by (metis go_bytes_string)

lemma go_bytes_append [simp]: "go_bytes (a @ b) = go_bytes a @ go_bytes b"
  by (simp add: go_bytes_def)

lemma go_bytes_Nil [simp]: "go_bytes [] = []"
  by (simp add: go_bytes_def)

lemma go_bytes_Cons: "go_bytes (c # s) = byte_of_char c # go_bytes s"
  by (simp add: go_bytes_def)

lemma go_bytes_eq_Nil [simp]: "go_bytes s = [] \<longleftrightarrow> s = []"
  by (simp add: go_bytes_def)

section \<open>Integers read from bytes\<close>

text \<open>
  The byte orders the code writes out: \<open>uint16(b1) | uint16(b0)<<8\<close> and its kin on fixed
  widths, and \<open>int(b0)<<16 | int(b1)<<8 | int(b2)\<close> on Go's \<open>int\<close>, which is a
  non-negative number far below its width here.
\<close>

definition be_u16 :: "byte \<Rightarrow> byte \<Rightarrow> u16" where
  "be_u16 b0 b1 = ucast b1 OR push_bit 8 (ucast b0)"

definition le_u16 :: "byte \<Rightarrow> byte \<Rightarrow> u16" where
  "le_u16 b0 b1 = ucast b0 OR push_bit 8 (ucast b1)"

definition be_u32 :: "byte \<Rightarrow> byte \<Rightarrow> byte \<Rightarrow> byte \<Rightarrow> u32" where
  "be_u32 b0 b1 b2 b3 =
     ucast b3 OR push_bit 8 (ucast b2) OR push_bit 16 (ucast b1) OR push_bit 24 (ucast b0)"

definition le_u32 :: "byte \<Rightarrow> byte \<Rightarrow> byte \<Rightarrow> byte \<Rightarrow> u32" where
  "le_u32 b0 b1 b2 b3 =
     ucast b0 OR push_bit 8 (ucast b1) OR push_bit 16 (ucast b2) OR push_bit 24 (ucast b3)"

definition be_int2 :: "byte \<Rightarrow> byte \<Rightarrow> nat" where
  "be_int2 b0 b1 = push_bit 8 (unat b0) OR unat b1"

definition be_int3 :: "byte \<Rightarrow> byte \<Rightarrow> byte \<Rightarrow> nat" where
  "be_int3 b0 b1 b2 = push_bit 16 (unat b0) OR push_bit 8 (unat b1) OR unat b2"

lemma or_push_bit_add:
  fixes a b :: nat
  assumes "b < 2 ^ n"
  shows "push_bit n a OR b = a * 2 ^ n + b"
proof -
  have "push_bit n a AND b = 0"
  proof (rule bit_eqI)
    fix i
    show "bit (push_bit n a AND b) i = bit (0::nat) i"
    proof (cases "i < n")
      case True
      then show ?thesis by (simp add: bit_simps)
    next
      case False
      then have "b < 2 ^ i"
        using assms by (meson less_le_trans not_less one_le_numeral power_increasing)
      then have "\<not> bit b i"
        by (simp add: bit_iff_odd)
      then show ?thesis by (simp add: bit_simps)
    qed
  qed
  then have "push_bit n a OR b = push_bit n a + b"
    by (simp add: disjunctive_add_eq_or)
  then show ?thesis by (simp add: push_bit_eq_mult)
qed

lemma unat_byte_less: "unat (b::byte) < 256"
  using unsigned_less [of b, where 'a = nat] by simp

lemma be_int2_eq: "be_int2 b0 b1 = unat b0 * 256 + unat b1"
  using or_push_bit_add [of "unat b1" 8 "unat b0"] unat_byte_less [of b1]
  by (simp add: be_int2_def)

lemma be_int2_less: "be_int2 b0 b1 < 65536"
  using unat_byte_less [of b0] unat_byte_less [of b1] by (simp add: be_int2_eq)

lemma be_int3_eq: "be_int3 b0 b1 b2 = unat b0 * 65536 + unat b1 * 256 + unat b2"
proof -
  have "push_bit 8 (unat b1) OR unat b2 = unat b1 * 256 + unat b2"
    using or_push_bit_add [of "unat b2" 8 "unat b1"] unat_byte_less [of b2] by simp
  moreover have "unat b1 * 256 + unat b2 < 2 ^ 16"
    using unat_byte_less [of b1] unat_byte_less [of b2] by simp
  ultimately show ?thesis
    using or_push_bit_add [of "unat b1 * 256 + unat b2" 16 "unat b0"]
    by (simp add: be_int3_def or.assoc)
qed

section \<open>Lists\<close>

lemma take_drop_append_le:
  "n \<le> length xs \<Longrightarrow> take n (xs @ ys) = take n xs"
  by simp

lemma length_eq_2_conv: "length xs = 2 \<longleftrightarrow> (\<exists>a b. xs = [a, b])"
  by (auto simp: numeral_2_eq_2 length_Suc_conv)

end
