(* ===== verification/GoStrings.thy ===== *)
theory GoStrings
  imports Prelude
begin

text \<open>
  What the code uses of Go's standard library on strings and byte slices: \<open>strings\<close>, \<open>bytes\<close>,
  \<open>strconv\<close> and the \<open>fmt\<close> verbs of the fingerprints. Searching and splitting are polymorphic,
  so that they serve strings and byte slices alike. Separators are never empty in the code.

  White space is \<open>unicode.IsSpace\<close>: a space's UTF-8 encoding starts with an ASCII byte or with
  one of the lead bytes C2, E1, E2, E3, so matching the encodings at a byte position agrees with
  decoding runes. Case mapping is Go's on ASCII; a string with other letters keeps them, since
  the Unicode case tables are not modelled, and the theorems that rely on case mapping say so.
\<close>

section \<open>Prefixes, searching and splitting\<close>

definition strings_HasPrefix :: "'a list \<Rightarrow> 'a list \<Rightarrow> bool" where
  "strings_HasPrefix s p \<longleftrightarrow> take (length p) s = p"

definition strings_HasSuffix :: "'a list \<Rightarrow> 'a list \<Rightarrow> bool" where
  "strings_HasSuffix s p \<longleftrightarrow> length p \<le> length s \<and> drop (length s - length p) s = p"

text \<open>\<open>bytes.Index\<close>: the first occurrence, \<open>None\<close> for Go's -1.\<close>

fun bytes_Index :: "'a list \<Rightarrow> 'a list \<Rightarrow> nat option" where
  "bytes_Index [] sep = (if sep = [] then Some 0 else None)"
| "bytes_Index (x # xs) sep =
     (if strings_HasPrefix (x # xs) sep then Some 0 else map_option Suc (bytes_Index xs sep))"

definition strings_Contains :: "'a list \<Rightarrow> 'a list \<Rightarrow> bool" where
  "strings_Contains s sub \<longleftrightarrow> bytes_Index s sub \<noteq> None"

lemma HasPrefix_conv: "strings_HasPrefix s p \<longleftrightarrow> (\<exists>r. s = p @ r)"
  by (metis append_take_drop_id append_eq_conv_conj strings_HasPrefix_def)

lemma HasPrefix_append [simp]: "strings_HasPrefix (p @ r) p"
  by (simp add: strings_HasPrefix_def)

lemma HasPrefix_length: "strings_HasPrefix s p \<Longrightarrow> length p \<le> length s"
  by (auto simp: HasPrefix_conv)

lemma HasSuffix_conv: "strings_HasSuffix s p \<longleftrightarrow> (\<exists>r. s = r @ p)"
proof
  assume "strings_HasSuffix s p"
  then show "\<exists>r. s = r @ p"
    by (metis append_take_drop_id strings_HasSuffix_def)
qed (auto simp: strings_HasSuffix_def)

lemma bytes_Index_Some_prefix:
  "bytes_Index xs sep = Some i \<Longrightarrow> strings_HasPrefix (drop i xs) sep \<and> i + length sep \<le> length xs"
proof (induction xs arbitrary: i)
  case Nil
  then show ?case by (auto simp: strings_HasPrefix_def split: if_splits)
next
  case (Cons x xs)
  then show ?case
    by (fastforce dest: HasPrefix_length split: if_splits)
qed

lemma bytes_Index_Some_split:
  assumes "bytes_Index xs sep = Some i"
  shows "xs = take i xs @ sep @ drop (i + length sep) xs"
proof -
  from assms have "take (length sep) (drop i xs) = sep"
    by (auto dest: bytes_Index_Some_prefix simp: strings_HasPrefix_def)
  then have "drop i xs = sep @ drop (i + length sep) xs"
    by (metis add.commute append_take_drop_id drop_drop)
  then show ?thesis by (metis append_take_drop_id)
qed

lemma bytes_Index_first:
  "bytes_Index xs sep = Some i \<Longrightarrow> j < i \<Longrightarrow> \<not> strings_HasPrefix (drop j xs) sep"
proof (induction xs arbitrary: i j)
  case Nil
  then show ?case by (auto split: if_splits)
next
  case (Cons x xs)
  then show ?case by (cases j) (auto split: if_splits)
qed

lemma bytes_Index_None_iff:
  "bytes_Index xs sep = None \<longleftrightarrow> (\<forall>j \<le> length xs. \<not> strings_HasPrefix (drop j xs) sep)"
proof (induction xs)
  case Nil
  then show ?case by (auto simp: strings_HasPrefix_def)
next
  case (Cons x xs)
  have "(\<forall>j \<le> length (x # xs). \<not> strings_HasPrefix (drop j (x # xs)) sep) \<longleftrightarrow>
      \<not> strings_HasPrefix (x # xs) sep \<and> (\<forall>j \<le> length xs. \<not> strings_HasPrefix (drop j xs) sep)"
    by (metis Suc_le_mono drop0 drop_Suc_Cons length_Cons not0_implies_Suc zero_le)
  with Cons show ?case by simp
qed

text \<open>A single-element separator is found at its first occurrence.\<close>

lemma bytes_Index_single:
  "c \<notin> set xs \<Longrightarrow> bytes_Index (xs @ c # ys) [c] = Some (length xs)"
  by (induction xs) (auto simp: strings_HasPrefix_def)

lemma bytes_Index_single_None: "bytes_Index xs [c] = None \<longleftrightarrow> c \<notin> set xs"
  by (induction xs) (auto simp: strings_HasPrefix_def)

text \<open>
  A separator is found at its first occurrence when its first element does not occur before:
  how \<open>\r\n\<close> ends a line of text.
\<close>

lemma bytes_Index_line:
  "c \<notin> set xs \<Longrightarrow> bytes_Index (xs @ (c # cs) @ ys) (c # cs) = Some (length xs)"
  by (induction xs) (auto simp: strings_HasPrefix_def)

lemma bytes_Index_bound [len_simps]:
  "bytes_Index xs sep = Some i \<Longrightarrow> i + length sep \<le> length xs"
  by (simp add: bytes_Index_Some_prefix)

text \<open>\<open>strings.Split\<close> and \<open>strings.SplitN\<close> (at most \<open>n\<close> parts, \<open>n > 0\<close>).\<close>

function strings_Split :: "'a list \<Rightarrow> 'a list \<Rightarrow> 'a list list" where
  "strings_Split s sep =
     (case bytes_Index s sep of
        None \<Rightarrow> [s]
      | Some i \<Rightarrow> (if sep = [] then [s] else take i s # strings_Split (drop (i + length sep) s) sep))"
  by pat_completeness auto
termination
proof (relation "measure (\<lambda>(s, sep). length s)")
  fix s sep :: "'a list" and i
  assume "bytes_Index s sep = Some i" "sep \<noteq> []"
  then have "i + length sep \<le> length s" "0 < length sep"
    by (auto dest: bytes_Index_bound)
  then show "((drop (i + length sep) s, sep), s, sep) \<in> measure (\<lambda>(s, sep). length s)"
    by (cases sep) auto
qed simp

declare strings_Split.simps [simp del]

fun strings_SplitN :: "'a list \<Rightarrow> 'a list \<Rightarrow> nat \<Rightarrow> 'a list list" where
  "strings_SplitN s sep 0 = []"
| "strings_SplitN s sep (Suc 0) = [s]"
| "strings_SplitN s sep (Suc (Suc n)) =
     (case bytes_Index s sep of
        None \<Rightarrow> [s]
      | Some i \<Rightarrow> take i s # strings_SplitN (drop (i + length sep) s) sep (Suc n))"

lemma strings_Split_nonempty: "strings_Split s sep \<noteq> []"
  by (subst strings_Split.simps) (auto split: option.splits)

lemma strings_Split_single_None: "c \<notin> set s \<Longrightarrow> strings_Split s [c] = [s]"
  by (subst strings_Split.simps) (simp add: bytes_Index_single_None [THEN iffD2])

lemma strings_Split_single_Cons:
  "c \<notin> set a \<Longrightarrow> strings_Split (a @ c # b) [c] = a # strings_Split b [c]"
  by (subst strings_Split.simps) (simp add: bytes_Index_single)

text \<open>\<open>strings.Join\<close>.\<close>

fun strings_Join :: "'a list list \<Rightarrow> 'a list \<Rightarrow> 'a list" where
  "strings_Join [] sep = []"
| "strings_Join [s] sep = s"
| "strings_Join (s # t # ts) sep = s @ sep @ strings_Join (t # ts) sep"

text \<open>Splitting undoes joining, as long as no part holds the separator.\<close>

lemma strings_Split_Join:
  "ss \<noteq> [] \<Longrightarrow> \<forall>s \<in> set ss. c \<notin> set s \<Longrightarrow> strings_Split (strings_Join ss [c]) [c] = ss"
proof (induction ss "[c]" rule: strings_Join.induct)
  case 1
  then show ?case by simp
next
  case (2 s)
  then show ?case by (simp add: strings_Split_single_None)
next
  case (3 s t ts)
  then show ?case by (simp add: strings_Split_single_Cons)
qed

section \<open>White space\<close>

text \<open>
  \<open>space_len s\<close> is the number of bytes of the white-space rune that \<open>s\<close> starts with, 0 if
  it starts with none; \<open>space_len_rev\<close> reads the reversed string, for trimming on the right.
\<close>

definition space_seq3 :: "nat \<Rightarrow> nat \<Rightarrow> nat \<Rightarrow> bool" where
  "space_seq3 a b c \<longleftrightarrow>
     a = 0xE1 \<and> b = 0x9A \<and> c = 0x80
   \<or> a = 0xE2 \<and> b = 0x80 \<and> (0x80 \<le> c \<and> c \<le> 0x8A \<or> c = 0xA8 \<or> c = 0xA9 \<or> c = 0xAF)
   \<or> a = 0xE2 \<and> b = 0x81 \<and> c = 0x9F
   \<or> a = 0xE3 \<and> b = 0x80 \<and> c = 0x80"

definition ascii_space :: "nat \<Rightarrow> bool" where
  "ascii_space n \<longleftrightarrow> n = 32 \<or> 9 \<le> n \<and> n \<le> 13"

fun space_len :: "string \<Rightarrow> nat" where
  "space_len [] = 0"
| "space_len (c # r) =
     (if ascii_space (of_char c) then 1
      else case r of [] \<Rightarrow> 0
      | d # r' \<Rightarrow>
        (if of_char c = (0xC2 :: nat) \<and> (of_char d = (0x85 :: nat) \<or> of_char d = (0xA0 :: nat)) then 2
         else case r' of [] \<Rightarrow> 0
         | e # _ \<Rightarrow> (if space_seq3 (of_char c) (of_char d) (of_char e) then 3 else 0)))"

fun space_len_rev :: "string \<Rightarrow> nat" where
  "space_len_rev [] = 0"
| "space_len_rev (c # r) =
     (if ascii_space (of_char c) then 1
      else case r of [] \<Rightarrow> 0
      | d # r' \<Rightarrow>
        (if of_char d = (0xC2 :: nat) \<and> (of_char c = (0x85 :: nat) \<or> of_char c = (0xA0 :: nat)) then 2
         else case r' of [] \<Rightarrow> 0
         | e # _ \<Rightarrow> (if space_seq3 (of_char e) (of_char d) (of_char c) then 3 else 0)))"

text \<open>\<open>strings.Fields\<close>: the runs of non-space runes.\<close>

definition emit_field :: "string \<Rightarrow> string list" where
  "emit_field cur = (if cur = [] then [] else [cur])"

fun fields_from :: "string \<Rightarrow> string \<Rightarrow> string list" where
  "fields_from cur [] = emit_field cur"
| "fields_from cur (c # s) =
     (let k = space_len (c # s) in
      if k = 0 then fields_from (cur @ [c]) s
      else emit_field cur @ fields_from [] (drop (k - 1) s))"

definition strings_Fields :: "string \<Rightarrow> string list" where
  "strings_Fields s = fields_from [] s"

text \<open>\<open>strings.TrimSpace\<close> and \<open>bytes.TrimSpace\<close>.\<close>

fun trim_left :: "string \<Rightarrow> string" where
  "trim_left [] = []"
| "trim_left (c # s) =
     (let k = space_len (c # s) in if k = 0 then c # s else trim_left (drop (k - 1) s))"

fun trim_left_rev :: "string \<Rightarrow> string" where
  "trim_left_rev [] = []"
| "trim_left_rev (c # s) =
     (let k = space_len_rev (c # s) in if k = 0 then c # s else trim_left_rev (drop (k - 1) s))"

definition strings_TrimSpace :: "string \<Rightarrow> string" where
  "strings_TrimSpace s = rev (trim_left_rev (rev (trim_left s)))"

text \<open>
  A token: characters that neither are white space nor start a white-space encoding. A run of
  them is one field, and is left as it is by trimming.
\<close>

definition token_char :: "char \<Rightarrow> bool" where
  "token_char c \<longleftrightarrow> \<not> ascii_space (of_char c) \<and> of_char c < (0x80 :: nat)"

lemma space_len_token [simp]: "token_char c \<Longrightarrow> space_len (c # s) = 0"
  by (auto simp: space_len.simps token_char_def space_seq3_def split: list.splits)

lemma space_len_rev_token [simp]: "token_char c \<Longrightarrow> space_len_rev (c # s) = 0"
  by (auto simp: space_len_rev.simps token_char_def space_seq3_def split: list.splits)

declare space_len.simps [simp del] space_len_rev.simps [simp del]

lemma fields_from_token:
  "list_all token_char a \<Longrightarrow> fields_from cur (a @ s) = fields_from (cur @ a) s"
  by (induction a arbitrary: cur) auto

lemma space_len_blank [simp]: "space_len (CHR '' '' # s) = 1"
  by (simp add: ascii_space_def space_len.simps)

lemma fields_from_blank [simp]:
  "fields_from cur (CHR '' '' # s) = emit_field cur @ fields_from [] s"
  by simp

lemma strings_Fields_2:
  assumes "list_all token_char a" "a \<noteq> []" "list_all token_char b" "b \<noteq> []"
  shows "strings_Fields (a @ CHR '' '' # b) = [a, b]"
  using assms fields_from_token [of b "[]" "[]"]
  by (simp add: strings_Fields_def fields_from_token emit_field_def)

lemma strings_Fields_3:
  assumes "list_all token_char a" "a \<noteq> []" "list_all token_char b" "b \<noteq> []"
    and "list_all token_char c" "c \<noteq> []"
  shows "strings_Fields (a @ CHR '' '' # b @ CHR '' '' # c) = [a, b, c]"
  using assms fields_from_token [of c "[]" "[]"]
  by (simp add: strings_Fields_def fields_from_token emit_field_def)

lemma trim_left_token [simp]: "token_char c \<Longrightarrow> trim_left (c # s) = c # s"
  by simp

lemma trim_left_rev_token [simp]: "token_char c \<Longrightarrow> trim_left_rev (c # s) = c # s"
  by simp

lemma TrimSpace_tokens: "list_all token_char s \<Longrightarrow> strings_TrimSpace s = s"
proof (cases s rule: rev_cases)
  case Nil
  then show ?thesis by (simp add: strings_TrimSpace_def)
next
  case (snoc t c)
  assume tok: "list_all token_char s"
  then have "trim_left s = s"
    by (cases s) (auto simp del: trim_left.simps(2))
  with snoc tok show ?thesis
    by (simp add: strings_TrimSpace_def del: trim_left.simps(2) trim_left_rev.simps(2))
qed

lemma trim_left_suffix: "\<exists>p. s = p @ trim_left s"
proof (induction s rule: trim_left.induct)
  case 1
  then show ?case by simp
next
  case (2 c s)
  show ?case
  proof (cases "space_len (c # s) = 0")
    case True
    then show ?thesis by simp
  next
    case False
    then obtain p where "drop (space_len (c # s) - 1) s = p @ trim_left (drop (space_len (c # s) - 1) s)"
      using 2 by blast
    then have "c # s = (c # take (space_len (c # s) - 1) s @ p) @ trim_left (c # s)"
      using False by (simp add: Let_def)
    then show ?thesis by blast
  qed
qed

lemma trim_left_idem: "trim_left (trim_left s) = trim_left s"
proof (induction s rule: trim_left.induct)
  case (2 c s)
  then show ?case by (auto simp: Let_def)
qed simp

section \<open>Case mapping, trimming of a character\<close>

definition ascii_lower :: "char \<Rightarrow> char" where
  "ascii_lower c =
     (if 65 \<le> (of_char c :: nat) \<and> of_char c \<le> (90 :: nat) then char_of (of_char c + 32 :: nat) else c)"

definition strings_ToLower :: "string \<Rightarrow> string" where
  "strings_ToLower = map ascii_lower"

text \<open>\<open>strings.Trim(s, cutset)\<close> for a cutset of one character.\<close>

definition strings_Trim :: "string \<Rightarrow> char \<Rightarrow> string" where
  "strings_Trim s c = rev (dropWhile (\<lambda>d. d = c) (rev (dropWhile (\<lambda>d. d = c) s)))"

definition strings_TrimPrefix :: "string \<Rightarrow> string \<Rightarrow> string" where
  "strings_TrimPrefix s p = (if strings_HasPrefix s p then drop (length p) s else s)"

definition strings_TrimSuffix :: "string \<Rightarrow> string \<Rightarrow> string" where
  "strings_TrimSuffix s p = (if strings_HasSuffix s p then take (length s - length p) s else s)"

lemma ascii_lower_idem [simp]: "ascii_lower (ascii_lower c) = ascii_lower c"
  by (simp add: ascii_lower_def)

lemma ToLower_idem [simp]: "strings_ToLower (strings_ToLower s) = strings_ToLower s"
  by (simp add: strings_ToLower_def)

lemma length_ToLower [simp, len_simps]: "length (strings_ToLower s) = length s"
  by (simp add: strings_ToLower_def)

lemma ToLower_eq_Nil [simp]: "strings_ToLower s = [] \<longleftrightarrow> s = []"
  by (simp add: strings_ToLower_def)

section \<open>Numbers\<close>

definition digit_char :: "nat \<Rightarrow> char" where
  "digit_char d = char_of (48 + d)"

fun digits10 :: "nat \<Rightarrow> string" where
  "digits10 n = (if n < 10 then [digit_char n] else digits10 (n div 10) @ [digit_char (n mod 10)])"

declare digits10.simps [simp del]

text \<open>\<open>strconv.Itoa\<close>.\<close>

definition strconv_Itoa :: "int \<Rightarrow> string" where
  "strconv_Itoa i = (if i < 0 then CHR ''-'' # digits10 (nat (- i)) else digits10 (nat i))"

text \<open>
  \<open>strconv.Atoi\<close>: the value returned and whether the error is nil. A syntax error gives 0, a
  number out of range gives the nearest 64-bit integer; the unsigned reader stops at the first
  digit that overflows, before it looks at what follows.
\<close>

datatype parse_uint_result = UintOk nat | UintSyntax | UintRange

fun parse_uint_loop :: "nat \<Rightarrow> string \<Rightarrow> parse_uint_result" where
  "parse_uint_loop n [] = UintOk n"
| "parse_uint_loop n (c # cs) =
     (let d = of_char c :: nat in
      if d < 48 \<or> 57 < d then UintSyntax
      else if 1844674407370955162 \<le> n then UintRange
      else let n1 = n * 10 + (d - 48) in
        if 18446744073709551616 \<le> n1 then UintRange else parse_uint_loop n1 cs)"

definition parse_uint :: "string \<Rightarrow> parse_uint_result" where
  "parse_uint s = (if s = [] then UintSyntax else parse_uint_loop 0 s)"

definition strconv_Atoi :: "string \<Rightarrow> int \<times> bool" where
  "strconv_Atoi s =
     (let neg = (case s of c # _ \<Rightarrow> c = CHR ''-'' | [] \<Rightarrow> False);
          body = (case s of c # r \<Rightarrow> (if c = CHR ''-'' \<or> c = CHR ''+'' then r else s) | [] \<Rightarrow> []);
          top = 9223372036854775808 :: nat
      in case parse_uint body of
           UintSyntax \<Rightarrow> (0, False)
         | UintRange \<Rightarrow> (if neg then - int top else int top - 1, False)
         | UintOk n \<Rightarrow>
             (if neg then (if top < n then (- int top, False) else (- int n, True))
              else (if top \<le> n then (int top - 1, False) else (int n, True))))"

text \<open>\<open>fmt.Sprintf("%02d", n)\<close> for \<open>n \<ge> 0\<close>, \<open>"%04x"\<close> of a \<open>uint16\<close>, and \<open>hex.EncodeToString\<close>.\<close>

definition fmt_02d :: "nat \<Rightarrow> string" where
  "fmt_02d n = (if n < 10 then CHR ''0'' # digits10 n else digits10 n)"

definition hex_digit :: "nat \<Rightarrow> char" where
  "hex_digit d = (if d < 10 then char_of (48 + d) else char_of (87 + d))"

definition fmt_04x :: "u16 \<Rightarrow> string" where
  "fmt_04x w = (let n = unat w in
     [hex_digit (n div 4096), hex_digit (n div 256 mod 16), hex_digit (n div 16 mod 16), hex_digit (n mod 16)])"

definition hex_EncodeToString :: "bytes \<Rightarrow> string" where
  "hex_EncodeToString bs =
     concat (map (\<lambda>b. [hex_digit (unat b div 16), hex_digit (unat b mod 16)]) bs)"

lemma length_fmt_04x [simp, len_simps]: "length (fmt_04x w) = 4"
  by (simp add: fmt_04x_def Let_def)

lemma length_hex_EncodeToString [simp, len_simps]:
  "length (hex_EncodeToString bs) = 2 * length bs"
  by (induction bs) (auto simp: hex_EncodeToString_def)

lemma digits10_nonempty [simp]: "digits10 n \<noteq> []"
  by (subst digits10.simps) simp

lemma length_fmt_02d: "n < 100 \<Longrightarrow> length (fmt_02d n) = 2"
  by (auto simp: fmt_02d_def digits10.simps [of n] digits10.simps [of "n div 10"])

end
