(* ===== verification/ByteBuffer.thy ===== *)
theory ByteBuffer
  imports GoStrings
begin

text \<open>
  \<open>analyzer/utils/bytebuffer.go\<close>: the byte buffer that every TCP analyzer appends reassembled
  data to and reads protocol fields from. A method that reads returns its result, \<open>None\<close> for
  \<open>ok = false\<close>, and the buffer it leaves. The slices it hands out share the buffer's array, which
  no reader writes to and \<open>Append\<close> only extends behind them, so values are enough.

  The lemmas say what each read consumes: a read that fails leaves the buffer as it was, a read
  that consumes leaves exactly the rest. The locale \<open>stream_reader\<close> states the contract the
  parsers rely on, reading from a growing buffer: bytes that arrive later never change what a
  successful read returned.
\<close>

record ByteBuffer =
  Buf :: bytes

definition ByteBuffer_Append :: "ByteBuffer \<Rightarrow> bytes \<Rightarrow> ByteBuffer" where
  "ByteBuffer_Append b data = b\<lparr>Buf := Buf b @ data\<rparr>"

definition ByteBuffer_Len :: "ByteBuffer \<Rightarrow> nat" where
  "ByteBuffer_Len b = length (Buf b)"

definition ByteBuffer_Index :: "ByteBuffer \<Rightarrow> bytes \<Rightarrow> nat option" where
  "ByteBuffer_Index b sep = bytes_Index (Buf b) sep"

definition ByteBuffer_Get :: "ByteBuffer \<Rightarrow> nat \<Rightarrow> bool \<Rightarrow> bytes option \<times> ByteBuffer" where
  "ByteBuffer_Get b n consume =
     (if length (Buf b) < n then (None, b)
      else (Some (take n (Buf b)), if consume then b\<lparr>Buf := drop n (Buf b)\<rparr> else b))"

definition ByteBuffer_GetString :: "ByteBuffer \<Rightarrow> nat \<Rightarrow> bool \<Rightarrow> string option \<times> ByteBuffer" where
  "ByteBuffer_GetString b n consume =
     (case ByteBuffer_Get b n consume of
        (None, b') \<Rightarrow> (None, b')
      | (Some data, b') \<Rightarrow> (Some (go_string data), b'))"

definition ByteBuffer_GetByte :: "ByteBuffer \<Rightarrow> bool \<Rightarrow> byte option \<times> ByteBuffer" where
  "ByteBuffer_GetByte b consume =
     (case ByteBuffer_Get b 1 consume of
        (None, b') \<Rightarrow> (None, b')
      | (Some data, b') \<Rightarrow> (Some (data ! 0), b'))"

definition ByteBuffer_GetUint16 :: "ByteBuffer \<Rightarrow> bool \<Rightarrow> bool \<Rightarrow> u16 option \<times> ByteBuffer" where
  "ByteBuffer_GetUint16 b littleEndian consume =
     (case ByteBuffer_Get b 2 consume of
        (None, b') \<Rightarrow> (None, b')
      | (Some data, b') \<Rightarrow>
          (if littleEndian then (Some (le_u16 (data ! 0) (data ! 1)), b')
           else (Some (be_u16 (data ! 0) (data ! 1)), b')))"

definition ByteBuffer_GetUint32 :: "ByteBuffer \<Rightarrow> bool \<Rightarrow> bool \<Rightarrow> u32 option \<times> ByteBuffer" where
  "ByteBuffer_GetUint32 b littleEndian consume =
     (case ByteBuffer_Get b 4 consume of
        (None, b') \<Rightarrow> (None, b')
      | (Some data, b') \<Rightarrow>
          (if littleEndian then (Some (le_u32 (data ! 0) (data ! 1) (data ! 2) (data ! 3)), b')
           else (Some (be_u32 (data ! 0) (data ! 1) (data ! 2) (data ! 3)), b')))"

definition ByteBuffer_GetUntil ::
    "ByteBuffer \<Rightarrow> bytes \<Rightarrow> bool \<Rightarrow> bool \<Rightarrow> bytes option \<times> ByteBuffer" where
  "ByteBuffer_GetUntil b sep includeSep consume =
     (case ByteBuffer_Index b sep of
        None \<Rightarrow> (None, b)
      | Some i \<Rightarrow> ByteBuffer_Get b (if includeSep then i + length sep else i) consume)"

definition ByteBuffer_GetSubBuffer ::
    "ByteBuffer \<Rightarrow> nat \<Rightarrow> bool \<Rightarrow> ByteBuffer option \<times> ByteBuffer" where
  "ByteBuffer_GetSubBuffer b n consume =
     (case ByteBuffer_Get b n consume of
        (None, b') \<Rightarrow> (None, b')
      | (Some data, b') \<Rightarrow> (Some \<lparr>Buf = data\<rparr>, b'))"

definition ByteBuffer_Skip :: "ByteBuffer \<Rightarrow> nat \<Rightarrow> bool \<times> ByteBuffer" where
  "ByteBuffer_Skip b n =
     (if length (Buf b) < n then (False, b) else (True, b\<lparr>Buf := drop n (Buf b)\<rparr>))"

definition ByteBuffer_Reset :: "ByteBuffer \<Rightarrow> ByteBuffer" where
  "ByteBuffer_Reset b = b\<lparr>Buf := []\<rparr>"

section \<open>What a read returns and leaves\<close>

lemmas buffer_defs =
  ByteBuffer_GetString_def ByteBuffer_GetByte_def ByteBuffer_GetUint16_def
  ByteBuffer_GetUint32_def ByteBuffer_GetSubBuffer_def ByteBuffer_Get_def

text \<open>Failure is a short buffer, and it changes nothing.\<close>

lemma Get_None_iff [simp]: "ByteBuffer_Get b n c = (None, b') \<longleftrightarrow> length (Buf b) < n \<and> b' = b"
  by (auto simp: ByteBuffer_Get_def)

lemma Get_Some_iff:
  "ByteBuffer_Get b n c = (Some d, b') \<longleftrightarrow>
     n \<le> length (Buf b) \<and> d = take n (Buf b) \<and> b' = (if c then b\<lparr>Buf := drop n (Buf b)\<rparr> else b)"
  by (auto simp: ByteBuffer_Get_def)

lemma GetByte_None_iff [simp]: "ByteBuffer_GetByte b c = (None, b') \<longleftrightarrow> Buf b = [] \<and> b' = b"
  by (auto simp: buffer_defs)

lemma GetByte_Some_iff:
  "ByteBuffer_GetByte b c = (Some x, b') \<longleftrightarrow>
     (\<exists>r. Buf b = x # r \<and> b' = (if c then b\<lparr>Buf := r\<rparr> else b))"
  by (cases "Buf b") (auto simp: buffer_defs)

lemma GetUint16_None_iff [simp]:
  "ByteBuffer_GetUint16 b le c = (None, b') \<longleftrightarrow> length (Buf b) < 2 \<and> b' = b"
  by (auto simp: buffer_defs split: if_splits)

lemma GetUint16_Some_iff:
  "ByteBuffer_GetUint16 b le c = (Some x, b') \<longleftrightarrow>
     (\<exists>x0 x1 r. Buf b = x0 # x1 # r \<and> x = (if le then le_u16 x0 x1 else be_u16 x0 x1)
        \<and> b' = (if c then b\<lparr>Buf := r\<rparr> else b))"
  by (cases "Buf b"; cases "tl (Buf b)") (auto simp: buffer_defs)

lemma GetSubBuffer_None_iff [simp]:
  "ByteBuffer_GetSubBuffer b n c = (None, b') \<longleftrightarrow> length (Buf b) < n \<and> b' = b"
  by (auto simp: buffer_defs)

lemma GetSubBuffer_Some_iff:
  "ByteBuffer_GetSubBuffer b n c = (Some s, b') \<longleftrightarrow>
     n \<le> length (Buf b) \<and> s = \<lparr>Buf = take n (Buf b)\<rparr>
       \<and> b' = (if c then b\<lparr>Buf := drop n (Buf b)\<rparr> else b)"
  by (auto simp: buffer_defs)

lemma GetString_None_iff [simp]:
  "ByteBuffer_GetString b n c = (None, b') \<longleftrightarrow> length (Buf b) < n \<and> b' = b"
  by (auto simp: buffer_defs)

lemma GetString_Some_iff:
  "ByteBuffer_GetString b n c = (Some s, b') \<longleftrightarrow>
     n \<le> length (Buf b) \<and> s = go_string (take n (Buf b))
       \<and> b' = (if c then b\<lparr>Buf := drop n (Buf b)\<rparr> else b)"
  by (auto simp: buffer_defs)

lemma Skip_iff:
  "ByteBuffer_Skip b n = (ok, b') \<longleftrightarrow>
     (if n \<le> length (Buf b) then ok \<and> b' = b\<lparr>Buf := drop n (Buf b)\<rparr> else \<not> ok \<and> b' = b)"
  by (auto simp: ByteBuffer_Skip_def)

lemma GetUntil_None_iff:
  "ByteBuffer_GetUntil b sep i c = (None, b') \<longleftrightarrow> bytes_Index (Buf b) sep = None \<and> b' = b"
  by (auto simp: ByteBuffer_GetUntil_def ByteBuffer_Index_def split: option.splits
      dest: bytes_Index_bound)

lemma GetUntil_Some_iff:
  "ByteBuffer_GetUntil b sep True True = (Some d, b') \<longleftrightarrow>
     (\<exists>i. bytes_Index (Buf b) sep = Some i \<and> d = take i (Buf b) @ sep
        \<and> b' = b\<lparr>Buf := drop (i + length sep) (Buf b)\<rparr>)"
proof -
  have "take (i + length sep) (Buf b) = take i (Buf b) @ sep"
    if "bytes_Index (Buf b) sep = Some i" for i
    using bytes_Index_Some_prefix [OF that] by (simp add: take_add strings_HasPrefix_def)
  then show ?thesis
    by (auto simp: ByteBuffer_GetUntil_def ByteBuffer_Index_def Get_Some_iff split: option.splits
        dest: bytes_Index_bound)
qed

lemma GetUntil_not_longer [len_simps]:
  "ByteBuffer_GetUntil b sep True True = (Some d, b') \<Longrightarrow>
     length (Buf b') + length sep \<le> length (Buf b)"
  by (auto simp: GetUntil_Some_iff dest: bytes_Index_bound)

lemma Buf_Append [simp]: "Buf (ByteBuffer_Append b data) = Buf b @ data"
  by (simp add: ByteBuffer_Append_def)

lemma Buf_Reset [simp]: "Buf (ByteBuffer_Reset b) = []"
  by (simp add: ByteBuffer_Reset_def)

section \<open>Reading from a growing buffer\<close>

text \<open>
  The contract of a consuming read \<open>rd\<close>: failing changes nothing, succeeding never makes the
  buffer longer, and appending data commutes with a successful read.
\<close>

locale stream_reader =
  fixes rd :: "ByteBuffer \<Rightarrow> 'r option \<times> ByteBuffer"
  assumes fail_keeps: "rd b = (None, b') \<Longrightarrow> b' = b"
    and not_longer: "rd b = (Some r, b') \<Longrightarrow> length (Buf b') \<le> length (Buf b)"
    and append_commutes:
      "rd b = (Some r, b') \<Longrightarrow> rd (ByteBuffer_Append b d) = (Some r, ByteBuffer_Append b' d)"
begin

text \<open>
  Reading twice from a buffer fed in two pieces gives what reading the whole at once gives: a
  value read early is final.
\<close>

lemma read_final:
  assumes "rd b = (Some r, b')" and "rd (ByteBuffer_Append b d) = (r', b'')"
  shows "r' = Some r \<and> b'' = ByteBuffer_Append b' d"
  using append_commutes [OF assms(1), of d] assms(2) by simp

lemma not_longer_any: "rd b = (r, b') \<Longrightarrow> length (Buf b') \<le> length (Buf b)"
  by (cases r) (auto dest: fail_keeps not_longer)

end

lemma record_append_eq: "ByteBuffer_Append b d = b\<lparr>Buf := Buf b @ d\<rparr>"
  by (simp add: ByteBuffer_Append_def)

interpretation rd_get: stream_reader "\<lambda>b. ByteBuffer_Get b n True"
  by unfold_locales (auto simp: Get_Some_iff record_append_eq)

interpretation rd_byte: stream_reader "\<lambda>b. ByteBuffer_GetByte b True"
  by unfold_locales (auto simp: GetByte_Some_iff record_append_eq)

interpretation rd_u16: stream_reader "\<lambda>b. ByteBuffer_GetUint16 b le True"
  by unfold_locales (cases le; auto simp: GetUint16_Some_iff record_append_eq)+

interpretation rd_sub: stream_reader "\<lambda>b. ByteBuffer_GetSubBuffer b n True"
  by unfold_locales (auto simp: GetSubBuffer_Some_iff record_append_eq)

lemma bytes_Index_append:
  "bytes_Index xs sep = Some i \<Longrightarrow> bytes_Index (xs @ ys) sep = Some i"
proof (induction xs arbitrary: i)
  case Nil
  then show ?case by (cases ys) (auto simp: strings_HasPrefix_def split: if_splits)
next
  case (Cons x xs)
  have pre: "strings_HasPrefix (x # xs @ ys) sep"
    if "strings_HasPrefix (x # xs) sep"
    using that by (metis HasPrefix_conv append.assoc append_Cons)
  show ?case
  proof (cases "strings_HasPrefix (x # xs) sep")
    case True
    with Cons.prems pre show ?thesis by simp
  next
    case False
    with Cons.prems obtain j where j: "bytes_Index xs sep = Some j" "i = Suc j"
      by auto
    then have "j + length sep \<le> length xs"
      by (auto dest: bytes_Index_bound)
    with False have "\<not> strings_HasPrefix (x # xs @ ys) sep"
      by (auto simp: strings_HasPrefix_def take_Cons' split: if_splits)
    with j Cons.IH show ?thesis by simp
  qed
qed

interpretation rd_until: stream_reader "\<lambda>b. ByteBuffer_GetUntil b sep True True"
proof
  fix b b' r d
  assume *: "ByteBuffer_GetUntil b sep True True = (Some r, b')"
  then show "length (Buf b') \<le> length (Buf b)"
    by (auto dest: GetUntil_not_longer)
  from * obtain i where i: "bytes_Index (Buf b) sep = Some i" "r = take i (Buf b) @ sep"
      "b' = b\<lparr>Buf := drop (i + length sep) (Buf b)\<rparr>"
    by (auto simp: GetUntil_Some_iff)
  moreover from i(1) have "i + length sep \<le> length (Buf b)"
    by (rule bytes_Index_bound)
  ultimately show "ByteBuffer_GetUntil (ByteBuffer_Append b d) sep True True =
      (Some r, ByteBuffer_Append b' d)"
    by (auto simp: GetUntil_Some_iff bytes_Index_append record_append_eq)
qed (auto simp: GetUntil_None_iff)

end
