(* ===== verification/LSM.thy ===== *)
theory LSM
  imports Prelude
begin

text \<open>
  \<open>analyzer/utils/lsm.go\<close>: the linear state machine that drives the TCP parsers and the DNS
  parser. Its steps are closures over the stream in the source; here they are identifiers of a
  type \<open>'step\<close>, and \<open>exec\<close> runs one on the stream's state \<open>'s\<close>, in which the machine itself lies
  (\<open>get\<close> reads it, \<open>upd\<close> updates it). A step that panics is \<open>None\<close>.

  \<open>LinearStateMachine_Run\<close> loops while steps ask for it, so it is a partial function: its
  outer \<open>None\<close> is a run that does not return, \<open>Some None\<close> one that panics. The locales
  \<open>lsm_machine\<close>, \<open>lsm_terminating\<close> and \<open>lsm_safe\<close> state what the steps must do for \<open>Run\<close> to return,
  and prove once that it does and what it leaves.
\<close>

datatype LSMAction = LSMActionPause | LSMActionNext | LSMActionReset | LSMActionCancel

record 'step LinearStateMachine =
  Steps :: "'step list"
  lsm_index :: nat
  lsm_cancelled :: bool

definition NewLinearStateMachine :: "'step list \<Rightarrow> 'step LinearStateMachine" where
  "NewLinearStateMachine steps = \<lparr>Steps = steps, lsm_index = 0, lsm_cancelled = False\<rparr>"

definition LinearStateMachine_AppendSteps ::
    "'step list \<Rightarrow> 'step LinearStateMachine \<Rightarrow> 'step LinearStateMachine" where
  "LinearStateMachine_AppendSteps steps lsm = lsm\<lparr>Steps := Steps lsm @ steps\<rparr>"

definition LinearStateMachine_Reset :: "'step LinearStateMachine \<Rightarrow> 'step LinearStateMachine" where
  "LinearStateMachine_Reset lsm = lsm\<lparr>lsm_index := 0, lsm_cancelled := False\<rparr>"

abbreviation lsm_next :: "'step LinearStateMachine \<Rightarrow> 'step LinearStateMachine" where
  "lsm_next lsm \<equiv> lsm\<lparr>lsm_index := lsm_index lsm + 1\<rparr>"

abbreviation lsm_rewind :: "'step LinearStateMachine \<Rightarrow> 'step LinearStateMachine" where
  "lsm_rewind lsm \<equiv> lsm\<lparr>lsm_index := 0\<rparr>"

abbreviation lsm_cancel :: "'step LinearStateMachine \<Rightarrow> 'step LinearStateMachine" where
  "lsm_cancel lsm \<equiv> lsm\<lparr>lsm_cancelled := True\<rparr>"

text \<open>The result of a run: \<open>(cancelled, done)\<close> and the stream it leaves.\<close>

partial_function (option) LinearStateMachine_loop ::
    "('step \<Rightarrow> 's \<Rightarrow> (LSMAction \<times> 's) go) \<Rightarrow> ('s \<Rightarrow> 'step LinearStateMachine) \<Rightarrow>
     (('step LinearStateMachine \<Rightarrow> 'step LinearStateMachine) \<Rightarrow> 's \<Rightarrow> 's) \<Rightarrow> 's \<Rightarrow>
     ((bool \<times> bool) \<times> 's) go option" where
  "LinearStateMachine_loop exec get upd s =
     (if lsm_index (get s) < length (Steps (get s)) then
        (case exec (Steps (get s) ! lsm_index (get s)) s of
           None \<Rightarrow> Some None
         | Some (a, s') \<Rightarrow>
             (case a of
                LSMActionPause \<Rightarrow> Some (Some ((False, False), s'))
              | LSMActionNext \<Rightarrow> LinearStateMachine_loop exec get upd (upd lsm_next s')
              | LSMActionReset \<Rightarrow> LinearStateMachine_loop exec get upd (upd lsm_rewind s')
              | LSMActionCancel \<Rightarrow> Some (Some ((True, True), upd lsm_cancel s'))))
      else Some (Some ((False, True), s)))"

definition LinearStateMachine_Run ::
    "('step \<Rightarrow> 's \<Rightarrow> (LSMAction \<times> 's) go) \<Rightarrow> ('s \<Rightarrow> 'step LinearStateMachine) \<Rightarrow>
     (('step LinearStateMachine \<Rightarrow> 'step LinearStateMachine) \<Rightarrow> 's \<Rightarrow> 's) \<Rightarrow> 's \<Rightarrow>
     ((bool \<times> bool) \<times> 's) go option" where
  "LinearStateMachine_Run exec get upd s =
     (if length (Steps (get s)) \<le> lsm_index (get s)
      then Some (Some ((lsm_cancelled (get s), True), s))
      else LinearStateMachine_loop exec get upd s)"

text \<open>One step of the loop, by the action the step returns.\<close>

lemma loop_Next:
  "\<lbrakk>lsm_index (get s) < length (Steps (get s));
    exec (Steps (get s) ! lsm_index (get s)) s = Some (LSMActionNext, s')\<rbrakk>
   \<Longrightarrow> LinearStateMachine_loop exec get upd s = LinearStateMachine_loop exec get upd (upd lsm_next s')"
  by (subst LinearStateMachine_loop.simps) simp

lemma loop_Pause:
  "\<lbrakk>lsm_index (get s) < length (Steps (get s));
    exec (Steps (get s) ! lsm_index (get s)) s = Some (LSMActionPause, s')\<rbrakk>
   \<Longrightarrow> LinearStateMachine_loop exec get upd s = Some (Some ((False, False), s'))"
  by (subst LinearStateMachine_loop.simps) simp

lemma loop_Cancel:
  "\<lbrakk>lsm_index (get s) < length (Steps (get s));
    exec (Steps (get s) ! lsm_index (get s)) s = Some (LSMActionCancel, s')\<rbrakk>
   \<Longrightarrow> LinearStateMachine_loop exec get upd s = Some (Some ((True, True), upd lsm_cancel s'))"
  by (subst LinearStateMachine_loop.simps) simp

lemma loop_end:
  "length (Steps (get s)) \<le> lsm_index (get s)
   \<Longrightarrow> LinearStateMachine_loop exec get upd s = Some (Some ((False, True), s))"
  by (subst LinearStateMachine_loop.simps) simp

lemma run_loop:
  "lsm_index (get s) < length (Steps (get s)) \<Longrightarrow>
     LinearStateMachine_Run exec get upd s = LinearStateMachine_loop exec get upd s"
  by (simp add: LinearStateMachine_Run_def)

section \<open>Machines whose runs end\<close>

locale lsm_machine =
  fixes exec :: "'step \<Rightarrow> 's \<Rightarrow> (LSMAction \<times> 's) go"
    and get :: "'s \<Rightarrow> 'step LinearStateMachine"
    and upd :: "('step LinearStateMachine \<Rightarrow> 'step LinearStateMachine) \<Rightarrow> 's \<Rightarrow> 's"
    and inv :: "'s \<Rightarrow> bool"
  assumes get_upd [simp]: "get (upd f s) = f (get s)"
    and inv_step:
      "\<lbrakk>inv s; lsm_index (get s) < length (Steps (get s));
        exec (Steps (get s) ! lsm_index (get s)) s = Some (a, s')\<rbrakk>
       \<Longrightarrow> inv (case a of LSMActionPause \<Rightarrow> s' | LSMActionNext \<Rightarrow> upd lsm_next s'
                 | LSMActionReset \<Rightarrow> upd lsm_rewind s' | LSMActionCancel \<Rightarrow> upd lsm_cancel s')"

locale lsm_terminating = lsm_machine +
  fixes rank :: "'s \<Rightarrow> nat"
  assumes rank_next:
      "\<lbrakk>inv s; lsm_index (get s) < length (Steps (get s));
        exec (Steps (get s) ! lsm_index (get s)) s = Some (LSMActionNext, s')\<rbrakk>
       \<Longrightarrow> rank (upd lsm_next s') < rank s"
    and rank_reset:
      "\<lbrakk>inv s; lsm_index (get s) < length (Steps (get s));
        exec (Steps (get s) ! lsm_index (get s)) s = Some (LSMActionReset, s')\<rbrakk>
       \<Longrightarrow> rank (upd lsm_rewind s') < rank s"
begin

text \<open>A run from a state of the invariant returns or panics, and keeps the invariant.\<close>

lemma loop_returns:
  "inv s \<Longrightarrow> \<exists>r. LinearStateMachine_loop exec get upd s = Some r
                 \<and> (\<forall>c d s'. r = Some ((c, d), s') \<longrightarrow> inv s' \<and> (c \<longrightarrow> d))"
proof (induction "rank s" arbitrary: s rule: less_induct)
  case less
  show ?case
  proof (cases "lsm_index (get s) < length (Steps (get s))")
    case False
    with less.prems show ?thesis
      by (simp add: LinearStateMachine_loop.simps)
  next
    case idx: True
    show ?thesis
    proof (cases "exec (Steps (get s) ! lsm_index (get s)) s")
      case None
      with idx show ?thesis
        by (simp add: LinearStateMachine_loop.simps)
    next
      case (Some as)
      obtain a s' where [simp]: "as = (a, s')" by fastforce
      note ex = Some [simplified]
      note keep = inv_step [OF less.prems idx ex]
      show ?thesis
      proof (cases a)
        case LSMActionNext
        with less.hyps [OF rank_next, OF less.prems idx, of s'] ex keep idx show ?thesis
          by (simp add: LinearStateMachine_loop.simps [of exec get upd s])
      next
        case LSMActionReset
        with less.hyps [OF rank_reset, OF less.prems idx, of s'] ex keep idx show ?thesis
          by (simp add: LinearStateMachine_loop.simps [of exec get upd s])
      qed (use ex keep idx in \<open>simp_all add: LinearStateMachine_loop.simps [of exec get upd s]\<close>)
    qed
  qed
qed

lemma run_returns:
  "inv s \<Longrightarrow> \<exists>r. LinearStateMachine_Run exec get upd s = Some r
                 \<and> (\<forall>c d s'. r = Some ((c, d), s') \<longrightarrow> inv s' \<and> (c \<longrightarrow> d))"
  using loop_returns by (simp add: LinearStateMachine_Run_def)

text \<open>A panic is a panic of a step, in a state of the invariant.\<close>

lemma loop_panic:
  "\<lbrakk>inv s; LinearStateMachine_loop exec get upd s = Some None\<rbrakk> \<Longrightarrow>
     \<exists>t. inv t \<and> lsm_index (get t) < length (Steps (get t)) \<and> exec (Steps (get t) ! lsm_index (get t)) t = None"
proof (induction "rank s" arbitrary: s rule: less_induct)
  case less
  have idx: "lsm_index (get s) < length (Steps (get s))"
    using less.prems(2) by (subst (asm) LinearStateMachine_loop.simps) (auto split: if_splits)
  show ?case
  proof (cases "exec (Steps (get s) ! lsm_index (get s)) s")
    case None
    with less.prems idx show ?thesis by blast
  next
    case (Some as)
    obtain a s' where ex: "exec (Steps (get s) ! lsm_index (get s)) s = Some (a, s')"
      using Some by (cases as) auto
    note keep = inv_step [OF less.prems(1) idx ex]
    show ?thesis
    proof (cases a)
      case LSMActionNext
      with less.hyps [OF rank_next, OF less.prems(1) idx, of s'] ex keep less.prems(2) idx show ?thesis
        by (simp add: LinearStateMachine_loop.simps [of exec get upd s])
    next
      case LSMActionReset
      with less.hyps [OF rank_reset, OF less.prems(1) idx, of s'] ex keep less.prems(2) idx show ?thesis
        by (simp add: LinearStateMachine_loop.simps [of exec get upd s])
    qed (use ex less.prems(2) idx in \<open>simp_all add: LinearStateMachine_loop.simps [of exec get upd s]\<close>)
  qed
qed

lemma run_panic:
  "\<lbrakk>inv s; LinearStateMachine_Run exec get upd s = Some None\<rbrakk> \<Longrightarrow>
     \<exists>t. inv t \<and> lsm_index (get t) < length (Steps (get t)) \<and> exec (Steps (get t) ! lsm_index (get t)) t = None"
  using loop_panic by (auto simp: LinearStateMachine_Run_def split: if_splits)

lemma run_inv:
  "\<lbrakk>LinearStateMachine_Run exec get upd s = Some (Some ((c, d), s')); inv s\<rbrakk> \<Longrightarrow> inv s' \<and> (c \<longrightarrow> d)"
  using run_returns by fastforce

end

locale lsm_safe = lsm_terminating +
  assumes no_panic:
      "\<lbrakk>inv s; lsm_index (get s) < length (Steps (get s))\<rbrakk>
       \<Longrightarrow> exec (Steps (get s) ! lsm_index (get s)) s \<noteq> None"
begin

lemma loop_no_panic: "inv s \<Longrightarrow> LinearStateMachine_loop exec get upd s \<noteq> Some None"
proof (induction "rank s" arbitrary: s rule: less_induct)
  case less
  show ?case
  proof (cases "lsm_index (get s) < length (Steps (get s))")
    case False
    then show ?thesis
      by (simp add: LinearStateMachine_loop.simps)
  next
    case idx: True
    with no_panic [OF less.prems] obtain a s' where
      ex: "exec (Steps (get s) ! lsm_index (get s)) s = Some (a, s')"
      by auto
    note keep = inv_step [OF less.prems idx ex]
    show ?thesis
    proof (cases a)
      case LSMActionNext
      with less.hyps [OF rank_next, OF less.prems idx, of s'] ex keep idx show ?thesis
        by (simp add: LinearStateMachine_loop.simps [of exec get upd s])
    next
      case LSMActionReset
      with less.hyps [OF rank_reset, OF less.prems idx, of s'] ex keep idx show ?thesis
        by (simp add: LinearStateMachine_loop.simps [of exec get upd s])
    qed (use ex keep idx in \<open>simp_all add: LinearStateMachine_loop.simps [of exec get upd s]\<close>)
  qed
qed

text \<open>The form the parsers use: a run of a safe machine is a total function of its state.\<close>

lemma run_total:
  assumes "inv s"
  obtains c d s' where "LinearStateMachine_Run exec get upd s = Some (Some ((c, d), s'))"
    and "inv s'" and "c \<longrightarrow> d"
proof -
  from run_returns [OF assms] obtain r
    where r: "LinearStateMachine_Run exec get upd s = Some r"
      and keep: "\<And>c d s'. r = Some ((c, d), s') \<Longrightarrow> inv s' \<and> (c \<longrightarrow> d)"
    by blast
  from loop_no_panic [OF assms] r have "r \<noteq> None"
    by (auto simp: LinearStateMachine_Run_def split: if_splits)
  then obtain c d s' where "r = Some ((c, d), s')"
    by auto
  with r keep that show thesis
    by blast
qed

end

text \<open>
  Most machines never go back: every step from a state of the invariant advances, pauses or
  cancels, and leaves the machine itself to \<open>Run\<close>. Such a machine is safe.
\<close>

locale lsm_linear =
  fixes exec :: "'step \<Rightarrow> 's \<Rightarrow> (LSMAction \<times> 's) go"
    and get :: "'s \<Rightarrow> 'step LinearStateMachine"
    and upd :: "('step LinearStateMachine \<Rightarrow> 'step LinearStateMachine) \<Rightarrow> 's \<Rightarrow> 's"
    and inv :: "'s \<Rightarrow> bool"
  assumes linear_get_upd: "get (upd f s) = f (get s)"
    and linear_step:
      "\<lbrakk>inv s; lsm_index (get s) < length (Steps (get s))\<rbrakk> \<Longrightarrow>
       \<exists>a s'. exec (Steps (get s) ! lsm_index (get s)) s = Some (a, s')
         \<and> a \<noteq> LSMActionReset \<and> get s' = get s
         \<and> inv (if a = LSMActionNext then upd lsm_next s'
                else if a = LSMActionCancel then upd lsm_cancel s' else s')"

text \<open>The same obligation as a case analysis, which rewriting resolves faster.\<close>

lemma step_cases:
  "(\<exists>a s'. r = Some (a, s') \<and> P a s') \<longleftrightarrow> (case r of None \<Rightarrow> False | Some (a, s') \<Rightarrow> P a s')"
  by (auto split: option.split)

sublocale lsm_linear \<subseteq> lsm_safe exec get upd inv "\<lambda>s. length (Steps (get s)) - lsm_index (get s)"
proof unfold_locales
  fix s a s'
  assume "inv s" "lsm_index (get s) < length (Steps (get s))"
    "exec (Steps (get s) ! lsm_index (get s)) s = Some (a, s')"
  then show "inv (case a of LSMActionPause \<Rightarrow> s' | LSMActionNext \<Rightarrow> upd lsm_next s'
               | LSMActionReset \<Rightarrow> upd lsm_rewind s' | LSMActionCancel \<Rightarrow> upd lsm_cancel s')"
    using linear_step [of s] by (cases a) auto
next
  fix s s'
  assume *: "inv s" "lsm_index (get s) < length (Steps (get s))"
    "exec (Steps (get s) ! lsm_index (get s)) s = Some (LSMActionNext, s')"
  then have "get s' = get s"
    using linear_step [of s] by auto
  with *(2) show "length (Steps (get (upd lsm_next s'))) - lsm_index (get (upd lsm_next s'))
      < length (Steps (get s)) - lsm_index (get s)"
    by (simp add: linear_get_upd)
qed (fastforce simp: linear_get_upd dest: linear_step)+

section \<open>Induction over the steps of a run\<close>

text \<open>A property that every step keeps holds of the state a run leaves.\<close>

lemma loop_keeps:
  assumes step: "\<And>s a s'. \<lbrakk>P s; lsm_index (get s) < length (Steps (get s));
        exec (Steps (get s) ! lsm_index (get s)) s = Some (a, s')\<rbrakk>
       \<Longrightarrow> P (case a of LSMActionPause \<Rightarrow> s' | LSMActionNext \<Rightarrow> upd lsm_next s'
                 | LSMActionReset \<Rightarrow> upd lsm_rewind s' | LSMActionCancel \<Rightarrow> upd lsm_cancel s')"
    and run: "LinearStateMachine_loop exec get upd s = Some (Some (cd, s'))" and "P s"
  shows "P s'"
proof -
  have *: "e = exec \<longrightarrow> g = get \<longrightarrow> u = upd \<longrightarrow> P s \<longrightarrow> (\<forall>cd s'. r = Some (cd, s') \<longrightarrow> P s')"
    if "LinearStateMachine_loop e g u s = Some r" for e g u s r
    using that
  proof (rule LinearStateMachine_loop.raw_induct [rotated], goal_cases)
    case (1 loop e g u s r)
    show ?case
    proof (intro impI allI)
      fix cd s'
      assume eqs: "e = exec" "g = get" "u = upd" and "P s" and r: "r = Some (cd, s')"
      note 1(2) [unfolded eqs r]
      then show "P s'"
        using \<open>P s\<close> 1(1) [of exec get upd _ r] step [OF \<open>P s\<close>]
        by (auto simp: eqs r split: if_splits option.splits LSMAction.splits prod.splits)
    qed
  qed
  then show ?thesis
    using run \<open>P s\<close> by blast
qed

lemma run_keeps:
  assumes "\<And>s a s'. \<lbrakk>P s; lsm_index (get s) < length (Steps (get s));
        exec (Steps (get s) ! lsm_index (get s)) s = Some (a, s')\<rbrakk>
       \<Longrightarrow> P (case a of LSMActionPause \<Rightarrow> s' | LSMActionNext \<Rightarrow> upd lsm_next s'
                 | LSMActionReset \<Rightarrow> upd lsm_rewind s' | LSMActionCancel \<Rightarrow> upd lsm_cancel s')"
    and "LinearStateMachine_Run exec get upd s = Some (Some (cd, s'))" and "P s"
  shows "P s'"
  using loop_keeps [of P get exec upd s cd s'] assms
  by (auto simp: LinearStateMachine_Run_def split: if_splits)

section \<open>Machines on a growing buffer\<close>

text \<open>
  The steps of a parser read a buffer that grows between runs. \<open>app d\<close> appends \<open>d\<close> to it. A step
  that succeeds does the same when more data follows; a step that pauses changes nothing that it
  will look at once data has arrived. Then how the input is cut into chunks does not matter:
  running, appending and running again ends where appending first and running once does.
\<close>

locale lsm_stream =
  fixes exec :: "'step \<Rightarrow> 's \<Rightarrow> (LSMAction \<times> 's) go"
    and get :: "'s \<Rightarrow> 'step LinearStateMachine"
    and upd :: "('step LinearStateMachine \<Rightarrow> 'step LinearStateMachine) \<Rightarrow> 's \<Rightarrow> 's"
    and app :: "'d \<Rightarrow> 's \<Rightarrow> 's"
  assumes get_app: "get (app d s) = get s"
    and upd_app: "upd f (app d s) = app d (upd f s)"
    and exec_pause: "exec st s = Some (LSMActionPause, s') \<Longrightarrow>
          exec st (app d s') = exec st (app d s) \<and> get s' = get s"
    and exec_more: "\<lbrakk>exec st s = Some (a, s'); a \<noteq> LSMActionPause\<rbrakk> \<Longrightarrow>
          exec st (app d s) = Some (a, app d s')"
begin

lemma loop_chunk:
  assumes "LinearStateMachine_loop exec get upd s = Some (Some ((c, dn), s'))"
  shows "LinearStateMachine_loop exec get upd (app d s) =
           (if dn then Some (Some ((c, dn), app d s'))
            else LinearStateMachine_loop exec get upd (app d s'))"
proof -
  have *: "e = exec \<longrightarrow> g = get \<longrightarrow> u = upd \<longrightarrow> (\<forall>c dn s'. r = Some ((c, dn), s') \<longrightarrow>
      LinearStateMachine_loop exec get upd (app d s) =
        (if dn then Some (Some ((c, dn), app d s'))
         else LinearStateMachine_loop exec get upd (app d s')))"
    if "LinearStateMachine_loop e g u s = Some r" for e g u s r
    using that
  proof (rule LinearStateMachine_loop.raw_induct [rotated], goal_cases)
    case (1 loop e g u s r)
    show ?case
    proof (intro allI impI)
      fix c dn s'
      assume eqs: "e = exec" "g = get" "u = upd" and r: "r = Some ((c, dn), s')"
      note body = 1(2) [unfolded eqs r]
      show "LinearStateMachine_loop exec get upd (app d s) =
        (if dn then Some (Some ((c, dn), app d s'))
         else LinearStateMachine_loop exec get upd (app d s'))"
      proof (cases "lsm_index (get s) < length (Steps (get s))")
        case False
        with body show ?thesis
          by (subst LinearStateMachine_loop.simps) (auto simp: get_app)
      next
        case idx: True
        let ?st = "Steps (get s) ! lsm_index (get s)"
        from body idx obtain a s1 where ex: "exec ?st s = Some (a, s1)"
          by (auto split: option.splits)
        show ?thesis
        proof (cases a)
          case LSMActionPause
          with ex exec_pause [of ?st s s1 d] body idx show ?thesis
            by (subst (1 2) LinearStateMachine_loop.simps) (auto simp: get_app)
        next
          case LSMActionNext
          with ex body idx have "loop exec get upd (upd lsm_next s1) = Some (Some ((c, dn), s'))"
            by simp
          from 1(1) [OF this] ex LSMActionNext idx exec_more [OF ex, of d] show ?thesis
            by (subst LinearStateMachine_loop.simps) (simp add: get_app upd_app)
        next
          case LSMActionReset
          with ex body idx have "loop exec get upd (upd lsm_rewind s1) = Some (Some ((c, dn), s'))"
            by simp
          from 1(1) [OF this] ex LSMActionReset idx exec_more [OF ex, of d] show ?thesis
            by (subst LinearStateMachine_loop.simps) (simp add: get_app upd_app)
        next
          case LSMActionCancel
          with ex body idx exec_more [OF ex, of d] show ?thesis
            by (subst LinearStateMachine_loop.simps) (auto simp: get_app upd_app)
        qed
      qed
    qed
  qed
  from * [OF assms] show ?thesis by simp
qed

text \<open>A run that pauses stops before the end of its steps, so the next run resumes the loop.\<close>

lemma loop_paused_index:
  assumes "LinearStateMachine_loop exec get upd s = Some (Some ((c, False), s'))"
  shows "lsm_index (get s') < length (Steps (get s'))"
proof -
  have *: "e = exec \<longrightarrow> g = get \<longrightarrow> u = upd \<longrightarrow>
      (\<forall>c s'. r = Some ((c, False), s') \<longrightarrow> lsm_index (get s') < length (Steps (get s')))"
    if "LinearStateMachine_loop e g u s = Some r" for e g u s r
    using that
  proof (rule LinearStateMachine_loop.raw_induct [rotated], goal_cases)
    case (1 loop e g u s r)
    then show ?case
      by (fastforce split: if_splits option.splits LSMAction.splits prod.splits dest: exec_pause)
  qed
  from * [OF assms] show ?thesis by simp
qed

lemma run_chunk:
  assumes run: "LinearStateMachine_Run exec get upd s = Some (Some ((c, dn), s'))"
  shows "LinearStateMachine_Run exec get upd (app d s) =
           (if dn then Some (Some ((c, dn), app d s'))
            else LinearStateMachine_Run exec get upd (app d s'))"
proof (cases "length (Steps (get s)) \<le> lsm_index (get s)")
  case True
  with run show ?thesis
    by (auto simp: LinearStateMachine_Run_def get_app)
next
  case False
  with run have loop: "LinearStateMachine_loop exec get upd s = Some (Some ((c, dn), s'))"
    by (simp add: LinearStateMachine_Run_def)
  from loop_chunk [OF loop, of d] loop_paused_index [of s c s'] loop False show ?thesis
    by (auto simp: LinearStateMachine_Run_def get_app)
qed

end

section \<open>Framing\<close>

text \<open>
  Steps that do not read a part of the state: a change \<open>h\<close> of that part before a run can as well be
  made after it.
\<close>

locale lsm_frame =
  fixes exec :: "'step \<Rightarrow> 's \<Rightarrow> (LSMAction \<times> 's) go"
    and get :: "'s \<Rightarrow> 'step LinearStateMachine"
    and upd :: "('step LinearStateMachine \<Rightarrow> 'step LinearStateMachine) \<Rightarrow> 's \<Rightarrow> 's"
    and h :: "'s \<Rightarrow> 's"
  assumes get_h: "get (h s) = get s"
    and upd_h: "upd f (h s) = h (upd f s)"
    and exec_h: "exec st s = Some (a, s') \<Longrightarrow> exec st (h s) = Some (a, h s')"
begin

lemma loop_frame:
  assumes "LinearStateMachine_loop exec get upd s = Some (Some (cd, s'))"
  shows "LinearStateMachine_loop exec get upd (h s) = Some (Some (cd, h s'))"
proof -
  have *: "e = exec \<longrightarrow> g = get \<longrightarrow> u = upd \<longrightarrow> (\<forall>cd s'. r = Some (cd, s') \<longrightarrow>
      LinearStateMachine_loop exec get upd (h s) = Some (Some (cd, h s')))"
    if "LinearStateMachine_loop e g u s = Some r" for e g u s r
    using that
  proof (rule LinearStateMachine_loop.raw_induct [rotated], goal_cases)
    case (1 loop e g u s r)
    show ?case
    proof (intro allI impI)
      fix cd s'
      assume eqs: "e = exec" "g = get" "u = upd" and r: "r = Some (cd, s')"
      note body = 1(2) [unfolded eqs r]
      show "LinearStateMachine_loop exec get upd (h s) = Some (Some (cd, h s'))"
      proof (cases "lsm_index (get s) < length (Steps (get s))")
        case False
        with body show ?thesis
          by (subst LinearStateMachine_loop.simps) (auto simp: get_h)
      next
        case True
        with body obtain a s1 where ex: "exec (Steps (get s) ! lsm_index (get s)) s = Some (a, s1)"
          by (auto split: option.splits)
        with body True 1(1) [of exec get upd _ r] exec_h [OF ex] show ?thesis
          by (subst LinearStateMachine_loop.simps)
            (auto simp: get_h upd_h eqs r split: LSMAction.splits)
      qed
    qed
  qed
  from * [OF assms] show ?thesis by simp
qed

lemma run_frame:
  assumes "LinearStateMachine_Run exec get upd s = Some (Some (cd, s'))"
  shows "LinearStateMachine_Run exec get upd (h s) = Some (Some (cd, h s'))"
  using assms loop_frame by (auto simp: LinearStateMachine_Run_def get_h split: if_splits)

end

end
