(* ===== verification/Props.thy ===== *)
theory Props
  imports Complex_Main GoStrings
begin

text \<open>
  \<open>analyzer/interface.go\<close> and \<open>engine/utils.go\<close>: property maps, their lookup by a dotted key,
  and the update that merges what an analyzer found into the properties of a stream.

  An \<open>interface{}\<close> is a \<open>pval option\<close>, \<open>None\<close> for nil: \<open>pval\<close> has one constructor per dynamic
  type the analyzers store. A map is a partial function, so a key bound to nil and a missing key
  look the same to a reader, as they do in Go. A map held in a field that may be nil is an
  \<open>option\<close>: writing to a nil map panics, reading or ranging over one does not.
\<close>

datatype pval =
    PBool bool
  | PInt int
  | PU8 byte
  | PU16 u16
  | PU32 u32
  | PU64 u64
  | PFloat rat
  | PStr string
  | PBytes bytes
  | PU16s "u16 list"
  | PInts "int list"
  | PStrs "string list"
  | PMap "string \<Rightarrow> pval option"
  | PMaps "(string \<Rightarrow> pval option) list"

type_synonym PropMap = "string \<Rightarrow> pval option"
type_synonym CombinedPropMap = "string \<Rightarrow> PropMap option"

text \<open>One key at a time: only a map has members.\<close>

fun prop_member :: "pval option \<Rightarrow> string \<Rightarrow> pval option" where
  "prop_member (Some (PMap m)) k = m k"
| "prop_member _ _ = None"

definition PropMap_Get :: "PropMap \<Rightarrow> string \<Rightarrow> pval option" where
  "PropMap_Get m key = foldl prop_member (Some (PMap m)) (strings_Split key ''.'')"

definition CombinedPropMap_Get :: "CombinedPropMap \<Rightarrow> string \<Rightarrow> string \<Rightarrow> pval option" where
  "CombinedPropMap_Get cm an key = (case cm an of None \<Rightarrow> None | Some m \<Rightarrow> PropMap_Get m key)"

text \<open>
  A map held in a field: \<open>m[k] = v\<close> panics when the map is nil, and a nil map reads and publishes
  like an empty one.
\<close>

definition map_store :: "PropMap option \<Rightarrow> string \<Rightarrow> pval \<Rightarrow> PropMap option go" where
  "map_store mo k v = (case mo of None \<Rightarrow> None | Some m \<Rightarrow> Some (Some (m(k \<mapsto> v))))"

definition the_map :: "PropMap option \<Rightarrow> PropMap" where
  "the_map mo = (case mo of None \<Rightarrow> Map.empty | Some m \<Rightarrow> m)"

datatype PropUpdateType =
  PropUpdateNone | PropUpdateMerge | PropUpdateReplace | PropUpdateDelete

record PropUpdate =
  Type :: PropUpdateType
  M :: PropMap

text \<open>
  \<open>PropUpdateType\<close> is an \<open>int\<close> in the source; its four constants are the values the analyzers
  use, so the \<open>default\<close> branch that ignores other numbers has no counterpart here.
\<close>

definition processPropUpdate ::
    "CombinedPropMap \<Rightarrow> string \<Rightarrow> PropUpdate option \<Rightarrow> CombinedPropMap \<times> bool" where
  "processPropUpdate cpm name update =
     (case update of
        None \<Rightarrow> (cpm, False)
      | Some u \<Rightarrow>
          (case Type u of
             PropUpdateNone \<Rightarrow> (cpm, False)
           | PropUpdateMerge \<Rightarrow>
               (cpm(name \<mapsto> (case cpm name of None \<Rightarrow> Map.empty | Some m \<Rightarrow> m) ++ M u), True)
           | PropUpdateReplace \<Rightarrow> (cpm(name \<mapsto> M u), True)
           | PropUpdateDelete \<Rightarrow> (cpm(name := None), True)))"

text \<open>
  The result of an analyzer's \<open>Feed\<close>: the update, the \<open>done\<close> flag and the stream left. \<open>None\<close> is
  a call that does not return, \<open>Some None\<close> one that panics.
\<close>

type_synonym 's feed_result = "((PropUpdate option \<times> bool) \<times> 's) go option"

section \<open>Lookup\<close>

lemma foldl_prop_member_None [simp]: "foldl prop_member None ks = None"
  by (induction ks) auto

text \<open>A lookup of a path is a lookup of its first key, then of the rest in the map found.\<close>

lemma PropMap_Get_key:
  assumes "CHR ''.'' \<notin> set k"
  shows "PropMap_Get m k = m k"
  using assms by (simp add: PropMap_Get_def strings_Split_single_None)

lemma foldl_prop_member_path:
  "foldl prop_member v (strings_Split key ''.'') =
     (case v of Some (PMap m) \<Rightarrow> PropMap_Get m key | _ \<Rightarrow> None)"
proof -
  have "\<exists>k ks. strings_Split key ''.'' = k # ks"
    using strings_Split_nonempty [of key] by (cases "strings_Split key ''.''") auto
  then show ?thesis
    by (auto simp: PropMap_Get_def split: option.splits pval.splits)
qed

text \<open>
  A dotted key is looked up one segment at a time, and anything but a map on the way gives
  nil.
\<close>

lemma PropMap_Get_path:
  assumes "CHR ''.'' \<notin> set k"
  shows "PropMap_Get m (k @ ''.'' @ key) =
           (case m k of Some (PMap m') \<Rightarrow> PropMap_Get m' key | _ \<Rightarrow> None)"
  using assms foldl_prop_member_path
  by (simp add: PropMap_Get_def [of m] strings_Split_single_Cons)

section \<open>Updates\<close>

text \<open>What a lookup returns after an update, and that an update is local to its analyzer.\<close>

lemma processPropUpdate_other:
  "an \<noteq> name \<Longrightarrow> fst (processPropUpdate cpm name u) an = cpm an"
  by (auto simp: processPropUpdate_def split: option.splits PropUpdateType.splits)

lemma processPropUpdate_unchanged:
  "\<not> snd (processPropUpdate cpm name u) \<Longrightarrow> fst (processPropUpdate cpm name u) = cpm"
  by (auto simp: processPropUpdate_def split: option.splits PropUpdateType.splits)

definition prop_lookup :: "CombinedPropMap \<Rightarrow> string \<Rightarrow> string \<Rightarrow> pval option" where
  "prop_lookup cpm an k = (case cpm an of None \<Rightarrow> None | Some m \<Rightarrow> m k)"

lemma CombinedPropMap_Get_key:
  "CHR ''.'' \<notin> set k \<Longrightarrow> CombinedPropMap_Get cpm an k = prop_lookup cpm an k"
  by (simp add: CombinedPropMap_Get_def prop_lookup_def PropMap_Get_key split: option.split)

text \<open>
  What a lookup returns after an update: merging overrides the keys of the update only,
  replacing leaves exactly the keys of the update, deleting leaves none.
\<close>

lemma processPropUpdate_lookup:
  "prop_lookup (fst (processPropUpdate cpm name (Some \<lparr>Type = ty, M = m\<rparr>))) name k =
     (case ty of
        PropUpdateNone \<Rightarrow> prop_lookup cpm name k
      | PropUpdateMerge \<Rightarrow> (case m k of None \<Rightarrow> prop_lookup cpm name k | Some v \<Rightarrow> Some v)
      | PropUpdateReplace \<Rightarrow> m k
      | PropUpdateDelete \<Rightarrow> None)"
  by (auto simp: processPropUpdate_def prop_lookup_def map_add_def
      split: PropUpdateType.split option.split)

section \<open>The statement at a concrete input\<close>

theorem PropMap_Get_path_witness:
  "PropMap_Get [''req'' \<mapsto> PMap [''sni'' \<mapsto> PStr ''a.org'']] (''req'' @ ''.'' @ ''sni'') = Some (PStr ''a.org'')"
  using PropMap_Get_path [of "''req''" "[''req'' \<mapsto> PMap [''sni'' \<mapsto> PStr ''a.org'']]" "''sni''"]
  by (simp add: PropMap_Get_key)

end
