(* ===== verification/HTTP.thy ===== *)
theory HTTP
  imports ByteBuffer LSM Props
begin

text \<open>
  \<open>analyzer/tcp/http.go\<close>: the HTTP/1 analyzer. Each direction has a buffer, a map of what was
  found, and a linear state machine of two steps: the first line, then the headers. A header map
  shares its object with the properties published before; every publication sends the whole map
  again, so values are enough.
\<close>

definition HTTPAnalyzer_Name :: string where
  "HTTPAnalyzer_Name = ''http''"

definition HTTPAnalyzer_Limit :: int where
  "HTTPAnalyzer_Limit = 8192"

datatype http_step =
  parseRequestLine | parseRequestHeaders | parseResponseLine | parseResponseHeaders

record httpStream =
  http_reqBuf :: ByteBuffer
  http_reqMap :: "PropMap option"
  http_reqUpdated :: bool
  http_reqLSM :: "http_step LinearStateMachine"
  http_reqDone :: bool
  http_respBuf :: ByteBuffer
  http_respMap :: "PropMap option"
  http_respUpdated :: bool
  http_respLSM :: "http_step LinearStateMachine"
  http_respDone :: bool

definition newHTTPStream :: httpStream where
  "newHTTPStream =
     \<lparr>http_reqBuf = \<lparr>Buf = []\<rparr>, http_reqMap = None, http_reqUpdated = False,
      http_reqLSM = NewLinearStateMachine [parseRequestLine, parseRequestHeaders],
      http_reqDone = False,
      http_respBuf = \<lparr>Buf = []\<rparr>, http_respMap = None, http_respUpdated = False,
      http_respLSM = NewLinearStateMachine [parseResponseLine, parseResponseHeaders],
      http_respDone = False\<rparr>"

definition CRLF :: bytes where "CRLF = [13, 10]"

definition httpStream_parseRequestLine :: "httpStream \<Rightarrow> LSMAction \<times> httpStream" where
  "httpStream_parseRequestLine s =
     (case ByteBuffer_GetUntil (http_reqBuf s) CRLF True True of
        (None, b) \<Rightarrow> (LSMActionPause, s\<lparr>http_reqBuf := b\<rparr>)
      | (Some line, b) \<Rightarrow>
          (let s = s\<lparr>http_reqBuf := b\<rparr>;
               fields = strings_Fields (go_string (take (length line - 2) line)) in
           if length fields \<noteq> 3 then (LSMActionCancel, s)
           else if \<not> strings_HasPrefix (fields ! 2) ''HTTP/'' then (LSMActionCancel, s)
           else (LSMActionNext,
                 s\<lparr>http_reqMap := Some [''method'' \<mapsto> PStr (fields ! 0), ''path'' \<mapsto> PStr (fields ! 1),
                                     ''version'' \<mapsto> PStr (fields ! 2)],
                   http_reqUpdated := True\<rparr>)))"

definition httpStream_parseResponseLine :: "httpStream \<Rightarrow> LSMAction \<times> httpStream" where
  "httpStream_parseResponseLine s =
     (case ByteBuffer_GetUntil (http_respBuf s) CRLF True True of
        (None, b) \<Rightarrow> (LSMActionPause, s\<lparr>http_respBuf := b\<rparr>)
      | (Some line, b) \<Rightarrow>
          (let s = s\<lparr>http_respBuf := b\<rparr>;
               fields = strings_Fields (go_string (take (length line - 2) line)) in
           if length fields < 2 then (LSMActionCancel, s)
           else
             (let status = fst (strconv_Atoi (fields ! 1)) in
              if \<not> strings_HasPrefix (fields ! 0) ''HTTP/'' \<or> status = 0 then (LSMActionCancel, s)
              else (LSMActionNext,
                    s\<lparr>http_respMap := Some [''version'' \<mapsto> PStr (fields ! 0), ''status'' \<mapsto> PInt status],
                      http_respUpdated := True\<rparr>))))"

text \<open>The loop over the header lines; \<open>None\<close> is an invalid header.\<close>

fun http_header_lines :: "bytes list \<Rightarrow> PropMap \<Rightarrow> PropMap option" where
  "http_header_lines [] headerMap = Some headerMap"
| "http_header_lines (line # ls) headerMap =
     (case strings_SplitN line (go_bytes '':'') 2 of
        [k, v] \<Rightarrow>
          http_header_lines ls
            (headerMap(strings_ToLower (strings_TrimSpace (go_string k)) \<mapsto>
                         PStr (strings_TrimSpace (go_string v))))
      | _ \<Rightarrow> None)"

definition httpStream_parseHeaders ::
    "ByteBuffer \<Rightarrow> (LSMAction \<times> PropMap option) \<times> ByteBuffer" where
  "httpStream_parseHeaders buf =
     (case ByteBuffer_GetUntil buf (CRLF @ CRLF) True True of
        (None, b) \<Rightarrow> ((LSMActionPause, None), b)
      | (Some headers, b) \<Rightarrow>
          (case http_header_lines (strings_Split (take (length headers - 4) headers) CRLF) Map.empty of
             None \<Rightarrow> ((LSMActionCancel, None), b)
           | Some headerMap \<Rightarrow> ((LSMActionNext, Some headerMap), b)))"

definition httpStream_parseRequestHeaders :: "httpStream \<Rightarrow> (LSMAction \<times> httpStream) go" where
  "httpStream_parseRequestHeaders s =
     (case httpStream_parseHeaders (http_reqBuf s) of
        ((action, headerMap), b) \<Rightarrow>
          (let s = s\<lparr>http_reqBuf := b\<rparr> in
           case headerMap of
             Some h \<Rightarrow>
               map_option (\<lambda>m. (action, s\<lparr>http_reqMap := m, http_reqUpdated := True\<rparr>))
                 (map_store (http_reqMap s) ''headers'' (PMap h))
           | None \<Rightarrow> Some (action, s)))"

definition httpStream_parseResponseHeaders :: "httpStream \<Rightarrow> (LSMAction \<times> httpStream) go" where
  "httpStream_parseResponseHeaders s =
     (case httpStream_parseHeaders (http_respBuf s) of
        ((action, headerMap), b) \<Rightarrow>
          (let s = s\<lparr>http_respBuf := b\<rparr> in
           case headerMap of
             Some h \<Rightarrow>
               map_option (\<lambda>m. (action, s\<lparr>http_respMap := m, http_respUpdated := True\<rparr>))
                 (map_store (http_respMap s) ''headers'' (PMap h))
           | None \<Rightarrow> Some (action, s)))"

fun http_exec :: "http_step \<Rightarrow> httpStream \<Rightarrow> (LSMAction \<times> httpStream) go" where
  "http_exec parseRequestLine s = Some (httpStream_parseRequestLine s)"
| "http_exec parseRequestHeaders s = httpStream_parseRequestHeaders s"
| "http_exec parseResponseLine s = Some (httpStream_parseResponseLine s)"
| "http_exec parseResponseHeaders s = httpStream_parseResponseHeaders s"

definition httpStream_Feed ::
    "bool \<Rightarrow> bool \<Rightarrow> bool \<Rightarrow> int \<Rightarrow> bytes \<Rightarrow> httpStream \<Rightarrow> httpStream feed_result" where
  "httpStream_Feed rv st en skip data s =
     (if skip \<noteq> 0 then Some (Some ((None, True), s))
      else if length data = 0 then Some (Some ((None, False), s))
      else if rv then
        (let s = s\<lparr>http_respBuf := ByteBuffer_Append (http_respBuf s) data, http_respUpdated := False\<rparr> in
         case LinearStateMachine_Run http_exec http_respLSM http_respLSM_update s of
           None \<Rightarrow> None
         | Some None \<Rightarrow> Some None
         | Some (Some ((cancelled, dn), s)) \<Rightarrow>
             (let s = s\<lparr>http_respDone := dn\<rparr>;
                  (update, s) =
                    (if http_respUpdated s
                     then (Some \<lparr>Type = PropUpdateMerge, M = [''resp'' \<mapsto> PMap (the_map (http_respMap s))]\<rparr>,
                           s\<lparr>http_respUpdated := False\<rparr>)
                     else (None, s)) in
              Some (Some ((update, cancelled \<or> (http_reqDone s \<and> http_respDone s)), s))))
      else
        (let s = s\<lparr>http_reqBuf := ByteBuffer_Append (http_reqBuf s) data, http_reqUpdated := False\<rparr> in
         case LinearStateMachine_Run http_exec http_reqLSM http_reqLSM_update s of
           None \<Rightarrow> None
         | Some None \<Rightarrow> Some None
         | Some (Some ((cancelled, dn), s)) \<Rightarrow>
             (let s = s\<lparr>http_reqDone := dn\<rparr>;
                  (update, s) =
                    (if http_reqUpdated s
                     then (Some \<lparr>Type = PropUpdateMerge, M = [''req'' \<mapsto> PMap (the_map (http_reqMap s))]\<rparr>,
                           s\<lparr>http_reqUpdated := False\<rparr>)
                     else (None, s)) in
              Some (Some ((update, cancelled \<or> (http_reqDone s \<and> http_respDone s)), s)))))"

definition httpStream_Close :: "bool \<Rightarrow> httpStream \<Rightarrow> PropUpdate option \<times> httpStream" where
  "httpStream_Close limited s =
     (None, s\<lparr>http_reqBuf := ByteBuffer_Reset (http_reqBuf s), http_respBuf := ByteBuffer_Reset (http_respBuf s),
              http_reqMap := None, http_respMap := None\<rparr>)"

section \<open>The machines are safe\<close>

text \<open>
  The header steps write into the map the line step made, so a machine past its first step has
  one: no run panics, and every run ends.
\<close>

definition http_inv :: "httpStream \<Rightarrow> bool" where
  "http_inv s \<longleftrightarrow>
     Steps (http_reqLSM s) = [parseRequestLine, parseRequestHeaders]
     \<and> Steps (http_respLSM s) = [parseResponseLine, parseResponseHeaders]
     \<and> (0 < lsm_index (http_reqLSM s) \<longrightarrow> http_reqMap s \<noteq> None)
     \<and> (0 < lsm_index (http_respLSM s) \<longrightarrow> http_respMap s \<noteq> None)"

lemmas http_step_defs =
  httpStream_parseRequestLine_def httpStream_parseResponseLine_def
  httpStream_parseRequestHeaders_def httpStream_parseResponseHeaders_def
  map_store_def

interpretation http_req: lsm_linear http_exec http_reqLSM http_reqLSM_update http_inv
  by unfold_locales
    (auto simp: http_inv_def http_step_defs less_Suc_eq Let_def httpStream_parseHeaders_def
      split: option.splits prod.splits if_splits)

interpretation http_resp: lsm_linear http_exec http_respLSM http_respLSM_update http_inv
  by unfold_locales
    (auto simp: http_inv_def http_step_defs less_Suc_eq Let_def httpStream_parseHeaders_def
      split: option.splits prod.splits if_splits)

section \<open>Chunks do not matter\<close>

definition http_app_req :: "bytes \<Rightarrow> httpStream \<Rightarrow> httpStream" where
  "http_app_req d s = s\<lparr>http_reqBuf := ByteBuffer_Append (http_reqBuf s) d\<rparr>"

definition http_app_resp :: "bytes \<Rightarrow> httpStream \<Rightarrow> httpStream" where
  "http_app_resp d s = s\<lparr>http_respBuf := ByteBuffer_Append (http_respBuf s) d\<rparr>"

lemma parseHeaders_pause:
  "httpStream_parseHeaders b = ((LSMActionPause, h), b') \<Longrightarrow> b' = b \<and> h = None"
  by (auto simp: httpStream_parseHeaders_def GetUntil_None_iff split: option.splits prod.splits)

lemma parseHeaders_more:
  "\<lbrakk>httpStream_parseHeaders b = ((a, h), b'); a \<noteq> LSMActionPause\<rbrakk> \<Longrightarrow>
     httpStream_parseHeaders (ByteBuffer_Append b d) = ((a, h), ByteBuffer_Append b' d)"
  by (auto simp: httpStream_parseHeaders_def rd_until.append_commutes split: option.splits prod.splits)

lemma parseHeaders_next_iff:
  "httpStream_parseHeaders b = ((a, h), b') \<Longrightarrow> a = LSMActionNext \<longleftrightarrow> h \<noteq> None"
  by (auto simp: httpStream_parseHeaders_def split: option.splits prod.splits) metis

lemma http_exec_pause: "http_exec st s = Some (LSMActionPause, s') \<Longrightarrow> s' = s"
  by (cases st) (auto simp: http_step_defs Let_def GetUntil_None_iff
      split: option.splits prod.splits if_splits dest!: parseHeaders_pause dest: parseHeaders_next_iff)

interpretation http_req: lsm_stream http_exec http_reqLSM http_reqLSM_update http_app_req
proof
  fix st s s' d
  assume "http_exec st s = Some (LSMActionPause, s')"
  then show "http_exec st (http_app_req d s') = http_exec st (http_app_req d s) \<and> http_reqLSM s' = http_reqLSM s"
    by (auto dest: http_exec_pause)
next
  fix st s a s' d
  assume "http_exec st s = Some (a, s')" "a \<noteq> LSMActionPause"
  then show "http_exec st (http_app_req d s) = Some (a, http_app_req d s')"
    by (cases st) (auto simp: http_step_defs http_app_req_def Let_def rd_until.append_commutes parseHeaders_more
        split: option.splits prod.splits if_splits)
qed (simp_all add: http_app_req_def)

interpretation http_resp: lsm_stream http_exec http_respLSM http_respLSM_update http_app_resp
proof
  fix st s s' d
  assume "http_exec st s = Some (LSMActionPause, s')"
  then show "http_exec st (http_app_resp d s') = http_exec st (http_app_resp d s) \<and> http_respLSM s' = http_respLSM s"
    by (auto dest: http_exec_pause)
next
  fix st s a s' d
  assume "http_exec st s = Some (a, s')" "a \<noteq> LSMActionPause"
  then show "http_exec st (http_app_resp d s) = Some (a, http_app_resp d s')"
    by (cases st) (auto simp: http_step_defs http_app_resp_def Let_def rd_until.append_commutes parseHeaders_more
        split: option.splits prod.splits if_splits)
qed (simp_all add: http_app_resp_def)

section \<open>Feeding\<close>

lemma http_inv_app [simp]:
  "http_inv (s\<lparr>http_reqBuf := b\<rparr>) = http_inv s" "http_inv (s\<lparr>http_respBuf := b\<rparr>) = http_inv s"
  "http_inv (s\<lparr>http_reqDone := x\<rparr>) = http_inv s" "http_inv (s\<lparr>http_respDone := x\<rparr>) = http_inv s"
  "http_inv (s\<lparr>http_reqUpdated := x\<rparr>) = http_inv s" "http_inv (s\<lparr>http_respUpdated := x\<rparr>) = http_inv s"
  by (simp_all add: http_inv_def)

lemma http_inv_new: "http_inv newHTTPStream"
  by (simp add: http_inv_def newHTTPStream_def NewLinearStateMachine_def)

text \<open>
  Feeding any data in any direction to an HTTP stream that satisfies the invariant returns
  without a panic and keeps the invariant.
\<close>

lemma httpStream_Feed_total:
  assumes "http_inv s"
  shows "\<exists>u d s'. httpStream_Feed rv st en skip data s = Some (Some ((u, d), s')) \<and> http_inv s'"
proof (cases "skip \<noteq> 0 \<or> data = []")
  case True
  with assms show ?thesis by (auto simp: httpStream_Feed_def)
next
  case False
  let ?q = "s\<lparr>http_reqBuf := ByteBuffer_Append (http_reqBuf s) data, http_reqUpdated := False\<rparr>"
  let ?p = "s\<lparr>http_respBuf := ByteBuffer_Append (http_respBuf s) data, http_respUpdated := False\<rparr>"
  from assms have "http_inv ?q" "http_inv ?p" by simp_all
  from http_req.run_total [OF this(1)] http_resp.run_total [OF this(2)]
  obtain c1 d1 s1 c2 d2 s2 where
    "LinearStateMachine_Run http_exec http_reqLSM http_reqLSM_update ?q = Some (Some ((c1, d1), s1))"
    "http_inv s1"
    "LinearStateMachine_Run http_exec http_respLSM http_respLSM_update ?p = Some (Some ((c2, d2), s2))"
    "http_inv s2"
    by metis
  with False show ?thesis
    by (cases rv) (simp_all add: httpStream_Feed_def Let_def)
qed

text \<open>
  The fields the steps never read, \<open>http_reqUpdated\<close> and \<open>http_reqDone\<close>, frame a run.
\<close>

definition http_frame :: "bool \<Rightarrow> bool \<Rightarrow> httpStream \<Rightarrow> httpStream" where
  "http_frame b x s = s\<lparr>http_reqUpdated := http_reqUpdated s \<or> b, http_reqDone := x\<rparr>"

interpretation http_req_frame: lsm_frame http_exec http_reqLSM http_reqLSM_update "http_frame b x"
proof
  fix st s a s'
  assume "http_exec st s = Some (a, s')"
  then show "http_exec st (http_frame b x s) = Some (a, http_frame b x s')"
    by (cases st) (auto simp: http_step_defs http_frame_def Let_def
        split: option.splits prod.splits if_splits)
qed (simp_all add: http_frame_def)

text \<open>A run that reports no change made none to the map.\<close>

lemma http_req_unchanged:
  assumes "LinearStateMachine_Run http_exec http_reqLSM http_reqLSM_update s = Some (Some (cd, s'))"
    and "http_inv s" and "\<not> http_reqUpdated s'"
  shows "http_reqMap s' = http_reqMap s"
proof -
  have "http_reqUpdated s' \<or> http_reqMap s' = http_reqMap s"
    by (rule run_keeps [where P = "\<lambda>t. http_reqUpdated t \<or> http_reqMap t = http_reqMap s", OF _ assms(1)])
      (auto simp: http_step_defs Let_def elim!: http_exec.elims
        split: option.splits prod.splits if_splits LSMAction.splits)
  with assms(3) show ?thesis by simp
qed

text \<open>
  The request side in one equation: append, run, and publish the map if it changed.
\<close>

definition http_publish_req :: "(bool \<times> bool) \<times> httpStream \<Rightarrow> (PropUpdate option \<times> bool) \<times> httpStream" where
  "http_publish_req r =
     (case r of ((c, dn), s) \<Rightarrow>
        ((if http_reqUpdated s
          then Some \<lparr>Type = PropUpdateMerge, M = [''req'' \<mapsto> PMap (the_map (http_reqMap s))]\<rparr> else None,
          c \<or> (dn \<and> http_respDone s)),
         http_frame False dn (s\<lparr>http_reqUpdated := False\<rparr>)))"

lemma http_upd_comm:
  "s\<lparr>http_reqUpdated := x, http_reqBuf := b\<rparr> = s\<lparr>http_reqBuf := b, http_reqUpdated := x\<rparr>"
  by (cases s) simp

lemma http_feed_req:
  assumes "data \<noteq> []"
  shows "httpStream_Feed False st en 0 data s =
           map_option (map_option http_publish_req)
             (LinearStateMachine_Run http_exec http_reqLSM http_reqLSM_update
                (http_app_req data (s\<lparr>http_reqUpdated := False\<rparr>)))"
  using assms
  by (auto simp: httpStream_Feed_def http_publish_req_def http_app_req_def http_frame_def Let_def http_upd_comm
      split: option.split prod.split)

lemma http_app_app: "http_app_req (d1 @ d2) s = http_app_req d2 (http_app_req d1 s)"
  by (simp add: http_app_req_def ByteBuffer_Append_def)

text \<open>
  C20. The analyzer does not depend on how the request is cut into segments: feeding two pieces
  one after the other and feeding them at once leave the same stream, the same done flag and the
  same published properties.
\<close>

theorem http_feed_chunks:
  assumes inv: "http_inv s" and ne: "d1 \<noteq> []" "d2 \<noteq> []"
    and f1: "httpStream_Feed False st en 0 d1 s = Some (Some ((u1, False), s1))"
    and f2: "httpStream_Feed False st' en' 0 d2 s1 = Some (Some ((u2, dn), s2))"
    and more: "\<not> http_reqDone s1"
  shows "\<exists>u. httpStream_Feed False st en 0 (d1 @ d2) s = Some (Some ((u, dn), s2))
           \<and> fst (processPropUpdate cpm n u) =
               fst (processPropUpdate (fst (processPropUpdate cpm n u1)) n u2)"
proof -
  let ?run = "LinearStateMachine_Run http_exec http_reqLSM http_reqLSM_update"
  let ?s0 = "s\<lparr>http_reqUpdated := False\<rparr>"
  from f1 obtain c t1 where r1: "?run (http_app_req d1 ?s0) = Some (Some ((c, False), t1))"
    and s1: "s1 = http_frame False False (t1\<lparr>http_reqUpdated := False\<rparr>)"
    and u1: "u1 = (if http_reqUpdated t1
          then Some \<lparr>Type = PropUpdateMerge, M = [''req'' \<mapsto> PMap (the_map (http_reqMap t1))]\<rparr> else None)"
    using more by (auto simp: http_feed_req [OF ne(1)] http_publish_req_def http_frame_def
        split: prod.splits if_splits)
  from f2 obtain c2 dn2 t2 where r2: "?run (http_app_req d2 (s1\<lparr>http_reqUpdated := False\<rparr>)) = Some (Some ((c2, dn2), t2))"
    and p2: "http_publish_req ((c2, dn2), t2) = ((u2, dn), s2)"
    by (auto simp: http_feed_req [OF ne(2)])
  define b where "b = http_reqUpdated t1"
  define x where "x = http_reqDone t1"
  have "?run (http_app_req (d1 @ d2) ?s0) = ?run (http_app_req d2 t1)"
    using http_req.run_chunk [OF r1] by (simp add: http_app_app)
  also have "http_app_req d2 t1 = http_frame b x (http_app_req d2 (s1\<lparr>http_reqUpdated := False\<rparr>))"
    by (simp add: s1 b_def x_def http_frame_def http_app_req_def)
  finally have run: "?run (http_app_req (d1 @ d2) ?s0) = Some (Some ((c2, dn2), http_frame b x t2))"
    using http_req_frame.run_frame [OF r2] by simp
  have inv1: "http_inv (http_app_req d2 (s1\<lparr>http_reqUpdated := False\<rparr>))"
    using http_req.run_inv [OF r1] inv by (simp add: s1 http_app_req_def http_frame_def)
  have same: "http_reqMap t2 = http_reqMap t1" if "\<not> http_reqUpdated t2"
    using http_req_unchanged [OF r2 inv1 that] by (simp add: s1 http_app_req_def http_frame_def)
  show ?thesis
    using p2 ne same
    by (auto simp: http_feed_req run u1 http_publish_req_def http_frame_def b_def processPropUpdate_def)
qed

section \<open>Well-formed requests\<close>

text \<open>
  A request as a client writes it, and the map the analyzer is to publish for it. Tokens hold no
  white space; header keys no colon; values are trimmed and stay on their line.
\<close>

type_synonym headers = "(string \<times> string) list"

definition header_line :: "string \<times> string \<Rightarrow> bytes" where
  "header_line kv = go_bytes (fst kv) @ go_bytes '': '' @ go_bytes (snd kv)"

definition http_render :: "string \<Rightarrow> string \<Rightarrow> string \<Rightarrow> headers \<Rightarrow> bytes" where
  "http_render meth path version hs =
     go_bytes (meth @ '' '' @ path @ '' '' @ version) @ CRLF
       @ strings_Join (map header_line hs) CRLF @ CRLF @ CRLF"

definition token :: "string \<Rightarrow> bool" where
  "token s \<longleftrightarrow> s \<noteq> [] \<and> list_all token_char s"

definition header_ok :: "string \<times> string \<Rightarrow> bool" where
  "header_ok kv \<longleftrightarrow> token (fst kv) \<and> CHR '':'' \<notin> set (fst kv)
     \<and> strings_TrimSpace (snd kv) = snd kv \<and> CHR 0x0D \<notin> set (snd kv)"

definition header_map :: "headers \<Rightarrow> PropMap" where
  "header_map hs = map_of (rev (map (\<lambda>(k, v). (strings_ToLower k, PStr v)) hs))"

lemma bytes_Index_skip:
  "c \<notin> set xs \<Longrightarrow> bytes_Index (xs @ ys) (c # cs) = map_option (\<lambda>i. i + length xs) (bytes_Index ys (c # cs))"
  by (cases "bytes_Index ys (c # cs)"; induction xs) (auto simp: strings_HasPrefix_def)

lemma bytes_Index_absent: "c \<notin> set xs \<Longrightarrow> bytes_Index xs (c # cs) = None"
  by (induction xs) (auto simp: strings_HasPrefix_def)

lemma Split_line:
  "13 \<notin> set a \<Longrightarrow> strings_Split (a @ CRLF @ b) CRLF = a # strings_Split b CRLF"
  using bytes_Index_line [of 13 a "[10]" b]
  by (subst strings_Split.simps) (simp add: CRLF_def)

lemma Split_last: "13 \<notin> set a \<Longrightarrow> strings_Split a CRLF = [a]"
  by (subst strings_Split.simps) (simp add: CRLF_def bytes_Index_absent)

lemma Split_lines:
  "ls \<noteq> [] \<Longrightarrow> \<forall>l \<in> set ls. 13 \<notin> set l \<Longrightarrow> strings_Split (strings_Join ls CRLF) CRLF = ls"
  by (induction ls rule: induct_list012) (simp_all add: Split_line Split_last)

lemma Index_after_CRLF:
  "x \<noteq> 13 \<Longrightarrow> bytes_Index (CRLF @ x # r) (CRLF @ CRLF) =
     map_option (\<lambda>i. i + 2) (bytes_Index (x # r) (CRLF @ CRLF))"
  by (cases "bytes_Index r [13, 10, 13, 10]") (simp_all add: CRLF_def strings_HasPrefix_def)

lemma Index_blank_line:
  assumes "ls \<noteq> []" "\<forall>l \<in> set ls. l \<noteq> [] \<and> 13 \<notin> set l"
  shows "bytes_Index (strings_Join ls CRLF @ CRLF @ CRLF @ rest) (CRLF @ CRLF) =
           Some (length (strings_Join ls CRLF))"
  using assms
proof (induction ls rule: induct_list012)
  case (2 l)
  then show ?case
    using bytes_Index_line [of 13 l "[10, 13, 10]" rest] by (simp add: CRLF_def)
next
  case (3 l m ms)
  let ?X = "strings_Join (m # ms) CRLF @ CRLF @ CRLF @ rest"
  obtain x xs where m: "m = x # xs" "x \<noteq> 13"
    using "3.prems" by (cases m) auto
  have X: "?X = x # tl ?X"
    using m(1) by (cases ms) auto
  have "bytes_Index (CRLF @ ?X) (CRLF @ CRLF) = map_option (\<lambda>i. i + 2) (bytes_Index ?X (CRLF @ CRLF))"
    using Index_after_CRLF [OF m(2), of "tl ?X"] by (subst (1 2) X)
  then show ?case
    using 3 bytes_Index_skip [of 13 l "CRLF @ ?X" "[10, 13, 10]"]
    by (simp add: CRLF_def)
qed simp

lemma go_bytes_no_char: "c \<notin> set s \<Longrightarrow> byte_of_char c \<notin> set (go_bytes s)"
  by (auto simp: go_bytes_def) (metis char_of_byte_of_char)

lemma token_no_CR: "list_all token_char s \<Longrightarrow> CHR 0x0D \<notin> set s"
  by (induction s) (auto simp: token_char_def ascii_space_def)

lemma char_13 [simp]: "char_of_byte 13 = CHR 0x0D" and char_32 [simp]: "char_of_byte 32 = CHR '' ''"
  by (simp_all add: char_of_byte_def char_of_def bit_0)

lemma byte_13 [simp]: "byte_of_char (CHR 0x0D) = 13"
  by (simp flip: char_13)

lemma header_line_ok:
  assumes "header_ok kv"
  shows "header_line kv \<noteq> [] \<and> 13 \<notin> set (header_line kv)"
proof -
  have "CHR 0x0D \<notin> set (fst kv @ '': '' @ snd kv)"
    using assms token_no_CR [of "fst kv"]
    by (auto simp: header_ok_def token_def)
  from go_bytes_no_char [OF this] assms show ?thesis
    by (simp add: header_line_def header_ok_def token_def go_bytes_Cons)
qed

lemma trim_blank [simp]: "strings_TrimSpace (CHR '' '' # s) = strings_TrimSpace s"
  by (simp add: strings_TrimSpace_def)

lemma header_lines_ok:
  "\<forall>kv \<in> set hs. header_ok kv \<Longrightarrow>
     http_header_lines (map header_line hs) m = Some (m ++ header_map hs)"
proof (induction hs arbitrary: m)
  case Nil
  then show ?case by (simp add: header_map_def)
next
  case (Cons kv hs)
  obtain k v where kv: "kv = (k, v)" by fastforce
  have ok: "token k" "CHR '':'' \<notin> set k" "strings_TrimSpace v = v"
    using Cons.prems by (auto simp: header_ok_def kv)
  have colon: "go_bytes '':'' = [58]" "go_bytes '': '' = [58, 32]"
    by (simp_all add: go_bytes_def byte_of_char_def)
  have "58 \<notin> set (go_bytes k)"
    using go_bytes_no_char [OF ok(2)] by (simp add: byte_of_char_def)
  then have "bytes_Index (header_line kv) [58] = Some (length k)"
    using bytes_Index_line [of 58 "go_bytes k" "[]" "32 # go_bytes v"]
    by (simp add: header_line_def kv colon)
  then have "strings_SplitN (header_line kv) (go_bytes '':'') 2 = [go_bytes k, 32 # go_bytes v]"
    by (simp add: colon numeral_2_eq_2 header_line_def kv)
  moreover have "go_string (32 # go_bytes v) = CHR '' '' # v"
    using go_string_bytes [of v] by (simp add: go_string_def)
  moreover have "strings_TrimSpace k = k"
    using ok(1) by (simp add: token_def TrimSpace_tokens)
  moreover have "header_map (kv # hs) = [strings_ToLower k \<mapsto> PStr v] ++ header_map hs"
    by (simp add: header_map_def kv)
  ultimately show ?case
    using Cons by (simp add: ok(3) kv)
qed

text \<open>What the analyzer publishes for a well-formed request.\<close>

definition request_map :: "string \<Rightarrow> string \<Rightarrow> string \<Rightarrow> headers \<Rightarrow> PropMap" where
  "request_map meth path version hs =
     [''method'' \<mapsto> PStr meth, ''path'' \<mapsto> PStr path, ''version'' \<mapsto> PStr version,
      ''headers'' \<mapsto> PMap (header_map hs)]"

lemma parse_request_line:
  assumes "token meth" "token path" "token version" "strings_HasPrefix version ''HTTP/''"
    and "Buf (http_reqBuf s) = go_bytes (meth @ '' '' @ path @ '' '' @ version) @ CRLF @ rest"
  shows "httpStream_parseRequestLine s =
           (LSMActionNext,
            s\<lparr>http_reqBuf := \<lparr>Buf = rest\<rparr>,
              http_reqMap := Some [''method'' \<mapsto> PStr meth, ''path'' \<mapsto> PStr path, ''version'' \<mapsto> PStr version],
              http_reqUpdated := True\<rparr>)"
proof -
  let ?l = "meth @ '' '' @ path @ '' '' @ version"
  have "CHR 0x0D \<notin> set ?l"
    using assms(1-3) token_no_CR by (auto simp: token_def)
  from go_bytes_no_char [OF this] have cr: "13 \<notin> set (go_bytes ?l)"
    by (simp only: byte_13 simp_thms)
  have idx: "bytes_Index (Buf (http_reqBuf s)) CRLF = Some (length ?l)"
    unfolding assms(5) CRLF_def
    using bytes_Index_line [OF cr, of "[10]" rest] by (simp del: go_bytes_append)
  have "ByteBuffer_GetUntil (http_reqBuf s) CRLF True True = (Some (go_bytes ?l @ CRLF), \<lparr>Buf = rest\<rparr>)"
    unfolding GetUntil_Some_iff
    using idx assms(5) by (intro exI [of _ "length ?l"]) (simp add: CRLF_def)
  moreover have "strings_Fields ?l = [meth, path, version]"
    using strings_Fields_3 [of meth path version] assms(1-3) by (simp add: token_def)
  ultimately show ?thesis
    using assms(4) by (simp add: httpStream_parseRequestLine_def Let_def CRLF_def del: append.simps)
qed

lemma parse_request_headers:
  assumes "hs \<noteq> []" "\<forall>kv \<in> set hs. header_ok kv"
    and "Buf b = strings_Join (map header_line hs) CRLF @ CRLF @ CRLF @ rest"
  shows "httpStream_parseHeaders b = ((LSMActionNext, Some (header_map hs)), \<lparr>Buf = rest\<rparr>)"
proof -
  let ?h = "strings_Join (map header_line hs) CRLF"
  have ok: "\<forall>l \<in> set (map header_line hs). l \<noteq> [] \<and> 13 \<notin> set l"
    using assms(2) header_line_ok by auto
  have idx: "bytes_Index (Buf b) (CRLF @ CRLF) = Some (length ?h)"
    using Index_blank_line [OF _ ok] assms(1,3) by simp
  have "ByteBuffer_GetUntil b (CRLF @ CRLF) True True = (Some (?h @ CRLF @ CRLF), \<lparr>Buf = rest\<rparr>)"
    unfolding GetUntil_Some_iff
    using idx assms(3) by (intro exI [of _ "length ?h"]) (simp add: CRLF_def)
  moreover have "strings_Split ?h CRLF = map header_line hs"
    using Split_lines [of "map header_line hs"] ok assms(1) by simp
  moreover have "length (?h @ CRLF @ CRLF) - 4 = length ?h"
    by (simp add: CRLF_def)
  ultimately show ?thesis
    using header_lines_ok [OF assms(2), of Map.empty]
    by (simp add: httpStream_parseHeaders_def)
qed

text \<open>
  C1. An HTTP request rendered from its method, path, version and header lines, fed to a new
  stream in one piece, publishes exactly those parts under req, with the header names in lower
  case and the last value of a repeated name.
\<close>

theorem http_request_published:
  assumes "token meth" "token path" "token version" "strings_HasPrefix version ''HTTP/''"
    and "hs \<noteq> []" "\<forall>kv \<in> set hs. header_ok kv"
  shows "\<exists>s. httpStream_Feed False st en 0 (http_render meth path version hs) newHTTPStream =
           Some (Some ((Some \<lparr>Type = PropUpdateMerge,
                              M = [''req'' \<mapsto> PMap (request_map meth path version hs)]\<rparr>, False), s))"
proof -
  let ?d = "http_render meth path version hs"
  let ?h = "strings_Join (map header_line hs) CRLF @ CRLF @ CRLF"
  have d: "?d = go_bytes (meth @ '' '' @ path @ '' '' @ version) @ CRLF @ ?h"
    by (simp add: http_render_def)
  then have ne: "?d \<noteq> []" by (simp add: CRLF_def)
  let ?s0 = "http_app_req ?d (newHTTPStream\<lparr>http_reqUpdated := False\<rparr>)"
  have "Buf (http_reqBuf ?s0) = go_bytes (meth @ '' '' @ path @ '' '' @ version) @ CRLF @ ?h"
    by (simp add: http_app_req_def newHTTPStream_def d ByteBuffer_Append_def del: go_bytes_append)
  note l1 = parse_request_line [OF assms(1-4) this]
  note l2 = parse_request_headers [OF assms(5,6), of "\<lparr>Buf = ?h\<rparr>" "[]"]
  let ?run = "LinearStateMachine_loop http_exec http_reqLSM http_reqLSM_update"
  let ?m0 = "[''method'' \<mapsto> PStr meth, ''path'' \<mapsto> PStr path, ''version'' \<mapsto> PStr version]"
  let ?s1 = "?s0\<lparr>http_reqBuf := \<lparr>Buf = ?h\<rparr>, http_reqMap := Some ?m0, http_reqUpdated := True\<rparr>"
  let ?s2 = "http_reqLSM_update lsm_next ?s1"
  let ?s3 = "?s2\<lparr>http_reqBuf := \<lparr>Buf = []\<rparr>,
                http_reqMap := Some (request_map meth path version hs), http_reqUpdated := True\<rparr>"
  have lsm: "http_reqLSM ?s0 = NewLinearStateMachine [parseRequestLine, parseRequestHeaders]"
    by (simp add: http_app_req_def newHTTPStream_def)
  have "?run ?s0 = ?run ?s2"
    by (rule loop_Next) (simp_all add: lsm NewLinearStateMachine_def l1)
  also have "\<dots> = ?run (http_reqLSM_update lsm_next ?s3)"
    by (rule loop_Next)
      (simp_all add: lsm NewLinearStateMachine_def httpStream_parseRequestHeaders_def l2 map_store_def
        request_map_def)
  also have "\<dots> = Some (Some ((False, True), http_reqLSM_update lsm_next ?s3))"
    by (rule loop_end) (simp add: lsm NewLinearStateMachine_def)
  finally have "LinearStateMachine_Run http_exec http_reqLSM http_reqLSM_update ?s0 =
      Some (Some ((False, True), http_reqLSM_update lsm_next ?s3))"
    by (subst run_loop) (simp_all add: lsm NewLinearStateMachine_def)
  then show ?thesis
    by (simp add: http_feed_req [OF ne] http_publish_req_def http_app_req_def newHTTPStream_def the_map_def)
qed

section \<open>The statements at concrete inputs\<close>

theorem http_feed_chunks_witness:
  "\<exists>u s. httpStream_Feed False True False 0 [71, 69] newHTTPStream = Some (Some ((u, False), s))"
proof -
  define s1 where "s1 = newHTTPStream\<lparr>http_reqBuf := \<lparr>Buf = [71]\<rparr>\<rparr>"
  define s2 where "s2 = newHTTPStream\<lparr>http_reqBuf := \<lparr>Buf = [71, 69]\<rparr>\<rparr>"
  note d = Let_def LinearStateMachine_Run_def newHTTPStream_def NewLinearStateMachine_def
    LinearStateMachine_loop.simps httpStream_parseRequestLine_def ByteBuffer_Append_def
    ByteBuffer_GetUntil_def ByteBuffer_Index_def CRLF_def strings_HasPrefix_def
  have "httpStream_Feed False True False 0 [71] newHTTPStream = Some (Some ((None, False), s1))"
    by (subst httpStream_Feed_def) (simp add: s1_def d)
  moreover have "httpStream_Feed False False False 0 [69] s1 = Some (Some ((None, False), s2))"
    by (subst httpStream_Feed_def) (simp add: s1_def s2_def d)
  moreover have "\<not> http_reqDone s1" by (simp add: s1_def newHTTPStream_def)
  ultimately show ?thesis
    using http_feed_chunks [OF http_inv_new, of "[71]" "[69]"] by fastforce
qed

theorem http_request_published_witness:
  "\<exists>s. httpStream_Feed False True False 0 (http_render ''GET'' ''/'' ''HTTP/1.1'' [(''Host'', ''a.org'')]) newHTTPStream =
     Some (Some ((Some \<lparr>Type = PropUpdateMerge,
       M = [''req'' \<mapsto> PMap (request_map ''GET'' ''/'' ''HTTP/1.1'' [(''Host'', ''a.org'')])]\<rparr>, False), s))"
  by (rule http_request_published)
    (simp_all add: token_def token_char_def ascii_space_def strings_HasPrefix_def header_ok_def strings_TrimSpace_def)

end
