(* ===== verification/SSH.thy ===== *)
theory SSH
  imports ByteBuffer LSM Props
begin

text \<open>
  \<open>analyzer/tcp/ssh.go\<close>: the SSH analyzer, one machine of one step per direction, which parses the
  version exchange line.
\<close>

definition SSHAnalyzer_Name :: string where "SSHAnalyzer_Name = ''ssh''"
definition SSHAnalyzer_Limit :: int where "SSHAnalyzer_Limit = 1024"

datatype ssh_step = parseClientExchangeLine | parseServerExchangeLine

record sshStream =
  ssh_clientBuf :: ByteBuffer
  ssh_clientMap :: "PropMap option"
  ssh_clientUpdated :: bool
  ssh_clientLSM :: "ssh_step LinearStateMachine"
  ssh_clientDone :: bool
  ssh_serverBuf :: ByteBuffer
  ssh_serverMap :: "PropMap option"
  ssh_serverUpdated :: bool
  ssh_serverLSM :: "ssh_step LinearStateMachine"
  ssh_serverDone :: bool

definition newSSHStream :: sshStream where
  "newSSHStream =
     \<lparr>ssh_clientBuf = \<lparr>Buf = []\<rparr>, ssh_clientMap = None, ssh_clientUpdated = False,
      ssh_clientLSM = NewLinearStateMachine [parseClientExchangeLine], ssh_clientDone = False,
      ssh_serverBuf = \<lparr>Buf = []\<rparr>, ssh_serverMap = None, ssh_serverUpdated = False,
      ssh_serverLSM = NewLinearStateMachine [parseServerExchangeLine], ssh_serverDone = False\<rparr>"

definition sshStream_parseExchangeLine ::
    "ByteBuffer \<Rightarrow> (LSMAction \<times> PropMap option) \<times> ByteBuffer" where
  "sshStream_parseExchangeLine buf =
     (case ByteBuffer_GetUntil buf [13, 10] True True of
        (None, b) \<Rightarrow> ((LSMActionPause, None), b)
      | (Some line, b) \<Rightarrow>
          if \<not> strings_HasPrefix (go_string line) ''SSH-'' then ((LSMActionCancel, None), b)
          else
            (let fields = strings_Fields (go_string (take (length line - 2) line)) in
             if length fields < 1 \<or> 2 < length fields then ((LSMActionCancel, None), b)
             else
               (let sshFields = strings_SplitN (fields ! 0) ''-'' 3 in
                if length sshFields \<noteq> 3 then ((LSMActionCancel, None), b)
                else
                  (let sMap = [''protocol'' \<mapsto> PStr (sshFields ! 1), ''software'' \<mapsto> PStr (sshFields ! 2)];
                       sMap = (if length fields = 2 then sMap(''comments'' \<mapsto> PStr (fields ! 1)) else sMap) in
                   ((LSMActionNext, Some sMap), b)))))"

definition sshStream_parseClientExchangeLine :: "sshStream \<Rightarrow> LSMAction \<times> sshStream" where
  "sshStream_parseClientExchangeLine s =
     (case sshStream_parseExchangeLine (ssh_clientBuf s) of
        ((action, sMap), b) \<Rightarrow>
          (action,
           if action = LSMActionNext
           then s\<lparr>ssh_clientBuf := b, ssh_clientMap := sMap, ssh_clientUpdated := True\<rparr>
           else s\<lparr>ssh_clientBuf := b\<rparr>))"

definition sshStream_parseServerExchangeLine :: "sshStream \<Rightarrow> LSMAction \<times> sshStream" where
  "sshStream_parseServerExchangeLine s =
     (case sshStream_parseExchangeLine (ssh_serverBuf s) of
        ((action, sMap), b) \<Rightarrow>
          (action,
           if action = LSMActionNext
           then s\<lparr>ssh_serverBuf := b, ssh_serverMap := sMap, ssh_serverUpdated := True\<rparr>
           else s\<lparr>ssh_serverBuf := b\<rparr>))"

fun ssh_exec :: "ssh_step \<Rightarrow> sshStream \<Rightarrow> (LSMAction \<times> sshStream) go" where
  "ssh_exec parseClientExchangeLine s = Some (sshStream_parseClientExchangeLine s)"
| "ssh_exec parseServerExchangeLine s = Some (sshStream_parseServerExchangeLine s)"

definition sshStream_Feed ::
    "bool \<Rightarrow> bool \<Rightarrow> bool \<Rightarrow> int \<Rightarrow> bytes \<Rightarrow> sshStream \<Rightarrow> sshStream feed_result" where
  "sshStream_Feed rv st en skip data s =
     (if skip \<noteq> 0 then Some (Some ((None, True), s))
      else if length data = 0 then Some (Some ((None, False), s))
      else if rv then
        (let s = s\<lparr>ssh_serverBuf := ByteBuffer_Append (ssh_serverBuf s) data, ssh_serverUpdated := False\<rparr> in
         case LinearStateMachine_Run ssh_exec ssh_serverLSM ssh_serverLSM_update s of
           None \<Rightarrow> None
         | Some None \<Rightarrow> Some None
         | Some (Some ((cancelled, dn), s)) \<Rightarrow>
             (let s = s\<lparr>ssh_serverDone := dn\<rparr>;
                  (update, s) =
                    (if ssh_serverUpdated s
                     then (Some \<lparr>Type = PropUpdateMerge, M = [''server'' \<mapsto> PMap (the_map (ssh_serverMap s))]\<rparr>,
                           s\<lparr>ssh_serverUpdated := False\<rparr>)
                     else (None, s)) in
              Some (Some ((update, cancelled \<or> (ssh_clientDone s \<and> ssh_serverDone s)), s))))
      else
        (let s = s\<lparr>ssh_clientBuf := ByteBuffer_Append (ssh_clientBuf s) data, ssh_clientUpdated := False\<rparr> in
         case LinearStateMachine_Run ssh_exec ssh_clientLSM ssh_clientLSM_update s of
           None \<Rightarrow> None
         | Some None \<Rightarrow> Some None
         | Some (Some ((cancelled, dn), s)) \<Rightarrow>
             (let s = s\<lparr>ssh_clientDone := dn\<rparr>;
                  (update, s) =
                    (if ssh_clientUpdated s
                     then (Some \<lparr>Type = PropUpdateMerge, M = [''client'' \<mapsto> PMap (the_map (ssh_clientMap s))]\<rparr>,
                           s\<lparr>ssh_clientUpdated := False\<rparr>)
                     else (None, s)) in
              Some (Some ((update, cancelled \<or> (ssh_clientDone s \<and> ssh_serverDone s)), s)))))"

definition sshStream_Close :: "bool \<Rightarrow> sshStream \<Rightarrow> PropUpdate option \<times> sshStream" where
  "sshStream_Close limited s =
     (None, s\<lparr>ssh_clientBuf := ByteBuffer_Reset (ssh_clientBuf s), ssh_serverBuf := ByteBuffer_Reset (ssh_serverBuf s),
              ssh_clientMap := None, ssh_serverMap := None\<rparr>)"

section \<open>Safety\<close>

definition ssh_inv :: "sshStream \<Rightarrow> bool" where
  "ssh_inv s \<longleftrightarrow> Steps (ssh_clientLSM s) = [parseClientExchangeLine]
     \<and> Steps (ssh_serverLSM s) = [parseServerExchangeLine]"

lemma exchange_no_reset: "fst (fst (sshStream_parseExchangeLine b)) \<noteq> LSMActionReset"
  by (simp add: sshStream_parseExchangeLine_def Let_def split: prod.split option.split)

interpretation ssh_client: lsm_linear ssh_exec ssh_clientLSM ssh_clientLSM_update ssh_inv
proof
  fix s
  assume "ssh_inv s" "lsm_index (ssh_clientLSM s) < length (Steps (ssh_clientLSM s))"
  then show "\<exists>a s'. ssh_exec (Steps (ssh_clientLSM s) ! lsm_index (ssh_clientLSM s)) s = Some (a, s')
      \<and> a \<noteq> LSMActionReset \<and> ssh_clientLSM s' = ssh_clientLSM s
      \<and> ssh_inv (if a = LSMActionNext then ssh_clientLSM_update lsm_next s'
                 else if a = LSMActionCancel then ssh_clientLSM_update lsm_cancel s' else s')"
    using exchange_no_reset [of "ssh_clientBuf s"]
    by (cases "fst (fst (sshStream_parseExchangeLine (ssh_clientBuf s)))")
      (auto simp: ssh_inv_def sshStream_parseClientExchangeLine_def split: prod.split)
qed simp

interpretation ssh_server: lsm_linear ssh_exec ssh_serverLSM ssh_serverLSM_update ssh_inv
proof
  fix s
  assume "ssh_inv s" "lsm_index (ssh_serverLSM s) < length (Steps (ssh_serverLSM s))"
  then show "\<exists>a s'. ssh_exec (Steps (ssh_serverLSM s) ! lsm_index (ssh_serverLSM s)) s = Some (a, s')
      \<and> a \<noteq> LSMActionReset \<and> ssh_serverLSM s' = ssh_serverLSM s
      \<and> ssh_inv (if a = LSMActionNext then ssh_serverLSM_update lsm_next s'
                 else if a = LSMActionCancel then ssh_serverLSM_update lsm_cancel s' else s')"
    using exchange_no_reset [of "ssh_serverBuf s"]
    by (cases "fst (fst (sshStream_parseExchangeLine (ssh_serverBuf s)))")
      (auto simp: ssh_inv_def sshStream_parseServerExchangeLine_def split: prod.split)
qed simp

lemma ssh_inv_upd [simp]:
  "ssh_inv (s\<lparr>ssh_clientBuf := b\<rparr>) = ssh_inv s" "ssh_inv (s\<lparr>ssh_serverBuf := b\<rparr>) = ssh_inv s"
  "ssh_inv (s\<lparr>ssh_clientUpdated := x\<rparr>) = ssh_inv s" "ssh_inv (s\<lparr>ssh_serverUpdated := x\<rparr>) = ssh_inv s"
  "ssh_inv (s\<lparr>ssh_clientDone := x\<rparr>) = ssh_inv s" "ssh_inv (s\<lparr>ssh_serverDone := x\<rparr>) = ssh_inv s"
  by (simp_all add: ssh_inv_def)

lemma ssh_inv_new: "ssh_inv newSSHStream"
  by (simp add: ssh_inv_def newSSHStream_def NewLinearStateMachine_def)

text \<open>
  Feeding any data to an SSH stream that satisfies the invariant returns without a panic and
  keeps the invariant.
\<close>

lemma sshStream_Feed_total:
  assumes "ssh_inv s"
  shows "\<exists>u d s'. sshStream_Feed rv st en skip data s = Some (Some ((u, d), s')) \<and> ssh_inv s'"
proof (cases "skip \<noteq> 0 \<or> data = []")
  case True
  with assms show ?thesis by (auto simp: sshStream_Feed_def)
next
  case False
  let ?q = "s\<lparr>ssh_clientBuf := ByteBuffer_Append (ssh_clientBuf s) data, ssh_clientUpdated := False\<rparr>"
  let ?p = "s\<lparr>ssh_serverBuf := ByteBuffer_Append (ssh_serverBuf s) data, ssh_serverUpdated := False\<rparr>"
  from assms have "ssh_inv ?q" "ssh_inv ?p" by simp_all
  from ssh_client.run_total [OF this(1)] ssh_server.run_total [OF this(2)]
  obtain c1 d1 s1 c2 d2 s2 where
    "LinearStateMachine_Run ssh_exec ssh_clientLSM ssh_clientLSM_update ?q = Some (Some ((c1, d1), s1))"
    "ssh_inv s1"
    "LinearStateMachine_Run ssh_exec ssh_serverLSM ssh_serverLSM_update ?p = Some (Some ((c2, d2), s2))"
    "ssh_inv s2"
    by metis
  with False show ?thesis
    by (cases rv) (simp_all add: sshStream_Feed_def Let_def)
qed

section \<open>The version line\<close>

text \<open>What is published for a version line with one word of comments, or none.\<close>

definition ssh_map :: "string \<Rightarrow> string \<Rightarrow> string option \<Rightarrow> PropMap" where
  "ssh_map protocol software comments =
     (case comments of
        None \<Rightarrow> [''protocol'' \<mapsto> PStr protocol, ''software'' \<mapsto> PStr software]
      | Some c \<Rightarrow> [''protocol'' \<mapsto> PStr protocol, ''software'' \<mapsto> PStr software, ''comments'' \<mapsto> PStr c])"

definition ssh_line :: "string \<Rightarrow> string \<Rightarrow> string option \<Rightarrow> string" where
  "ssh_line protocol software comments =
     ''SSH-'' @ protocol @ ''-'' @ software @ (case comments of None \<Rightarrow> '''' | Some c \<Rightarrow> '' '' @ c)"

lemma no_CR_fields:
  "list_all token_char s \<Longrightarrow> 13 \<notin> set (go_bytes s)"
proof
  assume tok: "list_all token_char s" and "13 \<in> set (go_bytes s)"
  then obtain c where c: "c \<in> set s" "byte_of_char c = 13"
    by (auto simp: go_bytes_def)
  then have "c = char_of_byte 13"
    by (metis char_of_byte_of_char)
  then have "of_char c = (13 :: nat)"
    by (simp add: char_of_byte_def)
  with tok c(1) show False
    by (auto simp: list_all_iff token_char_def ascii_space_def)
qed

lemma dash_split:
  assumes "CHR ''-'' \<notin> set a" "CHR ''-'' \<notin> set b"
  shows "strings_SplitN (a @ CHR ''-'' # b @ CHR ''-'' # c) ''-'' 3 = [a, b, c]"
  using assms bytes_Index_single [of "CHR ''-''" a "b @ CHR ''-'' # c"] bytes_Index_single [of "CHR ''-''" b c]
  by (simp add: eval_nat_numeral)

lemma strings_Fields_1: "list_all token_char a \<Longrightarrow> a \<noteq> [] \<Longrightarrow> strings_Fields a = [a]"
  using fields_from_token [of a "[]" "[]"] by (simp add: strings_Fields_def emit_field_def)

lemma parse_exchange_line:
  assumes "list_all token_char protocol" "CHR ''-'' \<notin> set protocol" "list_all token_char software"
    and "\<And>c. comments = Some c \<Longrightarrow> c \<noteq> [] \<and> list_all token_char c"
    and buf: "Buf b = go_bytes (ssh_line protocol software comments) @ [13, 10] @ rest"
  shows "sshStream_parseExchangeLine b =
           ((LSMActionNext, Some (ssh_map protocol software comments)), \<lparr>Buf = rest\<rparr>)"
proof -
  let ?l = "ssh_line protocol software comments"
  let ?v = "''SSH-'' @ protocol @ ''-'' @ software"
  have v: "list_all token_char ?v"
    using assms(1,3) by (simp add: token_char_def ascii_space_def)
  have "13 \<notin> set (go_bytes ?l)"
    using no_CR_fields [OF v] assms(4) no_CR_fields
    by (cases comments) (auto simp: ssh_line_def go_bytes_Cons byte_of_char_def)
  from bytes_Index_line [OF this, of "[10]" rest] have idx: "bytes_Index (Buf b) [13, 10] = Some (length ?l)"
    by (simp add: buf)
  have "ByteBuffer_GetUntil b [13, 10] True True = (Some (go_bytes ?l @ [13, 10]), \<lparr>Buf = rest\<rparr>)"
    unfolding GetUntil_Some_iff using idx buf by (intro exI [of _ "length ?l"]) simp
  moreover have "strings_HasPrefix (go_string (go_bytes ?l @ [13, 10])) ''SSH-''"
    by (simp add: ssh_line_def strings_HasPrefix_def)
  moreover have "strings_Fields ?l = ?v # (case comments of None \<Rightarrow> [] | Some c \<Rightarrow> [c])"
    using v assms(4) strings_Fields_1 [of ?v] strings_Fields_2 [of ?v]
    by (cases comments) (auto simp: ssh_line_def)
  moreover have "strings_SplitN ?v ''-'' 3 = [''SSH'', protocol, software]"
    using dash_split [of "''SSH''" protocol software] assms(2) by simp
  ultimately show ?thesis
    by (cases comments) (simp_all add: sshStream_parseExchangeLine_def ssh_map_def Let_def)
qed

text \<open>
  A client identification line with protocol, software and an optional comment without blanks
  publishes those three parts, whatever follows it.
\<close>

lemma ssh_line_published:
  assumes "list_all token_char protocol" "CHR ''-'' \<notin> set protocol" "list_all token_char software"
    and "\<And>c. comments = Some c \<Longrightarrow> c \<noteq> [] \<and> list_all token_char c"
  shows "\<exists>s. sshStream_Feed False st en 0 (go_bytes (ssh_line protocol software comments) @ [13, 10] @ rest)
               newSSHStream =
             Some (Some ((Some \<lparr>Type = PropUpdateMerge,
                                M = [''client'' \<mapsto> PMap (ssh_map protocol software comments)]\<rparr>, False), s))"
proof -
  let ?d = "go_bytes (ssh_line protocol software comments) @ [13, 10] @ rest"
  let ?s0 = "newSSHStream\<lparr>ssh_clientBuf := \<lparr>Buf = ?d\<rparr>, ssh_clientUpdated := False\<rparr>"
  let ?s1 = "?s0\<lparr>ssh_clientBuf := \<lparr>Buf = rest\<rparr>,
                 ssh_clientMap := Some (ssh_map protocol software comments), ssh_clientUpdated := True\<rparr>"
  let ?run = "LinearStateMachine_loop ssh_exec ssh_clientLSM ssh_clientLSM_update"
  note line = parse_exchange_line [where comments = comments and b = "\<lparr>Buf = ?d\<rparr>", OF assms, simplified]
  have "?run ?s0 = ?run (ssh_clientLSM_update lsm_next ?s1)"
    by (rule loop_Next)
      (simp_all add: newSSHStream_def NewLinearStateMachine_def sshStream_parseClientExchangeLine_def line)
  also have "\<dots> = Some (Some ((False, True), ssh_clientLSM_update lsm_next ?s1))"
    by (rule loop_end) (simp add: newSSHStream_def NewLinearStateMachine_def)
  finally have "LinearStateMachine_Run ssh_exec ssh_clientLSM ssh_clientLSM_update ?s0 =
      Some (Some ((False, True), ssh_clientLSM_update lsm_next ?s1))"
    by (subst run_loop) (simp_all add: newSSHStream_def NewLinearStateMachine_def)
  then show ?thesis
    by (simp add: sshStream_Feed_def ByteBuffer_Append_def newSSHStream_def the_map_def Let_def)
qed

section \<open>The statements at concrete inputs\<close>

theorem ssh_line_published_witness:
  "\<exists>s. sshStream_Feed False True False 0 (go_bytes (ssh_line ''2.0'' ''Go'' (Some ''x'')) @ [13, 10] @ [1]) newSSHStream =
     Some (Some ((Some \<lparr>Type = PropUpdateMerge,
                       M = [''client'' \<mapsto> PMap (ssh_map ''2.0'' ''Go'' (Some ''x''))]\<rparr>, False), s))"
  by (rule ssh_line_published) (auto simp: token_char_def ascii_space_def)

end
