(* ===== verification/Hashes.thy ===== *)
theory Hashes
  imports Prelude
begin

text \<open>
  The two digests of the standard library that \<open>analyzer/internal/tls.go\<close> calls, as the published
  algorithms compute them: \<open>md5.Sum\<close> (RFC 1321) and \<open>sha256.Sum256\<close> (FIPS 180-4). The constant
  tables are in decimal.
\<close>

section \<open>Blocks\<close>

function chunks :: "nat \<Rightarrow> 'a list \<Rightarrow> 'a list list" where
  "chunks n xs = (if n = 0 \<or> xs = [] then [] else take n xs # chunks n (drop n xs))"
  by pat_completeness auto
termination by (relation "measure (\<lambda>(n, xs). length xs)") auto

declare chunks.simps [simp del]

definition len_bytes :: "nat \<Rightarrow> bytes" where
  "len_bytes n = map (\<lambda>i. of_nat (n * 8 div 256 ^ i)) (rev [0..<8])"

definition md_pad :: "nat \<Rightarrow> bytes" where
  "md_pad n = 0x80 # replicate ((119 - n mod 64) mod 64) 0"

section \<open>SHA-256\<close>

definition sha256_K :: "u32 list" where
  "sha256_K =
    [1116352408, 1899447441, 3049323471, 3921009573, 961987163, 1508970993, 2453635748,
     2870763221, 3624381080, 310598401, 607225278, 1426881987, 1925078388, 2162078206,
     2614888103, 3248222580, 3835390401, 4022224774, 264347078, 604807628, 770255983,
     1249150122, 1555081692, 1996064986, 2554220882, 2821834349, 2952996808, 3210313671,
     3336571891, 3584528711, 113926993, 338241895, 666307205, 773529912, 1294757372, 1396182291,
     1695183700, 1986661051, 2177026350, 2456956037, 2730485921, 2820302411, 3259730800,
     3345764771, 3516065817, 3600352804, 4094571909, 275423344, 430227734, 506948616, 659060556,
     883997877, 958139571, 1322822218, 1537002063, 1747873779, 1955562222, 2024104815,
     2227730452, 2361852424, 2428436474, 2756734187, 3204031479, 3329325298]"

type_synonym sha_state = "u32 \<times> u32 \<times> u32 \<times> u32 \<times> u32 \<times> u32 \<times> u32 \<times> u32"

definition sha256_init :: sha_state where
  "sha256_init = (0x6a09e667, 0xbb67ae85, 0x3c6ef372, 0xa54ff53a,
     0x510e527f, 0x9b05688c, 0x1f83d9ab, 0x5be0cd19)"

fun be_words :: "bytes \<Rightarrow> u32 list" where
  "be_words (a # b # c # d # r) = be_u32 a b c d # be_words r"
| "be_words _ = []"

text \<open>The message schedule, built from its newest word back.\<close>

fun sha256_extend :: "nat \<Rightarrow> u32 list \<Rightarrow> u32 list" where
  "sha256_extend 0 w = w"
| "sha256_extend (Suc n) w =
     (let x = w ! 14; y = w ! 1;
          s0 = word_rotr 7 x XOR word_rotr 18 x XOR drop_bit 3 x;
          s1 = word_rotr 17 y XOR word_rotr 19 y XOR drop_bit 10 y in
      sha256_extend n ((w ! 15 + s0 + w ! 6 + s1) # w))"

fun sha256_round :: "sha_state \<Rightarrow> u32 \<times> u32 \<Rightarrow> sha_state" where
  "sha256_round (a, b, c, d, e, f, g, h) (k, w) =
     (let t1 = h + (word_rotr 6 e XOR word_rotr 11 e XOR word_rotr 25 e)
                 + ((e AND f) XOR (NOT e AND g)) + k + w;
          t2 = (word_rotr 2 a XOR word_rotr 13 a XOR word_rotr 22 a)
                 + ((a AND b) XOR (a AND c) XOR (b AND c)) in
      (t1 + t2, a, b, c, d + t1, e, f, g))"

fun sha_add :: "sha_state \<Rightarrow> sha_state \<Rightarrow> sha_state" where
  "sha_add (a, b, c, d, e, f, g, h) (a', b', c', d', e', f', g', h') =
     (a + a', b + b', c + c', d + d', e + e', f + f', g + g', h + h')"

definition sha256_block :: "sha_state \<Rightarrow> bytes \<Rightarrow> sha_state" where
  "sha256_block s blk =
     sha_add s (foldl sha256_round s (zip sha256_K (rev (sha256_extend 48 (rev (be_words blk))))))"

definition be_word_bytes :: "u32 \<Rightarrow> bytes" where
  "be_word_bytes w = [ucast (drop_bit 24 w), ucast (drop_bit 16 w), ucast (drop_bit 8 w), ucast w]"

fun sha_bytes :: "sha_state \<Rightarrow> bytes" where
  "sha_bytes (a, b, c, d, e, f, g, h) = concat (map be_word_bytes [a, b, c, d, e, f, g, h])"

definition sha256_Sum256 :: "bytes \<Rightarrow> bytes" where
  "sha256_Sum256 m =
     sha_bytes (foldl sha256_block sha256_init
       (chunks 64 (m @ md_pad (length m) @ len_bytes (length m))))"

section \<open>MD5\<close>

definition md5_K :: "u32 list" where
  "md5_K =
    [3614090360, 3905402710, 606105819, 3250441966, 4118548399, 1200080426, 2821735955,
     4249261313, 1770035416, 2336552879, 4294925233, 2304563134, 1804603682, 4254626195,
     2792965006, 1236535329, 4129170786, 3225465664, 643717713, 3921069994, 3593408605,
     38016083, 3634488961, 3889429448, 568446438, 3275163606, 4107603335, 1163531501,
     2850285829, 4243563512, 1735328473, 2368359562, 4294588738, 2272392833, 1839030562,
     4259657740, 2763975236, 1272893353, 4139469664, 3200236656, 681279174, 3936430074,
     3572445317, 76029189, 3654602809, 3873151461, 530742520, 3299628645, 4096336452,
     1126891415, 2878612391, 4237533241, 1700485571, 2399980690, 4293915773, 2240044497,
     1873313359, 4264355552, 2734768916, 1309151649, 4149444226, 3174756917, 718787259,
     3951481745]"

definition md5_shifts :: "nat list" where
  "md5_shifts = concat (map (\<lambda>q. concat (replicate 4 q))
     [[7, 12, 17, 22], [5, 9, 14, 20], [4, 11, 16, 23], [6, 10, 15, 21]])"

type_synonym md5_state = "u32 \<times> u32 \<times> u32 \<times> u32"

fun le_words :: "bytes \<Rightarrow> u32 list" where
  "le_words (a # b # c # d # r) = le_u32 a b c d # le_words r"
| "le_words _ = []"

fun md5_round :: "u32 list \<Rightarrow> md5_state \<Rightarrow> nat \<times> u32 \<times> nat \<Rightarrow> md5_state" where
  "md5_round w (a, b, c, d) (i, k, s) =
     (let (f, g) =
        (if i < 16 then ((b AND c) OR (NOT b AND d), i)
         else if i < 32 then ((d AND b) OR (NOT d AND c), (5 * i + 1) mod 16)
         else if i < 48 then (b XOR c XOR d, (3 * i + 5) mod 16)
         else (c XOR (b OR NOT d), (7 * i) mod 16)) in
      (d, b + word_rotl s (f + a + k + w ! g), b, c))"

fun md5_add :: "md5_state \<Rightarrow> md5_state \<Rightarrow> md5_state" where
  "md5_add (a, b, c, d) (a', b', c', d') = (a + a', b + b', c + c', d + d')"

definition md5_block :: "md5_state \<Rightarrow> bytes \<Rightarrow> md5_state" where
  "md5_block s blk = md5_add s (foldl (md5_round (le_words blk)) s (zip [0..<64] (zip md5_K md5_shifts)))"

fun md5_bytes :: "md5_state \<Rightarrow> bytes" where
  "md5_bytes (a, b, c, d) = concat (map (rev \<circ> be_word_bytes) [a, b, c, d])"

definition md5_Sum :: "bytes \<Rightarrow> bytes" where
  "md5_Sum m =
     md5_bytes (foldl md5_block (0x67452301, 0xefcdab89, 0x98badcfe, 0x10325476)
       (chunks 64 (m @ md_pad (length m) @ rev (len_bytes (length m)))))"

section \<open>Lengths\<close>

lemma length_sha256 [simp, len_simps]: "length (sha256_Sum256 m) = 32"
proof -
  have "length (sha_bytes s) = 32" for s
    by (cases s rule: sha_bytes.cases) (simp add: be_word_bytes_def)
  then show ?thesis by (simp add: sha256_Sum256_def)
qed

lemma length_md5 [simp, len_simps]: "length (md5_Sum m) = 16"
proof -
  have "length (md5_bytes s) = 16" for s
    by (cases s) (simp add: be_word_bytes_def)
  then show ?thesis by (simp add: md5_Sum_def)
qed

end
