(* ===== verification/TLSHello.thy ===== *)
theory TLSHello
  imports ByteBuffer Props Hashes "HOL-Library.Multiset"
begin

text \<open>
  \<open>analyzer/internal/tls.go\<close>: the parsers of the bodies of ClientHello and ServerHello messages,
  shared by the TLS and the QUIC analyzer, and the JA3 and JA4 fingerprints. A parser reads from a
  buffer of its own and returns \<open>None\<close> where the source returns a nil map. The loops read until
  their buffer is empty; they end because every pass consumes data.
\<close>

definition RecordTypeHandshake :: byte where "RecordTypeHandshake = 0x16"
definition TypeClientHello :: byte where "TypeClientHello = 0x01"
definition TypeServerHello :: byte where "TypeServerHello = 0x02"

definition extServerName :: u16 where "extServerName = 0x0000"
definition extSupportedGroups :: u16 where "extSupportedGroups = 0x000a"
definition extECPointFormats :: u16 where "extECPointFormats = 0x000b"
definition extSignatureAlgorithms :: u16 where "extSignatureAlgorithms = 0x000d"
definition extALPN :: u16 where "extALPN = 0x0010"
definition extSupportedVersions :: u16 where "extSupportedVersions = 0x002b"
definition extEncryptedClientHello :: u16 where "extEncryptedClientHello = 0xfe0d"

lemmas ext_defs = extServerName_def extSupportedGroups_def extECPointFormats_def
  extSignatureAlgorithms_def extALPN_def extSupportedVersions_def extEncryptedClientHello_def

section \<open>Fingerprints\<close>

definition isGREASE :: "u16 \<Rightarrow> bool" where
  "isGREASE value =
     (let high = ucast (drop_bit 8 value) :: byte; low = ucast value :: byte in
      high = low \<and> high AND 0x0f = 0x0a)"

definition filterGREASE :: "u16 list \<Rightarrow> u16 list" where
  "filterGREASE values = filter (\<lambda>v. \<not> isGREASE v) values"

definition joinUint16sJA3 :: "u16 list \<Rightarrow> string" where
  "joinUint16sJA3 values =
     strings_Join (map (\<lambda>v. strconv_Itoa (uint v)) (filter (\<lambda>v. \<not> isGREASE v) values)) ''-''"

definition joinUint8s :: "byte list \<Rightarrow> string" where
  "joinUint8s values = strings_Join (map (\<lambda>v. strconv_Itoa (uint v)) values) ''-''"

definition ja4SHA12 :: "string \<Rightarrow> string" where
  "ja4SHA12 value = take 12 (hex_EncodeToString (sha256_Sum256 (go_bytes value)))"

definition ja4HexParts :: "u16 list \<Rightarrow> string list" where
  "ja4HexParts values = map fmt_04x values"

definition ja4HashHexValues :: "u16 list \<Rightarrow> string" where
  "ja4HashHexValues values =
     (if length values = 0 then ''000000000000''
      else ja4SHA12 (strings_Join (ja4HexParts (sort values)) '',''))"

definition ja4ExtensionHash :: "u16 list \<Rightarrow> u16 list \<Rightarrow> string" where
  "ja4ExtensionHash extensionValues signatureAlgorithms =
     (let values = filter (\<lambda>v. v \<noteq> extServerName \<and> v \<noteq> extALPN) extensionValues;
          parts = ja4HexParts (sort values);
          sigParts = (if 0 < length signatureAlgorithms
                      then ja4HexParts (filterGREASE signatureAlgorithms) else []) in
      if 0 < length sigParts
      then ja4SHA12 (strings_Join parts '','' @ ''_'' @ strings_Join sigParts '','')
      else if length parts = 0 then ''000000000000''
      else ja4SHA12 (strings_Join parts '',''))"

text \<open>An \<open>interface{}\<close> asserted to a dynamic type, with the zero value when it has another one.\<close>

definition as_u16s :: "pval option \<Rightarrow> u16 list" where
  "as_u16s v = (case v of Some (PU16s us) \<Rightarrow> us | _ \<Rightarrow> [])"

definition as_bytes :: "pval option \<Rightarrow> bytes" where
  "as_bytes v = (case v of Some (PBytes bs) \<Rightarrow> bs | _ \<Rightarrow> [])"

definition as_u16 :: "pval option \<Rightarrow> u16" where
  "as_u16 v = (case v of Some (PU16 u) \<Rightarrow> u | _ \<Rightarrow> 0)"

definition ja4TLSVersion :: "u16 \<Rightarrow> pval option \<Rightarrow> string" where
  "ja4TLSVersion version supportedVersions =
     (let values = sort (filterGREASE (as_u16s supportedVersions));
          version = (if 0 < length values then values ! (length values - 1) else version) in
      if version = 0x0002 then ''s2'' else if version = 0x0300 then ''s3''
      else if version = 0x0301 then ''10'' else if version = 0x0302 then ''11''
      else if version = 0x0303 then ''12'' else if version = 0x0304 then ''13'' else ''00'')"

definition ja4ALPN :: "pval option \<Rightarrow> string" where
  "ja4ALPN alpn =
     (let value = (case alpn of Some (PStrs (v # vs)) \<Rightarrow> v | Some (PStr s) \<Rightarrow> s | _ \<Rightarrow> '''') in
      if value = '''' then ''00''
      else if 127 < byte_of_char (value ! 0) then ''99''
      else if 2 < length value then [value ! 0, value ! (length value - 1)]
      else value)"

definition buildJA4 ::
    "string \<Rightarrow> u16 \<Rightarrow> pval option \<Rightarrow> pval option \<Rightarrow> u16 list \<Rightarrow> u16 list \<Rightarrow> pval option \<Rightarrow> u16 list \<Rightarrow> string" where
  "buildJA4 protocol version supportedVersions sni ciphers extensionTypes alpn signatureAlgorithms =
     (let protocol = (if protocol = '''' then ''t'' else protocol);
          cipherValues = filterGREASE ciphers;
          extensionValues = filterGREASE extensionTypes;
          sniFlag = (case sni of Some (PStr _) \<Rightarrow> ''d'' | _ \<Rightarrow> ''i'') in
      protocol @ ja4TLSVersion version supportedVersions @ sniFlag
        @ fmt_02d (min (length cipherValues) 99) @ fmt_02d (min (length extensionValues) 99)
        @ ja4ALPN alpn @ ''_'' @ ja4HashHexValues cipherValues
        @ ''_'' @ ja4ExtensionHash extensionValues signatureAlgorithms)"

definition addTLSClientHelloFingerprint :: "PropMap \<Rightarrow> u16 list \<Rightarrow> string \<Rightarrow> PropMap" where
  "addTLSClientHelloFingerprint m extensionTypes ja4Protocol =
     (let m = (if m ''ech'' = None then m(''ech'' \<mapsto> PBool False) else m);
          version = as_u16 (m ''version'');
          ciphers = as_u16s (m ''ciphers'');
          groups = as_u16s (m ''supported_groups'');
          pointFormats = as_bytes (m ''ec_point_formats'');
          signatureAlgorithms = as_u16s (m ''signature_algorithms'');
          ja3 = strings_Join
            [strconv_Itoa (uint version), joinUint16sJA3 ciphers, joinUint16sJA3 extensionTypes,
             joinUint16sJA3 groups, joinUint8s pointFormats] '','';
          m = m(''ja3'' \<mapsto> PStr ja3,
                ''ja3_hash'' \<mapsto> PStr (hex_EncodeToString (md5_Sum (go_bytes ja3))),
                ''ja4'' \<mapsto> PStr (buildJA4 ja4Protocol version (m ''supported_versions'') (m ''sni'')
                                   ciphers extensionTypes (m ''alpn'') signatureAlgorithms)) in
      m(''supported_groups'' := None, ''ec_point_formats'' := None, ''signature_algorithms'' := None))"

section \<open>Extensions\<close>

text \<open>\<open>for extDataBuf.Len() > 0 { GetUint16; append }\<close>, and the same loop over bytes and strings.\<close>

function read_u16s :: "ByteBuffer \<Rightarrow> u16 list option" where
  "read_u16s b =
     (if 0 < ByteBuffer_Len b then
        (case ByteBuffer_GetUint16 b False True of
           (None, _) \<Rightarrow> None
         | (Some u, b') \<Rightarrow> (case read_u16s b' of None \<Rightarrow> None | Some us \<Rightarrow> Some (u # us)))
      else Some [])"
  by pat_completeness auto
termination
  by (relation "measure (length \<circ> Buf)") (auto simp: GetUint16_Some_iff dest!: sym [of "(Some _, _)"])

function read_u8s :: "ByteBuffer \<Rightarrow> byte list option" where
  "read_u8s b =
     (if 0 < ByteBuffer_Len b then
        (case ByteBuffer_GetByte b True of
           (None, _) \<Rightarrow> None
         | (Some u, b') \<Rightarrow> (case read_u8s b' of None \<Rightarrow> None | Some us \<Rightarrow> Some (u # us)))
      else Some [])"
  by pat_completeness auto
termination
  by (relation "measure (length \<circ> Buf)") (auto simp: GetByte_Some_iff dest!: sym [of "(Some _, _)"])

function read_alpns :: "ByteBuffer \<Rightarrow> string list option" where
  "read_alpns b =
     (if 0 < ByteBuffer_Len b then
        (case ByteBuffer_GetByte b True of
           (None, _) \<Rightarrow> None
         | (Some n, b1) \<Rightarrow>
             (case ByteBuffer_GetString b1 (unat n) True of
                (None, _) \<Rightarrow> None
              | (Some s, b2) \<Rightarrow> (case read_alpns b2 of None \<Rightarrow> None | Some ss \<Rightarrow> Some (s # ss))))
      else Some [])"
  by pat_completeness auto
termination
  by (relation "measure (length \<circ> Buf)")
    (auto simp: GetByte_Some_iff GetString_Some_iff dest!: sym [of "(Some _, _)"])

declare read_u16s.simps [simp del] read_u8s.simps [simp del] read_alpns.simps [simp del]

text \<open>
  \<open>parseTLSExtensions\<close>: the map with what the extension adds, \<open>None\<close> for \<open>false\<close>, where the caller
  drops the map.
\<close>

definition parseTLSExtensions :: "u16 \<Rightarrow> ByteBuffer \<Rightarrow> PropMap \<Rightarrow> PropMap option" where
  "parseTLSExtensions extType buf m =
     (if extType = extServerName then
        (case ByteBuffer_Skip buf 2 of
           (False, _) \<Rightarrow> None
         | (True, buf) \<Rightarrow>
        (case ByteBuffer_GetByte buf True of
           (None, _) \<Rightarrow> None
         | (Some sniType, buf) \<Rightarrow> if sniType \<noteq> 0 then None else
        (case ByteBuffer_GetUint16 buf False True of
           (None, _) \<Rightarrow> None
         | (Some sniLen, buf) \<Rightarrow>
        (case ByteBuffer_GetString buf (unat sniLen) True of
           (None, _) \<Rightarrow> None
         | (Some sni, _) \<Rightarrow> Some (m(''sni'' \<mapsto> PStr sni))))))
      else if extType = extALPN then
        (case ByteBuffer_Skip buf 2 of
           (False, _) \<Rightarrow> None
         | (True, buf) \<Rightarrow> map_option (\<lambda>l. m(''alpn'' \<mapsto> PStrs l)) (read_alpns buf))
      else if extType = extSupportedGroups then
        (case ByteBuffer_Skip buf 2 of
           (False, _) \<Rightarrow> None
         | (True, buf) \<Rightarrow> map_option (\<lambda>l. m(''supported_groups'' \<mapsto> PU16s l)) (read_u16s buf))
      else if extType = extECPointFormats then
        (case ByteBuffer_Skip buf 1 of
           (False, _) \<Rightarrow> None
         | (True, buf) \<Rightarrow> map_option (\<lambda>l. m(''ec_point_formats'' \<mapsto> PBytes l)) (read_u8s buf))
      else if extType = extSignatureAlgorithms then
        (case ByteBuffer_Skip buf 2 of
           (False, _) \<Rightarrow> None
         | (True, buf) \<Rightarrow> map_option (\<lambda>l. m(''signature_algorithms'' \<mapsto> PU16s l)) (read_u16s buf))
      else if extType = extSupportedVersions then
        (if ByteBuffer_Len buf = 2 then
           (case ByteBuffer_GetUint16 buf False True of
              (None, _) \<Rightarrow> Some (m(''supported_versions'' \<mapsto> PU16 0))
            | (Some v, _) \<Rightarrow> Some (m(''supported_versions'' \<mapsto> PU16 v)))
         else
           (case ByteBuffer_Skip buf 1 of
              (False, _) \<Rightarrow> None
            | (True, buf) \<Rightarrow> map_option (\<lambda>l. m(''supported_versions'' \<mapsto> PU16s l)) (read_u16s buf)))
      else if extType = extEncryptedClientHello then Some (m(''ech'' \<mapsto> PBool True))
      else Some m)"

text \<open>
  The loop over the extensions, the same in both messages: the types met and the map. The
  ServerHello parser does not use the types.
\<close>

function parse_exts :: "ByteBuffer \<Rightarrow> PropMap \<Rightarrow> (u16 list \<times> PropMap) option" where
  "parse_exts extBuf m =
     (if 0 < ByteBuffer_Len extBuf then
        (case ByteBuffer_GetUint16 extBuf False True of
           (None, _) \<Rightarrow> None
         | (Some extType, b1) \<Rightarrow>
        (case ByteBuffer_GetUint16 b1 False True of
           (None, _) \<Rightarrow> None
         | (Some extLen, b2) \<Rightarrow>
        (case ByteBuffer_GetSubBuffer b2 (unat extLen) True of
           (None, _) \<Rightarrow> None
         | (Some extDataBuf, b3) \<Rightarrow>
        (case parseTLSExtensions extType extDataBuf m of
           None \<Rightarrow> None
         | Some m' \<Rightarrow> map_option (\<lambda>(ts, m''). (extType # ts, m'')) (parse_exts b3 m')))))
      else Some ([], m))"
  by pat_completeness auto
termination
  by (relation "measure (\<lambda>(b, m). length (Buf b))")
    (auto simp: GetUint16_Some_iff GetSubBuffer_Some_iff dest!: sym [of "(Some _, _)"])

declare parse_exts.simps [simp del]

section \<open>Messages\<close>

text \<open>\<open>for i := range ciphers { ciphers[i], ok = GetUint16 }\<close>\<close>

fun read_ciphers :: "nat \<Rightarrow> ByteBuffer \<Rightarrow> (u16 list \<times> ByteBuffer) option" where
  "read_ciphers 0 b = Some ([], b)"
| "read_ciphers (Suc n) b =
     (case ByteBuffer_GetUint16 b False True of
        (None, _) \<Rightarrow> None
      | (Some c, b') \<Rightarrow> map_option (\<lambda>(cs, b''). (c # cs, b'')) (read_ciphers n b'))"

text \<open>
  The three reads at the start of both messages, whose failures the source ignores: a value that
  could not be read is zero, and the buffer stays.
\<close>

definition hello_start :: "ByteBuffer \<Rightarrow> PropMap \<times> byte \<times> ByteBuffer" where
  "hello_start b =
     (let (version, b) = ByteBuffer_GetUint16 b False True;
          (random, b) = ByteBuffer_Get b 32 True;
          (sessionIDLen, b) = ByteBuffer_GetByte b True in
      ([''version'' \<mapsto> PU16 (case version of None \<Rightarrow> 0 | Some v \<Rightarrow> v),
        ''random'' \<mapsto> PBytes (case random of None \<Rightarrow> [] | Some r \<Rightarrow> r)],
       (case sessionIDLen of None \<Rightarrow> 0 | Some n \<Rightarrow> n), b))"

definition parseTLSClientHelloMsgData :: "ByteBuffer \<Rightarrow> string \<Rightarrow> PropMap option" where
  "parseTLSClientHelloMsgData chBuf ja4Protocol =
     (case hello_start chBuf of
        (m, sessionIDLen, b) \<Rightarrow>
     (case ByteBuffer_Get b (unat sessionIDLen) True of
        (None, _) \<Rightarrow> None
      | (Some session, b) \<Rightarrow>
     (case ByteBuffer_GetUint16 b False True of
        (None, _) \<Rightarrow> None
      | (Some cipherSuitesLen, b) \<Rightarrow>
     if cipherSuitesLen mod 2 \<noteq> 0 then None else
     (case read_ciphers (unat (cipherSuitesLen div 2)) b of
        None \<Rightarrow> None
      | Some (ciphers, b) \<Rightarrow>
     (case ByteBuffer_GetByte b True of
        (None, _) \<Rightarrow> None
      | (Some compressionMethodsLen, b) \<Rightarrow>
     (case ByteBuffer_Get b (unat compressionMethodsLen) True of
        (None, _) \<Rightarrow> None
      | (Some compression, b) \<Rightarrow>
     (let m = m(''session'' \<mapsto> PBytes session, ''ciphers'' \<mapsto> PU16s ciphers,
                ''cipher_count'' \<mapsto> PInt (int (length ciphers)),
                ''compression'' \<mapsto> PBytes compression) in
     (case ByteBuffer_GetUint16 b False True of
        (None, _) \<Rightarrow>
          Some (addTLSClientHelloFingerprint (m(''extension_types'' \<mapsto> PU16s [])) [] ja4Protocol)
      | (Some extsLen, b) \<Rightarrow>
     (case ByteBuffer_GetSubBuffer b (unat extsLen) True of
        (None, _) \<Rightarrow> None
      | (Some extBuf, _) \<Rightarrow>
     (case parse_exts extBuf m of
        None \<Rightarrow> None
      | Some (extensionTypes, m) \<Rightarrow>
          Some (addTLSClientHelloFingerprint (m(''extension_types'' \<mapsto> PU16s extensionTypes))
                  extensionTypes ja4Protocol)))))))))))"

definition ParseTLSClientHelloMsgData :: "ByteBuffer \<Rightarrow> PropMap option" where
  "ParseTLSClientHelloMsgData chBuf = parseTLSClientHelloMsgData chBuf ''t''"

definition ParseQUICClientHelloMsgData :: "ByteBuffer \<Rightarrow> PropMap option" where
  "ParseQUICClientHelloMsgData chBuf = parseTLSClientHelloMsgData chBuf ''q''"

definition ParseTLSServerHelloMsgData :: "ByteBuffer \<Rightarrow> PropMap option" where
  "ParseTLSServerHelloMsgData shBuf =
     (case hello_start shBuf of
        (m, sessionIDLen, b) \<Rightarrow>
     (case ByteBuffer_Get b (unat sessionIDLen) True of
        (None, _) \<Rightarrow> None
      | (Some session, b) \<Rightarrow>
     (case ByteBuffer_GetUint16 b False True of
        (None, _) \<Rightarrow> None
      | (Some cipherSuite, b) \<Rightarrow>
     (case ByteBuffer_GetByte b True of
        (None, _) \<Rightarrow> None
      | (Some compressionMethod, b) \<Rightarrow>
     (let m = m(''session'' \<mapsto> PBytes session, ''cipher'' \<mapsto> PU16 cipherSuite,
                ''compression'' \<mapsto> PU8 compressionMethod) in
     (case ByteBuffer_GetUint16 b False True of
        (None, _) \<Rightarrow> Some m
      | (Some extsLen, b) \<Rightarrow>
     (case ByteBuffer_GetSubBuffer b (unat extsLen) True of
        (None, _) \<Rightarrow> None
      | (Some extBuf, _) \<Rightarrow> map_option snd (parse_exts extBuf m))))))))"

section \<open>Properties of the fingerprints\<close>

text \<open>Sorting forgets the order and nothing else.\<close>

lemma sort_mset: "mset xs = mset ys \<Longrightarrow> sort xs = sort (ys :: 'a :: linorder list)"
  by (simp add: properties_for_sort)

lemma ja4HashHexValues_mset:
  "mset xs = mset ys \<Longrightarrow> ja4HashHexValues xs = ja4HashHexValues ys"
  using mset_eq_length [of xs ys] sort_mset [of xs ys] by (simp add: ja4HashHexValues_def)

lemma ja4ExtensionHash_mset:
  assumes "mset xs = mset ys"
  shows "ja4ExtensionHash xs sa = ja4ExtensionHash ys sa"
proof -
  let ?P = "\<lambda>v. v \<noteq> extServerName \<and> v \<noteq> extALPN"
  have "sort (filter ?P xs) = sort (filter ?P ys)"
    using assms by (intro sort_mset) simp
  then show ?thesis by (simp add: ja4ExtensionHash_def)
qed

lemma buildJA4_mset:
  assumes "mset (filterGREASE cs) = mset (filterGREASE cs')"
    and "mset (filterGREASE es) = mset (filterGREASE es')"
  shows "buildJA4 p v sv sni cs es alpn sa = buildJA4 p v sv sni cs' es' alpn sa"
  using ja4HashHexValues_mset [OF assms(1)] ja4ExtensionHash_mset [OF assms(2)]
    assms [THEN mset_eq_length]
  by (simp add: buildJA4_def Let_def)

lemma length_ja4ALPN:
  "length (ja4ALPN alpn) = 2 \<or>
     (\<exists>c. ja4ALPN alpn = [c] \<and> (alpn = Some (PStr [c]) \<or> (\<exists>vs. alpn = Some (PStrs ([c] # vs)))))"
proof -
  define name where "name = (case alpn of Some (PStrs (v # vs)) \<Rightarrow> v | Some (PStr s) \<Rightarrow> s | _ \<Rightarrow> '''')"
  have "length (ja4ALPN alpn) = 2 \<or> (\<exists>c. name = [c] \<and> ja4ALPN alpn = [c])"
    by (cases name; cases "tl name") (auto simp: ja4ALPN_def name_def [symmetric] Let_def)
  then show ?thesis
    by (auto simp: name_def split: option.splits pval.splits list.splits)
qed

lemma length_ja4SHA12 [simp]: "length (ja4SHA12 s) = 12"
  by (simp add: ja4SHA12_def)

lemma length_buildJA4:
  assumes "p \<noteq> ''''"
  shows "length (buildJA4 p v sv sni cs es alpn sa) = length p + 33 + length (ja4ALPN alpn)"
proof -
  have "length (ja4TLSVersion w x) = 2" for w x
    by (simp add: ja4TLSVersion_def Let_def)
  moreover have "length (ja4HashHexValues us) = 12" "length (ja4ExtensionHash us ws) = 12" for us ws
    by (simp_all add: ja4HashHexValues_def ja4ExtensionHash_def Let_def)
  moreover have "length (fmt_02d (min n 99)) = 2" for n
    by (simp add: length_fmt_02d)
  ultimately show ?thesis
    using assms by (simp add: buildJA4_def Let_def split: option.split pval.split)
qed

section \<open>Messages as a client writes them\<close>

definition enc_u16 :: "u16 \<Rightarrow> bytes" where
  "enc_u16 v = [ucast (drop_bit 8 v), ucast v]"

abbreviation enc_len16 :: "'a list \<Rightarrow> bytes" where
  "enc_len16 xs \<equiv> enc_u16 (of_nat (length xs))"

abbreviation enc_len8 :: "'a list \<Rightarrow> bytes" where
  "enc_len8 xs \<equiv> [of_nat (length xs)]"

text \<open>The extensions the parser looks into, and all others.\<close>

datatype tls_ext =
    SNI string
  | ALPN "string list"
  | Groups "u16 list"
  | PointFormats bytes
  | SigAlgs "u16 list"
  | Versions "u16 list"
  | ECH bytes
  | Other u16 bytes

fun ext_type :: "tls_ext \<Rightarrow> u16" where
  "ext_type (SNI _) = extServerName"
| "ext_type (ALPN _) = extALPN"
| "ext_type (Groups _) = extSupportedGroups"
| "ext_type (PointFormats _) = extECPointFormats"
| "ext_type (SigAlgs _) = extSignatureAlgorithms"
| "ext_type (Versions _) = extSupportedVersions"
| "ext_type (ECH _) = extEncryptedClientHello"
| "ext_type (Other t _) = t"

definition enc_u16s :: "u16 list \<Rightarrow> bytes" where
  "enc_u16s us = concat (map enc_u16 us)"

definition enc_alpns :: "string list \<Rightarrow> bytes" where
  "enc_alpns ss = concat (map (\<lambda>s. enc_len8 s @ go_bytes s) ss)"

fun ext_data :: "tls_ext \<Rightarrow> bytes" where
  "ext_data (SNI s) = (let e = 0 # enc_len16 s @ go_bytes s in enc_len16 e @ e)"
| "ext_data (ALPN ss) = enc_len16 (enc_alpns ss) @ enc_alpns ss"
| "ext_data (Groups us) = enc_len16 (enc_u16s us) @ enc_u16s us"
| "ext_data (PointFormats bs) = enc_len8 bs @ bs"
| "ext_data (SigAlgs us) = enc_len16 (enc_u16s us) @ enc_u16s us"
| "ext_data (Versions us) = enc_len8 (enc_u16s us) @ enc_u16s us"
| "ext_data (ECH bs) = bs"
| "ext_data (Other t bs) = bs"

text \<open>What the parser is to record for an extension.\<close>

fun ext_apply :: "tls_ext \<Rightarrow> PropMap \<Rightarrow> PropMap" where
  "ext_apply (SNI s) m = m(''sni'' \<mapsto> PStr s)"
| "ext_apply (ALPN ss) m = m(''alpn'' \<mapsto> PStrs ss)"
| "ext_apply (Groups us) m = m(''supported_groups'' \<mapsto> PU16s us)"
| "ext_apply (PointFormats bs) m = m(''ec_point_formats'' \<mapsto> PBytes bs)"
| "ext_apply (SigAlgs us) m = m(''signature_algorithms'' \<mapsto> PU16s us)"
| "ext_apply (Versions us) m = m(''supported_versions'' \<mapsto> PU16s us)"
| "ext_apply (ECH _) m = m(''ech'' \<mapsto> PBool True)"
| "ext_apply (Other _ _) m = m"

definition known_exts :: "u16 set" where
  "known_exts = {extServerName, extALPN, extSupportedGroups, extECPointFormats,
     extSignatureAlgorithms, extSupportedVersions, extEncryptedClientHello}"

fun ext_ok :: "tls_ext \<Rightarrow> bool" where
  "ext_ok (ALPN ss) = (list_all (\<lambda>s. length s < 256) ss \<and> length (ext_data (ALPN ss)) < 65536)"
| "ext_ok (Other t bs) = (t \<notin> known_exts \<and> length bs < 65536)"
| "ext_ok e = (length (ext_data e) < 65536)"

definition ext_bytes :: "tls_ext \<Rightarrow> bytes" where
  "ext_bytes e = enc_u16 (ext_type e) @ enc_len16 (ext_data e) @ ext_data e"

record client_hello =
  ch_version :: u16
  ch_random :: bytes
  ch_session :: bytes
  ch_ciphers :: "u16 list"
  ch_compression :: bytes
  ch_exts :: "tls_ext list"

definition ch_bytes :: "client_hello \<Rightarrow> bytes" where
  "ch_bytes h =
     enc_u16 (ch_version h) @ ch_random h @ enc_len8 (ch_session h) @ ch_session h
       @ enc_u16 (of_nat (2 * length (ch_ciphers h))) @ enc_u16s (ch_ciphers h)
       @ enc_len8 (ch_compression h) @ ch_compression h
       @ (let es = concat (map ext_bytes (ch_exts h)) in enc_len16 es @ es)"

definition ch_ok :: "client_hello \<Rightarrow> bool" where
  "ch_ok h \<longleftrightarrow> length (ch_random h) = 32 \<and> length (ch_session h) < 256
     \<and> 2 * length (ch_ciphers h) < 65536 \<and> length (ch_compression h) < 256
     \<and> list_all ext_ok (ch_exts h) \<and> length (concat (map ext_bytes (ch_exts h))) < 65536"

text \<open>The map the parser is to return: the fields, the extensions in order, the fingerprints.\<close>

definition ch_map :: "string \<Rightarrow> client_hello \<Rightarrow> PropMap" where
  "ch_map proto h =
     (let types = map ext_type (ch_exts h) in
      addTLSClientHelloFingerprint
        ((fold ext_apply (ch_exts h)
            [''version'' \<mapsto> PU16 (ch_version h), ''random'' \<mapsto> PBytes (ch_random h),
             ''session'' \<mapsto> PBytes (ch_session h), ''ciphers'' \<mapsto> PU16s (ch_ciphers h),
             ''cipher_count'' \<mapsto> PInt (int (length (ch_ciphers h))),
             ''compression'' \<mapsto> PBytes (ch_compression h)])
          (''extension_types'' \<mapsto> PU16s types))
        types proto)"

lemma be_enc_u16 [simp]: "be_u16 (ucast (drop_bit 8 v)) (ucast v) = v"
  unfolding be_u16_def by (rule bit_eqI) (auto simp: bit_simps)

lemma unat_len16: "n < 65536 \<Longrightarrow> unat (of_nat n :: u16) = n"
  by (simp add: unat_of_nat)

lemma unat_len8: "n < 256 \<Longrightarrow> unat (of_nat n :: byte) = n"
  by (simp add: unat_of_nat)

lemma get_enc_u16 [simp]:
  "ByteBuffer_GetUint16 \<lparr>Buf = enc_u16 v @ r\<rparr> False True = (Some v, \<lparr>Buf = r\<rparr>)"
  by (simp add: GetUint16_Some_iff enc_u16_def)

lemma get_byte_Cons [simp]:
  "ByteBuffer_GetByte \<lparr>Buf = x # r\<rparr> True = (Some x, \<lparr>Buf = r\<rparr>)"
  by (simp add: GetByte_Some_iff)

lemma get_prefix:
  "n = length xs \<Longrightarrow> ByteBuffer_Get \<lparr>Buf = xs @ r\<rparr> n True = (Some xs, \<lparr>Buf = r\<rparr>)"
  by (simp add: Get_Some_iff)

lemma get_string_prefix:
  "n = length s \<Longrightarrow> ByteBuffer_GetString \<lparr>Buf = go_bytes s @ r\<rparr> n True = (Some s, \<lparr>Buf = r\<rparr>)"
  by (simp add: GetString_Some_iff)

lemma get_sub_prefix:
  "n = length xs \<Longrightarrow> ByteBuffer_GetSubBuffer \<lparr>Buf = xs @ r\<rparr> n True = (Some \<lparr>Buf = xs\<rparr>, \<lparr>Buf = r\<rparr>)"
  by (simp add: GetSubBuffer_Some_iff)

lemma length_enc_u16 [simp]: "length (enc_u16 v) = 2"
  by (simp add: enc_u16_def)

lemma length_enc_u16s [simp]: "length (enc_u16s us) = 2 * length us"
  by (induction us) (auto simp: enc_u16s_def)

lemma read_u16s_enc [simp]: "read_u16s \<lparr>Buf = enc_u16s us\<rparr> = Some us"
proof (induction us)
  case Nil
  then show ?case by (simp add: read_u16s.simps enc_u16s_def ByteBuffer_Len_def)
next
  case (Cons u us)
  then show ?case
    by (subst read_u16s.simps) (simp add: enc_u16s_def ByteBuffer_Len_def)
qed

lemma read_u8s_enc [simp]: "read_u8s \<lparr>Buf = bs\<rparr> = Some bs"
  by (induction bs) (simp_all add: read_u8s.simps ByteBuffer_Len_def)

lemma read_alpns_enc:
  "list_all (\<lambda>s. length s < 256) ss \<Longrightarrow> read_alpns \<lparr>Buf = enc_alpns ss\<rparr> = Some ss"
proof (induction ss)
  case Nil
  then show ?case by (simp add: read_alpns.simps enc_alpns_def ByteBuffer_Len_def)
next
  case (Cons s ss)
  then show ?case
    by (subst read_alpns.simps)
      (simp add: enc_alpns_def ByteBuffer_Len_def unat_len8 get_string_prefix)
qed

lemma skip_enc_u16 [simp]: "ByteBuffer_Skip \<lparr>Buf = enc_u16 v @ r\<rparr> 2 = (True, \<lparr>Buf = r\<rparr>)"
  by (simp add: Skip_iff)

lemma skip_one [simp]: "ByteBuffer_Skip \<lparr>Buf = x # r\<rparr> 1 = (True, \<lparr>Buf = r\<rparr>)"
  "ByteBuffer_Skip \<lparr>Buf = x # r\<rparr> (Suc 0) = (True, \<lparr>Buf = r\<rparr>)"
  by (simp_all add: Skip_iff)

lemma parse_ext_enc:
  "ext_ok e \<Longrightarrow> parseTLSExtensions (ext_type e) \<lparr>Buf = ext_data e\<rparr> m = Some (ext_apply e m)"
  by (cases e)
    (auto simp: parseTLSExtensions_def ext_defs Let_def unat_len16 get_string_prefix [of _ _ "[]", simplified]
      read_alpns_enc ByteBuffer_Len_def known_exts_def)

lemma parse_exts_enc:
  "list_all ext_ok es \<Longrightarrow>
     parse_exts \<lparr>Buf = concat (map ext_bytes es)\<rparr> m = Some (map ext_type es, fold ext_apply es m)"
proof (induction es arbitrary: m)
  case Nil
  then show ?case by (simp add: parse_exts.simps ByteBuffer_Len_def)
next
  case (Cons e es)
  then have "length (ext_data e) < 65536" and "ext_ok e"
    by (cases e; simp)+
  with Cons show ?case
    by (subst parse_exts.simps)
      (simp add: ext_bytes_def [of e] ByteBuffer_Len_def unat_len16 get_sub_prefix parse_ext_enc)
qed

lemma read_ciphers_enc:
  "read_ciphers (length cs) \<lparr>Buf = enc_u16s cs @ r\<rparr> = Some (cs, \<lparr>Buf = r\<rparr>)"
  by (induction cs) (simp_all add: enc_u16s_def)

lemma parse_client_hello_enc:
  assumes "ch_ok h"
  shows "parseTLSClientHelloMsgData \<lparr>Buf = ch_bytes h\<rparr> proto = Some (ch_map proto h)"
proof -
  have "x mod 2 = 0 \<and> unat (x div 2) = n" if "unat x = 2 * n" for x :: u16 and n
    using that by (simp add: word_unat_eq_iff unat_mod unat_div)
  from this [OF unat_len16, of "length (ch_ciphers h)"] assms have even:
    "(2 * of_nat (length (ch_ciphers h)) :: u16) mod 2 = 0"
    "unat ((2 * of_nat (length (ch_ciphers h)) :: u16) div 2) = length (ch_ciphers h)"
    by (simp_all add: ch_ok_def)
  show ?thesis
    using assms
    by (simp add: parseTLSClientHelloMsgData_def hello_start_def ch_bytes_def ch_ok_def Let_def
        get_prefix unat_len8 unat_len16 even read_ciphers_enc get_sub_prefix [of _ _ "[]", simplified]
        parse_exts_enc ch_map_def)
qed

section \<open>The random field\<close>

text \<open>
  The three reads at the start are unchecked. In a body of at least 35 bytes none of them fails,
  so the map has the random of the message.
\<close>

lemma hello_start_long:
  assumes "35 \<le> length (Buf b)"
  shows "hello_start b =
           ([''version'' \<mapsto> PU16 (be_u16 (Buf b ! 0) (Buf b ! 1)), ''random'' \<mapsto> PBytes (take 32 (drop 2 (Buf b)))],
            Buf b ! 34, b\<lparr>Buf := drop 35 (Buf b)\<rparr>)"
proof -
  obtain x0 x1 r where b: "Buf b = x0 # x1 # r" "33 \<le> length r"
    using assms by (cases "Buf b"; cases "tl (Buf b)") auto
  have "ByteBuffer_GetUint16 b False True = (Some (be_u16 x0 x1), b\<lparr>Buf := r\<rparr>)"
    using b by (simp add: GetUint16_Some_iff)
  moreover have "ByteBuffer_Get (b\<lparr>Buf := r\<rparr>) 32 True = (Some (take 32 r), b\<lparr>Buf := drop 32 r\<rparr>)"
    using b by (simp add: Get_Some_iff)
  moreover have "drop 32 r = r ! 32 # drop 33 r"
    using b(2) by (metis Cons_nth_drop_Suc Suc_eq_plus1 Suc_le_eq numeral_One numeral_plus_numeral
        add_num_simps(1) semiring_norm(5))
  then have "ByteBuffer_GetByte (b\<lparr>Buf := drop 32 r\<rparr>) True = (Some (r ! 32), b\<lparr>Buf := drop 33 r\<rparr>)"
    by (simp add: GetByte_Some_iff)
  ultimately show ?thesis
    using b by (simp add: hello_start_def)
qed

lemma parse_ext_keeps:
  "parseTLSExtensions t b m = Some m' \<Longrightarrow> k \<in> {''version'', ''random'', ''session'', ''ciphers''} \<Longrightarrow> m' k = m k"
  by (auto simp: parseTLSExtensions_def split: if_splits option.splits prod.splits bool.splits)

lemma parse_exts_keeps:
  "parse_exts b m = Some (ts, m') \<Longrightarrow> k \<in> {''version'', ''random'', ''session'', ''ciphers''} \<Longrightarrow> m' k = m k"
proof (induction b m arbitrary: ts m' rule: parse_exts.induct)
  case (1 b m)
  have ih: "m2 k = m k"
    if "0 < ByteBuffer_Len b" "ByteBuffer_GetUint16 b False True = (Some t, b1)"
      "ByteBuffer_GetUint16 b1 False True = (Some l, b2)"
      "ByteBuffer_GetSubBuffer b2 (unat l) True = (Some d, b3)"
      "parseTLSExtensions t d m = Some m1" "parse_exts b3 m1 = Some (us, m2)"
    for t b1 l b2 d b3 m1 us m2
    using "1.IH" [OF that(1) that(2) [symmetric] refl that(3) [symmetric] refl that(4) [symmetric] refl
          that(5,6) "1.prems"(2)] parse_ext_keeps [OF that(5) "1.prems"(2)]
    by simp
  from "1.prems"(1) show ?case
    by (subst (asm) parse_exts.simps)
      (auto split: if_splits option.splits prod.splits intro: ih)
qed

lemma fingerprint_keeps:
  "k \<in> {''version'', ''random'', ''session'', ''ciphers''} \<Longrightarrow> addTLSClientHelloFingerprint m ts p k = m k"
  by (auto simp: addTLSClientHelloFingerprint_def Let_def)

lemma client_hello_random:
  assumes "35 \<le> length (Buf b)" and "parseTLSClientHelloMsgData b p = Some m"
  shows "m ''random'' = Some (PBytes (take 32 (drop 2 (Buf b))))"
  using assms
  by (auto simp: parseTLSClientHelloMsgData_def hello_start_long Let_def fingerprint_keeps
      split: if_splits option.splits prod.splits dest!: parse_exts_keeps [where k = "''random''"])

section \<open>Shuffled extensions\<close>

lemma ext_apply_commute:
  "ext_type e \<noteq> ext_type e' \<Longrightarrow> ext_apply e \<circ> ext_apply e' = ext_apply e' \<circ> ext_apply e"
  by (cases e; cases e') (auto simp: fun_eq_iff)

lemma fold_ext_apply_mset:
  assumes "distinct (map ext_type es)" "mset es' = mset es"
  shows "fold ext_apply es' = fold ext_apply es"
proof (rule fold_multiset_equiv)
  show "ext_apply x \<circ> ext_apply y = ext_apply y \<circ> ext_apply x" if "x \<in> set es'" "y \<in> set es'" for x y
  proof (cases "x = y")
    case False
    moreover have "inj_on ext_type (set es')"
      using assms mset_eq_setD [OF assms(2)] by (simp add: distinct_map)
    ultimately have "ext_type x \<noteq> ext_type y"
      using that by (auto dest: inj_onD)
    then show ?thesis by (rule ext_apply_commute)
  qed simp
qed (rule assms(2))

lemma fingerprint_ja4:
  "addTLSClientHelloFingerprint m ts p ''ja4'' =
     Some (PStr (buildJA4 p (as_u16 (m ''version'')) (m ''supported_versions'') (m ''sni'')
                   (as_u16s (m ''ciphers'')) ts (m ''alpn'') (as_u16s (m ''signature_algorithms''))))"
  by (simp add: addTLSClientHelloFingerprint_def Let_def)

lemma fold_ext_apply_field:
  "k \<in> {''version'', ''random'', ''session'', ''ciphers''} \<Longrightarrow> fold ext_apply es m k = m k"
proof (induction es arbitrary: m)
  case (Cons e es)
  then show ?case by (cases e) auto
qed simp

lemma fold_ext_apply_over:
  assumes "\<And>k. k \<in> {''sni'', ''alpn'', ''supported_versions'', ''signature_algorithms''} \<Longrightarrow> m k = m' k"
    and "k \<in> {''sni'', ''alpn'', ''supported_versions'', ''signature_algorithms''}"
  shows "fold ext_apply es m k = fold ext_apply es m' k"
  using assms(1)
proof (induction es arbitrary: m m')
  case Nil
  then show ?case using assms(2) by simp
next
  case (Cons e es)
  have "fold ext_apply es (ext_apply e m) k = fold ext_apply es (ext_apply e m') k"
    by (rule Cons.IH) (use Cons.prems in \<open>cases e; auto\<close>)
  then show ?case by simp
qed

text \<open>
  C21. The JA4 fingerprint of a ClientHello does not change when its cipher suites and its
  extensions are shuffled.
\<close>

theorem ja4_shuffle:
  assumes ok: "ch_ok h" "ch_ok h'" and ver: "ch_version h' = ch_version h"
    and cs: "mset (ch_ciphers h') = mset (ch_ciphers h)"
    and es: "distinct (map ext_type (ch_exts h))" "mset (ch_exts h') = mset (ch_exts h)"
  shows "\<exists>m m'. parseTLSClientHelloMsgData \<lparr>Buf = ch_bytes h\<rparr> p = Some m
           \<and> parseTLSClientHelloMsgData \<lparr>Buf = ch_bytes h'\<rparr> p = Some m' \<and> m' ''ja4'' = m ''ja4''"
proof -
  let ?keys = "{''sni'', ''alpn'', ''supported_versions'', ''signature_algorithms''}"
  have types: "mset (map ext_type (ch_exts h')) = mset (map ext_type (ch_exts h))"
    using es(2) by simp
  have grease: "mset (filterGREASE xs') = mset (filterGREASE xs)" if "mset xs' = mset xs" for xs xs'
    using that by (simp add: filterGREASE_def)
  have fold: "fold ext_apply (ch_exts h') = fold ext_apply (ch_exts h)"
    by (rule fold_ext_apply_mset [OF es])
  let ?E = "fold ext_apply (ch_exts h)"
  let ?base = "\<lambda>h. [''version'' \<mapsto> PU16 (ch_version h), ''random'' \<mapsto> PBytes (ch_random h),
             ''session'' \<mapsto> PBytes (ch_session h), ''ciphers'' \<mapsto> PU16s (ch_ciphers h),
             ''cipher_count'' \<mapsto> PInt (int (length (ch_ciphers h))),
             ''compression'' \<mapsto> PBytes (ch_compression h)]"
  have base: "?E (?base g) k = ?E Map.empty k" if "k \<in> ?keys" for g k
    by (rule fold_ext_apply_over [OF _ that]) auto
  have "ch_map p g ''ja4'' = Some (PStr (buildJA4 p (ch_version h) (?E Map.empty ''supported_versions'')
          (?E Map.empty ''sni'') (ch_ciphers g) (map ext_type (ch_exts g)) (?E Map.empty ''alpn'')
          (as_u16s (?E Map.empty ''signature_algorithms''))))"
    if "fold ext_apply (ch_exts g) = ?E" "ch_version g = ch_version h" for g
    unfolding ch_map_def Let_def fingerprint_ja4
    by (simp add: that(1) base fold_ext_apply_field as_u16s_def as_u16_def) (simp add: that(2))
  moreover have "buildJA4 p v sv sni (ch_ciphers h') (map ext_type (ch_exts h')) al sa =
      buildJA4 p v sv sni (ch_ciphers h) (map ext_type (ch_exts h)) al sa" for v sv sni al sa
    by (intro buildJA4_mset grease types cs)
  ultimately have "ch_map p h' ''ja4'' = ch_map p h ''ja4''"
    using fold ver by simp
  then show ?thesis
    by (simp add: parse_client_hello_enc ok)
qed

section \<open>A concrete hello\<close>

definition hello_example :: client_hello where
  "hello_example = \<lparr>ch_version = 0x303, ch_random = replicate 32 7, ch_session = [], ch_ciphers = [0x1301, 0x1302],
     ch_compression = [0], ch_exts = [SNI ''a.org'', ALPN [''h2''], Other 0x0a0a []]\<rparr>"

definition hello_shuffled :: client_hello where
  "hello_shuffled = hello_example\<lparr>ch_ciphers := [0x1302, 0x1301],
     ch_exts := [Other 0x0a0a [], ALPN [''h2''], SNI ''a.org'']\<rparr>"

lemma hello_example_ok: "ch_ok hello_example" "ch_ok hello_shuffled"
  by (simp_all add: ch_ok_def hello_example_def hello_shuffled_def ext_bytes_def enc_alpns_def known_exts_def
      extServerName_def extALPN_def extSupportedGroups_def extECPointFormats_def
      extSignatureAlgorithms_def extSupportedVersions_def extEncryptedClientHello_def)

theorem ja4_shuffle_witness:
  "\<exists>m m'. parseTLSClientHelloMsgData \<lparr>Buf = ch_bytes hello_example\<rparr> ''t'' = Some m
     \<and> parseTLSClientHelloMsgData \<lparr>Buf = ch_bytes hello_shuffled\<rparr> ''t'' = Some m' \<and> m' ''ja4'' = m ''ja4''"
  by (rule ja4_shuffle [OF hello_example_ok])
    (simp_all add: hello_example_def hello_shuffled_def extServerName_def extALPN_def)

end
