(* ===== verification/HelloSpec.thy ===== *)
theory HelloSpec
  imports TLSHello
begin

text \<open>
  What is to be published of a ClientHello (\<open>analyzer/internal/tls.go\<close>), written from the message
  and not with the functions of the analyzer: the fields, the last SNI, ALPN and supported versions,
  whether there is an ECH extension, and the JA3 and JA4 fingerprints as their descriptions define
  them. Of the supported groups, the point formats and the signature algorithms nothing is
  published: they are in the fingerprints only. The lemma \<open>ch_map_published\<close> shows that this is the map
  that the parser's own functions make.
\<close>

section \<open>The parts\<close>

definition last_opt :: "'a list \<Rightarrow> 'a option" where
  "last_opt xs = (if xs = [] then None else Some (last xs))"

lemma last_opt_simps [simp]:
  "last_opt [] = None"
  "last_opt (x # xs) = Some (case last_opt xs of None \<Rightarrow> x | Some y \<Rightarrow> y)"
  by (simp_all add: last_opt_def)

definition hello_sni :: "client_hello \<Rightarrow> string option" where
  "hello_sni h = last_opt [s. SNI s \<leftarrow> ch_exts h]"

definition hello_alpn :: "client_hello \<Rightarrow> string list option" where
  "hello_alpn h = last_opt [ss. ALPN ss \<leftarrow> ch_exts h]"

definition hello_versions :: "client_hello \<Rightarrow> u16 list option" where
  "hello_versions h = last_opt [us. Versions us \<leftarrow> ch_exts h]"

definition hello_groups :: "client_hello \<Rightarrow> u16 list" where
  "hello_groups h = (case last_opt [us. Groups us \<leftarrow> ch_exts h] of None \<Rightarrow> [] | Some us \<Rightarrow> us)"

definition hello_points :: "client_hello \<Rightarrow> bytes" where
  "hello_points h = (case last_opt [bs. PointFormats bs \<leftarrow> ch_exts h] of None \<Rightarrow> [] | Some bs \<Rightarrow> bs)"

definition hello_sigalgs :: "client_hello \<Rightarrow> u16 list" where
  "hello_sigalgs h = (case last_opt [us. SigAlgs us \<leftarrow> ch_exts h] of None \<Rightarrow> [] | Some us \<Rightarrow> us)"

definition hello_ech :: "client_hello \<Rightarrow> bool" where
  "hello_ech h \<longleftrightarrow> [bs. ECH bs \<leftarrow> ch_exts h] \<noteq> []"

section \<open>The fingerprints\<close>

text \<open>The sixteen reserved values of RFC 8701, which both fingerprints leave out.\<close>

definition grease_values :: "u16 list" where
  "grease_values = [0x0a0a, 0x1a1a, 0x2a2a, 0x3a3a, 0x4a4a, 0x5a5a, 0x6a6a, 0x7a7a,
     0x8a8a, 0x9a9a, 0xaaaa, 0xbaba, 0xcaca, 0xdada, 0xeaea, 0xfafa]"

definition no_grease :: "u16 list \<Rightarrow> u16 list" where
  "no_grease us = filter (\<lambda>u. u \<notin> set grease_values) us"

definition dashed :: "'n::len word list \<Rightarrow> string" where
  "dashed us = strings_Join (map (\<lambda>u. strconv_Itoa (uint u)) us) ''-''"

text \<open>JA3: five fields with commas between them, their values in decimal with dashes between them.\<close>

definition ja3_of :: "client_hello \<Rightarrow> string" where
  "ja3_of h =
     strconv_Itoa (uint (ch_version h)) @ '','' @ dashed (no_grease (ch_ciphers h))
       @ '','' @ dashed (no_grease (map ext_type (ch_exts h)))
       @ '','' @ dashed (no_grease (hello_groups h)) @ '','' @ dashed (hello_points h)"

definition hex_commas :: "u16 list \<Rightarrow> string" where
  "hex_commas us = strings_Join (map fmt_04x us) '',''"

definition in_order :: "u16 list \<Rightarrow> u16 list" where
  "in_order us = sorted_list_of_multiset (mset us)"

text \<open>The first twelve hexadecimal digits of a digest, or zeros when there is nothing to digest.\<close>

definition digest12 :: "string \<Rightarrow> string" where
  "digest12 s = (if s = '''' then replicate 12 CHR ''0'' else take 12 (hex_EncodeToString (sha256_Sum256 (go_bytes s))))"

definition tls_versions :: "u16 \<Rightarrow> string option" where
  "tls_versions = [0x0002 \<mapsto> ''s2'', 0x0300 \<mapsto> ''s3'', 0x0301 \<mapsto> ''10'', 0x0302 \<mapsto> ''11'', 0x0303 \<mapsto> ''12'', 0x0304 \<mapsto> ''13'']"

text \<open>The highest version that the client supports, by its extension if that has one.\<close>

definition hello_version :: "client_hello \<Rightarrow> u16" where
  "hello_version h =
     (case hello_versions h of
        None \<Rightarrow> ch_version h
      | Some us \<Rightarrow> if no_grease us = [] then ch_version h else Max (set (no_grease us)))"

text \<open>
  The first and the last character of the first protocol; a protocol of one character stands for
  itself, one that is not ASCII as \<open>99\<close>, none or an empty one as \<open>00\<close>.
\<close>

fun alpn_code :: "string list option \<Rightarrow> string" where
  "alpn_code (Some ((c # cs) # _)) =
     (if 127 < byte_of_char c then ''99'' else if cs = [] then [c] else [c, last cs])"
| "alpn_code _ = ''00''"

definition ja4_of :: "string \<Rightarrow> client_hello \<Rightarrow> string" where
  "ja4_of proto h =
     (let ciphers = no_grease (ch_ciphers h);
          types = no_grease (map ext_type (ch_exts h));
          sigalgs = no_grease (hello_sigalgs h) in
      proto
        @ (case tls_versions (hello_version h) of None \<Rightarrow> ''00'' | Some v \<Rightarrow> v)
        @ (if hello_sni h = None then ''i'' else ''d'')
        @ fmt_02d (min 99 (length ciphers)) @ fmt_02d (min 99 (length types))
        @ alpn_code (hello_alpn h)
        @ ''_'' @ digest12 (hex_commas (in_order ciphers))
        @ ''_'' @ digest12 (hex_commas (in_order (filter (\<lambda>t. t \<noteq> 0x0000 \<and> t \<noteq> 0x0010) types))
            @ (if sigalgs = [] then '''' else ''_'' @ hex_commas sigalgs)))"

section \<open>The map\<close>

definition published :: "string \<Rightarrow> client_hello \<Rightarrow> PropMap" where
  "published proto h =
     [''version'' \<mapsto> PU16 (ch_version h),
      ''random'' \<mapsto> PBytes (ch_random h),
      ''session'' \<mapsto> PBytes (ch_session h),
      ''ciphers'' \<mapsto> PU16s (ch_ciphers h),
      ''cipher_count'' \<mapsto> PInt (int (length (ch_ciphers h))),
      ''compression'' \<mapsto> PBytes (ch_compression h),
      ''extension_types'' \<mapsto> PU16s (map ext_type (ch_exts h)),
      ''ech'' \<mapsto> PBool (hello_ech h),
      ''ja3'' \<mapsto> PStr (ja3_of h),
      ''ja3_hash'' \<mapsto> PStr (hex_EncodeToString (md5_Sum (go_bytes (ja3_of h)))),
      ''ja4'' \<mapsto> PStr (ja4_of proto h)]
     (''sni'' := map_option PStr (hello_sni h),
      ''alpn'' := map_option PStrs (hello_alpn h),
      ''supported_versions'' := map_option PU16s (hello_versions h))"

section \<open>The parser's map is this one\<close>

lemma no_grease_Nil [simp]: "no_grease [] = []"
  by (simp add: no_grease_def)

lemma sort_empty [simp]: "sort us = [] \<longleftrightarrow> us = []" for us :: "u16 list"
  by (metis length_0_conv length_sort)

lemma twice_ten:
  fixes n :: nat
  assumes "n div 256 < 256"
  shows "n div 256 = n mod 256 \<and> (n div 256) mod 16 = 10 \<longleftrightarrow> (\<exists>k < 16. n = 257 * (16 * k + 10))"
proof
  assume a: "n div 256 = n mod 256 \<and> (n div 256) mod 16 = 10"
  define q where "q = n div 256"
  have "n = 256 * q + q" using a mult_div_mod_eq [of 256 n] by (simp add: q_def)
  moreover have "q mod 16 = 10" using a unfolding q_def by blast
  then have "q = 16 * (q div 16) + 10" using mult_div_mod_eq [of 16 q] by arith
  moreover have "q div 16 < 16" using assms by (simp add: q_def)
  ultimately show "\<exists>k < 16. n = 257 * (16 * k + 10)" by (intro exI [of _ "q div 16"]) arith
next
  assume "\<exists>k < 16. n = 257 * (16 * k + 10)"
  then obtain k where k: "k < 16" "n = 257 * (16 * k + 10)" by blast
  define q where "q = 16 * k + 10"
  have "q < 256" "n = q + 256 * q" using k by (simp_all add: q_def)
  then have "n div 256 = q" "n mod 256 = q" by (simp_all only: div_mult_self2 mod_mult_self2 div_less mod_less)
  then have "n div 256 = 16 * k + 10" "n mod 256 = 16 * k + 10" by (simp_all only: q_def)
  then show "n div 256 = n mod 256 \<and> (n div 256) mod 16 = 10" by (simp add: mod_add_eq)
qed

lemma isGREASE_values: "isGREASE v \<longleftrightarrow> v \<in> set grease_values"
proof -
  let ?n = "unat v"
  have low: "unat (ucast v :: byte) = ?n mod 256" by (simp add: unsigned_ucast_eq take_bit_eq_mod)
  have "?n div 256 < 256" using unsigned_less [of v, where 'a = nat] by simp
  then have high: "unat (ucast (drop_bit 8 v) :: byte) = ?n div 256"
    by (simp add: unsigned_ucast_eq take_bit_eq_mod drop_bit_eq_div unat_div)
  have fst: "isGREASE v \<longleftrightarrow> ?n div 256 = ?n mod 256 \<and> (?n div 256) mod 16 = 10"
  proof -
    have "(h AND 0x0f = 0x0a) = (unat h mod 16 = 10)" for h :: byte
    proof -
      have "h AND 0x0f = take_bit 4 h" by (simp add: take_bit_eq_mask mask_eq_exp_minus_1)
      then show ?thesis by (simp add: word_unat_eq_iff unsigned_take_bit_eq take_bit_eq_mod unat_mod)
    qed
    then show ?thesis using low high by (simp add: isGREASE_def Let_def word_unat_eq_iff)
  qed
  have "?n div 256 = ?n mod 256 \<and> (?n div 256) mod 16 = 10 \<longleftrightarrow> (\<exists>k < 16. ?n = 257 * (16 * k + 10))"
    using \<open>?n div 256 < 256\<close> by (rule twice_ten)
  also have "\<dots> \<longleftrightarrow> v \<in> set grease_values"
  proof -
    have "map (\<lambda>k. 257 * (16 * k + 10)) [0..<16] = map unat grease_values"
      by (simp add: grease_values_def upt_conv_Cons)
    from arg_cong [OF this, of set] have "(\<exists>k < 16. ?n = 257 * (16 * k + 10)) \<longleftrightarrow> ?n \<in> unat ` set grease_values"
      by (auto simp: image_iff set_eq_iff simp del: set_upt) (metis atLeastLessThan_iff set_upt zero_le)+
    also have "\<dots> \<longleftrightarrow> v \<in> set grease_values" by (rule inj_image_mem_iff) (rule inj_unsigned)
    finally show ?thesis .
  qed
  finally show ?thesis using fst by simp
qed

lemma filterGREASE_spec: "filterGREASE us = no_grease us"
  by (simp add: filterGREASE_def no_grease_def isGREASE_values)

lemma joinUint16s_spec: "joinUint16sJA3 us = dashed (no_grease us)"
  by (simp add: joinUint16sJA3_def dashed_def no_grease_def isGREASE_values)

lemma joinUint8s_spec: "joinUint8s bs = dashed bs"
  by (simp add: joinUint8s_def dashed_def)

lemma in_order_sort: "in_order us = sort us"
  by (simp add: in_order_def sorted_list_of_multiset_mset)

lemma last_sort:
  fixes us :: "u16 list"
  assumes "us \<noteq> []"
  shows "sort us ! (length us - 1) = Max (set us)"
proof (rule Max_eqI [symmetric])
  show "u \<le> sort us ! (length us - 1)" if "u \<in> set us" for u
  proof -
    obtain i where "i < length us" "sort us ! i = u"
      using \<open>u \<in> set us\<close> by (metis in_set_conv_nth length_sort set_sort)
    then show ?thesis using sorted_nth_mono [OF sorted_sort, of i "length us - 1" us] by auto
  qed
  show "sort us ! (length us - 1) \<in> set us"
    using assms by (metis diff_less length_greater_0_conv length_sort nth_mem set_sort zero_less_one)
qed simp

lemma ja4TLSVersion_spec:
  "ja4TLSVersion (ch_version h) (map_option PU16s (hello_versions h)) =
     (case tls_versions (hello_version h) of None \<Rightarrow> ''00'' | Some v \<Rightarrow> v)"
proof -
  define v where "v = hello_version h"
  have "(let values = sort (filterGREASE (as_u16s (map_option PU16s (hello_versions h)))) in
      if 0 < length values then values ! (length values - 1) else ch_version h) = v"
    by (simp add: v_def hello_version_def filterGREASE_spec as_u16s_def last_sort [unfolded One_nat_def] Let_def split: option.split)
  then show ?thesis
    unfolding ja4TLSVersion_def Let_def v_def [symmetric] by (simp add: tls_versions_def)
qed

lemma ja4ALPN_spec: "ja4ALPN (map_option PStrs a) = alpn_code a"
  by (cases a rule: alpn_code.cases)
    (auto simp: ja4ALPN_def Let_def last_conv_nth length_Suc_conv not_less numeral_2_eq_2 le_Suc_eq)

lemma hex_commas_empty [simp]: "hex_commas us = [] \<longleftrightarrow> us = []"
proof (cases us)
  case (Cons u vs)
  have "fmt_04x u \<noteq> []" using length_fmt_04x [of u] by (metis list.size(3) zero_neq_numeral)
  then show ?thesis by (cases vs) (simp_all add: hex_commas_def Cons)
qed (simp add: hex_commas_def)

lemma in_order_empty [simp]: "in_order us = [] \<longleftrightarrow> us = []"
  by (simp add: in_order_sort)

lemma ja4HashHexValues_spec: "ja4HashHexValues us = digest12 (hex_commas (in_order us))"
  by (simp add: ja4HashHexValues_def digest12_def ja4SHA12_def hex_commas_def [symmetric] ja4HexParts_def
      in_order_sort [symmetric] numeral_nat)

lemma ja4ExtensionHash_spec:
  "ja4ExtensionHash types sigalgs =
     digest12 (hex_commas (in_order (filter (\<lambda>t. t \<noteq> 0x0000 \<and> t \<noteq> 0x0010) types))
       @ (if no_grease sigalgs = [] then [] else ''_'' @ hex_commas (no_grease sigalgs)))"
  by (auto simp: ja4ExtensionHash_def digest12_def ja4SHA12_def hex_commas_def [symmetric] ja4HexParts_def ext_defs Let_def
      in_order_sort [symmetric] numeral_nat filterGREASE_spec)

section \<open>The extensions\<close>

lemma fold_sni:
  "fold ext_apply es m ''sni'' = (case last_opt [s. SNI s \<leftarrow> es] of None \<Rightarrow> m ''sni'' | Some s \<Rightarrow> Some (PStr s))"
proof (induction es arbitrary: m)
  case (Cons e es)
  then show ?case by (cases e) (simp_all split: option.split)
qed simp

lemma fold_alpn:
  "fold ext_apply es m ''alpn'' = (case last_opt [ss. ALPN ss \<leftarrow> es] of None \<Rightarrow> m ''alpn'' | Some ss \<Rightarrow> Some (PStrs ss))"
proof (induction es arbitrary: m)
  case (Cons e es)
  then show ?case by (cases e) (simp_all split: option.split)
qed simp

lemma fold_versions:
  "fold ext_apply es m ''supported_versions'' =
     (case last_opt [us. Versions us \<leftarrow> es] of None \<Rightarrow> m ''supported_versions'' | Some us \<Rightarrow> Some (PU16s us))"
proof (induction es arbitrary: m)
  case (Cons e es)
  then show ?case by (cases e) (simp_all split: option.split)
qed simp

lemma fold_groups:
  "fold ext_apply es m ''supported_groups'' =
     (case last_opt [us. Groups us \<leftarrow> es] of None \<Rightarrow> m ''supported_groups'' | Some us \<Rightarrow> Some (PU16s us))"
proof (induction es arbitrary: m)
  case (Cons e es)
  then show ?case by (cases e) (simp_all split: option.split)
qed simp

lemma fold_points:
  "fold ext_apply es m ''ec_point_formats'' =
     (case last_opt [bs. PointFormats bs \<leftarrow> es] of None \<Rightarrow> m ''ec_point_formats'' | Some bs \<Rightarrow> Some (PBytes bs))"
proof (induction es arbitrary: m)
  case (Cons e es)
  then show ?case by (cases e) (simp_all split: option.split)
qed simp

lemma fold_sigalgs:
  "fold ext_apply es m ''signature_algorithms'' =
     (case last_opt [us. SigAlgs us \<leftarrow> es] of None \<Rightarrow> m ''signature_algorithms'' | Some us \<Rightarrow> Some (PU16s us))"
proof (induction es arbitrary: m)
  case (Cons e es)
  then show ?case by (cases e) (simp_all split: option.split)
qed simp

lemma fold_ech:
  "fold ext_apply es m ''ech'' = (if [bs. ECH bs \<leftarrow> es] = [] then m ''ech'' else Some (PBool True))"
proof (induction es arbitrary: m)
  case (Cons e es)
  then show ?case by (cases e) simp_all
qed simp

lemma fold_other:
  "k \<notin> {''sni'', ''alpn'', ''supported_versions'', ''supported_groups'', ''ec_point_formats'', ''signature_algorithms'', ''ech''} \<Longrightarrow>
     fold ext_apply es m k = m k"
proof (induction es arbitrary: m)
  case (Cons e es)
  then show ?case by (cases e) simp_all
qed simp

lemmas fold_fields = fold_sni fold_alpn fold_versions fold_groups fold_points fold_sigalgs fold_ech

section \<open>The whole map\<close>

definition hello_fields :: "client_hello \<Rightarrow> PropMap" where
  "hello_fields h =
     (fold ext_apply (ch_exts h)
        [''version'' \<mapsto> PU16 (ch_version h), ''random'' \<mapsto> PBytes (ch_random h),
         ''session'' \<mapsto> PBytes (ch_session h), ''ciphers'' \<mapsto> PU16s (ch_ciphers h),
         ''cipher_count'' \<mapsto> PInt (int (length (ch_ciphers h))),
         ''compression'' \<mapsto> PBytes (ch_compression h)])
       (''extension_types'' \<mapsto> PU16s (map ext_type (ch_exts h)))"

lemma ch_map_fields: "ch_map proto h = addTLSClientHelloFingerprint (hello_fields h) (map ext_type (ch_exts h)) proto"
  by (simp add: ch_map_def hello_fields_def Let_def)

lemma hello_fields_values:
  "hello_fields h ''version'' = Some (PU16 (ch_version h))"
  "hello_fields h ''ciphers'' = Some (PU16s (ch_ciphers h))"
  "hello_fields h ''sni'' = map_option PStr (hello_sni h)"
  "hello_fields h ''alpn'' = map_option PStrs (hello_alpn h)"
  "hello_fields h ''supported_versions'' = map_option PU16s (hello_versions h)"
  "as_u16s (hello_fields h ''supported_groups'') = hello_groups h"
  "as_bytes (hello_fields h ''ec_point_formats'') = hello_points h"
  "as_u16s (hello_fields h ''signature_algorithms'') = hello_sigalgs h"
  "hello_fields h ''ech'' = (if hello_ech h then Some (PBool True) else None)"
  by (simp_all add: hello_fields_def fold_fields fold_other hello_sni_def hello_alpn_def hello_versions_def
      hello_groups_def hello_points_def hello_sigalgs_def hello_ech_def as_u16s_def as_bytes_def split: option.split)

lemma hello_fields_other:
  "k \<notin> {''version'', ''random'', ''session'', ''ciphers'', ''cipher_count'', ''compression'', ''extension_types'',
      ''sni'', ''alpn'', ''supported_versions'', ''supported_groups'', ''ec_point_formats'', ''signature_algorithms'', ''ech''} \<Longrightarrow>
   hello_fields h k = None"
  by (simp add: hello_fields_def fold_other)

lemma hello_fields_plain:
  "hello_fields h ''random'' = Some (PBytes (ch_random h))"
  "hello_fields h ''session'' = Some (PBytes (ch_session h))"
  "hello_fields h ''cipher_count'' = Some (PInt (int (length (ch_ciphers h))))"
  "hello_fields h ''compression'' = Some (PBytes (ch_compression h))"
  "hello_fields h ''extension_types'' = Some (PU16s (map ext_type (ch_exts h)))"
  by (simp_all add: hello_fields_def fold_other)

lemma buildJA4_spec:
  assumes "proto \<noteq> []"
  shows "buildJA4 proto (ch_version h) (hello_fields h ''supported_versions'') (hello_fields h ''sni'') (ch_ciphers h)
     (map ext_type (ch_exts h)) (hello_fields h ''alpn'') (hello_sigalgs h) = ja4_of proto h"
proof -
  have "(case map_option PStr s of Some (PStr _) \<Rightarrow> ''d'' | _ \<Rightarrow> ''i'') = (if s = None then ''i'' else ''d'')" for s
    by (cases s) simp_all
  then show ?thesis
    using assms
    by (simp only: buildJA4_def ja4_of_def Let_def hello_fields_values ja4TLSVersion_spec ja4ALPN_spec filterGREASE_spec
        ja4HashHexValues_spec ja4ExtensionHash_spec if_False min.commute [of _ "99 :: nat"])
qed

lemma ch_map_published:
  assumes "proto \<noteq> []"
  shows "ch_map proto h = published proto h"
proof
  fix k
  define f where "f = (if hello_fields h ''ech'' = None then (hello_fields h)(''ech'' \<mapsto> PBool False) else hello_fields h)"
  have f: "f k = (if k = ''ech'' then Some (PBool (hello_ech h)) else hello_fields h k)" for k
    by (simp add: f_def hello_fields_values)
  have "ch_map proto h = f(''ja3'' \<mapsto> PStr (ja3_of h), ''ja3_hash'' \<mapsto> PStr (hex_EncodeToString (md5_Sum (go_bytes (ja3_of h)))),
      ''ja4'' \<mapsto> PStr (ja4_of proto h), ''supported_groups'' := None, ''ec_point_formats'' := None, ''signature_algorithms'' := None)"
    unfolding ch_map_fields addTLSClientHelloFingerprint_def f_def [symmetric]
    by (simp add: Let_def f hello_fields_values as_u16_def as_u16s_def [of "Some (PU16s _)"] ja3_of_def joinUint16s_spec joinUint8s_spec buildJA4_spec [OF assms, simplified hello_fields_values])
  then show "ch_map proto h k = published proto h k"
    by (simp add: f published_def hello_fields_values hello_fields_plain hello_fields_other)
qed

end
