(* ===== verification/TLSStream.thy ===== *)
theory TLSStream
  imports HelloSpec LSM
begin

text \<open>
  \<open>analyzer/tcp/tls.go\<close>: the TLS analyzer. Per direction, one step checks the record and the
  handshake header and one hands the message's body to the parsers of \<open>TLSHello\<close>.
\<close>

definition TLSAnalyzer_Name :: string where "TLSAnalyzer_Name = ''tls''"
definition TLSAnalyzer_Limit :: int where "TLSAnalyzer_Limit = 8192"

datatype tls_step =
  tlsClientHelloPreprocess | parseClientHelloData | tlsServerHelloPreprocess | parseServerHelloData

record tlsStream =
  tls_reqBuf :: ByteBuffer
  tls_reqMap :: "PropMap option"
  tls_reqUpdated :: bool
  tls_reqLSM :: "tls_step LinearStateMachine"
  tls_reqDone :: bool
  tls_respBuf :: ByteBuffer
  tls_respMap :: "PropMap option"
  tls_respUpdated :: bool
  tls_respLSM :: "tls_step LinearStateMachine"
  tls_respDone :: bool
  clientHelloLen :: nat
  serverHelloLen :: nat

definition newTLSStream :: tlsStream where
  "newTLSStream =
     \<lparr>tls_reqBuf = \<lparr>Buf = []\<rparr>, tls_reqMap = None, tls_reqUpdated = False,
      tls_reqLSM = NewLinearStateMachine [tlsClientHelloPreprocess, parseClientHelloData],
      tls_reqDone = False,
      tls_respBuf = \<lparr>Buf = []\<rparr>, tls_respMap = None, tls_respUpdated = False,
      tls_respLSM = NewLinearStateMachine [tlsServerHelloPreprocess, parseServerHelloData],
      tls_respDone = False, clientHelloLen = 0, serverHelloLen = 0\<rparr>"

definition tlsStream_tlsClientHelloPreprocess :: "tlsStream \<Rightarrow> LSMAction \<times> tlsStream" where
  "tlsStream_tlsClientHelloPreprocess s =
     (case ByteBuffer_Get (tls_reqBuf s) 9 True of
        (None, b) \<Rightarrow> (LSMActionPause, s\<lparr>tls_reqBuf := b\<rparr>)
      | (Some header, b) \<Rightarrow>
          (let s = s\<lparr>tls_reqBuf := b\<rparr> in
           if header ! 0 \<noteq> RecordTypeHandshake \<or> header ! 5 \<noteq> TypeClientHello then (LSMActionCancel, s)
           else
             (let s = s\<lparr>clientHelloLen := be_int3 (header ! 6) (header ! 7) (header ! 8)\<rparr> in
              if clientHelloLen s < 41 then (LSMActionCancel, s) else (LSMActionNext, s))))"

definition tlsStream_tlsServerHelloPreprocess :: "tlsStream \<Rightarrow> LSMAction \<times> tlsStream" where
  "tlsStream_tlsServerHelloPreprocess s =
     (case ByteBuffer_Get (tls_respBuf s) 9 True of
        (None, b) \<Rightarrow> (LSMActionPause, s\<lparr>tls_respBuf := b\<rparr>)
      | (Some header, b) \<Rightarrow>
          (let s = s\<lparr>tls_respBuf := b\<rparr> in
           if header ! 0 \<noteq> RecordTypeHandshake \<or> header ! 5 \<noteq> TypeServerHello then (LSMActionCancel, s)
           else
             (let s = s\<lparr>serverHelloLen := be_int3 (header ! 6) (header ! 7) (header ! 8)\<rparr> in
              if serverHelloLen s < 38 then (LSMActionCancel, s) else (LSMActionNext, s))))"

definition tlsStream_parseClientHelloData :: "tlsStream \<Rightarrow> LSMAction \<times> tlsStream" where
  "tlsStream_parseClientHelloData s =
     (case ByteBuffer_GetSubBuffer (tls_reqBuf s) (clientHelloLen s) True of
        (None, b) \<Rightarrow> (LSMActionPause, s\<lparr>tls_reqBuf := b\<rparr>)
      | (Some chBuf, b) \<Rightarrow>
          (case ParseTLSClientHelloMsgData chBuf of
             None \<Rightarrow> (LSMActionCancel, s\<lparr>tls_reqBuf := b\<rparr>)
           | Some m \<Rightarrow> (LSMActionNext, s\<lparr>tls_reqBuf := b, tls_reqUpdated := True, tls_reqMap := Some m\<rparr>)))"

definition tlsStream_parseServerHelloData :: "tlsStream \<Rightarrow> LSMAction \<times> tlsStream" where
  "tlsStream_parseServerHelloData s =
     (case ByteBuffer_GetSubBuffer (tls_respBuf s) (serverHelloLen s) True of
        (None, b) \<Rightarrow> (LSMActionPause, s\<lparr>tls_respBuf := b\<rparr>)
      | (Some shBuf, b) \<Rightarrow>
          (case ParseTLSServerHelloMsgData shBuf of
             None \<Rightarrow> (LSMActionCancel, s\<lparr>tls_respBuf := b\<rparr>)
           | Some m \<Rightarrow> (LSMActionNext, s\<lparr>tls_respBuf := b, tls_respUpdated := True, tls_respMap := Some m\<rparr>)))"

fun tls_exec :: "tls_step \<Rightarrow> tlsStream \<Rightarrow> (LSMAction \<times> tlsStream) go" where
  "tls_exec tlsClientHelloPreprocess s = Some (tlsStream_tlsClientHelloPreprocess s)"
| "tls_exec parseClientHelloData s = Some (tlsStream_parseClientHelloData s)"
| "tls_exec tlsServerHelloPreprocess s = Some (tlsStream_tlsServerHelloPreprocess s)"
| "tls_exec parseServerHelloData s = Some (tlsStream_parseServerHelloData s)"

definition tlsStream_Feed ::
    "bool \<Rightarrow> bool \<Rightarrow> bool \<Rightarrow> int \<Rightarrow> bytes \<Rightarrow> tlsStream \<Rightarrow> tlsStream feed_result" where
  "tlsStream_Feed rv st en skip data s =
     (if skip \<noteq> 0 then Some (Some ((None, True), s))
      else if length data = 0 then Some (Some ((None, False), s))
      else if rv then
        (let s = s\<lparr>tls_respBuf := ByteBuffer_Append (tls_respBuf s) data, tls_respUpdated := False\<rparr> in
         case LinearStateMachine_Run tls_exec tls_respLSM tls_respLSM_update s of
           None \<Rightarrow> None
         | Some None \<Rightarrow> Some None
         | Some (Some ((cancelled, dn), s)) \<Rightarrow>
             (let s = s\<lparr>tls_respDone := dn\<rparr>;
                  (update, s) =
                    (if tls_respUpdated s
                     then (Some \<lparr>Type = PropUpdateMerge, M = [''resp'' \<mapsto> PMap (the_map (tls_respMap s))]\<rparr>,
                           s\<lparr>tls_respUpdated := False\<rparr>)
                     else (None, s)) in
              Some (Some ((update, cancelled \<or> (tls_reqDone s \<and> tls_respDone s)), s))))
      else
        (let s = s\<lparr>tls_reqBuf := ByteBuffer_Append (tls_reqBuf s) data, tls_reqUpdated := False\<rparr> in
         case LinearStateMachine_Run tls_exec tls_reqLSM tls_reqLSM_update s of
           None \<Rightarrow> None
         | Some None \<Rightarrow> Some None
         | Some (Some ((cancelled, dn), s)) \<Rightarrow>
             (let s = s\<lparr>tls_reqDone := dn\<rparr>;
                  (update, s) =
                    (if tls_reqUpdated s
                     then (Some \<lparr>Type = PropUpdateMerge, M = [''req'' \<mapsto> PMap (the_map (tls_reqMap s))]\<rparr>,
                           s\<lparr>tls_reqUpdated := False\<rparr>)
                     else (None, s)) in
              Some (Some ((update, cancelled \<or> (tls_reqDone s \<and> tls_respDone s)), s)))))"

definition tlsStream_Close :: "bool \<Rightarrow> tlsStream \<Rightarrow> PropUpdate option \<times> tlsStream" where
  "tlsStream_Close limited s =
     (None, s\<lparr>tls_reqBuf := ByteBuffer_Reset (tls_reqBuf s), tls_respBuf := ByteBuffer_Reset (tls_respBuf s),
              tls_reqMap := None, tls_respMap := None\<rparr>)"

section \<open>Safety\<close>

definition tls_inv :: "tlsStream \<Rightarrow> bool" where
  "tls_inv s \<longleftrightarrow> Steps (tls_reqLSM s) = [tlsClientHelloPreprocess, parseClientHelloData]
     \<and> Steps (tls_respLSM s) = [tlsServerHelloPreprocess, parseServerHelloData]
     \<and> (0 < lsm_index (tls_reqLSM s) \<longrightarrow> 41 \<le> clientHelloLen s)
     \<and> (0 < lsm_index (tls_respLSM s) \<longrightarrow> 38 \<le> serverHelloLen s)"

lemmas tls_step_defs =
  tlsStream_tlsClientHelloPreprocess_def tlsStream_tlsServerHelloPreprocess_def
  tlsStream_parseClientHelloData_def tlsStream_parseServerHelloData_def

interpretation tls_req: lsm_linear tls_exec tls_reqLSM tls_reqLSM_update tls_inv
  by unfold_locales
    (auto simp: tls_inv_def tls_step_defs less_Suc_eq Let_def split: option.splits prod.splits if_splits)

interpretation tls_resp: lsm_linear tls_exec tls_respLSM tls_respLSM_update tls_inv
  by unfold_locales
    (auto simp: tls_inv_def tls_step_defs less_Suc_eq Let_def split: option.splits prod.splits if_splits)

lemma tls_inv_upd [simp]:
  "tls_inv (s\<lparr>tls_reqBuf := b\<rparr>) = tls_inv s" "tls_inv (s\<lparr>tls_respBuf := b\<rparr>) = tls_inv s"
  "tls_inv (s\<lparr>tls_reqUpdated := x\<rparr>) = tls_inv s" "tls_inv (s\<lparr>tls_respUpdated := x\<rparr>) = tls_inv s"
  "tls_inv (s\<lparr>tls_reqDone := x\<rparr>) = tls_inv s" "tls_inv (s\<lparr>tls_respDone := x\<rparr>) = tls_inv s"
  by (simp_all add: tls_inv_def)

lemma tls_inv_new: "tls_inv newTLSStream"
  by (simp add: tls_inv_def newTLSStream_def NewLinearStateMachine_def)

text \<open>
  Feeding any data to a TLS stream that satisfies the invariant returns without a panic and
  keeps the invariant.
\<close>

lemma tlsStream_Feed_total:
  assumes "tls_inv s"
  shows "\<exists>u d s'. tlsStream_Feed rv st en skip data s = Some (Some ((u, d), s')) \<and> tls_inv s'"
proof (cases "skip \<noteq> 0 \<or> data = []")
  case True
  with assms show ?thesis by (auto simp: tlsStream_Feed_def)
next
  case False
  let ?q = "s\<lparr>tls_reqBuf := ByteBuffer_Append (tls_reqBuf s) data, tls_reqUpdated := False\<rparr>"
  let ?p = "s\<lparr>tls_respBuf := ByteBuffer_Append (tls_respBuf s) data, tls_respUpdated := False\<rparr>"
  from assms have "tls_inv ?q" "tls_inv ?p" by simp_all
  from tls_req.run_total [OF this(1)] tls_resp.run_total [OF this(2)]
  obtain c1 d1 s1 c2 d2 s2 where
    "LinearStateMachine_Run tls_exec tls_reqLSM tls_reqLSM_update ?q = Some (Some ((c1, d1), s1))"
    "tls_inv s1"
    "LinearStateMachine_Run tls_exec tls_respLSM tls_respLSM_update ?p = Some (Some ((c2, d2), s2))"
    "tls_inv s2"
    by metis
  with False show ?thesis
    by (cases rv) (simp_all add: tlsStream_Feed_def Let_def)
qed

section \<open>Chunks\<close>

definition tls_app_req :: "bytes \<Rightarrow> tlsStream \<Rightarrow> tlsStream" where
  "tls_app_req d s = s\<lparr>tls_reqBuf := ByteBuffer_Append (tls_reqBuf s) d\<rparr>"

definition tls_app_resp :: "bytes \<Rightarrow> tlsStream \<Rightarrow> tlsStream" where
  "tls_app_resp d s = s\<lparr>tls_respBuf := ByteBuffer_Append (tls_respBuf s) d\<rparr>"

lemma tls_exec_pause: "tls_exec st s = Some (LSMActionPause, s') \<Longrightarrow> s' = s"
  by (cases st) (auto simp: tls_step_defs Let_def split: option.splits prod.splits if_splits)

interpretation tls_req: lsm_stream tls_exec tls_reqLSM tls_reqLSM_update tls_app_req
proof
  fix st s s' d
  assume "tls_exec st s = Some (LSMActionPause, s')"
  then show "tls_exec st (tls_app_req d s') = tls_exec st (tls_app_req d s) \<and> tls_reqLSM s' = tls_reqLSM s"
    by (auto dest: tls_exec_pause)
next
  fix st s a s' d
  assume "tls_exec st s = Some (a, s')" "a \<noteq> LSMActionPause"
  then show "tls_exec st (tls_app_req d s) = Some (a, tls_app_req d s')"
    by (cases st) (auto simp: tls_step_defs tls_app_req_def Let_def Get_Some_iff GetSubBuffer_Some_iff record_append_eq
        split: option.splits prod.splits if_splits)
qed (simp_all add: tls_app_req_def)

interpretation tls_resp: lsm_stream tls_exec tls_respLSM tls_respLSM_update tls_app_resp
proof
  fix st s s' d
  assume "tls_exec st s = Some (LSMActionPause, s')"
  then show "tls_exec st (tls_app_resp d s') = tls_exec st (tls_app_resp d s) \<and> tls_respLSM s' = tls_respLSM s"
    by (auto dest: tls_exec_pause)
next
  fix st s a s' d
  assume "tls_exec st s = Some (a, s')" "a \<noteq> LSMActionPause"
  then show "tls_exec st (tls_app_resp d s) = Some (a, tls_app_resp d s')"
    by (cases st) (auto simp: tls_step_defs tls_app_resp_def Let_def Get_Some_iff GetSubBuffer_Some_iff record_append_eq
        split: option.splits prod.splits if_splits)
qed (simp_all add: tls_app_resp_def)

section \<open>A ClientHello record\<close>

text \<open>
  The record header \<open>hdr\<close> (type, version, length) and the handshake header in front of the body
  that \<open>ch_bytes\<close> writes.
\<close>

definition enc_u24 :: "nat \<Rightarrow> bytes" where
  "enc_u24 n = [of_nat (n div 65536), of_nat (n div 256), of_nat n]"

definition ch_record :: "bytes \<Rightarrow> client_hello \<Rightarrow> bytes" where
  "ch_record hdr h = RecordTypeHandshake # hdr @ TypeClientHello # enc_u24 (length (ch_bytes h)) @ ch_bytes h"

lemma be_int3_enc: "n < 16777216 \<Longrightarrow> be_int3 (of_nat (n div 65536)) (of_nat (n div 256)) (of_nat n) = n"
proof -
  assume n: "n < 16777216"
  have "n div 65536 = n div 256 div 256"
    by (simp flip: div_mult2_eq)
  moreover have "n div 256 div 256 * 256 + n div 256 mod 256 = n div 256" "n div 256 * 256 + n mod 256 = n"
    by (simp_all only: div_mult_mod_eq)
  ultimately have "n div 65536 * 65536 + n div 256 mod 256 * 256 + n mod 256 = n"
    by linarith
  with n show ?thesis
    by (simp add: be_int3_eq unat_of_nat)
qed

lemma ch_bytes_length:
  assumes "ch_ok h" "ch_ciphers h \<noteq> []"
  shows "41 \<le> length (ch_bytes h)" and "length (ch_bytes h) < 16777216"
  using assms by (cases "ch_ciphers h"; auto simp: ch_ok_def ch_bytes_def Let_def)+

text \<open>
  C9. The record of any well-formed ClientHello with a cipher suite, fed to a new TLS stream,
  publishes its version, random, session, ciphers, compression methods and extension types, its
  last SNI, ALPN and supported versions, whether it has an ECH extension, and its JA3 and JA4
  fingerprints; the map and the fingerprints are written from the message, independently of the
  analyzer's functions. Supported groups, point formats and signature algorithms are in the
  fingerprints only.
\<close>

theorem tls_client_hello_published:
  assumes "ch_ok h" "ch_ciphers h \<noteq> []" "length hdr = 4"
  shows "\<exists>s. tlsStream_Feed False st en 0 (ch_record hdr h @ rest) newTLSStream =
           Some (Some ((Some \<lparr>Type = PropUpdateMerge, M = [''req'' \<mapsto> PMap (published ''t'' h)]\<rparr>, False), s))"
proof -
  let ?n = "length (ch_bytes h)"
  let ?d = "ch_record hdr h @ rest"
  let ?s0 = "newTLSStream\<lparr>tls_reqBuf := \<lparr>Buf = ?d\<rparr>, tls_reqUpdated := False\<rparr>"
  let ?s1 = "?s0\<lparr>tls_reqBuf := \<lparr>Buf = ch_bytes h @ rest\<rparr>, clientHelloLen := ?n\<rparr>"
  let ?s2 = "(tls_reqLSM_update lsm_next ?s1)\<lparr>tls_reqBuf := \<lparr>Buf = rest\<rparr>, tls_reqUpdated := True,
                tls_reqMap := Some (ch_map ''t'' h)\<rparr>"
  let ?run = "LinearStateMachine_loop tls_exec tls_reqLSM tls_reqLSM_update"
  obtain a b c d where hdr: "hdr = [a, b, c, d]"
    using assms(3) by (auto simp: length_Suc_conv eval_nat_numeral)
  have pre: "tlsStream_tlsClientHelloPreprocess ?s0 = (LSMActionNext, ?s1)"
    using ch_bytes_length [OF assms(1,2)]
    by (simp add: tlsStream_tlsClientHelloPreprocess_def ByteBuffer_Get_def ch_record_def hdr enc_u24_def
        be_int3_enc Let_def)
  have body: "tlsStream_parseClientHelloData (tls_reqLSM_update lsm_next ?s1) = (LSMActionNext, ?s2)"
    using parse_client_hello_enc [OF assms(1), of "''t''"]
    by (simp add: tlsStream_parseClientHelloData_def get_sub_prefix ParseTLSClientHelloMsgData_def newTLSStream_def)
  have lsm: "tls_reqLSM newTLSStream = NewLinearStateMachine [tlsClientHelloPreprocess, parseClientHelloData]"
    by (simp add: newTLSStream_def)
  have "?run ?s0 = ?run (tls_reqLSM_update lsm_next ?s1)"
    by (rule loop_Next) (simp_all add: lsm NewLinearStateMachine_def pre)
  also have "\<dots> = ?run (tls_reqLSM_update lsm_next ?s2)"
    by (rule loop_Next) (simp_all add: lsm NewLinearStateMachine_def body [simplified])
  also have "\<dots> = Some (Some ((False, True), tls_reqLSM_update lsm_next ?s2))"
    by (rule loop_end) (simp add: lsm NewLinearStateMachine_def)
  finally have "LinearStateMachine_Run tls_exec tls_reqLSM tls_reqLSM_update ?s0 =
      Some (Some ((False, True), tls_reqLSM_update lsm_next ?s2))"
    by (subst run_loop) (simp_all add: lsm NewLinearStateMachine_def)
  moreover have "?d \<noteq> []" by (simp add: ch_record_def)
  ultimately show ?thesis
    by (simp add: tlsStream_Feed_def ByteBuffer_Append_def newTLSStream_def the_map_def Let_def ch_map_published [of "''t''" h])
qed

section \<open>The statements at concrete inputs\<close>

theorem tls_client_hello_published_witness:
  "\<exists>s. tlsStream_Feed False True False 0 (ch_record [3, 1, 0, 50] hello_example @ []) newTLSStream =
     Some (Some ((Some \<lparr>Type = PropUpdateMerge, M = [''req'' \<mapsto> PMap (published ''t'' hello_example)]\<rparr>, False), s))"
  by (rule tls_client_hello_published [OF hello_example_ok(1)]) (simp_all add: hello_example_def)

end
