(* ===== verification/GoFloat.thy ===== *)
theory GoFloat
  imports Complex_Main "HOL-Library.Log_Nat" Prelude
begin

text \<open>
  Floating point as the ratios of \<open>analyzer/tcp/fet.go\<close> and \<open>analyzer/udp/udpflow.go\<close> use it:
  quotients of non-negative integers, rounded to the nearest value with a significand of \<open>p\<close> bits,
  ties to even (\<open>p = 24\<close> for \<open>float32\<close>, \<open>53\<close> for \<open>float64\<close>). The quotients of counts never leave the
  normal range, so the exponent is not bounded here, and NaN and infinities do not arise: the
  code never divides by zero.

  The lemmas bound the error of a rounding, and show when a comparison of rounded quotients
  decides the comparison of the exact ones.
\<close>

definition pow2 :: "int \<Rightarrow> rat" where
  "pow2 k = (if 0 \<le> k then 2 ^ nat k else 1 / 2 ^ nat (- k))"

definition round_even :: "rat \<Rightarrow> int" where
  "round_even x =
     (let n = \<lfloor>x\<rfloor>; r = x - of_int n in
      if r < 1 / 2 then n else if 1 / 2 < r then n + 1 else if even n then n else n + 1)"

definition fl_shift :: "nat \<Rightarrow> rat \<Rightarrow> int" where
  "fl_shift p x =
     (let (n, d) = quotient_of x; s = int p - (bitlen n - bitlen d) in
      if 2 ^ p \<le> x * pow2 s then s - 1 else s)"

definition fl :: "nat \<Rightarrow> rat \<Rightarrow> rat" where
  "fl p x = (if x \<le> 0 then 0 else of_int (round_even (x * pow2 (fl_shift p x))) / pow2 (fl_shift p x))"

text \<open>\<open>float32(a) / float32(b)\<close> and \<open>float64(a) / float64(b)\<close>.\<close>

definition fdiv :: "nat \<Rightarrow> int \<Rightarrow> int \<Rightarrow> rat" where
  "fdiv p a b = fl p (fl p (of_int a) / fl p (of_int b))"

abbreviation float32 :: "rat \<Rightarrow> rat" where "float32 \<equiv> fl 24"
abbreviation float64 :: "rat \<Rightarrow> rat" where "float64 \<equiv> fl 53"

section \<open>The error of a rounding\<close>

lemma pow2_pos [simp]: "0 < pow2 k"
  by (simp add: pow2_def)

lemma pow2_nonzero [simp]: "pow2 k \<noteq> 0"
  using pow2_pos [of k] by linarith

lemma pow2_abs [simp]: "\<bar>pow2 k\<bar> = pow2 k"
  using pow2_pos [of k] by linarith

lemma pow2_add: "pow2 (a + b) = pow2 a * pow2 b"
proof -
  have *: "pow2 k = 2 powi k" for k
    by (simp add: pow2_def power_int_def field_simps)
  show ?thesis by (simp add: * power_int_add)
qed

lemma pow2_nat [simp]: "pow2 (int n) = 2 ^ n"
  by (simp add: pow2_def)

lemma round_even_error: "\<bar>of_int (round_even x) - x\<bar> \<le> 1 / 2"
proof -
  have "of_int \<lfloor>x\<rfloor> \<le> x" "x < of_int \<lfloor>x\<rfloor> + 1"
    by linarith+
  then show ?thesis
    by (simp add: round_even_def Let_def abs_le_iff)
qed

lemma round_even_int [simp]: "round_even (of_int n) = n"
  by (simp add: round_even_def Let_def)

lemma bitlen_pow2_bounds:
  assumes "0 < n"
  shows "pow2 (bitlen n - 1) \<le> of_int n" and "of_int n < pow2 (bitlen n)"
proof -
  have b: "0 < bitlen n" "(2::int) ^ nat (bitlen n - 1) \<le> n" "n < 2 ^ nat (bitlen n)"
    using assms bitlen_bounds [of n] bitlen_nonneg [of n] bitlen_eq_zero_iff [of n] by auto
  have "(of_int (2 ^ nat (bitlen n - 1)) :: rat) \<le> of_int n"
    using b(2) by linarith
  with b(1) show "pow2 (bitlen n - 1) \<le> of_int n"
    by (simp add: pow2_def)
  have "(of_int n :: rat) < of_int (2 ^ nat (bitlen n))"
    using b(3) by linarith
  with b(1) show "of_int n < pow2 (bitlen n)"
    by (simp add: pow2_def)
qed

lemma fl_shift_lower:
  assumes "0 < x" and "0 < p"
  shows "2 ^ (p - 1) \<le> x * pow2 (fl_shift p x)"
proof -
  obtain n d where nd: "quotient_of x = (n, d)" by fastforce
  then have d: "0 < d" and x: "x = of_int n / of_int d"
    by (auto simp: quotient_of_denom_pos quotient_of_div)
  with assms have n: "0 < n"
    by (simp add: zero_less_divide_iff)
  define s where "s = int p - (bitlen n - bitlen d)"
  have "pow2 (bitlen n - 1) * of_int d \<le> of_int n * pow2 (bitlen d)"
    using bitlen_pow2_bounds [OF n] bitlen_pow2_bounds [OF d] d n
    by (intro mult_mono) (auto intro: less_imp_le)
  then have "pow2 (bitlen n - 1) / pow2 (bitlen d) \<le> x"
    using d by (simp add: x field_simps)
  then have "pow2 (bitlen n - 1) / pow2 (bitlen d) * pow2 s \<le> x * pow2 s"
    by (intro mult_right_mono) (auto intro: less_imp_le)
  moreover have "pow2 (bitlen n - 1) * pow2 s = pow2 (int p - 1) * pow2 (bitlen d)"
    by (simp add: s_def flip: pow2_add) (simp add: algebra_simps)
  ultimately have "pow2 (int p - 1) \<le> x * pow2 s"
    by simp
  moreover have "pow2 (int p - 1) = 2 ^ (p - 1)"
    using \<open>0 < p\<close> by (simp add: pow2_def nat_diff_distrib)
  ultimately have lower: "2 ^ (p - 1) \<le> x * pow2 s" by simp
  show ?thesis
  proof (cases "2 ^ p \<le> x * pow2 s")
    case True
    then have sh: "fl_shift p x = s - 1"
      by (simp add: fl_shift_def nd s_def)
    have "x * pow2 (s - 1) * 2 = x * pow2 s"
      using pow2_add [of "s - 1" 1] by (simp add: pow2_def [of 1])
    moreover have "(2::rat) ^ p = 2 ^ (p - 1) * 2"
      using \<open>0 < p\<close> by (cases p) auto
    ultimately show ?thesis
      unfolding sh using True by linarith
  next
    case False
    then have "fl_shift p x = s"
      by (simp add: fl_shift_def nd s_def)
    with lower show ?thesis by simp
  qed
qed

lemma fl_error:
  assumes "0 \<le> x" and "0 < p"
  shows "\<bar>fl p x - x\<bar> \<le> x / 2 ^ p"
proof (cases "x = 0")
  case True
  then show ?thesis by (simp add: fl_def)
next
  case False
  with assms have x: "0 < x" by simp
  define s where "s = fl_shift p x"
  have "fl p x - x = (of_int (round_even (x * pow2 s)) - x * pow2 s) / pow2 s"
    using x by (simp add: fl_def s_def diff_divide_distrib)
  then have "\<bar>fl p x - x\<bar> = \<bar>of_int (round_even (x * pow2 s)) - x * pow2 s\<bar> / pow2 s"
    by (simp add: abs_divide)
  also have "\<dots> \<le> (1 / 2) / pow2 s"
    by (intro divide_right_mono round_even_error) (auto intro: less_imp_le)
  also have "\<dots> \<le> x / 2 ^ p"
  proof -
    have "2 ^ (p - 1) \<le> x * pow2 s"
      using fl_shift_lower [OF x \<open>0 < p\<close>] by (simp add: s_def)
    moreover have "(2::rat) ^ p = 2 * 2 ^ (p - 1)"
      using \<open>0 < p\<close> by (cases p) auto
    ultimately show ?thesis
      by (simp add: field_simps)
  qed
  finally show ?thesis .
qed

lemma fl_nonneg [simp]: "0 < p \<Longrightarrow> 0 \<le> fl p x"
proof (cases "0 < x")
  case True
  assume "0 < p"
  with fl_error [of x p] True have "x - x / 2 ^ p \<le> fl p x" by simp
  moreover have "x / 2 ^ p \<le> x"
    using True by (simp add: field_simps)
  ultimately show ?thesis by linarith
qed (simp add: fl_def)

text \<open>Two numbers further apart than their errors stay in order.\<close>

lemma fl_strict_mono:
  assumes "0 \<le> x" "0 \<le> y" "0 < p" and "x + (x + y) / 2 ^ p < y"
  shows "fl p x < fl p y"
  using assms fl_error [of x p] fl_error [of y p]
  by (simp add: abs_le_iff add_divide_distrib)

text \<open>Small integers are exact, and so quotients of small integers compare exactly.\<close>

lemma fl_int:
  assumes "0 \<le> n" "n < 2 ^ p"
  shows "fl p (of_int n) = of_int n"
proof (cases "n = 0")
  case True
  then show ?thesis by (simp add: fl_def)
next
  case False
  have "bitlen n \<le> int p"
    using assms(2) by (simp add: bitlen_le_iff_power)
  moreover have "bitlen 1 = 1"
    by (simp add: compute_bitlen)
  ultimately have "0 \<le> fl_shift p (of_int n)"
    by (simp add: fl_shift_def Let_def)
  then have "of_int n * pow2 (fl_shift p (of_int n)) = of_int (n * 2 ^ nat (fl_shift p (of_int n)))"
    by (simp add: pow2_def)
  then show ?thesis
    using assms(1) False by (simp only: fl_def round_even_int) (simp add: pow2_def)
qed

lemma fdiv_exact:
  "\<lbrakk>0 \<le> a; a < 2 ^ p; 0 \<le> b; b < 2 ^ p\<rbrakk> \<Longrightarrow> fdiv p a b = fl p (of_int a / of_int b)"
  by (simp add: fdiv_def fl_int)

lemma fl_quot_less:
  assumes "0 < b" "0 < d" "0 \<le> a" "0 \<le> c" "0 < p"
    and small: "a * d + c * b < 2 ^ p" and less: "a * d < c * b"
  shows "fl p (of_int a / of_int b) < fl p (of_int c / of_int d)"
proof (rule fl_strict_mono)
  let ?x = "(of_int a :: rat) / of_int b" and ?y = "(of_int c :: rat) / of_int d"
  let ?bd = "(of_int b :: rat) * of_int d"
  have bd: "0 < ?bd"
    using assms(1,2) by simp
  have x: "?x * ?bd = of_int (a * d)" and y: "?y * ?bd = of_int (c * b)"
    using assms(1,2) by (simp_all add: field_simps)
  have "(of_int (a * d + c * b) :: rat) < of_int (2 ^ p)"
    using small by linarith
  then have "of_int (a * d + c * b) / 2 ^ p < (1::rat)"
    by simp
  moreover have "of_int (a * d) + 1 \<le> (of_int (c * b) :: rat)"
    using less by linarith
  ultimately have "of_int (a * d) + of_int (a * d + c * b) / 2 ^ p < (of_int (c * b) :: rat)"
    by linarith
  then have "?x * ?bd + (?x * ?bd + ?y * ?bd) / 2 ^ p < ?y * ?bd"
    by (simp only: x y of_int_add)
  then have "(?x + (?x + ?y) / 2 ^ p) * ?bd < ?y * ?bd"
    by (simp only: distrib_right times_divide_eq_left)
  then show "?x + (?x + ?y) / 2 ^ p < ?y"
    using bd by (simp only: mult_less_cancel_right)
qed (use assms in auto)

lemma fl_quot_less_iff:
  assumes "0 < b" "0 < d" "0 \<le> a" "0 \<le> c" "0 < p" "a * d + c * b < 2 ^ p"
  shows "fl p (of_int a / of_int b) < fl p (of_int c / of_int d) \<longleftrightarrow> a * d < c * b"
proof
  assume less: "fl p (of_int a / of_int b) < fl p (of_int c / of_int d)"
  show "a * d < c * b"
  proof (rule ccontr)
    assume "\<not> a * d < c * b"
    then consider "c * b < a * d" | "a * d = c * b" by linarith
    then show False
    proof cases
      case 1
      with assms fl_quot_less [of d b c a p] less show False by (simp add: add.commute)
    next
      case 2
      then have "(of_int a * of_int d :: rat) = of_int c * of_int b"
        by (metis of_int_mult)
      with assms have "(of_int a :: rat) / of_int b = of_int c / of_int d"
        by (simp add: frac_eq_eq)
      with less show False by simp
    qed
  qed
qed (use assms fl_quot_less in blast)

end
