(* ===== verification/FET.thy ===== *)
theory FET
  imports GoFloat Props
begin

text \<open>
  \<open>analyzer/tcp/fet.go\<close>: the fully-encrypted-traffic analyzer. It looks at one chunk of data,
  computes the five exemption metrics and decides. The metrics are counts, a longest run and two
  \<open>float32\<close> quotients; the lemmas relate them to what they measure, and show that the rounding of
  the quotients never changes the decision for the chunks the engine feeds, at most \<open>Limit ()\<close>
  bytes long.
\<close>

definition FETAnalyzer_Name :: string where
  "FETAnalyzer_Name = ''fet''"

definition FETAnalyzer_Limit :: int where
  "FETAnalyzer_Limit = 8192"

definition isPrintable :: "byte \<Rightarrow> bool" where
  "isPrintable b \<longleftrightarrow> 0x20 \<le> b \<and> b \<le> 0x7e"

text \<open>\<open>for b != 0 { count += int(b & 1); b >>= 1 }\<close>\<close>

function popCount_loop :: "byte \<Rightarrow> nat \<Rightarrow> nat" where
  "popCount_loop b count =
     (if b \<noteq> 0 then popCount_loop (drop_bit 1 b) (count + unat (b AND 1)) else count)"
  by pat_completeness auto
termination
proof (relation "measure (\<lambda>(b, count). unat b)")
  fix b :: byte
  assume "b \<noteq> 0"
  then have "0 < unat b"
    by (simp add: unat_gt_0)
  then show "((drop_bit 1 b, n + unat (b AND 1)), b, n) \<in> measure (\<lambda>(b, count). unat b)" for n
    by (simp add: unat_drop_bit_eq drop_bit_eq_div unat_div)
qed simp

declare popCount_loop.simps [simp del]

definition popCount :: "byte \<Rightarrow> nat" where
  "popCount b = popCount_loop b 0"

definition averagePopCount :: "bytes \<Rightarrow> rat" where
  "averagePopCount bs =
     (if length bs = 0 then 0
      else fdiv 24 (int (foldl (\<lambda>total b. total + popCount b) 0 bs)) (int (length bs)))"

definition isFirstSixPrintable :: "bytes \<Rightarrow> bool" where
  "isFirstSixPrintable bs \<longleftrightarrow> \<not> length bs < 6 \<and> list_all isPrintable (take 6 bs)"

definition printableCount :: "bytes \<Rightarrow> nat" where
  "printableCount bs = foldl (\<lambda>count b. if isPrintable b then count + 1 else count) 0 bs"

definition printablePercentage :: "bytes \<Rightarrow> rat" where
  "printablePercentage bs =
     (if length bs = 0 then 0 else fdiv 24 (int (printableCount bs)) (int (length bs)))"

text \<open>The loop of \<open>contiguousPrintable\<close> and its last comparison.\<close>

fun contiguousPrintable_loop :: "bytes \<Rightarrow> nat \<Rightarrow> nat \<Rightarrow> nat" where
  "contiguousPrintable_loop [] current maxCount =
     (if maxCount < current then current else maxCount)"
| "contiguousPrintable_loop (b # bs) current maxCount =
     (if isPrintable b then contiguousPrintable_loop bs (current + 1) maxCount
      else contiguousPrintable_loop bs 0 (if maxCount < current then current else maxCount))"

definition contiguousPrintable :: "bytes \<Rightarrow> nat" where
  "contiguousPrintable bs = (if length bs = 0 then 0 else contiguousPrintable_loop bs 0 0)"

definition isTLSorHTTP :: "bytes \<Rightarrow> bool" where
  "isTLSorHTTP bs \<longleftrightarrow>
     (if length bs < 3 then False
      else if 0x16 \<le> bs ! 0 \<and> bs ! 0 \<le> 0x17 \<and> bs ! 1 = 0x03 \<and> bs ! 2 \<le> 0x09 then True
      else go_string (take 3 bs) \<in>
        {''GET'', ''HEA'', ''POS'', ''PUT'', ''DEL'', ''CON'', ''OPT'', ''TRA'', ''PAT''})"

text \<open>The stream keeps no state between calls; its logger is not modelled.\<close>

definition fetStream_Feed ::
    "bool \<Rightarrow> bool \<Rightarrow> bool \<Rightarrow> int \<Rightarrow> bytes \<Rightarrow> PropUpdate option \<times> bool" where
  "fetStream_Feed rv st en skip data =
     (if skip \<noteq> 0 then (None, True)
      else if length data = 0 then (None, False)
      else
        (let ex1 = averagePopCount data;
             ex2 = isFirstSixPrintable data;
             ex3 = printablePercentage data;
             ex4 = contiguousPrintable data;
             ex5 = isTLSorHTTP data;
             exempt = ((ex1 \<le> float32 (34/10) \<or> float32 (46/10) \<le> ex1) \<or> ex2
                         \<or> float32 (5/10) < ex3 \<or> 20 < ex4 \<or> ex5) in
         (Some \<lparr>Type = PropUpdateReplace,
                M = [''ex1'' \<mapsto> PFloat ex1, ''ex2'' \<mapsto> PBool ex2, ''ex3'' \<mapsto> PFloat ex3,
                     ''ex4'' \<mapsto> PInt (int ex4), ''ex5'' \<mapsto> PBool ex5, ''yes'' \<mapsto> PBool (\<not> exempt)]\<rparr>, True)))"

definition fetStream_Close :: "bool \<Rightarrow> PropUpdate option" where
  "fetStream_Close limited = None"

section \<open>The metrics\<close>

lemma popCount_loop_card:
  "popCount_loop b n = n + card {i. bit b i}"
proof (induction b n rule: popCount_loop.induct)
  case (1 b n)
  show ?case
  proof (cases "b = 0")
    case True
    then show ?thesis by (simp add: popCount_loop.simps)
  next
    case False
    have fin: "finite {i. bit (drop_bit 1 b) i}"
      by (rule finite_subset [of _ "{..<8}"]) (auto dest: bit_imp_le_length)
    have "{i. bit b i} = (if bit b 0 then {0} else {}) \<union> Suc ` {i. bit (drop_bit 1 b) i}"
      by (auto simp: bit_drop_bit_eq image_iff not0_implies_Suc)
        (metis not0_implies_Suc)+
    then have "card {i. bit b i} = (if bit b 0 then 1 else 0) + card {i. bit (drop_bit 1 b) i}"
      using fin by (auto simp: card_image card_insert_if)
    moreover have "unat (b AND 1) = (if bit b 0 then 1 else 0)"
      by (simp add: and_one_eq bit_0 odd_iff_mod_2_eq_one)
    ultimately show ?thesis
      using 1 False by (subst popCount_loop.simps) simp
  qed
qed

lemma popCount_card: "popCount b = card {i. bit b i}"
  by (simp add: popCount_def popCount_loop_card)

lemma popCount_le: "popCount b \<le> 8"
proof -
  have "{i. bit b i} \<subseteq> {..<8}"
    by (auto dest: bit_imp_le_length)
  then have "card {i. bit b i} \<le> card {..<8::nat}"
    by (intro card_mono) auto
  then show ?thesis by (simp add: popCount_card)
qed

lemma foldl_sum_add: "foldl (\<lambda>t b. t + f b) (n::nat) bs = n + sum_list (map f bs)"
  by (induction bs arbitrary: n) auto

lemma printableCount_filter: "printableCount bs = length (filter isPrintable bs)"
proof -
  have "foldl (\<lambda>c b. if isPrintable b then c + 1 else c) n bs = n + length (filter isPrintable bs)" for n
    by (induction bs arbitrary: n) auto
  then show ?thesis by (simp add: printableCount_def)
qed

text \<open>
  \<open>has_run P n bs\<close>: somewhere in \<open>bs\<close> there are \<open>n\<close> consecutive elements with \<open>P\<close>.
\<close>

definition has_run :: "('a \<Rightarrow> bool) \<Rightarrow> nat \<Rightarrow> 'a list \<Rightarrow> bool" where
  "has_run P n bs \<longleftrightarrow> (\<exists>pre mid post. bs = pre @ mid @ post \<and> length mid = n \<and> list_all P mid)"

lemma has_run_Cons:
  "has_run P n (b # bs) \<longleftrightarrow> has_run P n bs \<or> n \<le> Suc (length bs) \<and> list_all P (take n (b # bs))"
proof
  assume "has_run P n (b # bs)"
  then obtain pre mid post where h: "b # bs = pre @ mid @ post" "length mid = n" "list_all P mid"
    by (auto simp: has_run_def)
  show "has_run P n bs \<or> n \<le> Suc (length bs) \<and> list_all P (take n (b # bs))"
  proof (cases pre)
    case Nil
    with h have "b # bs = mid @ post" by simp
    then have "take n (b # bs) = mid" and "n \<le> Suc (length bs)"
      using h by (simp, metis h(2) length_Cons length_append le_add1)
    then show ?thesis using h by simp
  next
    case (Cons a as)
    with h show ?thesis by (auto simp: has_run_def)
  qed
next
  assume "has_run P n bs \<or> n \<le> Suc (length bs) \<and> list_all P (take n (b # bs))"
  then show "has_run P n (b # bs)"
  proof
    assume "has_run P n bs"
    then obtain pre mid post where "bs = pre @ mid @ post" "length mid = n" "list_all P mid"
      by (auto simp: has_run_def)
    then have "b # bs = (b # pre) @ mid @ post" by simp
    with \<open>length mid = n\<close> \<open>list_all P mid\<close> show ?thesis
      unfolding has_run_def by blast
  next
    assume "n \<le> Suc (length bs) \<and> list_all P (take n (b # bs))"
    then show ?thesis
      unfolding has_run_def
      by (intro exI [of _ "[]"] exI [of _ "take n (b # bs)"] exI [of _ "drop n (b # bs)"]) auto
  qed
qed

lemma has_run_prefix:
  assumes "k \<le> length bs" "n \<le> k" "list_all P (take k bs)"
  shows "has_run P n bs"
proof -
  have "take n bs = take n (take k bs)"
    using assms(2) by (simp add: min_absorb1)
  then have "list_all P (take n bs)"
    using assms(3) by (metis in_set_takeD list_all_iff)
  with assms show ?thesis
    unfolding has_run_def
    by (intro exI [of _ "[]"] exI [of _ "take n bs"] exI [of _ "drop n bs"]) auto
qed

lemma ex_le_Suc: "(\<exists>k \<le> Suc n. Q k) \<longleftrightarrow> Q 0 \<or> (\<exists>k \<le> n. Q (Suc k))"
  by (metis Suc_le_mono not0_implies_Suc zero_le)

lemma contiguousPrintable_loop_gt:
  "n < contiguousPrintable_loop bs cur mx \<longleftrightarrow>
     n < mx \<or> has_run isPrintable (Suc n) bs
       \<or> (\<exists>k \<le> length bs. n < cur + k \<and> list_all isPrintable (take k bs))"
proof (induction bs arbitrary: cur mx)
  case Nil
  then show ?case by (auto simp: has_run_def)
next
  case (Cons b bs)
  have ex: "(\<exists>k \<le> Suc (length bs). Q k \<and> list_all isPrintable (take k (b # bs))) \<longleftrightarrow>
      Q 0 \<or> isPrintable b \<and> (\<exists>k \<le> length bs. Q (Suc k) \<and> list_all isPrintable (take k bs))" for Q
    by (subst ex_le_Suc) auto
  show ?case
  proof (cases "isPrintable b")
    case True
    have "(\<exists>k \<le> length bs. n < Suc cur + k \<and> list_all isPrintable (take k bs)) \<longleftrightarrow>
        n < cur \<or> (\<exists>k \<le> length bs. n < cur + Suc k \<and> list_all isPrintable (take k bs))"
      by auto
    moreover have "n \<le> length bs \<and> list_all isPrintable (take n bs) \<Longrightarrow>
        \<exists>k \<le> length bs. n < cur + Suc k \<and> list_all isPrintable (take k bs)"
      by auto
    ultimately show ?thesis
      using True by (auto simp: Cons.IH has_run_Cons ex)
  next
    case False
    have "has_run isPrintable (Suc n) bs"
      if "k \<le> length bs" "n < 0 + k" "list_all isPrintable (take k bs)" for k
      using that by (intro has_run_prefix [of k]) auto
    with False show ?thesis
      by (auto simp: Cons.IH has_run_Cons ex)
  qed
qed

lemma contiguousPrintable_run:
  "n < contiguousPrintable bs \<longleftrightarrow> has_run isPrintable (Suc n) bs"
proof -
  have "has_run isPrintable (Suc n) bs"
    if "k \<le> length bs" "n < k" "list_all isPrintable (take k bs)" for k
    using that by (intro has_run_prefix [of k]) auto
  then show ?thesis
    by (auto simp: contiguousPrintable_def contiguousPrintable_loop_gt has_run_def [of _ _ "[]"])
qed

section \<open>The decision\<close>

definition bitTotal :: "bytes \<Rightarrow> nat" where
  "bitTotal bs = sum_list (map (\<lambda>b. card {i. bit b i}) bs)"

lemma bitTotal_le: "bitTotal bs \<le> 8 * length bs"
  by (induction bs) (use popCount_le in \<open>auto simp: bitTotal_def popCount_card intro: add_mono\<close>)

lemma foldl_popCount: "foldl (\<lambda>total b. total + popCount b) 0 bs = bitTotal bs"
  by (simp add: foldl_sum_add bitTotal_def popCount_card)

lemma averagePopCount_eq:
  assumes "bs \<noteq> []" "length bs \<le> 8192"
  shows "averagePopCount bs = float32 (of_int (int (bitTotal bs)) / of_int (int (length bs)))"
  using assms bitTotal_le [of bs]
  by (simp add: averagePopCount_def foldl_popCount fdiv_exact del: of_int_of_nat_eq)

lemma printablePercentage_eq:
  assumes "bs \<noteq> []" "length bs \<le> 8192"
  shows "printablePercentage bs =
           float32 (of_int (int (length (filter isPrintable bs))) / of_int (int (length bs)))"
proof -
  have "length (filter isPrintable bs) \<le> 8192"
    using assms(2) by (rule order_trans [OF length_filter_le])
  then show ?thesis
    using assms
    by (simp add: printablePercentage_def printableCount_filter fdiv_exact del: of_int_of_nat_eq)
qed

lemma exempt_popcount:
  assumes "bs \<noteq> []" "length bs \<le> 8192"
  shows "averagePopCount bs \<le> float32 (34/10) \<longleftrightarrow> 10 * bitTotal bs \<le> 34 * length bs"
    and "float32 (46/10) \<le> averagePopCount bs \<longleftrightarrow> 46 * length bs \<le> 10 * bitTotal bs"
proof -
  have "0 < int (length bs)" "int (length bs) \<le> 8192" "int (bitTotal bs) \<le> 65536"
    using assms bitTotal_le [of bs] by auto
  then have "float32 (34/10) < averagePopCount bs \<longleftrightarrow> 34 * int (length bs) < int (bitTotal bs) * 10"
    and "averagePopCount bs < float32 (46/10) \<longleftrightarrow> int (bitTotal bs) * 10 < 46 * int (length bs)"
    using fl_quot_less_iff [of 10 "int (length bs)" 34 "int (bitTotal bs)" 24]
      fl_quot_less_iff [of "int (length bs)" 10 "int (bitTotal bs)" 46 24]
    by (simp_all add: averagePopCount_eq [OF assms] del: of_int_of_nat_eq)
  then show "averagePopCount bs \<le> float32 (34/10) \<longleftrightarrow> 10 * bitTotal bs \<le> 34 * length bs"
    and "float32 (46/10) \<le> averagePopCount bs \<longleftrightarrow> 46 * length bs \<le> 10 * bitTotal bs"
    by linarith+
qed

lemma exempt_printable:
  assumes "bs \<noteq> []" "length bs \<le> 8192"
  shows "float32 (5/10) < printablePercentage bs \<longleftrightarrow>
           length bs < 2 * length (filter isPrintable bs)"
proof -
  have "0 < int (length bs)" "int (length bs) \<le> 8192"
    "int (length (filter isPrintable bs)) \<le> 8192"
    using assms le_trans [OF length_filter_le assms(2), of isPrintable] by auto
  then have "float32 (5/10) < printablePercentage bs \<longleftrightarrow>
      1 * int (length bs) < int (length (filter isPrintable bs)) * 2"
    using fl_quot_less_iff [of 2 "int (length bs)" 1 "int (length (filter isPrintable bs))" 24]
    by (simp add: printablePercentage_eq [OF assms] del: of_int_of_nat_eq)
  then show ?thesis by linarith
qed

text \<open>
  The verdict in integers: the average number of set bits lies strictly between 3.4 and 4.6, the
  first six bytes are not all printable, at most half of the bytes are, no 21 in a row are, and
  the data does not start like TLS or HTTP.
\<close>

definition fully_encrypted :: "bytes \<Rightarrow> bool" where
  "fully_encrypted bs \<longleftrightarrow>
     34 * length bs < 10 * bitTotal bs \<and> 10 * bitTotal bs < 46 * length bs
     \<and> \<not> isFirstSixPrintable bs
     \<and> 2 * length (filter isPrintable bs) \<le> length bs
     \<and> \<not> has_run isPrintable 21 bs
     \<and> \<not> isTLSorHTTP bs"

text \<open>
  C22. Up to 8192 bytes the float32 comparisons of the fully-encrypted-traffic test decide exactly
  as the integer inequalities do: the verdict is yes iff the average number of set bits is
  strictly between 3.4 and 4.6, the first six bytes are not all printable, at most half of the
  bytes are printable, no 21 printable bytes are adjacent, and the data does not start like TLS or
  HTTP.
\<close>

theorem fetStream_Feed_yes:
  assumes "bs \<noteq> []" "length bs \<le> 8192"
  shows "\<exists>m. fetStream_Feed rv st en 0 bs = (Some \<lparr>Type = PropUpdateReplace, M = m\<rparr>, True)
           \<and> m ''yes'' = Some (PBool (fully_encrypted bs))"
proof -
  have "20 < contiguousPrintable bs \<longleftrightarrow> has_run isPrintable 21 bs"
    by (simp add: contiguousPrintable_run)
  then show ?thesis
    using exempt_popcount [OF assms] exempt_printable [OF assms] assms(1)
    by (auto simp: fetStream_Feed_def Let_def fully_encrypted_def not_le not_less)
qed

section \<open>The statement at a concrete input\<close>

theorem fetStream_Feed_yes_witness:
  "\<exists>m. fetStream_Feed False True False 0 (replicate 8 0xF0) = (Some \<lparr>Type = PropUpdateReplace, M = m\<rparr>, True)
     \<and> m ''yes'' = Some (PBool True)"
proof -
  have "popCount 0xF0 = 4" "isFirstSixPrintable (replicate 8 0xF0) = False" "isPrintable 0xF0 = False"
    "contiguousPrintable (replicate 8 0xF0) = 0" "isTLSorHTTP (replicate 8 0xF0) = False"
    by code_simp+
  then have "fully_encrypted (replicate 8 0xF0)"
    using contiguousPrintable_run [of 20 "replicate 8 0xF0"]
    by (simp add: fully_encrypted_def bitTotal_def sum_list_replicate flip: popCount_card)
  then show ?thesis
    using fetStream_Feed_yes [of "replicate 8 0xF0" False True False] by simp
qed

end
