(* ===== verification/GoNet.thy ===== *)
theory GoNet
  imports GoStrings
begin

text \<open>
  The printed form of IP addresses, \<open>net.IP.String\<close> of the standard library: four decimal numbers,
  or groups of hexadecimal digits with the longest run of zero groups (the first of those, and only
  if it has two or more) written \<open>::\<close>. A 16-byte address that maps an IPv4 one prints as IPv4.
\<close>

function fmt_x :: "nat \<Rightarrow> string" where
  "fmt_x n = (if n < 16 then [hex_digit n] else fmt_x (n div 16) @ [hex_digit (n mod 16)])"
  by pat_completeness auto
termination by (relation "measure id") auto

declare fmt_x.simps [simp del]

definition ipv4_String :: "byte \<Rightarrow> byte \<Rightarrow> byte \<Rightarrow> byte \<Rightarrow> string" where
  "ipv4_String a b c d =
     strings_Join (map (\<lambda>x. strconv_Itoa (uint x)) [a, b, c, d]) ''.''"

fun ip_groups :: "bytes \<Rightarrow> nat list" where
  "ip_groups (a # b # r) = unat (be_u16 a b) # ip_groups r"
| "ip_groups _ = []"

fun zero_run :: "nat list \<Rightarrow> nat" where
  "zero_run (0 # gs) = Suc (zero_run gs)"
| "zero_run _ = 0"

text \<open>The first longest run of at least two zero groups: \<open>(start, length)\<close>, length 0 for none.\<close>

fun best_run :: "nat \<Rightarrow> nat list \<Rightarrow> nat \<times> nat \<Rightarrow> nat \<times> nat" where
  "best_run i [] best = best"
| "best_run i (g # gs) best =
     (let l = zero_run (g # gs) in
      best_run (Suc i) gs (if 2 \<le> l \<and> snd best < l then (i, l) else best))"

definition ipv6_String :: "nat list \<Rightarrow> string" where
  "ipv6_String gs =
     (let (i, l) = best_run 0 gs (0, 0); hex = (\<lambda>xs. strings_Join (map fmt_x xs) '':'') in
      if l = 0 then hex gs else hex (take i gs) @ ''::'' @ hex (drop (i + l) gs))"

definition net_IP_String :: "bytes \<Rightarrow> string" where
  "net_IP_String ip =
     (if length ip = 0 then ''<nil>''
      else if length ip = 4 then ipv4_String (ip ! 0) (ip ! 1) (ip ! 2) (ip ! 3)
      else if length ip = 16 then
        (if take 10 ip = replicate 10 0 \<and> ip ! 10 = 0xff \<and> ip ! 11 = 0xff
         then ipv4_String (ip ! 12) (ip ! 13) (ip ! 14) (ip ! 15)
         else ipv6_String (ip_groups ip))
      else CHR ''?'' # hex_EncodeToString ip)"

end
