(* ===== verification/Socks.thy ===== *)
theory Socks
  imports ByteBuffer LSM Props GoNet
begin

text \<open>
  \<open>analyzer/tcp/socks.go\<close>: the SOCKS4, SOCKS4a and SOCKS5 analyzer. The first step of a direction
  reads the version byte and appends the steps of that version to its own machine. The
  connection-info steps of SOCKS5 slice a packet by a sum of bytes, which wraps; they are partial.
\<close>

datatype SocksVersion = SocksInvalid | Socks4 | Socks4A | Socks5

definition SocksAnalyzer_Name :: string where "SocksAnalyzer_Name = ''socks''"
definition SocksAnalyzer_Limit :: int where "SocksAnalyzer_Limit = 0"

datatype socks_step =
    parseSocksReqVersion | parseSocksRespVersion
  | parseSocks5ReqMethod | parseSocks5ReqAuth | parseSocks5ReqConnInfo
  | parseSocks5RespMethod | parseSocks5RespAuth | parseSocks5RespConnInfo
  | parseSocks4ReqIpAndPort | parseSocks4ReqUserId | parseSocks4ReqHostname
  | parseSocks4RespPacket

record socksStream =
  socks_reqBuf :: ByteBuffer
  socks_reqMap :: "PropMap option"
  socks_reqUpdated :: bool
  socks_reqLSM :: "socks_step LinearStateMachine"
  socks_reqDone :: bool
  socks_respBuf :: ByteBuffer
  socks_respMap :: "PropMap option"
  socks_respUpdated :: bool
  socks_respLSM :: "socks_step LinearStateMachine"
  socks_respDone :: bool
  version :: SocksVersion
  authReqMethod :: int
  authUsername :: string
  authPassword :: string
  authRespMethod :: int

definition newSocksStream :: socksStream where
  "newSocksStream =
     \<lparr>socks_reqBuf = \<lparr>Buf = []\<rparr>, socks_reqMap = None, socks_reqUpdated = False,
      socks_reqLSM = NewLinearStateMachine [parseSocksReqVersion], socks_reqDone = False,
      socks_respBuf = \<lparr>Buf = []\<rparr>, socks_respMap = None, socks_respUpdated = False,
      socks_respLSM = NewLinearStateMachine [parseSocksRespVersion], socks_respDone = False,
      version = SocksInvalid, authReqMethod = 0, authUsername = '''', authPassword = '''',
      authRespMethod = 0\<rparr>"

type_synonym socks_result = "(LSMAction \<times> socksStream) go"

text \<open>Writes to the two maps.\<close>

definition req_store :: "string \<Rightarrow> pval \<Rightarrow> socksStream \<Rightarrow> socksStream go" where
  "req_store k v s = map_option (\<lambda>m. s\<lparr>socks_reqMap := m\<rparr>) (map_store (socks_reqMap s) k v)"

definition resp_store :: "string \<Rightarrow> pval \<Rightarrow> socksStream \<Rightarrow> socksStream go" where
  "resp_store k v s = map_option (\<lambda>m. s\<lparr>socks_respMap := m\<rparr>) (map_store (socks_respMap s) k v)"

fun store_all :: "(string \<Rightarrow> pval \<Rightarrow> socksStream \<Rightarrow> socksStream go) \<Rightarrow> (string \<times> pval) list \<Rightarrow>
    socksStream \<Rightarrow> socksStream go" where
  "store_all st [] s = Some s"
| "store_all st ((k, v) # kvs) s = Option.bind (st k v s) (store_all st kvs)"

section \<open>Version bytes\<close>

definition socksStream_parseSocksReqVersion :: "socksStream \<Rightarrow> socks_result" where
  "socksStream_parseSocksReqVersion s =
     (case ByteBuffer_GetByte (socks_reqBuf s) True of
        (None, b) \<Rightarrow> Some (LSMActionPause, s\<lparr>socks_reqBuf := b\<rparr>)
      | (Some socksVer, b) \<Rightarrow>
          (let s = s\<lparr>socks_reqBuf := b\<rparr> in
           if socksVer \<noteq> 0x04 \<and> socksVer \<noteq> 0x05 then Some (LSMActionCancel, s)
           else
             (let s = s\<lparr>socks_reqMap := Some Map.empty, socks_reqUpdated := True\<rparr> in
              Some (LSMActionNext,
                if socksVer = 0x04
                then socks_reqLSM_update
                  (LinearStateMachine_AppendSteps
                     [parseSocks4ReqIpAndPort, parseSocks4ReqUserId, parseSocks4ReqHostname])
                  (s\<lparr>version := Socks4\<rparr>)
                else socks_reqLSM_update
                  (LinearStateMachine_AppendSteps
                     [parseSocks5ReqMethod, parseSocks5ReqAuth, parseSocks5ReqConnInfo])
                  (s\<lparr>version := Socks5\<rparr>)))))"

definition socksStream_parseSocksRespVersion :: "socksStream \<Rightarrow> socks_result" where
  "socksStream_parseSocksRespVersion s =
     (case ByteBuffer_GetByte (socks_respBuf s) True of
        (None, b) \<Rightarrow> Some (LSMActionPause, s\<lparr>socks_respBuf := b\<rparr>)
      | (Some socksVer, b) \<Rightarrow>
          (let s = s\<lparr>socks_respBuf := b\<rparr> in
           if (version s = Socks4 \<or> version s = Socks4A) \<and> socksVer \<noteq> 0x00
              \<or> version s = Socks5 \<and> socksVer \<noteq> 0x05 \<or> version s = SocksInvalid
           then Some (LSMActionCancel, s)
           else
             Some (LSMActionNext,
               if socksVer = 0x00
               then socks_respLSM_update (LinearStateMachine_AppendSteps [parseSocks4RespPacket]) s
               else socks_respLSM_update
                 (LinearStateMachine_AppendSteps
                    [parseSocks5RespMethod, parseSocks5RespAuth, parseSocks5RespConnInfo]) s)))"

section \<open>SOCKS5\<close>

definition socksStream_parseSocks5ReqMethod :: "socksStream \<Rightarrow> socks_result" where
  "socksStream_parseSocks5ReqMethod s =
     (case ByteBuffer_GetByte (socks_reqBuf s) False of
        (None, _) \<Rightarrow> Some (LSMActionPause, s)
      | (Some nMethods, _) \<Rightarrow>
     (case ByteBuffer_Get (socks_reqBuf s) (unat nMethods + 1) True of
        (None, _) \<Rightarrow> Some (LSMActionPause, s)
      | (Some methods, b) \<Rightarrow>
          Some (LSMActionNext,
            s\<lparr>socks_reqBuf := b,
              authReqMethod :=
                (case List.find (\<lambda>m. m = 0x00 \<or> m = 0x02) (tl methods) of
                   None \<Rightarrow> 0xff | Some m \<Rightarrow> uint m)\<rparr>)))"

definition socksStream_parseSocks5ReqAuth :: "socksStream \<Rightarrow> socks_result" where
  "socksStream_parseSocks5ReqAuth s =
     (if authReqMethod s = 0 then
        map_option (\<lambda>s. (LSMActionNext, s\<lparr>socks_reqUpdated := True\<rparr>))
          (req_store ''auth'' (PMap [''method'' \<mapsto> PInt (authReqMethod s)]) s)
      else if authReqMethod s = 2 then
        (case ByteBuffer_Get (socks_reqBuf s) 2 False of
           (None, _) \<Rightarrow> Some (LSMActionPause, s)
         | (Some meta, _) \<Rightarrow>
        if meta ! 0 \<noteq> 0x01 then Some (LSMActionCancel, s) else
        (let usernameLen = unat (meta ! 1) in
        (case ByteBuffer_Get (socks_reqBuf s) (usernameLen + 3) False of
           (None, _) \<Rightarrow> Some (LSMActionPause, s)
         | (Some meta, _) \<Rightarrow>
        (let passwordLen = unat (meta ! (usernameLen + 2)) in
        (case ByteBuffer_Get (socks_reqBuf s) (usernameLen + passwordLen + 3) True of
           (None, _) \<Rightarrow> Some (LSMActionPause, s)
         | (Some meta, b) \<Rightarrow>
        (let s = s\<lparr>socks_reqBuf := b,
                   authUsername := go_string (take usernameLen (drop 2 meta)),
                   authPassword := go_string (drop (usernameLen + 3) meta)\<rparr> in
         map_option (\<lambda>s. (LSMActionNext, s\<lparr>socks_reqUpdated := True\<rparr>))
           (req_store ''auth''
              (PMap [''method'' \<mapsto> PInt (authReqMethod s), ''username'' \<mapsto> PStr (authUsername s),
                     ''password'' \<mapsto> PStr (authPassword s)]) s)))))))
      else Some (LSMActionCancel, s))"

text \<open>The packet length the address type and the first address byte give; \<open>None\<close> cancels.\<close>

definition socks5_pktLen :: "byte \<Rightarrow> byte \<Rightarrow> nat option" where
  "socks5_pktLen addrType b4 =
     (if addrType = 0x01 then Some 10 else if addrType = 0x03 then Some (7 + unat b4)
      else if addrType = 0x04 then Some 22 else None)"

text \<open>
  The address text of a packet, \<open>Some None\<close> for a type that cancels. The upper bound \<open>5+pkt[4]\<close>
  of the domain is a byte.
\<close>

definition socks5_addr :: "bytes \<Rightarrow> string option go" where
  "socks5_addr pkt =
     (if pkt ! 3 = 0x01 then Some (Some (ipv4_String (pkt ! 4) (pkt ! 5) (pkt ! 6) (pkt ! 7)))
      else if pkt ! 3 = 0x03 then map_option (\<lambda>d. Some (go_string d)) (go_slice 5 (unat (5 + pkt ! 4)) pkt)
      else if pkt ! 3 = 0x04 then Some (Some (net_IP_String (take 16 (drop 4 pkt))))
      else Some None)"

definition socksStream_parseSocks5ReqConnInfo :: "socksStream \<Rightarrow> socks_result" where
  "socksStream_parseSocks5ReqConnInfo s =
     (case ByteBuffer_Get (socks_reqBuf s) 5 False of
        (None, _) \<Rightarrow> Some (LSMActionPause, s)
      | (Some preInfo, _) \<Rightarrow>
     if preInfo ! 0 \<noteq> 0x05 then Some (LSMActionCancel, s) else
     (case socks5_pktLen (preInfo ! 3) (preInfo ! 4) of
        None \<Rightarrow> Some (LSMActionCancel, s)
      | Some pktLen \<Rightarrow>
     (case ByteBuffer_Get (socks_reqBuf s) pktLen True of
        (None, _) \<Rightarrow> Some (LSMActionPause, s)
      | (Some pkt, b) \<Rightarrow>
     (let s = s\<lparr>socks_reqBuf := b\<rparr>; cmd = uint (pkt ! 1) in
      if cmd \<noteq> 1 \<and> cmd \<noteq> 2 \<and> cmd \<noteq> 3 then Some (LSMActionCancel, s) else
      Option.bind (req_store ''cmd'' (PInt cmd) s) (\<lambda>s.
      Option.bind (socks5_addr pkt) (\<lambda>addro. case addro of None \<Rightarrow> Some (LSMActionCancel, s) | Some addr \<Rightarrow>
      map_option (\<lambda>s. (LSMActionNext, s\<lparr>socks_reqUpdated := True\<rparr>))
        (store_all req_store
           [(''addr_type'', PInt (uint (pkt ! 3))), (''addr'', PStr addr),
            (''port'', PInt (int (be_int2 (pkt ! (pktLen - 2)) (pkt ! (pktLen - 1)))))] s)))))))"

definition socksStream_parseSocks5RespMethod :: "socksStream \<Rightarrow> socks_result" where
  "socksStream_parseSocks5RespMethod s =
     (case ByteBuffer_Get (socks_respBuf s) 1 True of
        (None, _) \<Rightarrow> Some (LSMActionPause, s)
      | (Some meth, b) \<Rightarrow>
          Some (LSMActionNext,
            s\<lparr>socks_respBuf := b, authRespMethod := uint (meth ! 0), socks_respMap := Some Map.empty\<rparr>))"

definition socksStream_parseSocks5RespAuth :: "socksStream \<Rightarrow> socks_result" where
  "socksStream_parseSocks5RespAuth s =
     (if authRespMethod s = 0 then
        map_option (\<lambda>s. (LSMActionNext, s\<lparr>socks_respUpdated := True\<rparr>))
          (resp_store ''auth'' (PMap [''method'' \<mapsto> PInt (authRespMethod s)]) s)
      else if authRespMethod s = 2 then
        (case ByteBuffer_Get (socks_respBuf s) 2 True of
           (None, _) \<Rightarrow> Some (LSMActionPause, s)
         | (Some authResp, b) \<Rightarrow>
             (let s = s\<lparr>socks_respBuf := b\<rparr> in
              if authResp ! 0 \<noteq> 0x01 then Some (LSMActionCancel, s)
              else map_option (\<lambda>s. (LSMActionNext, s\<lparr>socks_respUpdated := True\<rparr>))
                (resp_store ''auth''
                   (PMap [''method'' \<mapsto> PInt (authRespMethod s), ''status'' \<mapsto> PInt (uint (authResp ! 1))]) s)))
      else Some (LSMActionCancel, s))"

definition socksStream_parseSocks5RespConnInfo :: "socksStream \<Rightarrow> socks_result" where
  "socksStream_parseSocks5RespConnInfo s =
     (case ByteBuffer_Get (socks_respBuf s) 5 False of
        (None, _) \<Rightarrow> Some (LSMActionPause, s)
      | (Some preInfo, _) \<Rightarrow>
     if preInfo ! 0 \<noteq> 0x05 then Some (LSMActionCancel, s) else
     (case socks5_pktLen (preInfo ! 3) (preInfo ! 4) of
        None \<Rightarrow> Some (LSMActionCancel, s)
      | Some pktLen \<Rightarrow>
     (case ByteBuffer_Get (socks_respBuf s) pktLen True of
        (None, _) \<Rightarrow> Some (LSMActionPause, s)
      | (Some pkt, b) \<Rightarrow>
      Option.bind (resp_store ''rep'' (PInt (uint (pkt ! 1))) (s\<lparr>socks_respBuf := b\<rparr>)) (\<lambda>s.
      Option.bind (socks5_addr pkt) (\<lambda>addro. case addro of None \<Rightarrow> Some (LSMActionCancel, s) | Some addr \<Rightarrow>
      map_option (\<lambda>s. (LSMActionNext, s\<lparr>socks_respUpdated := True\<rparr>))
        (store_all resp_store
           [(''addr_type'', PInt (uint (pkt ! 3))), (''addr'', PStr addr),
            (''port'', PInt (int (be_int2 (pkt ! (pktLen - 2)) (pkt ! (pktLen - 1)))))] s))))))"

section \<open>SOCKS4\<close>

definition socksStream_parseSocks4ReqIpAndPort :: "socksStream \<Rightarrow> socks_result" where
  "socksStream_parseSocks4ReqIpAndPort s =
     (case ByteBuffer_Get (socks_reqBuf s) 7 True of
        (None, _) \<Rightarrow> Some (LSMActionPause, s)
      | (Some pkt, b) \<Rightarrow>
          (let s = s\<lparr>socks_reqBuf := b\<rparr> in
           if pkt ! 0 \<noteq> 0x01 \<and> pkt ! 0 \<noteq> 0x02 then Some (LSMActionCancel, s)
           else
             (let s = (if pkt ! 3 = 0 \<and> pkt ! 4 = 0 \<and> pkt ! 5 = 0 then s\<lparr>version := Socks4A\<rparr> else s) in
              map_option (\<lambda>s. (LSMActionNext, s\<lparr>socks_reqUpdated := True\<rparr>))
                (store_all req_store
                   [(''cmd'', PU8 (pkt ! 0)),
                    (''addr'', PStr (ipv4_String (pkt ! 3) (pkt ! 4) (pkt ! 5) (pkt ! 6))),
                    (''addr_type'', PInt 1), (''port'', PU16 (be_u16 (pkt ! 1) (pkt ! 2)))] s))))"

definition socksStream_parseSocks4ReqUserId :: "socksStream \<Rightarrow> socks_result" where
  "socksStream_parseSocks4ReqUserId s =
     (case ByteBuffer_GetUntil (socks_reqBuf s) [0] True True of
        (None, _) \<Rightarrow> Some (LSMActionPause, s)
      | (Some userIdSlice, b) \<Rightarrow>
          map_option (\<lambda>s. (LSMActionNext, s\<lparr>socks_reqUpdated := True\<rparr>))
            (req_store ''auth''
               (PMap [''user_id'' \<mapsto> PStr (go_string (take (length userIdSlice - 1) userIdSlice))])
               (s\<lparr>socks_reqBuf := b\<rparr>)))"

definition socksStream_parseSocks4ReqHostname :: "socksStream \<Rightarrow> socks_result" where
  "socksStream_parseSocks4ReqHostname s =
     (if version s \<noteq> Socks4A then Some (LSMActionNext, s)
      else
        (case ByteBuffer_GetUntil (socks_reqBuf s) [0] True True of
           (None, _) \<Rightarrow> Some (LSMActionPause, s)
         | (Some hostnameSlice, b) \<Rightarrow>
             map_option (\<lambda>s. (LSMActionNext, s\<lparr>socks_reqUpdated := True\<rparr>))
               (store_all req_store
                  [(''addr'', PStr (go_string (take (length hostnameSlice - 1) hostnameSlice))),
                   (''addr_type'', PInt 3)] (s\<lparr>socks_reqBuf := b\<rparr>))))"

definition socksStream_parseSocks4RespPacket :: "socksStream \<Rightarrow> socks_result" where
  "socksStream_parseSocks4RespPacket s =
     (case ByteBuffer_Get (socks_respBuf s) 7 True of
        (None, _) \<Rightarrow> Some (LSMActionPause, s)
      | (Some pkt, b) \<Rightarrow>
          (let s = s\<lparr>socks_respBuf := b\<rparr> in
           if pkt ! 0 \<noteq> 0x5a \<and> pkt ! 0 \<noteq> 0x5b \<and> pkt ! 0 \<noteq> 0x5c \<and> pkt ! 0 \<noteq> 0x5d
           then Some (LSMActionCancel, s)
           else Some (LSMActionNext,
             s\<lparr>socks_respMap := Some
                 [''rep'' \<mapsto> PU8 (pkt ! 0),
                  ''addr'' \<mapsto> PStr (ipv4_String (pkt ! 3) (pkt ! 4) (pkt ! 5) (pkt ! 6)),
                  ''addr_type'' \<mapsto> PInt 1, ''port'' \<mapsto> PU16 (be_u16 (pkt ! 1) (pkt ! 2))],
               socks_respUpdated := True\<rparr>)))"

section \<open>The stream\<close>

fun socks_exec :: "socks_step \<Rightarrow> socksStream \<Rightarrow> socks_result" where
  "socks_exec parseSocksReqVersion s = socksStream_parseSocksReqVersion s"
| "socks_exec parseSocksRespVersion s = socksStream_parseSocksRespVersion s"
| "socks_exec parseSocks5ReqMethod s = socksStream_parseSocks5ReqMethod s"
| "socks_exec parseSocks5ReqAuth s = socksStream_parseSocks5ReqAuth s"
| "socks_exec parseSocks5ReqConnInfo s = socksStream_parseSocks5ReqConnInfo s"
| "socks_exec parseSocks5RespMethod s = socksStream_parseSocks5RespMethod s"
| "socks_exec parseSocks5RespAuth s = socksStream_parseSocks5RespAuth s"
| "socks_exec parseSocks5RespConnInfo s = socksStream_parseSocks5RespConnInfo s"
| "socks_exec parseSocks4ReqIpAndPort s = socksStream_parseSocks4ReqIpAndPort s"
| "socks_exec parseSocks4ReqUserId s = socksStream_parseSocks4ReqUserId s"
| "socks_exec parseSocks4ReqHostname s = socksStream_parseSocks4ReqHostname s"
| "socks_exec parseSocks4RespPacket s = socksStream_parseSocks4RespPacket s"

definition socksStream_socksVersion :: "socksStream \<Rightarrow> int" where
  "socksStream_socksVersion s =
     (case version s of Socks4 \<Rightarrow> 0x04 | Socks4A \<Rightarrow> 0x04 | Socks5 \<Rightarrow> 0x05 | SocksInvalid \<Rightarrow> 0)"

definition socksStream_Feed ::
    "bool \<Rightarrow> bool \<Rightarrow> bool \<Rightarrow> int \<Rightarrow> bytes \<Rightarrow> socksStream \<Rightarrow> socksStream feed_result" where
  "socksStream_Feed rv st en skip data s =
     (if skip \<noteq> 0 then Some (Some ((None, True), s))
      else if length data = 0 then Some (Some ((None, False), s))
      else if rv then
        (let s = s\<lparr>socks_respBuf := ByteBuffer_Append (socks_respBuf s) data, socks_respUpdated := False\<rparr> in
         case LinearStateMachine_Run socks_exec socks_respLSM socks_respLSM_update s of
           None \<Rightarrow> None
         | Some None \<Rightarrow> Some None
         | Some (Some ((cancelled, dn), s)) \<Rightarrow>
             (let s = s\<lparr>socks_respDone := dn\<rparr>;
                  (update, s) =
                    (if socks_respUpdated s
                     then (Some \<lparr>Type = PropUpdateMerge, M = [''resp'' \<mapsto> PMap (the_map (socks_respMap s))]\<rparr>,
                           s\<lparr>socks_respUpdated := False\<rparr>)
                     else (None, s)) in
              Some (Some ((update, cancelled \<or> (socks_reqDone s \<and> socks_respDone s)), s))))
      else
        (let s = s\<lparr>socks_reqBuf := ByteBuffer_Append (socks_reqBuf s) data, socks_reqUpdated := False\<rparr> in
         case LinearStateMachine_Run socks_exec socks_reqLSM socks_reqLSM_update s of
           None \<Rightarrow> None
         | Some None \<Rightarrow> Some None
         | Some (Some ((cancelled, dn), s)) \<Rightarrow>
             (let s = s\<lparr>socks_reqDone := dn\<rparr>;
                  (update, s) =
                    (if socks_reqUpdated s
                     then (Some \<lparr>Type = PropUpdateMerge,
                                 M = [''version'' \<mapsto> PInt (socksStream_socksVersion s),
                                      ''req'' \<mapsto> PMap (the_map (socks_reqMap s))]\<rparr>,
                           s\<lparr>socks_reqUpdated := False\<rparr>)
                     else (None, s)) in
              Some (Some ((update, cancelled \<or> (socks_reqDone s \<and> socks_respDone s)), s)))))"

definition socksStream_Close :: "bool \<Rightarrow> socksStream \<Rightarrow> PropUpdate option \<times> socksStream" where
  "socksStream_Close limited s =
     (None, s\<lparr>socks_reqBuf := ByteBuffer_Reset (socks_reqBuf s), socks_respBuf := ByteBuffer_Reset (socks_respBuf s),
              socks_reqMap := None, socks_respMap := None\<rparr>)"

section \<open>Termination\<close>

definition socks_req_steps :: "socks_step list set" where
  "socks_req_steps =
     {[parseSocksReqVersion, parseSocks4ReqIpAndPort, parseSocks4ReqUserId, parseSocks4ReqHostname],
      [parseSocksReqVersion, parseSocks5ReqMethod, parseSocks5ReqAuth, parseSocks5ReqConnInfo]}"

text \<open>
  The machines are in one of their shapes, and the maps exist once a step writes to them.
\<close>

definition socks_inv :: "socksStream \<Rightarrow> bool" where
  "socks_inv s \<longleftrightarrow>
     (lsm_index (socks_reqLSM s) = 0 \<and> Steps (socks_reqLSM s) = [parseSocksReqVersion]
      \<or> 0 < lsm_index (socks_reqLSM s) \<and> Steps (socks_reqLSM s) \<in> socks_req_steps \<and> socks_reqMap s \<noteq> None)
     \<and> (lsm_index (socks_respLSM s) = 0 \<and> Steps (socks_respLSM s) = [parseSocksRespVersion]
      \<or> 0 < lsm_index (socks_respLSM s) \<and> Steps (socks_respLSM s) = [parseSocksRespVersion, parseSocks4RespPacket]
      \<or> 0 < lsm_index (socks_respLSM s) \<and> Steps (socks_respLSM s) =
            [parseSocksRespVersion, parseSocks5RespMethod, parseSocks5RespAuth, parseSocks5RespConnInfo]
          \<and> (1 < lsm_index (socks_respLSM s) \<longrightarrow> socks_respMap s \<noteq> None))"

text \<open>
  What a step may change: a request step only the request side and the version, a response step only
  the response side; and only the version steps touch a machine.
\<close>

lemmas socks_step_defs =
  socksStream_parseSocksReqVersion_def socksStream_parseSocksRespVersion_def
  socksStream_parseSocks5ReqMethod_def socksStream_parseSocks5ReqAuth_def
  socksStream_parseSocks5ReqConnInfo_def socksStream_parseSocks5RespMethod_def
  socksStream_parseSocks5RespAuth_def socksStream_parseSocks5RespConnInfo_def
  socksStream_parseSocks4ReqIpAndPort_def socksStream_parseSocks4ReqUserId_def
  socksStream_parseSocks4ReqHostname_def socksStream_parseSocks4RespPacket_def

lemma req_store_Some: "req_store k v s = Some s' \<longleftrightarrow>
    (\<exists>m. socks_reqMap s = Some m \<and> s' = s\<lparr>socks_reqMap := Some (m(k \<mapsto> v))\<rparr>)"
  by (auto simp: req_store_def map_store_def split: option.splits)

lemma req_store_None: "req_store k v s = None \<longleftrightarrow> socks_reqMap s = None"
  by (auto simp: req_store_def map_store_def split: option.splits)

lemma resp_store_Some: "resp_store k v s = Some s' \<longleftrightarrow>
    (\<exists>m. socks_respMap s = Some m \<and> s' = s\<lparr>socks_respMap := Some (m(k \<mapsto> v))\<rparr>)"
  by (auto simp: resp_store_def map_store_def split: option.splits)

lemma resp_store_None: "resp_store k v s = None \<longleftrightarrow> socks_respMap s = None"
  by (auto simp: resp_store_def map_store_def split: option.splits)

lemmas socks_store = req_store_Some req_store_None resp_store_Some resp_store_None

lemma socks_exec_req:
  assumes "socks_exec st s = Some (a, s')"
    and "st \<in> {parseSocks5ReqMethod, parseSocks5ReqAuth, parseSocks5ReqConnInfo, parseSocks4ReqIpAndPort,
               parseSocks4ReqUserId, parseSocks4ReqHostname}"
  shows "a \<noteq> LSMActionReset \<and> socks_reqLSM s' = socks_reqLSM s \<and> socks_respLSM s' = socks_respLSM s
     \<and> socks_respMap s' = socks_respMap s \<and> (socks_reqMap s \<noteq> None \<longrightarrow> socks_reqMap s' \<noteq> None)"
  using assms
  by (auto simp: socks_step_defs Let_def socks_store bind_eq_Some_conv
      split: option.splits prod.splits if_splits)

lemma socks_exec_resp:
  assumes "socks_exec st s = Some (a, s')"
    and "st \<in> {parseSocks5RespMethod, parseSocks5RespAuth, parseSocks5RespConnInfo, parseSocks4RespPacket}"
  shows "a \<noteq> LSMActionReset \<and> socks_reqLSM s' = socks_reqLSM s \<and> socks_respLSM s' = socks_respLSM s
     \<and> socks_reqMap s' = socks_reqMap s \<and> (socks_respMap s \<noteq> None \<longrightarrow> socks_respMap s' \<noteq> None)
     \<and> (st = parseSocks5RespMethod \<and> a = LSMActionNext \<longrightarrow> socks_respMap s' \<noteq> None)"
  using assms
  by (auto simp: socks_step_defs Let_def socks_store bind_eq_Some_conv
      split: option.splits prod.splits if_splits)

lemma socks_req_step_in:
  assumes "socks_inv s" "lsm_index (socks_reqLSM s) < length (Steps (socks_reqLSM s))" "0 < lsm_index (socks_reqLSM s)"
  shows "Steps (socks_reqLSM s) ! lsm_index (socks_reqLSM s) \<in>
           {parseSocks5ReqMethod, parseSocks5ReqAuth, parseSocks5ReqConnInfo, parseSocks4ReqIpAndPort,
            parseSocks4ReqUserId, parseSocks4ReqHostname}"
  using assms by (auto simp: socks_inv_def socks_req_steps_def less_Suc_eq)

lemma socks_resp_step_in:
  assumes "socks_inv s" "lsm_index (socks_respLSM s) < length (Steps (socks_respLSM s))" "0 < lsm_index (socks_respLSM s)"
  shows "Steps (socks_respLSM s) ! lsm_index (socks_respLSM s) \<in>
           {parseSocks5RespMethod, parseSocks5RespAuth, parseSocks5RespConnInfo, parseSocks4RespPacket}"
  using assms by (auto simp: socks_inv_def less_Suc_eq)

definition socks_rank :: "socks_step LinearStateMachine \<Rightarrow> nat" where
  "socks_rank l = (if lsm_index l = 0 then 5 else length (Steps l) - lsm_index l)"

lemma socks_req_inv_step:
  assumes "socks_inv s" "lsm_index (socks_reqLSM s) < length (Steps (socks_reqLSM s))"
    and "socks_exec (Steps (socks_reqLSM s) ! lsm_index (socks_reqLSM s)) s = Some (a, s')"
  shows "a \<noteq> LSMActionReset
    \<and> socks_inv (case a of LSMActionPause \<Rightarrow> s' | LSMActionNext \<Rightarrow> socks_reqLSM_update lsm_next s'
               | LSMActionReset \<Rightarrow> socks_reqLSM_update lsm_rewind s'
               | LSMActionCancel \<Rightarrow> socks_reqLSM_update lsm_cancel s')
    \<and> (a = LSMActionNext \<longrightarrow>
         socks_rank (lsm_next (socks_reqLSM s')) < socks_rank (socks_reqLSM s))"
proof (cases "lsm_index (socks_reqLSM s) = 0")
  case True
  with assms show ?thesis
    by (auto simp: socks_inv_def socks_step_defs socks_rank_def socks_req_steps_def Let_def
        LinearStateMachine_AppendSteps_def split: option.splits prod.splits if_splits)
next
  case False
  with socks_exec_req [OF assms(3) socks_req_step_in [OF assms(1,2)]] assms(1,2) show ?thesis
    by (auto simp: socks_inv_def socks_rank_def split: LSMAction.splits)
qed

lemma socks_resp_inv_step:
  assumes "socks_inv s" "lsm_index (socks_respLSM s) < length (Steps (socks_respLSM s))"
    and "socks_exec (Steps (socks_respLSM s) ! lsm_index (socks_respLSM s)) s = Some (a, s')"
  shows "a \<noteq> LSMActionReset
    \<and> socks_inv (case a of LSMActionPause \<Rightarrow> s' | LSMActionNext \<Rightarrow> socks_respLSM_update lsm_next s'
               | LSMActionReset \<Rightarrow> socks_respLSM_update lsm_rewind s'
               | LSMActionCancel \<Rightarrow> socks_respLSM_update lsm_cancel s')
    \<and> (a = LSMActionNext \<longrightarrow>
         socks_rank (lsm_next (socks_respLSM s')) < socks_rank (socks_respLSM s))"
proof (cases "lsm_index (socks_respLSM s) = 0")
  case True
  with assms show ?thesis
    by (auto simp: socks_inv_def socks_step_defs socks_rank_def Let_def
        LinearStateMachine_AppendSteps_def split: option.splits prod.splits if_splits)
next
  case False
  with socks_exec_resp [OF assms(3) socks_resp_step_in [OF assms(1,2)]] assms(1,2) show ?thesis
    by (auto simp: socks_inv_def socks_rank_def less_Suc_eq split: LSMAction.splits)
qed

interpretation socks_req: lsm_terminating socks_exec socks_reqLSM socks_reqLSM_update socks_inv
    "\<lambda>s. socks_rank (socks_reqLSM s)"
proof
  fix s a s'
  assume *: "socks_inv s" "lsm_index (socks_reqLSM s) < length (Steps (socks_reqLSM s))"
    "socks_exec (Steps (socks_reqLSM s) ! lsm_index (socks_reqLSM s)) s = Some (a, s')"
  show "socks_inv (case a of LSMActionPause \<Rightarrow> s' | LSMActionNext \<Rightarrow> socks_reqLSM_update lsm_next s'
               | LSMActionReset \<Rightarrow> socks_reqLSM_update lsm_rewind s'
               | LSMActionCancel \<Rightarrow> socks_reqLSM_update lsm_cancel s')"
    using socks_req_inv_step [OF *] by blast
qed (auto dest: socks_req_inv_step)

interpretation socks_resp: lsm_terminating socks_exec socks_respLSM socks_respLSM_update socks_inv
    "\<lambda>s. socks_rank (socks_respLSM s)"
proof
  fix s a s'
  assume *: "socks_inv s" "lsm_index (socks_respLSM s) < length (Steps (socks_respLSM s))"
    "socks_exec (Steps (socks_respLSM s) ! lsm_index (socks_respLSM s)) s = Some (a, s')"
  show "socks_inv (case a of LSMActionPause \<Rightarrow> s' | LSMActionNext \<Rightarrow> socks_respLSM_update lsm_next s'
               | LSMActionReset \<Rightarrow> socks_respLSM_update lsm_rewind s'
               | LSMActionCancel \<Rightarrow> socks_respLSM_update lsm_cancel s')"
    using socks_resp_inv_step [OF *] by blast
qed (auto dest: socks_resp_inv_step)

section \<open>Feeding\<close>

lemma socks_inv_upd [simp]:
  "socks_inv (s\<lparr>socks_reqBuf := b\<rparr>) = socks_inv s" "socks_inv (s\<lparr>socks_respBuf := b\<rparr>) = socks_inv s"
  "socks_inv (s\<lparr>socks_reqUpdated := x\<rparr>) = socks_inv s" "socks_inv (s\<lparr>socks_respUpdated := x\<rparr>) = socks_inv s"
  "socks_inv (s\<lparr>socks_reqDone := x\<rparr>) = socks_inv s" "socks_inv (s\<lparr>socks_respDone := x\<rparr>) = socks_inv s"
  by (simp_all add: socks_inv_def)

lemma socks_inv_new: "socks_inv newSocksStream"
  by (simp add: socks_inv_def newSocksStream_def NewLinearStateMachine_def)

text \<open>The contract of the engine: feeding returns.\<close>

lemma socks_feed_returns:
  assumes "socks_inv s"
  shows "\<exists>r. socksStream_Feed rv st en skip data s = Some r \<and> (\<forall>u d s'. r = Some ((u, d), s') \<longrightarrow> socks_inv s')"
proof (cases "skip \<noteq> 0 \<or> data = []")
  case True
  with assms show ?thesis by (auto simp: socksStream_Feed_def)
next
  case False
  let ?q = "s\<lparr>socks_reqBuf := ByteBuffer_Append (socks_reqBuf s) data, socks_reqUpdated := False\<rparr>"
  let ?p = "s\<lparr>socks_respBuf := ByteBuffer_Append (socks_respBuf s) data, socks_respUpdated := False\<rparr>"
  from assms have "socks_inv ?q" "socks_inv ?p" by simp_all
  from socks_req.run_returns [OF this(1)] socks_resp.run_returns [OF this(2)] False
  show ?thesis
    by (cases rv) (auto simp: socksStream_Feed_def Let_def split: option.split prod.split)
qed

text \<open>
  Feeding any data to a SOCKS stream returns, although its steps append further steps to the
  machine; what it may do is panic, and otherwise it keeps the invariant.
\<close>

lemma socksStream_Feed_returns:
  assumes "socks_inv s"
  shows "\<exists>r. socksStream_Feed rv st en skip data s = Some r \<and> (\<forall>u d s'. r = Some ((u, d), s') \<longrightarrow> socks_inv s')"
  using assms by (rule socks_feed_returns)

section \<open>The wrapping slice\<close>

text \<open>
  The only panic of the steps: a domain of 251 bytes or more, whose end \<open>5+pkt[4]\<close> wraps below 5.
\<close>

lemma domain_end: "unat (5 + n :: byte) = (if unat n < 251 then 5 + unat n else unat n - 251)"
  for n :: byte
proof -
  have "unat n < 256"
    using unsigned_less [of n, where 'a = nat] by simp
  then show ?thesis
    by (auto simp: unat_word_ariths mod_if)
qed

lemma socks5_addr_None:
  assumes "length pkt = 7 + unat (pkt ! 4)"
  shows "socks5_addr pkt = None \<longleftrightarrow> pkt ! 3 = 0x03 \<and> 251 \<le> unat (pkt ! 4)"
  using assms unsigned_less [of "pkt ! 4", where 'a = nat]
  by (auto simp: socks5_addr_def go_slice_def domain_end)

lemma socks5_addr_domain:
  assumes "length host \<le> 250"
  shows "socks5_addr (v # c # r # 0x03 # of_nat (length host) # go_bytes host @ port) = Some (Some host)"
  using assms
  by (simp add: socks5_addr_def go_slice_def domain_end unat_of_nat)

text \<open>
  A client that asks a SOCKS5 proxy without authentication to connect to a domain name, with
  everything it sends in one segment.
\<close>

definition socks5_connect :: "string \<Rightarrow> byte \<Rightarrow> byte \<Rightarrow> bytes" where
  "socks5_connect host p1 p2 =
     [0x05, 1, 0x00] @ [0x05, 0x01, 0x00, 0x03, of_nat (length host)] @ go_bytes host @ [p1, p2]"

definition socks5_connect_map :: "string \<Rightarrow> byte \<Rightarrow> byte \<Rightarrow> PropMap" where
  "socks5_connect_map host p1 p2 =
     [''auth'' \<mapsto> PMap [''method'' \<mapsto> PInt 0], ''cmd'' \<mapsto> PInt 1, ''addr_type'' \<mapsto> PInt 3,
      ''addr'' \<mapsto> PStr host, ''port'' \<mapsto> PInt (int (be_int2 p1 p2))]"

lemma socks5_connect_conninfo:
  assumes "length host < 256"
    and "Buf (socks_reqBuf s) = [0x05, 0x01, 0x00, 0x03, of_nat (length host)] @ go_bytes host @ [p1, p2]"
    and "socks_reqMap s = Some m"
  shows "socksStream_parseSocks5ReqConnInfo s =
           (if length host < 251 then
              Some (LSMActionNext,
                s\<lparr>socks_reqBuf := \<lparr>Buf = []\<rparr>,
                  socks_reqMap := Some (m(''cmd'' \<mapsto> PInt 1, ''addr_type'' \<mapsto> PInt 3, ''addr'' \<mapsto> PStr host,
                                         ''port'' \<mapsto> PInt (int (be_int2 p1 p2)))),
                  socks_reqUpdated := True\<rparr>)
            else None)"
proof -
  let ?pkt = "Buf (socks_reqBuf s)"
  have n: "unat (of_nat (length host) :: byte) = length host"
    using assms(1) by (simp add: unat_of_nat)
  have pkt: "ByteBuffer_Get (socks_reqBuf s) (7 + length host) True = (Some ?pkt, \<lparr>Buf = []\<rparr>)"
    by (simp add: Get_Some_iff assms(2))
  have addr: "socks5_addr ?pkt = (if length host < 251 then Some (Some host) else None)"
    using socks5_addr_None [of ?pkt] socks5_addr_domain [of host] n
    by (auto simp: assms(2))
  have port: "?pkt ! (5 + length host) = p1" "?pkt ! (6 + length host) = p2"
    by (simp_all add: assms(2) nth_append nth_Cons')
  have info: "ByteBuffer_Get (socks_reqBuf s) 5 False =
      (Some [0x05, 0x01, 0x00, 0x03, of_nat (length host)], socks_reqBuf s)"
    by (simp add: Get_Some_iff assms(2))
  have at: "?pkt ! 1 = 0x01" "?pkt ! 3 = 0x03"
    by (simp_all add: assms(2))
  show ?thesis
    using addr port at
    by (simp add: socksStream_parseSocks5ReqConnInfo_def info socks5_pktLen_def n pkt
        req_store_def map_store_def assms(3) Let_def)
qed

lemma socks5_connect_fed:
  assumes "length host < 256"
  shows "length host < 251 \<Longrightarrow> \<exists>s. socksStream_Feed False st en 0 (socks5_connect host p1 p2) newSocksStream =
           Some (Some ((Some \<lparr>Type = PropUpdateMerge,
             M = [''version'' \<mapsto> PInt 5, ''req'' \<mapsto> PMap (socks5_connect_map host p1 p2)]\<rparr>, False), s))"
    and "251 \<le> length host \<Longrightarrow>
           socksStream_Feed False st en 0 (socks5_connect host p1 p2) newSocksStream = Some None"
proof -
  let ?d = "socks5_connect host p1 p2"
  let ?i = "[0x05, 0x01, 0x00, 0x03, of_nat (length host)] @ go_bytes host @ [p1, p2]"
  let ?run = "LinearStateMachine_loop socks_exec socks_reqLSM socks_reqLSM_update"
  let ?l = "[parseSocksReqVersion, parseSocks5ReqMethod, parseSocks5ReqAuth, parseSocks5ReqConnInfo]"
  let ?at = "\<lambda>i b m. newSocksStream\<lparr>socks_reqBuf := \<lparr>Buf = b\<rparr>, socks_reqMap := Some m, socks_reqUpdated := True,
      version := Socks5, socks_reqLSM := \<lparr>Steps = ?l, lsm_index = i, lsm_cancelled = False\<rparr>\<rparr>"
  let ?m = "[''auth'' \<mapsto> PMap [''method'' \<mapsto> PInt 0]]"
  let ?s0 = "newSocksStream\<lparr>socks_reqBuf := \<lparr>Buf = ?d\<rparr>, socks_reqUpdated := False\<rparr>"
  have "?run ?s0 = ?run (?at (Suc 0) (tl ?d) Map.empty)"
    by (subst LinearStateMachine_loop.simps)
      (simp add: newSocksStream_def NewLinearStateMachine_def socksStream_parseSocksReqVersion_def
        socks5_connect_def ByteBuffer_GetByte_def ByteBuffer_Get_def LinearStateMachine_AppendSteps_def)
  also have "\<dots> = ?run (?at (Suc (Suc 0)) ?i Map.empty)"
    by (subst LinearStateMachine_loop.simps)
      (simp add: newSocksStream_def socksStream_parseSocks5ReqMethod_def
        socks5_connect_def ByteBuffer_GetByte_def ByteBuffer_Get_def)
  also have "\<dots> = ?run (?at (Suc (Suc (Suc 0))) ?i ?m)"
    by (subst LinearStateMachine_loop.simps)
      (simp add: newSocksStream_def socksStream_parseSocks5ReqAuth_def req_store_def map_store_def)
  finally have run: "LinearStateMachine_Run socks_exec socks_reqLSM socks_reqLSM_update ?s0 = ?run (?at (Suc (Suc (Suc 0))) ?i ?m)"
    by (subst run_loop) (simp_all add: newSocksStream_def NewLinearStateMachine_def)
  note info = socks5_connect_conninfo [OF assms, of "?at (Suc (Suc (Suc 0))) ?i ?m" p1 p2 ?m, simplified]
  note info_new = info [unfolded newSocksStream_def, simplified]
  have empty: "ByteBuffer_Append \<lparr>Buf = []\<rparr> ?d = \<lparr>Buf = ?d\<rparr>" "?d \<noteq> []"
    by (simp_all add: ByteBuffer_Append_def socks5_connect_def)
  show "socksStream_Feed False st en 0 ?d newSocksStream = Some None" if "251 \<le> length host"
  proof -
    have "?run (?at (Suc (Suc (Suc 0))) ?i ?m) = Some None"
      using that by (subst LinearStateMachine_loop.simps) (simp add: info)
    with run show ?thesis
      by (simp add: empty socksStream_Feed_def newSocksStream_def)
  qed
  show "\<exists>s. socksStream_Feed False st en 0 ?d newSocksStream =
           Some (Some ((Some \<lparr>Type = PropUpdateMerge,
             M = [''version'' \<mapsto> PInt 5, ''req'' \<mapsto> PMap (socks5_connect_map host p1 p2)]\<rparr>, False), s))"
    if "length host < 251"
  proof -
    have "?run (?at (Suc (Suc (Suc 0))) ?i ?m) = Some (Some ((False, True), ?at (Suc (Suc (Suc (Suc 0)))) [] (socks5_connect_map host p1 p2)))"
      using that
      by (subst LinearStateMachine_loop.simps)
        (simp add: info_new LinearStateMachine_loop.simps socks5_connect_map_def newSocksStream_def)
    with run show ?thesis
      by (simp add: empty socksStream_Feed_def newSocksStream_def socksStream_socksVersion_def the_map_def)
  qed
qed

section \<open>A domain name of any length\<close>

text \<open>
  C30. A SOCKS5 greeting and CONNECT request for a domain name of at most 250 bytes publishes
  version 5, the method, the command, the domain and the port.
\<close>

theorem socks5_connect_published:
  assumes "length host < 251"
  shows "\<exists>s. socksStream_Feed False st en 0 (socks5_connect host p1 p2) newSocksStream =
           Some (Some ((Some \<lparr>Type = PropUpdateMerge,
             M = [''version'' \<mapsto> PInt 5, ''req'' \<mapsto> PMap (socks5_connect_map host p1 p2)]\<rparr>, False), s))"
  using assms by (intro socks5_connect_fed(1)) simp_all

theorem socks5_connect_published_witness:
  "\<exists>s. socksStream_Feed False True False 0 (socks5_connect ''a.org'' 0 80) newSocksStream =
     Some (Some ((Some \<lparr>Type = PropUpdateMerge,
       M = [''version'' \<mapsto> PInt 5, ''req'' \<mapsto> PMap (socks5_connect_map ''a.org'' 0 80)]\<rparr>, False), s))"
  by (rule socks5_connect_published) simp

text \<open>
  The same request with a domain name of 251 to 255 bytes panics: the upper bound of the
  slice is computed in a byte and wraps.
\<close>

lemma socks5_long_domain_panics:
  assumes "251 \<le> length host" "length host < 256"
  shows "socksStream_Feed False st en 0 (socks5_connect host p1 p2) newSocksStream = Some None"
  using assms by (intro socks5_connect_fed(2))

theorem socks5_long_domain_panics_witness:
  "socksStream_Feed False True False 0 (socks5_connect (replicate 251 CHR ''a'') 0 80) newSocksStream = Some None"
  by (rule socks5_long_domain_panics) simp_all

theorem socksStream_Feed_returns_witness:
  "\<exists>r. socksStream_Feed True True False 0 [5, 0] newSocksStream = Some r
     \<and> (\<forall>u d s'. r = Some ((u, d), s') \<longrightarrow> socks_inv s')"
  by (rule socksStream_Feed_returns [OF socks_inv_new])

end
