(* ===== verification/Trojan.thy ===== *)
theory Trojan
  imports Props
begin

text \<open>
  \<open>analyzer/tcp/trojan.go\<close>: the Trojan analyzer. From the client's Change Cipher Spec on it adds up
  the bytes sent before the direction changes, four times, and feeds the four sums to a decision
  tree. The specification is the list of sums of the maximal runs of chunks in one direction.
\<close>

definition ccsPattern :: bytes where "ccsPattern = [20, 3, 3, 0, 1, 1]"

definition TrojanAnalyzer_Name :: string where "TrojanAnalyzer_Name = ''trojan''"
definition TrojanAnalyzer_Limit :: int where "TrojanAnalyzer_Limit = 512000"

record trojanStream =
  troj_first :: bool
  troj_count :: bool
  troj_rev :: bool
  troj_seq :: "nat list"
  troj_seqIndex :: nat

definition newTrojanStream :: trojanStream where
  "newTrojanStream =
     \<lparr>troj_first = False, troj_count = False, troj_rev = False, troj_seq = [0, 0, 0, 0], troj_seqIndex = 0\<rparr>"

text \<open>The decision tree on the four lengths, by the branches on the second one.\<close>

definition trojan_upto_157 :: "nat \<Rightarrow> nat \<Rightarrow> nat \<Rightarrow> nat \<Rightarrow> bool" where
  "trojan_upto_157 length1 length2 length3 length4 =
    (if length1 \<le> 156 then
     (if length3 \<le> 108 then False else False)
    else (if length1 \<le> 892 then
      (if length3 \<le> 40 then
       False
      else (if length3 \<le> 788 then
        (if length4 \<le> 185 then
         (if length1 \<le> 411 then True else False)
        else (if length2 \<le> 112 then False else True))
       else (if length3 \<le> 1346 then
         (if length1 \<le> 418 then False else True)
        else False)))
     else (if length2 \<le> 120 then
       (if length2 \<le> 63 then
        False
       else (if length4 \<le> 653 then False else False))
      else False)))"

definition trojan_upto_2431 :: "nat \<Rightarrow> nat \<Rightarrow> nat \<Rightarrow> nat \<Rightarrow> bool" where
  "trojan_upto_2431 length1 length2 length3 length4 =
    (if length1 \<le> 206 then
     (if length1 \<le> 185 then
      (if length1 \<le> 171 then
       False
      else (if length4 \<le> 211 then False else False))
     else (if length2 \<le> 251 then True else False))
    else (if length2 \<le> 286 then
      (if length1 \<le> 1123 then
       (if length3 \<le> 70 then
        False
       else (if length1 \<le> 659 then
         (if length3 \<le> 370 then True else False)
        else (if length4 \<le> 272 then False else True)))
      else (if length4 \<le> 537 then
        (if length2 \<le> 276 then
         (if length3 \<le> 1877 then False else False)
        else False)
       else (if length1 \<le> 1466 then
         (if length1 \<le> 1435 then False else True)
        else (if length2 \<le> 193 then False else False))))
     else (if length1 \<le> 284 then
       (if length1 \<le> 277 then
        (if length2 \<le> 726 then
         False
        else (if length2 \<le> 768 then True else False))
       else (if length2 \<le> 782 then
         (if length4 \<le> 783 then True else False)
        else False))
      else (if length2 \<le> 492 then
        (if length2 \<le> 396 then
         (if length2 \<le> 322 then False else False)
        else (if length4 \<le> 971 then False else True))
       else (if length2 \<le> 2128 then
         (if length2 \<le> 1418 then False else False)
        else (if length3 \<le> 103 then False else False))))))"

definition trojan_upto_6232 :: "nat \<Rightarrow> nat \<Rightarrow> nat \<Rightarrow> nat \<Rightarrow> bool" where
  "trojan_upto_6232 length1 length2 length3 length4 =
    (if length3 \<le> 85 then
     (if length2 \<le> 3599 then
      False
     else (if length1 \<le> 613 then False else False))
    else (if length3 \<le> 220 then
      (if length4 \<le> 1173 then
       (if length1 \<le> 874 then
        (if length4 \<le> 337 then
         (if length4 \<le> 68 then True else True)
        else (if length1 \<le> 667 then True else True))
       else (if length3 \<le> 108 then
         (if length1 \<le> 1930 then True else True)
        else (if length2 \<le> 5383 then False else True)))
      else False)
     else (if length1 \<le> 664 then
       (if length3 \<le> 411 then
        (if length3 \<le> 383 then
         (if length4 \<le> 346 then True else False)
        else (if length1 \<le> 445 then True else False))
       else (if length2 \<le> 3708 then
         (if length4 \<le> 307 then True else False)
        else (if length2 \<le> 4656 then False else False)))
      else (if length1 \<le> 1055 then
        (if length3 \<le> 580 then
         (if length1 \<le> 724 then True else False)
        else (if length1 \<le> 678 then False else True))
       else (if length2 \<le> 5352 then
         (if length3 \<le> 1586 then False else False)
        else (if length4 \<le> 2173 then True else False))))))"

definition trojan_above_6232 :: "nat \<Rightarrow> nat \<Rightarrow> nat \<Rightarrow> nat \<Rightarrow> bool" where
  "trojan_above_6232 length1 length2 length3 length4 =
    (if length2 \<le> 9408 then
     (if length1 \<le> 670 then
      (if length4 \<le> 76 then
       (if length3 \<le> 175 then True else True)
      else (if length2 \<le> 9072 then
        (if length3 \<le> 314 then
         (if length3 \<le> 179 then False else False)
        else (if length4 \<le> 708 then False else False))
       else True))
     else (if length1 \<le> 795 then
       (if length2 \<le> 6334 then
        (if length2 \<le> 6288 then True else False)
       else (if length4 \<le> 6404 then
         (if length2 \<le> 8194 then True else True)
        else (if length2 \<le> 8924 then False else True)))
      else (if length3 \<le> 732 then
        (if length1 \<le> 1397 then
         (if length3 \<le> 179 then False else False)
        else (if length1 \<le> 1976 then False else False))
       else (if length1 \<le> 2840 then
         (if length1 \<le> 2591 then False else True)
        else False))))
    else (if length4 \<le> 30 then
      False
     else (if length2 \<le> 13314 then
       (if length4 \<le> 1786 then
        (if length2 \<le> 13018 then
         (if length4 \<le> 869 then False else False)
        else True)
       else (if length3 \<le> 775 then False else False))
      else (if length4 \<le> 73 then
        False
       else (if length3 \<le> 640 then
         (if length3 \<le> 237 then False else False)
        else (if length2 \<le> 43804 then False else False))))))"

definition isTrojanSeq :: "nat list \<Rightarrow> bool" where
  "isTrojanSeq seq =
     (let length1 = seq ! 0; length2 = seq ! 1; length3 = seq ! 2; length4 = seq ! 3 in
      if length2 \<le> 2431 then
        (if length2 \<le> 157 then trojan_upto_157 length1 length2 length3 length4
         else trojan_upto_2431 length1 length2 length3 length4)
      else
        (if length2 \<le> 6232 then trojan_upto_6232 length1 length2 length3 length4
         else trojan_above_6232 length1 length2 length3 length4))"

text \<open>\<open>s.seq[s.seqIndex] += n\<close>, a panic past the end of the array.\<close>

definition troj_add :: "nat \<Rightarrow> trojanStream \<Rightarrow> trojanStream go" where
  "troj_add n s =
     (if troj_seqIndex s < length (troj_seq s)
      then Some (s\<lparr>troj_seq := (troj_seq s)[troj_seqIndex s := troj_seq s ! troj_seqIndex s + n]\<rparr>)
      else None)"

definition trojanStream_Feed ::
    "bool \<Rightarrow> bool \<Rightarrow> bool \<Rightarrow> int \<Rightarrow> bytes \<Rightarrow> trojanStream \<Rightarrow> ((PropUpdate option \<times> bool) \<times> trojanStream) go" where
  "trojanStream_Feed rv st en skip data s =
     (if skip \<noteq> 0 then Some ((None, True), s)
      else if length data = 0 then Some ((None, False), s)
      else if troj_first s \<and>
           \<not> (\<not> rv \<and> 3 \<le> length data \<and> 0x16 \<le> data ! 0 \<and> data ! 0 \<le> 0x17 \<and> data ! 1 = 0x03 \<and> data ! 2 \<le> 0x09)
        then Some ((None, True), s\<lparr>troj_first := False\<rparr>)
      else
        (let s = s\<lparr>troj_first := False\<rparr>;
             s = (if \<not> rv \<and> \<not> troj_count s \<and> 6 \<le> length data \<and> take 6 data = ccsPattern
                  then s\<lparr>troj_count := True\<rparr> else s) in
         if troj_count s then
           (if rv = troj_rev s then map_option (Pair (None, False)) (troj_add (length data) s)
            else
              (let s = s\<lparr>troj_seqIndex := troj_seqIndex s + 1\<rparr> in
               if troj_seqIndex s = 4 then
                 Some ((Some \<lparr>Type = PropUpdateReplace,
                              M = [''seq'' \<mapsto> PInts (map int (troj_seq s)),
                                   ''yes'' \<mapsto> PBool (isTrojanSeq (troj_seq s))]\<rparr>, True), s)
               else map_option (\<lambda>s. ((None, False), s\<lparr>troj_rev := rv\<rparr>)) (troj_add (length data) s)))
         else Some ((None, False), s)))"

definition trojanStream_Close :: "bool \<Rightarrow> PropUpdate option" where
  "trojanStream_Close limited = None"

section \<open>Runs\<close>

text \<open>The chunks of a connection in order, fed until the analyzer is done.\<close>

fun troj_feeds :: "(bool \<times> bytes) list \<Rightarrow> trojanStream \<Rightarrow> ((PropUpdate option \<times> bool) \<times> trojanStream) go" where
  "troj_feeds [] s = Some ((None, False), s)"
| "troj_feeds ((rv, d) # cs) s =
     (case trojanStream_Feed rv False False 0 d s of
        None \<Rightarrow> None
      | Some ((u, True), s') \<Rightarrow> Some ((u, True), s')
      | Some ((u, False), s') \<Rightarrow> troj_feeds cs s')"

text \<open>The sums of the maximal runs of one direction.\<close>

fun dir_runs :: "(bool \<times> nat) list \<Rightarrow> nat list" where
  "dir_runs [] = []"
| "dir_runs [(r, n)] = [n]"
| "dir_runs ((r, n) # (r', n') # cs) =
     (if r = r' then dir_runs ((r, n + n') # cs) else n # dir_runs ((r', n') # cs))"

definition sizes :: "(bool \<times> bytes) list \<Rightarrow> (bool \<times> nat) list" where
  "sizes cs = map (\<lambda>(r, d). (r, length d)) cs"

definition troj_result :: "nat list \<Rightarrow> PropUpdate" where
  "troj_result R =
     \<lparr>Type = PropUpdateReplace,
      M = [''seq'' \<mapsto> PInts (map int (take 4 R)), ''yes'' \<mapsto> PBool (isTrojanSeq (take 4 R))]\<rparr>"

text \<open>
  What feeding is to leave for the runs \<open>R\<close>: up to four runs, their sums and no verdict yet; with a
  fifth, the verdict on the first four.
\<close>

definition troj_counts :: "nat list \<Rightarrow> ((PropUpdate option \<times> bool) \<times> trojanStream) go \<Rightarrow> bool" where
  "troj_counts R r \<longleftrightarrow>
     (if length R \<le> 4
      then \<exists>s'. r = Some ((None, False), s') \<and> troj_seq s' = R @ replicate (4 - length R) 0
      else \<exists>s'. r = Some ((Some (troj_result R), True), s'))"

lemma dir_runs_Cons_length: "cs \<noteq> [] \<Longrightarrow> dir_runs cs \<noteq> []"
  by (induction cs rule: dir_runs.induct) auto

lemma troj_counting:
  assumes "list_all (\<lambda>(r, d). d \<noteq> []) cs"
    and "\<not> troj_first s" "troj_count s" "length pre < 4" "troj_seqIndex s = length pre"
    and "troj_seq s = pre @ x # replicate (3 - length pre) 0"
    and "R = pre @ dir_runs ((troj_rev s, x) # sizes cs)"
  shows "troj_counts R (troj_feeds cs s)"
  using assms
proof (induction cs arbitrary: s pre x)
  case Nil
  then show ?case
    by (simp add: sizes_def troj_counts_def)
next
  case (Cons c cs)
  obtain rv d where c: "c = (rv, d)" by fastforce
  have d: "d \<noteq> []" using Cons.prems(1) by (simp add: c)
  have f: "s\<lparr>troj_first := False\<rparr> = s"
    using Cons.prems(2) by (cases s) simp
  show ?case
  proof (cases "rv = troj_rev s")
    case True
    let ?s = "s\<lparr>troj_seq := pre @ (x + length d) # replicate (3 - length pre) 0\<rparr>"
    have "trojanStream_Feed rv False False 0 d s = Some ((None, False), ?s)"
      using d Cons.prems True
      by (simp add: trojanStream_Feed_def Let_def f troj_add_def nth_append list_update_append)
    moreover have "R = pre @ dir_runs ((troj_rev ?s, x + length d) # sizes cs)"
      using Cons.prems True by (simp add: c sizes_def)
    ultimately show ?thesis
      using Cons.IH [of ?s pre "x + length d"] Cons.prems by (simp add: c)
  next
    case False
    have R: "R = (pre @ [x]) @ dir_runs ((rv, length d) # sizes cs)"
      using Cons.prems False by (auto simp: c sizes_def)
    show ?thesis
    proof (cases "length pre = 3")
      case True
      with d Cons.prems False
      have "trojanStream_Feed rv False False 0 d s = Some ((Some (troj_result (pre @ [x])), True), s\<lparr>troj_seqIndex := 4\<rparr>)"
        by (simp add: trojanStream_Feed_def Let_def f troj_result_def)
      moreover have "4 < length R" "take 4 R = take 4 (pre @ [x])"
        using R True dir_runs_Cons_length [of "(rv, length d) # sizes cs"] by auto
      ultimately show ?thesis
        by (simp add: c troj_result_def troj_counts_def)
    next
      case l: False
      let ?s = "s\<lparr>troj_seqIndex := length pre + 1, troj_rev := rv,
          troj_seq := (pre @ [x]) @ length d # replicate (3 - (length pre + 1)) 0\<rparr>"
      obtain k where k: "3 - length pre = Suc k"
        using l Cons.prems(4) by (cases "3 - length pre") auto
      have "trojanStream_Feed rv False False 0 d s = Some ((None, False), ?s)"
        using d Cons.prems False l k
        by (auto simp: trojanStream_Feed_def Let_def f troj_add_def nth_append list_update_append)
      then show ?thesis
        using Cons.IH [of ?s "pre @ [x]" "length d"] Cons.prems l R by (simp add: c)
    qed
  qed
qed

text \<open>
  C32. From the client's ChangeCipherSpec on, the Trojan analyzer sums the bytes of maximal runs
  of segments in one direction: up to four runs it keeps the sums, and with the fifth it publishes
  the first four and the verdict of the decision tree on them.
\<close>

theorem troj_runs:
  assumes "list_all (\<lambda>(r, d). d \<noteq> []) cs"
  shows "troj_counts (dir_runs (sizes ((False, ccsPattern @ d) # cs)))
           (troj_feeds ((False, ccsPattern @ d) # cs) newTrojanStream)"
proof -
  let ?s = "newTrojanStream\<lparr>troj_count := True, troj_seq := [6 + length d, 0, 0, 0]\<rparr>"
  have "trojanStream_Feed False False False 0 (ccsPattern @ d) newTrojanStream = Some ((None, False), ?s)"
    by (simp add: trojanStream_Feed_def newTrojanStream_def ccsPattern_def Let_def troj_add_def)
  moreover have "troj_counts ([] @ dir_runs ((troj_rev ?s, 6 + length d) # sizes cs)) (troj_feeds cs ?s)"
    by (rule troj_counting [OF assms, where x = "6 + length d"]) (simp_all add: newTrojanStream_def eval_nat_numeral)
  moreover have "sizes ((False, ccsPattern @ d) # cs) = (troj_rev ?s, 6 + length d) # sizes cs"
    by (simp add: sizes_def ccsPattern_def newTrojanStream_def)
  ultimately show ?thesis
    by simp
qed

text \<open>Nothing ever sets \<open>first\<close>, so no connection is dropped for not being TLS.\<close>

lemma troj_first_never:
  assumes "trojanStream_Feed rv st en skip d s = Some ((u, dn), s')" "\<not> troj_first s"
  shows "\<not> troj_first s'" and "dn \<longleftrightarrow> skip \<noteq> 0 \<or> u \<noteq> None"
  using assms
  by (auto simp: trojanStream_Feed_def troj_add_def Let_def split: if_splits option.splits)

section \<open>The statements at concrete inputs\<close>

theorem troj_runs_witness:
  "\<exists>s. troj_feeds [(False, ccsPattern @ [1]), (False, [5]), (True, [1, 2])] newTrojanStream = Some ((None, False), s)
     \<and> troj_seq s = [8, 2, 0, 0]"
  using troj_runs [of "[(False, [5]), (True, [1, 2])]" "[1]"]
  by (simp add: troj_counts_def sizes_def ccsPattern_def numeral_eq_Suc)

end
