(* ===== verification/DNS.thy ===== *)
theory DNS
  imports ByteBuffer LSM Props GoNet
begin

text \<open>
  \<open>analyzer/udp/dns.go\<close>: the DNS analyzer for UDP and TCP. The decoder of the wire format is
  gopacket's \<open>layers.DNS.DecodeFromBytes\<close>, which is not in the repository: it is the parameter
  \<open>decode\<close> of the definitions, a function from bytes to the decoded layer, \<open>None\<close> for an error.
  Nothing is assumed of it. Integers of gopacket's named types are published as \<open>PInt\<close>.
\<close>

definition dnsUDPInvalidCountThreshold :: nat where "dnsUDPInvalidCountThreshold = 4"
definition DNSAnalyzer_Name :: string where "DNSAnalyzer_Name = ''dns''"
definition DNSAnalyzer_Limit :: int where "DNSAnalyzer_Limit = 0"

record DNSQuestion =
  q_Name :: bytes
  q_Type :: nat
  q_Class :: nat

record DNSResourceRecord =
  rr_Name :: bytes
  rr_Type :: nat
  rr_Class :: nat
  rr_TTL :: u32
  rr_IP :: bytes
  rr_NS :: bytes
  rr_CNAME :: bytes
  rr_PTR :: bytes
  rr_TXTs :: "bytes list"
  rr_MX_Name :: bytes

record DNSLayer =
  dns_ID :: u16
  dns_QR :: bool
  dns_OpCode :: nat
  dns_AA :: bool
  dns_TC :: bool
  dns_RD :: bool
  dns_RA :: bool
  dns_Z :: byte
  dns_ResponseCode :: nat
  dns_Questions :: "DNSQuestion list"
  dns_Answers :: "DNSResourceRecord list"
  dns_Authorities :: "DNSResourceRecord list"
  dns_Additionals :: "DNSResourceRecord list"

type_synonym dns_decode = "bytes \<Rightarrow> DNSLayer option"

definition ByteSlicesToStrings :: "bytes list \<Rightarrow> string list" where
  "ByteSlicesToStrings bss = map go_string bss"

definition dnsRRToPropMap :: "DNSResourceRecord \<Rightarrow> PropMap" where
  "dnsRRToPropMap rr =
     (let m = [''name'' \<mapsto> PStr (go_string (rr_Name rr)), ''type'' \<mapsto> PInt (int (rr_Type rr)),
               ''class'' \<mapsto> PInt (int (rr_Class rr)), ''ttl'' \<mapsto> PU32 (rr_TTL rr)] in
      if rr_Type rr = 1 then m(''a'' \<mapsto> PStr (net_IP_String (rr_IP rr)))
      else if rr_Type rr = 28 then m(''aaaa'' \<mapsto> PStr (net_IP_String (rr_IP rr)))
      else if rr_Type rr = 2 then m(''ns'' \<mapsto> PStr (go_string (rr_NS rr)))
      else if rr_Type rr = 5 then m(''cname'' \<mapsto> PStr (go_string (rr_CNAME rr)))
      else if rr_Type rr = 12 then m(''ptr'' \<mapsto> PStr (go_string (rr_PTR rr)))
      else if rr_Type rr = 16 then m(''txt'' \<mapsto> PStrs (ByteSlicesToStrings (rr_TXTs rr)))
      else if rr_Type rr = 15 then m(''mx'' \<mapsto> PStr (go_string (rr_MX_Name rr)))
      else m)"

text \<open>A list is published only when it is not empty.\<close>

definition put_maps :: "string \<Rightarrow> PropMap list \<Rightarrow> PropMap \<Rightarrow> PropMap" where
  "put_maps k ms m = (if 0 < length ms then m(k \<mapsto> PMaps ms) else m)"

definition parseDNSMessage :: "dns_decode \<Rightarrow> bytes \<Rightarrow> PropMap option" where
  "parseDNSMessage decode msg =
     (case decode msg of
        None \<Rightarrow> None
      | Some dns \<Rightarrow>
          Some
           (put_maps ''additionals'' (map dnsRRToPropMap (dns_Additionals dns))
           (put_maps ''authorities'' (map dnsRRToPropMap (dns_Authorities dns))
           (put_maps ''answers'' (map dnsRRToPropMap (dns_Answers dns))
           (put_maps ''questions''
              (map (\<lambda>q. [''name'' \<mapsto> PStr (go_string (q_Name q)), ''type'' \<mapsto> PInt (int (q_Type q)),
                         ''class'' \<mapsto> PInt (int (q_Class q))]) (dns_Questions dns))
              [''id'' \<mapsto> PU16 (dns_ID dns), ''qr'' \<mapsto> PBool (dns_QR dns),
               ''opcode'' \<mapsto> PInt (int (dns_OpCode dns)), ''aa'' \<mapsto> PBool (dns_AA dns),
               ''tc'' \<mapsto> PBool (dns_TC dns), ''rd'' \<mapsto> PBool (dns_RD dns), ''ra'' \<mapsto> PBool (dns_RA dns),
               ''z'' \<mapsto> PU8 (dns_Z dns), ''rcode'' \<mapsto> PInt (int (dns_ResponseCode dns))])))))"

section \<open>UDP\<close>

record dnsUDPStream =
  dns_invalidCount :: nat

definition newDNSUDPStream :: dnsUDPStream where
  "newDNSUDPStream = \<lparr>dns_invalidCount = 0\<rparr>"

definition dnsUDPStream_Feed ::
    "dns_decode \<Rightarrow> bool \<Rightarrow> bytes \<Rightarrow> dnsUDPStream \<Rightarrow> (PropUpdate option \<times> bool) \<times> dnsUDPStream" where
  "dnsUDPStream_Feed decode rv data s =
     (case parseDNSMessage decode data of
        None \<Rightarrow>
          (let s = s\<lparr>dns_invalidCount := dns_invalidCount s + 1\<rparr> in
           ((None, dnsUDPInvalidCountThreshold \<le> dns_invalidCount s), s))
      | Some m \<Rightarrow>
          ((Some \<lparr>Type = PropUpdateReplace, M = m\<rparr>, False), s\<lparr>dns_invalidCount := 0\<rparr>))"

definition dnsUDPStream_Close :: "bool \<Rightarrow> PropUpdate option" where
  "dnsUDPStream_Close limited = None"

section \<open>TCP\<close>

datatype dns_step = getReqMessageLength | getReqMessage | getRespMessageLength | getRespMessage

record dnsTCPStream =
  dns_reqBuf :: ByteBuffer
  dns_reqMap :: "PropMap option"
  dns_reqUpdated :: bool
  dns_reqLSM :: "dns_step LinearStateMachine"
  dns_reqDone :: bool
  dns_respBuf :: ByteBuffer
  dns_respMap :: "PropMap option"
  dns_respUpdated :: bool
  dns_respLSM :: "dns_step LinearStateMachine"
  dns_respDone :: bool
  reqMsgLen :: nat
  respMsgLen :: nat

definition newDNSTCPStream :: dnsTCPStream where
  "newDNSTCPStream =
     \<lparr>dns_reqBuf = \<lparr>Buf = []\<rparr>, dns_reqMap = None, dns_reqUpdated = False,
      dns_reqLSM = NewLinearStateMachine [getReqMessageLength, getReqMessage], dns_reqDone = False,
      dns_respBuf = \<lparr>Buf = []\<rparr>, dns_respMap = None, dns_respUpdated = False,
      dns_respLSM = NewLinearStateMachine [getRespMessageLength, getRespMessage], dns_respDone = False,
      reqMsgLen = 0, respMsgLen = 0\<rparr>"

definition dnsTCPStream_getReqMessageLength :: "dnsTCPStream \<Rightarrow> LSMAction \<times> dnsTCPStream" where
  "dnsTCPStream_getReqMessageLength s =
     (case ByteBuffer_Get (dns_reqBuf s) 2 True of
        (None, _) \<Rightarrow> (LSMActionPause, s)
      | (Some bs, b) \<Rightarrow> (LSMActionNext, s\<lparr>dns_reqBuf := b, reqMsgLen := be_int2 (bs ! 0) (bs ! 1)\<rparr>))"

definition dnsTCPStream_getRespMessageLength :: "dnsTCPStream \<Rightarrow> LSMAction \<times> dnsTCPStream" where
  "dnsTCPStream_getRespMessageLength s =
     (case ByteBuffer_Get (dns_respBuf s) 2 True of
        (None, _) \<Rightarrow> (LSMActionPause, s)
      | (Some bs, b) \<Rightarrow> (LSMActionNext, s\<lparr>dns_respBuf := b, respMsgLen := be_int2 (bs ! 0) (bs ! 1)\<rparr>))"

definition dnsTCPStream_getReqMessage :: "dns_decode \<Rightarrow> dnsTCPStream \<Rightarrow> LSMAction \<times> dnsTCPStream" where
  "dnsTCPStream_getReqMessage decode s =
     (case ByteBuffer_Get (dns_reqBuf s) (reqMsgLen s) True of
        (None, _) \<Rightarrow> (LSMActionPause, s)
      | (Some bs, b) \<Rightarrow>
          (case parseDNSMessage decode bs of
             None \<Rightarrow> (LSMActionCancel, s\<lparr>dns_reqBuf := b\<rparr>)
           | Some m \<Rightarrow> (LSMActionReset, s\<lparr>dns_reqBuf := b, dns_reqMap := Some m, dns_reqUpdated := True\<rparr>)))"

definition dnsTCPStream_getRespMessage :: "dns_decode \<Rightarrow> dnsTCPStream \<Rightarrow> LSMAction \<times> dnsTCPStream" where
  "dnsTCPStream_getRespMessage decode s =
     (case ByteBuffer_Get (dns_respBuf s) (respMsgLen s) True of
        (None, _) \<Rightarrow> (LSMActionPause, s)
      | (Some bs, b) \<Rightarrow>
          (case parseDNSMessage decode bs of
             None \<Rightarrow> (LSMActionCancel, s\<lparr>dns_respBuf := b\<rparr>)
           | Some m \<Rightarrow> (LSMActionReset, s\<lparr>dns_respBuf := b, dns_respMap := Some m, dns_respUpdated := True\<rparr>)))"

fun dns_exec :: "dns_decode \<Rightarrow> dns_step \<Rightarrow> dnsTCPStream \<Rightarrow> (LSMAction \<times> dnsTCPStream) go" where
  "dns_exec decode getReqMessageLength s = Some (dnsTCPStream_getReqMessageLength s)"
| "dns_exec decode getReqMessage s = Some (dnsTCPStream_getReqMessage decode s)"
| "dns_exec decode getRespMessageLength s = Some (dnsTCPStream_getRespMessageLength s)"
| "dns_exec decode getRespMessage s = Some (dnsTCPStream_getRespMessage decode s)"

definition dnsTCPStream_Feed ::
    "dns_decode \<Rightarrow> bool \<Rightarrow> bool \<Rightarrow> bool \<Rightarrow> int \<Rightarrow> bytes \<Rightarrow> dnsTCPStream \<Rightarrow> dnsTCPStream feed_result" where
  "dnsTCPStream_Feed decode rv st en skip data s =
     (if skip \<noteq> 0 then Some (Some ((None, True), s))
      else if length data = 0 then Some (Some ((None, False), s))
      else if rv then
        (let s = s\<lparr>dns_respBuf := ByteBuffer_Append (dns_respBuf s) data, dns_respUpdated := False\<rparr> in
         case LinearStateMachine_Run (dns_exec decode) dns_respLSM dns_respLSM_update s of
           None \<Rightarrow> None
         | Some None \<Rightarrow> Some None
         | Some (Some ((cancelled, dn), s)) \<Rightarrow>
             (let s = s\<lparr>dns_respDone := dn\<rparr>;
                  (update, s) =
                    (if dns_respUpdated s
                     then (Some \<lparr>Type = PropUpdateReplace, M = the_map (dns_respMap s)\<rparr>,
                           s\<lparr>dns_respUpdated := False\<rparr>)
                     else (None, s)) in
              Some (Some ((update, cancelled \<or> (dns_reqDone s \<and> dns_respDone s)), s))))
      else
        (let s = s\<lparr>dns_reqBuf := ByteBuffer_Append (dns_reqBuf s) data, dns_reqUpdated := False\<rparr> in
         case LinearStateMachine_Run (dns_exec decode) dns_reqLSM dns_reqLSM_update s of
           None \<Rightarrow> None
         | Some None \<Rightarrow> Some None
         | Some (Some ((cancelled, dn), s)) \<Rightarrow>
             (let s = s\<lparr>dns_reqDone := dn\<rparr>;
                  (update, s) =
                    (if dns_reqUpdated s
                     then (Some \<lparr>Type = PropUpdateReplace, M = the_map (dns_reqMap s)\<rparr>,
                           s\<lparr>dns_reqUpdated := False\<rparr>)
                     else (None, s)) in
              Some (Some ((update, cancelled \<or> (dns_reqDone s \<and> dns_respDone s)), s)))))"

definition dnsTCPStream_Close :: "bool \<Rightarrow> dnsTCPStream \<Rightarrow> PropUpdate option \<times> dnsTCPStream" where
  "dnsTCPStream_Close limited s =
     (None, s\<lparr>dns_reqBuf := ByteBuffer_Reset (dns_reqBuf s), dns_respBuf := ByteBuffer_Reset (dns_respBuf s),
              dns_reqMap := None, dns_respMap := None\<rparr>)"

section \<open>The loop over messages ends\<close>

definition dns_inv :: "dnsTCPStream \<Rightarrow> bool" where
  "dns_inv s \<longleftrightarrow> Steps (dns_reqLSM s) = [getReqMessageLength, getReqMessage]
     \<and> Steps (dns_respLSM s) = [getRespMessageLength, getRespMessage]"

lemmas dns_step_defs =
  dnsTCPStream_getReqMessageLength_def dnsTCPStream_getRespMessageLength_def
  dnsTCPStream_getReqMessage_def dnsTCPStream_getRespMessage_def

interpretation dns_req: lsm_safe "dns_exec decode" dns_reqLSM dns_reqLSM_update dns_inv
    "\<lambda>s. 2 * length (Buf (dns_reqBuf s)) + lsm_index (dns_reqLSM s)"
  by unfold_locales
    (auto simp: dns_inv_def dns_step_defs less_Suc_eq Get_Some_iff split: option.splits prod.splits LSMAction.splits)

interpretation dns_resp: lsm_safe "dns_exec decode" dns_respLSM dns_respLSM_update dns_inv
    "\<lambda>s. 2 * length (Buf (dns_respBuf s)) + lsm_index (dns_respLSM s)"
  by unfold_locales
    (auto simp: dns_inv_def dns_step_defs less_Suc_eq Get_Some_iff split: option.splits prod.splits LSMAction.splits)

lemma dns_inv_upd [simp]:
  "dns_inv (s\<lparr>dns_reqBuf := b\<rparr>) = dns_inv s" "dns_inv (s\<lparr>dns_respBuf := b\<rparr>) = dns_inv s"
  "dns_inv (s\<lparr>dns_reqUpdated := x\<rparr>) = dns_inv s" "dns_inv (s\<lparr>dns_respUpdated := x\<rparr>) = dns_inv s"
  "dns_inv (s\<lparr>dns_reqDone := x\<rparr>) = dns_inv s" "dns_inv (s\<lparr>dns_respDone := x\<rparr>) = dns_inv s"
  by (simp_all add: dns_inv_def)

lemma dns_inv_new: "dns_inv newDNSTCPStream"
  by (simp add: dns_inv_def newDNSTCPStream_def NewLinearStateMachine_def)

text \<open>
  Feeding a DNS-over-TCP stream returns without a panic and keeps the invariant, although a
  message resets the machine and the loop goes on with the next one.
\<close>

lemma dnsTCPStream_Feed_total:
  assumes "dns_inv s"
  shows "\<exists>u d s'. dnsTCPStream_Feed decode rv st en skip data s = Some (Some ((u, d), s')) \<and> dns_inv s'"
proof (cases "skip \<noteq> 0 \<or> data = []")
  case True
  with assms show ?thesis by (auto simp: dnsTCPStream_Feed_def)
next
  case False
  let ?q = "s\<lparr>dns_reqBuf := ByteBuffer_Append (dns_reqBuf s) data, dns_reqUpdated := False\<rparr>"
  let ?p = "s\<lparr>dns_respBuf := ByteBuffer_Append (dns_respBuf s) data, dns_respUpdated := False\<rparr>"
  from assms have "dns_inv ?q" "dns_inv ?p" by simp_all
  from dns_req.run_total [OF this(1), of decode] dns_resp.run_total [OF this(2), of decode]
  obtain c1 d1 s1 c2 d2 s2 where
    "LinearStateMachine_Run (dns_exec decode) dns_reqLSM dns_reqLSM_update ?q = Some (Some ((c1, d1), s1))"
    "dns_inv s1"
    "LinearStateMachine_Run (dns_exec decode) dns_respLSM dns_respLSM_update ?p = Some (Some ((c2, d2), s2))"
    "dns_inv s2"
    by metis
  with False show ?thesis
    by (cases rv) (simp_all add: dnsTCPStream_Feed_def Let_def)
qed

section \<open>Pipelined messages\<close>

text \<open>
  Messages with their two-byte lengths, in one segment: every one is decoded, in order, but the map
  is published once, after the run, so it is the last one's.
\<close>

definition dns_frame :: "bytes \<Rightarrow> bytes" where
  "dns_frame m = of_nat (length m div 256) # of_nat (length m) # m"

lemma be_int2_frame: "n < 65536 \<Longrightarrow> be_int2 (of_nat (n div 256)) (of_nat n) = n"
  by (simp add: be_int2_eq unat_of_nat)

lemma dns_run_frames:
  assumes "list_all (\<lambda>m. length m < 65536 \<and> parseDNSMessage decode m \<noteq> None) ms"
    and "Steps (dns_reqLSM s) = [getReqMessageLength, getReqMessage]" "lsm_index (dns_reqLSM s) = 0"
    and "Buf (dns_reqBuf s) = concat (map dns_frame ms)"
  shows "\<exists>s'. LinearStateMachine_loop (dns_exec decode) dns_reqLSM dns_reqLSM_update s =
                Some (Some ((False, False), s'))
           \<and> dns_reqMap s' = (if ms = [] then dns_reqMap s else parseDNSMessage decode (last ms))
           \<and> dns_reqUpdated s' = (dns_reqUpdated s \<or> ms \<noteq> []) \<and> dns_respDone s' = dns_respDone s"
  using assms
proof (induction ms arbitrary: s)
  case Nil
  then have "LinearStateMachine_loop (dns_exec decode) dns_reqLSM dns_reqLSM_update s =
      Some (Some ((False, False), s))"
    by (intro loop_Pause) (auto simp: dnsTCPStream_getReqMessageLength_def Get_Some_iff split: option.split prod.split)
  then show ?case by simp
next
  case (Cons m ms)
  let ?run = "LinearStateMachine_loop (dns_exec decode) dns_reqLSM dns_reqLSM_update"
  let ?rest = "concat (map dns_frame ms)"
  obtain v where v: "parseDNSMessage decode m = Some v" and len: "length m < 65536"
    using Cons.prems(1) by auto
  have buf: "Buf (dns_reqBuf s) = of_nat (length m div 256) # of_nat (length m) # m @ ?rest"
    using Cons.prems(4) by (simp add: dns_frame_def [of m])
  let ?s1 = "s\<lparr>dns_reqBuf := \<lparr>Buf = m @ ?rest\<rparr>, reqMsgLen := length m\<rparr>"
  let ?s2 = "(dns_reqLSM_update lsm_next ?s1)\<lparr>dns_reqBuf := \<lparr>Buf = ?rest\<rparr>, dns_reqMap := Some v, dns_reqUpdated := True\<rparr>"
  let ?s3 = "dns_reqLSM_update lsm_rewind ?s2"
  have "dnsTCPStream_getReqMessageLength s = (LSMActionNext, ?s1)"
    using be_int2_frame [OF len]
    by (simp add: dnsTCPStream_getReqMessageLength_def ByteBuffer_Get_def buf)
  then have "?run s = ?run (dns_reqLSM_update lsm_next ?s1)"
    using Cons.prems(2,3) by (intro loop_Next) simp_all
  also have "dnsTCPStream_getReqMessage decode (dns_reqLSM_update lsm_next ?s1) = (LSMActionReset, ?s2)"
    by (simp add: dnsTCPStream_getReqMessage_def ByteBuffer_Get_def v)
  then have "?run (dns_reqLSM_update lsm_next ?s1) = ?run ?s3"
    using Cons.prems(2,3) by (subst LinearStateMachine_loop.simps) simp
  finally have "?run s = ?run ?s3" .
  moreover have "\<exists>s'. ?run ?s3 = Some (Some ((False, False), s'))
      \<and> dns_reqMap s' = (if ms = [] then dns_reqMap ?s3 else parseDNSMessage decode (last ms))
      \<and> dns_reqUpdated s' = (dns_reqUpdated ?s3 \<or> ms \<noteq> []) \<and> dns_respDone s' = dns_respDone ?s3"
    by (rule Cons.IH) (use Cons.prems in simp_all)
  ultimately show ?case
    using v by auto
qed

text \<open>
  C35. Of several DNS queries that arrive in one TCP segment, all are decoded and exactly the last
  one is published.
\<close>

theorem dns_pipelined:
  assumes "list_all (\<lambda>m. length m < 65536 \<and> parseDNSMessage decode m \<noteq> None) ms" "ms \<noteq> []"
  shows "\<exists>s. dnsTCPStream_Feed decode False st en 0 (concat (map dns_frame ms)) newDNSTCPStream =
           Some (Some ((Some \<lparr>Type = PropUpdateReplace, M = the_map (parseDNSMessage decode (last ms))\<rparr>, False), s))"
proof -
  let ?d = "concat (map dns_frame ms)"
  let ?s0 = "newDNSTCPStream\<lparr>dns_reqBuf := \<lparr>Buf = ?d\<rparr>, dns_reqUpdated := False\<rparr>"
  have "?d \<noteq> []"
    using assms(2) by (cases ms) (simp_all add: dns_frame_def)
  moreover have "LinearStateMachine_Run (dns_exec decode) dns_reqLSM dns_reqLSM_update ?s0 =
      LinearStateMachine_loop (dns_exec decode) dns_reqLSM dns_reqLSM_update ?s0"
    by (rule run_loop) (simp add: newDNSTCPStream_def NewLinearStateMachine_def)
  moreover obtain s' where "LinearStateMachine_loop (dns_exec decode) dns_reqLSM dns_reqLSM_update ?s0 =
      Some (Some ((False, False), s'))" "dns_reqMap s' = parseDNSMessage decode (last ms)" "dns_reqUpdated s'"
    using dns_run_frames [OF assms(1), of ?s0] assms(2)
    by (auto simp: newDNSTCPStream_def NewLinearStateMachine_def)
  ultimately show ?thesis
    by (simp add: dnsTCPStream_Feed_def ByteBuffer_Append_def newDNSTCPStream_def)
qed

section \<open>The statements at concrete inputs\<close>

definition decode_example :: "bytes \<Rightarrow> DNSLayer option" where
  "decode_example m =
     (if m = [] then None
      else Some \<lparr>dns_ID = ucast (hd m), dns_QR = False, dns_OpCode = 0, dns_AA = False, dns_TC = False,
        dns_RD = True, dns_RA = False, dns_Z = 0, dns_ResponseCode = 0, dns_Questions = [], dns_Answers = [],
        dns_Authorities = [], dns_Additionals = []\<rparr>)"

theorem dns_pipelined_witness:
  "\<exists>s. dnsTCPStream_Feed decode_example False True False 0 (concat (map dns_frame [[7], [8, 9]])) newDNSTCPStream =
     Some (Some ((Some \<lparr>Type = PropUpdateReplace, M = the_map (parseDNSMessage decode_example (last [[7], [8, 9]]))\<rparr>,
       False), s))"
  by (rule dns_pipelined) (simp_all add: parseDNSMessage_def decode_example_def)

end
