(* ===== verification/OpenVPN.thy ===== *)
theory OpenVPN
  imports ByteBuffer LSM Props
begin

text \<open>
  \<open>analyzer/udp/openvpn.go\<close>: the OpenVPN analyzer for UDP and TCP. Both embed \<open>openvpnStream\<close>,
  whose steps parse packets through two function fields. Here the embedding is a record extension
  and the field is the argument \<open>parse\<close> of the steps.
\<close>

definition OpenVPNControlHardResetClientV1 :: byte where "OpenVPNControlHardResetClientV1 = 1"
definition OpenVPNControlHardResetServerV1 :: byte where "OpenVPNControlHardResetServerV1 = 2"
definition OpenVPNControlSoftResetV1 :: byte where "OpenVPNControlSoftResetV1 = 3"
definition OpenVPNControlV1 :: byte where "OpenVPNControlV1 = 4"
definition OpenVPNAckV1 :: byte where "OpenVPNAckV1 = 5"
definition OpenVPNDataV1 :: byte where "OpenVPNDataV1 = 6"
definition OpenVPNControlHardResetClientV2 :: byte where "OpenVPNControlHardResetClientV2 = 7"
definition OpenVPNControlHardResetServerV2 :: byte where "OpenVPNControlHardResetServerV2 = 8"
definition OpenVPNDataV2 :: byte where "OpenVPNDataV2 = 9"
definition OpenVPNControlHardResetClientV3 :: byte where "OpenVPNControlHardResetClientV3 = 10"
definition OpenVPNControlWkcV1 :: byte where "OpenVPNControlWkcV1 = 11"

lemmas openvpn_opcodes =
  OpenVPNControlHardResetClientV1_def OpenVPNControlHardResetServerV1_def OpenVPNControlSoftResetV1_def
  OpenVPNControlV1_def OpenVPNAckV1_def OpenVPNDataV1_def OpenVPNControlHardResetClientV2_def
  OpenVPNControlHardResetServerV2_def OpenVPNDataV2_def OpenVPNControlHardResetClientV3_def
  OpenVPNControlWkcV1_def

definition OpenVPNMinPktLen :: u16 where "OpenVPNMinPktLen = 6"
definition OpenVPNTCPPktDefaultLimit :: nat where "OpenVPNTCPPktDefaultLimit = 256"
definition OpenVPNUDPPktDefaultLimit :: nat where "OpenVPNUDPPktDefaultLimit = 256"

definition OpenVPNAnalyzer_Name :: string where "OpenVPNAnalyzer_Name = ''openvpn''"
definition OpenVPNAnalyzer_Limit :: int where "OpenVPNAnalyzer_Limit = 0"

record openvpnPkt =
  pktLen :: u16
  opcode :: byte
  keyId :: byte

datatype ovpn_step = parseCtlHardResetClient | parseReq | parseCtlHardResetServer | parseResp

record openvpnStream =
  ovpn_reqUpdated :: bool
  ovpn_reqLSM :: "ovpn_step LinearStateMachine"
  ovpn_reqDone :: bool
  ovpn_respUpdated :: bool
  ovpn_respLSM :: "ovpn_step LinearStateMachine"
  ovpn_respDone :: bool
  rxPktCnt :: nat
  txPktCnt :: nat
  pktLimit :: nat
  lastOpcode :: byte

record openvpnUDPStream = openvpnStream +
  curPkt :: "bytes option"

record openvpnTCPStream = openvpnStream +
  ovpn_reqBuf :: ByteBuffer
  ovpn_respBuf :: ByteBuffer

type_synonym 's pkt_parser = "'s \<Rightarrow> (openvpnPkt option \<times> LSMAction) \<times> 's"

definition OpenVPNCheckForValidOpcode :: "byte \<Rightarrow> bool" where
  "OpenVPNCheckForValidOpcode op \<longleftrightarrow> op \<in> {OpenVPNControlHardResetClientV1,
     OpenVPNControlHardResetServerV1, OpenVPNControlSoftResetV1, OpenVPNControlV1, OpenVPNAckV1,
     OpenVPNDataV1, OpenVPNControlHardResetClientV2, OpenVPNControlHardResetServerV2, OpenVPNDataV2,
     OpenVPNControlHardResetClientV3, OpenVPNControlWkcV1}"

section \<open>Steps\<close>

definition hardResetClient :: "byte set" where
  "hardResetClient = {OpenVPNControlHardResetClientV1, OpenVPNControlHardResetClientV2,
     OpenVPNControlHardResetClientV3}"

definition hardResetServer :: "byte set" where
  "hardResetServer = {OpenVPNControlHardResetServerV1, OpenVPNControlHardResetServerV2}"

definition sessionOpcodes :: "byte set" where
  "sessionOpcodes = {OpenVPNControlSoftResetV1, OpenVPNControlV1, OpenVPNAckV1, OpenVPNDataV1,
     OpenVPNDataV2, OpenVPNControlWkcV1}"

text \<open>A nil packet with action Next does not occur; reading its opcode would panic.\<close>

definition openvpnStream_parseCtlHardResetClient ::
    "'a openvpnStream_scheme pkt_parser \<Rightarrow> 'a openvpnStream_scheme \<Rightarrow> (LSMAction \<times> 'a openvpnStream_scheme) go" where
  "openvpnStream_parseCtlHardResetClient parse s =
     (case parse s of
        ((pkt, action), s) \<Rightarrow>
          if action \<noteq> LSMActionNext then Some (action, s)
          else
            (case pkt of
               None \<Rightarrow> None
             | Some p \<Rightarrow>
                 Some (if opcode p \<notin> hardResetClient then (LSMActionCancel, s)
                       else (LSMActionNext, s\<lparr>lastOpcode := opcode p\<rparr>))))"

definition openvpnStream_parseCtlHardResetServer ::
    "'a openvpnStream_scheme pkt_parser \<Rightarrow> 'a openvpnStream_scheme \<Rightarrow> (LSMAction \<times> 'a openvpnStream_scheme) go" where
  "openvpnStream_parseCtlHardResetServer parse s =
     (if lastOpcode s \<notin> hardResetClient then Some (LSMActionCancel, s)
      else
        (case parse s of
           ((pkt, action), s) \<Rightarrow>
             if action \<noteq> LSMActionNext then Some (action, s)
             else
               (case pkt of
                  None \<Rightarrow> None
                | Some p \<Rightarrow>
                    Some (if opcode p \<notin> hardResetServer then (LSMActionCancel, s)
                          else (LSMActionNext, s\<lparr>lastOpcode := opcode p\<rparr>)))))"

definition openvpnStream_parseReq ::
    "'a openvpnStream_scheme pkt_parser \<Rightarrow> 'a openvpnStream_scheme \<Rightarrow> (LSMAction \<times> 'a openvpnStream_scheme) go" where
  "openvpnStream_parseReq parse s =
     (case parse s of
        ((pkt, action), s) \<Rightarrow>
          if action \<noteq> LSMActionNext then Some (action, s)
          else
            (case pkt of
               None \<Rightarrow> None
             | Some p \<Rightarrow>
                 Some (if opcode p \<notin> sessionOpcodes then (LSMActionCancel, s)
                       else (LSMActionPause, s\<lparr>txPktCnt := txPktCnt s + 1, ovpn_reqUpdated := True\<rparr>))))"

definition openvpnStream_parseResp ::
    "'a openvpnStream_scheme pkt_parser \<Rightarrow> 'a openvpnStream_scheme \<Rightarrow> (LSMAction \<times> 'a openvpnStream_scheme) go" where
  "openvpnStream_parseResp parse s =
     (case parse s of
        ((pkt, action), s) \<Rightarrow>
          if action \<noteq> LSMActionNext then Some (action, s)
          else
            (case pkt of
               None \<Rightarrow> None
             | Some p \<Rightarrow>
                 Some (if opcode p \<notin> sessionOpcodes then (LSMActionCancel, s)
                       else (LSMActionPause, s\<lparr>rxPktCnt := rxPktCnt s + 1, ovpn_respUpdated := True\<rparr>))))"

fun ovpn_exec :: "'a openvpnStream_scheme pkt_parser \<Rightarrow> 'a openvpnStream_scheme pkt_parser \<Rightarrow>
    ovpn_step \<Rightarrow> 'a openvpnStream_scheme \<Rightarrow> (LSMAction \<times> 'a openvpnStream_scheme) go" where
  "ovpn_exec reqPktParse respPktParse parseCtlHardResetClient s =
     openvpnStream_parseCtlHardResetClient reqPktParse s"
| "ovpn_exec reqPktParse respPktParse parseReq s = openvpnStream_parseReq reqPktParse s"
| "ovpn_exec reqPktParse respPktParse parseCtlHardResetServer s =
     openvpnStream_parseCtlHardResetServer respPktParse s"
| "ovpn_exec reqPktParse respPktParse parseResp s = openvpnStream_parseResp respPktParse s"

section \<open>UDP\<close>

text \<open>\<open>o.curPkt[0]\<close> panics on an empty packet, which \<open>Feed\<close> never stores.\<close>

definition openvpnUDPStream_parsePkt :: "openvpnUDPStream pkt_parser" where
  "openvpnUDPStream_parsePkt s =
     (case curPkt s of
        None \<Rightarrow> ((None, LSMActionPause), s)
      | Some pkt \<Rightarrow>
          (let op = drop_bit 3 (pkt ! 0) in
           if \<not> OpenVPNCheckForValidOpcode op then ((None, LSMActionCancel), s)
           else ((Some \<lparr>pktLen = 0, opcode = op, keyId = pkt ! 0 AND 0x07\<rparr>, LSMActionNext),
                 s\<lparr>curPkt := None\<rparr>)))"

abbreviation ovpn_udp_exec :: "ovpn_step \<Rightarrow> openvpnUDPStream \<Rightarrow> (LSMAction \<times> openvpnUDPStream) go" where
  "ovpn_udp_exec \<equiv> ovpn_exec openvpnUDPStream_parsePkt openvpnUDPStream_parsePkt"

definition newOpenVPNUDPStream :: openvpnUDPStream where
  "newOpenVPNUDPStream =
     \<lparr>ovpn_reqUpdated = False, ovpn_reqLSM = NewLinearStateMachine [parseCtlHardResetClient, parseReq],
      ovpn_reqDone = False, ovpn_respUpdated = False,
      ovpn_respLSM = NewLinearStateMachine [parseCtlHardResetServer, parseResp], ovpn_respDone = False,
      rxPktCnt = 0, txPktCnt = 0, pktLimit = OpenVPNUDPPktDefaultLimit, lastOpcode = 0, curPkt = None\<rparr>"

definition ovpn_counts :: "PropUpdateType \<Rightarrow> 'a openvpnStream_scheme \<Rightarrow> PropUpdate" where
  "ovpn_counts ty s =
     \<lparr>Type = ty, M = [''rx_pkt_cnt'' \<mapsto> PInt (int (rxPktCnt s)), ''tx_pkt_cnt'' \<mapsto> PInt (int (txPktCnt s))]\<rparr>"

definition openvpnUDPStream_Feed :: "bool \<Rightarrow> bytes \<Rightarrow> openvpnUDPStream \<Rightarrow> openvpnUDPStream feed_result" where
  "openvpnUDPStream_Feed rv data s =
     (if length data = 0 then Some (Some ((None, False), s))
      else
        (let s = s\<lparr>curPkt := Some data\<rparr>;
             finish = (\<lambda>update cancelled s.
               Some (Some ((update, cancelled \<or> (ovpn_reqDone s \<and> ovpn_respDone s)
                             \<or> pktLimit s < rxPktCnt s + txPktCnt s), s))) in
         if rv then
           (case LinearStateMachine_Run ovpn_udp_exec ovpn_respLSM ovpn_respLSM_update (s\<lparr>ovpn_respUpdated := False\<rparr>) of
              None \<Rightarrow> None
            | Some None \<Rightarrow> Some None
            | Some (Some ((cancelled, dn), s)) \<Rightarrow>
                (let s = s\<lparr>ovpn_respDone := dn\<rparr> in
                 if ovpn_respUpdated s
                 then finish (Some (ovpn_counts PropUpdateReplace s)) cancelled (s\<lparr>ovpn_respUpdated := False\<rparr>)
                 else finish None cancelled s))
         else
           (case LinearStateMachine_Run ovpn_udp_exec ovpn_reqLSM ovpn_reqLSM_update (s\<lparr>ovpn_reqUpdated := False\<rparr>) of
              None \<Rightarrow> None
            | Some None \<Rightarrow> Some None
            | Some (Some ((cancelled, dn), s)) \<Rightarrow>
                (let s = s\<lparr>ovpn_reqDone := dn\<rparr> in
                 if ovpn_reqUpdated s
                 then finish (Some (ovpn_counts PropUpdateReplace s)) cancelled (s\<lparr>ovpn_reqUpdated := False\<rparr>)
                 else finish None cancelled s))))"

definition openvpnUDPStream_Close :: "bool \<Rightarrow> PropUpdate option" where
  "openvpnUDPStream_Close limited = None"

section \<open>TCP\<close>

definition openvpnTCPStream_parsePkt :: "bool \<Rightarrow> openvpnTCPStream pkt_parser" where
  "openvpnTCPStream_parsePkt rv s =
     (let buffer = (if rv then ovpn_respBuf s else ovpn_reqBuf s) in
     (case ByteBuffer_GetUint16 buffer False False of
        (None, _) \<Rightarrow> ((None, LSMActionPause), s)
      | (Some len, _) \<Rightarrow>
     if len < OpenVPNMinPktLen then ((None, LSMActionCancel), s) else
     (case ByteBuffer_Get buffer 3 False of
        (None, _) \<Rightarrow> ((None, LSMActionPause), s)
      | (Some pktOp, _) \<Rightarrow>
     if \<not> OpenVPNCheckForValidOpcode (drop_bit 3 (pktOp ! 2)) then ((None, LSMActionCancel), s) else
     (case ByteBuffer_Get buffer (unat len + 2) True of
        (None, _) \<Rightarrow> ((None, LSMActionPause), s)
      | (Some pkt, b) \<Rightarrow>
          (let pkt = drop 2 pkt in
           ((Some \<lparr>pktLen = len, opcode = drop_bit 3 (pkt ! 0), keyId = pkt ! 0 AND 0x07\<rparr>, LSMActionNext),
            if rv then s\<lparr>ovpn_respBuf := b\<rparr> else s\<lparr>ovpn_reqBuf := b\<rparr>))))))"

abbreviation ovpn_tcp_exec :: "ovpn_step \<Rightarrow> openvpnTCPStream \<Rightarrow> (LSMAction \<times> openvpnTCPStream) go" where
  "ovpn_tcp_exec \<equiv> ovpn_exec (openvpnTCPStream_parsePkt False) (openvpnTCPStream_parsePkt True)"

definition newOpenVPNTCPStream :: openvpnTCPStream where
  "newOpenVPNTCPStream =
     \<lparr>ovpn_reqUpdated = False, ovpn_reqLSM = NewLinearStateMachine [parseCtlHardResetClient, parseReq],
      ovpn_reqDone = False, ovpn_respUpdated = False,
      ovpn_respLSM = NewLinearStateMachine [parseCtlHardResetServer, parseResp], ovpn_respDone = False,
      rxPktCnt = 0, txPktCnt = 0, pktLimit = OpenVPNTCPPktDefaultLimit, lastOpcode = 0,
      ovpn_reqBuf = \<lparr>Buf = []\<rparr>, ovpn_respBuf = \<lparr>Buf = []\<rparr>\<rparr>"

definition openvpnTCPStream_Feed ::
    "bool \<Rightarrow> bool \<Rightarrow> bool \<Rightarrow> int \<Rightarrow> bytes \<Rightarrow> openvpnTCPStream \<Rightarrow> openvpnTCPStream feed_result" where
  "openvpnTCPStream_Feed rv st en skip data s =
     (if skip \<noteq> 0 then Some (Some ((None, True), s))
      else if length data = 0 then Some (Some ((None, False), s))
      else
        (let finish = (\<lambda>update cancelled s.
               Some (Some ((update, cancelled \<or> (ovpn_reqDone s \<and> ovpn_respDone s)
                             \<or> pktLimit s < rxPktCnt s + txPktCnt s), s))) in
         if rv then
           (case LinearStateMachine_Run ovpn_tcp_exec ovpn_respLSM ovpn_respLSM_update
                   (s\<lparr>ovpn_respBuf := ByteBuffer_Append (ovpn_respBuf s) data, ovpn_respUpdated := False\<rparr>) of
              None \<Rightarrow> None
            | Some None \<Rightarrow> Some None
            | Some (Some ((cancelled, dn), s)) \<Rightarrow>
                (let s = s\<lparr>ovpn_respDone := dn\<rparr> in
                 if ovpn_respUpdated s
                 then finish (Some (ovpn_counts PropUpdateReplace s)) cancelled (s\<lparr>ovpn_respUpdated := False\<rparr>)
                 else finish None cancelled s))
         else
           (case LinearStateMachine_Run ovpn_tcp_exec ovpn_reqLSM ovpn_reqLSM_update
                   (s\<lparr>ovpn_reqBuf := ByteBuffer_Append (ovpn_reqBuf s) data, ovpn_reqUpdated := False\<rparr>) of
              None \<Rightarrow> None
            | Some None \<Rightarrow> Some None
            | Some (Some ((cancelled, dn), s)) \<Rightarrow>
                (let s = s\<lparr>ovpn_reqDone := dn\<rparr> in
                 if ovpn_reqUpdated s
                 then finish (Some (ovpn_counts PropUpdateMerge s)) cancelled (s\<lparr>ovpn_reqUpdated := False\<rparr>)
                 else finish None cancelled s))))"

definition openvpnTCPStream_Close :: "bool \<Rightarrow> openvpnTCPStream \<Rightarrow> PropUpdate option \<times> openvpnTCPStream" where
  "openvpnTCPStream_Close limited s =
     (None, s\<lparr>ovpn_reqBuf := ByteBuffer_Reset (ovpn_reqBuf s), ovpn_respBuf := ByteBuffer_Reset (ovpn_respBuf s)\<rparr>)"

section \<open>The handshake comes first\<close>

text \<open>
  The shape of both machines, and that the server side passes its first step only after the client
  side did: a packet is counted only in a session that opened with a client reset, and, on the
  response side, with a server reset after it.
\<close>

definition ovpn_inv :: "'a openvpnStream_scheme \<Rightarrow> bool" where
  "ovpn_inv s \<longleftrightarrow> Steps (ovpn_reqLSM s) = [parseCtlHardResetClient, parseReq]
     \<and> Steps (ovpn_respLSM s) = [parseCtlHardResetServer, parseResp]
     \<and> (lastOpcode s \<in> hardResetClient \<longrightarrow> 0 < lsm_index (ovpn_reqLSM s))
     \<and> (0 < lsm_index (ovpn_respLSM s) \<longrightarrow> 0 < lsm_index (ovpn_reqLSM s))
     \<and> (0 < txPktCnt s \<longrightarrow> 0 < lsm_index (ovpn_reqLSM s))
     \<and> (0 < rxPktCnt s \<longrightarrow> 0 < lsm_index (ovpn_respLSM s))"

lemma ovpn_disjoint: "x \<in> hardResetServer \<Longrightarrow> x \<notin> hardResetClient"
  by (auto simp: hardResetServer_def hardResetClient_def openvpn_opcodes)

text \<open>
  What the two packet parsers have in common, as the interface of the session: they touch nothing
  but where the packet lies, and return one with action Next.
\<close>

locale ovpn_session =
  fixes pq pr :: "'a openvpnStream_scheme \<Rightarrow> (openvpnPkt option \<times> LSMAction) \<times> 'a openvpnStream_scheme"
  assumes parse_ok:
    "pq s = ((p, a), s') \<or> pr s = ((p, a), s') \<Longrightarrow>
       a \<noteq> LSMActionReset \<and> (a = LSMActionNext \<longrightarrow> p \<noteq> None)
       \<and> ovpn_reqLSM s' = ovpn_reqLSM s \<and> ovpn_respLSM s' = ovpn_respLSM s \<and> lastOpcode s' = lastOpcode s
       \<and> rxPktCnt s' = rxPktCnt s \<and> txPktCnt s' = txPktCnt s"
begin

lemma req_step:
  assumes "ovpn_inv s" "lsm_index (ovpn_reqLSM s) < length (Steps (ovpn_reqLSM s))"
  shows "\<exists>a s'. ovpn_exec pq pr (Steps (ovpn_reqLSM s) ! lsm_index (ovpn_reqLSM s)) s = Some (a, s')
      \<and> a \<noteq> LSMActionReset \<and> ovpn_reqLSM s' = ovpn_reqLSM s
      \<and> ovpn_inv (if a = LSMActionNext then ovpn_reqLSM_update lsm_next s'
                  else if a = LSMActionCancel then ovpn_reqLSM_update lsm_cancel s' else s')"
proof -
  obtain p a s' where r: "pq s = ((p, a), s')"
    by (cases "pq s") auto
  have idx: "lsm_index (ovpn_reqLSM s) = 0 \<or> lsm_index (ovpn_reqLSM s) = Suc 0"
    using assms by (auto simp: ovpn_inv_def)
  note ok = parse_ok [OF disjI1 [OF r]]
  have steps: "Steps (ovpn_reqLSM s) = [parseCtlHardResetClient, parseReq]"
    using assms(1) by (simp add: ovpn_inv_def)
  from idx show ?thesis
  proof
    assume i: "lsm_index (ovpn_reqLSM s) = 0"
    show ?thesis
      unfolding step_cases
      using ok assms(1) r i
      by (auto simp add: steps openvpnStream_parseCtlHardResetClient_def ovpn_inv_def split: option.split)
  next
    assume i: "lsm_index (ovpn_reqLSM s) = Suc 0"
    show ?thesis
      unfolding step_cases
      using ok assms(1) r i
      by (auto simp add: steps openvpnStream_parseReq_def ovpn_inv_def split: option.split)
  qed
qed

lemma resp_step:
  assumes "ovpn_inv s" "lsm_index (ovpn_respLSM s) < length (Steps (ovpn_respLSM s))"
  shows "\<exists>a s'. ovpn_exec pq pr (Steps (ovpn_respLSM s) ! lsm_index (ovpn_respLSM s)) s = Some (a, s')
      \<and> a \<noteq> LSMActionReset \<and> ovpn_respLSM s' = ovpn_respLSM s
      \<and> ovpn_inv (if a = LSMActionNext then ovpn_respLSM_update lsm_next s'
                  else if a = LSMActionCancel then ovpn_respLSM_update lsm_cancel s' else s')"
proof -
  obtain p a s' where r: "pr s = ((p, a), s')"
    by (cases "pr s") auto
  have idx: "lsm_index (ovpn_respLSM s) = 0 \<or> lsm_index (ovpn_respLSM s) = Suc 0"
    using assms by (auto simp: ovpn_inv_def)
  note ok = parse_ok [OF disjI2 [OF r]]
  have steps: "Steps (ovpn_respLSM s) = [parseCtlHardResetServer, parseResp]"
    using assms(1) by (simp add: ovpn_inv_def)
  from idx show ?thesis
  proof
    assume i: "lsm_index (ovpn_respLSM s) = 0"
    show ?thesis
      unfolding step_cases
      using ok assms(1) r i
      by (auto simp add: steps openvpnStream_parseCtlHardResetServer_def ovpn_inv_def ovpn_disjoint
          split: option.split)
  next
    assume i: "lsm_index (ovpn_respLSM s) = Suc 0"
    show ?thesis
      unfolding step_cases
      using ok assms(1) r i
      by (auto simp add: steps openvpnStream_parseResp_def ovpn_inv_def split: option.split)
  qed
qed

end

sublocale ovpn_session \<subseteq> req: lsm_linear "ovpn_exec pq pr" ovpn_reqLSM ovpn_reqLSM_update ovpn_inv
  by unfold_locales (simp, rule req_step)

sublocale ovpn_session \<subseteq> resp: lsm_linear "ovpn_exec pq pr" ovpn_respLSM ovpn_respLSM_update ovpn_inv
  by unfold_locales (simp, rule resp_step)

interpretation ovpn_udp: ovpn_session openvpnUDPStream_parsePkt openvpnUDPStream_parsePkt
  by unfold_locales
    (auto simp: openvpnUDPStream_parsePkt_def Let_def split: option.splits if_splits)

interpretation ovpn_tcp: ovpn_session "openvpnTCPStream_parsePkt False" "openvpnTCPStream_parsePkt True"
  by unfold_locales
    (auto simp: openvpnTCPStream_parsePkt_def Let_def split: option.splits if_splits prod.splits)

section \<open>Feeding\<close>

lemma ovpn_inv_upd [simp]:
  "ovpn_inv (s\<lparr>ovpn_reqUpdated := x\<rparr>) = ovpn_inv s" "ovpn_inv (s\<lparr>ovpn_respUpdated := x\<rparr>) = ovpn_inv s"
  "ovpn_inv (s\<lparr>ovpn_reqDone := x\<rparr>) = ovpn_inv s" "ovpn_inv (s\<lparr>ovpn_respDone := x\<rparr>) = ovpn_inv s"
  "ovpn_inv (u\<lparr>curPkt := p\<rparr>) = ovpn_inv u"
  "ovpn_inv (t\<lparr>ovpn_reqBuf := b\<rparr>) = ovpn_inv t" "ovpn_inv (t\<lparr>ovpn_respBuf := b\<rparr>) = ovpn_inv t"
  by (simp_all add: ovpn_inv_def)

lemma ovpn_inv_new: "ovpn_inv newOpenVPNUDPStream" "ovpn_inv newOpenVPNTCPStream"
  by (simp_all add: ovpn_inv_def newOpenVPNUDPStream_def newOpenVPNTCPStream_def NewLinearStateMachine_def
      hardResetClient_def openvpn_opcodes)

text \<open>
  Feeding an OpenVPN UDP stream returns and keeps the handshake invariant: packets are
  counted only after the client's hard reset, those of the server only after the server's hard
  reset answered it.
\<close>

lemma openvpnUDPStream_Feed_total:
  assumes "ovpn_inv s"
  shows "\<exists>u d s'. openvpnUDPStream_Feed rv data s = Some (Some ((u, d), s')) \<and> ovpn_inv s'"
proof (cases "data = []")
  case True
  with assms show ?thesis by (auto simp: openvpnUDPStream_Feed_def)
next
  case False
  let ?q = "s\<lparr>curPkt := Some data, ovpn_reqUpdated := False\<rparr>"
  let ?p = "s\<lparr>curPkt := Some data, ovpn_respUpdated := False\<rparr>"
  from assms have "ovpn_inv ?q" "ovpn_inv ?p" by simp_all
  from ovpn_udp.req.run_total [OF this(1)] ovpn_udp.resp.run_total [OF this(2)]
  obtain c1 d1 s1 c2 d2 s2 where
    "LinearStateMachine_Run ovpn_udp_exec ovpn_reqLSM ovpn_reqLSM_update ?q = Some (Some ((c1, d1), s1))"
    "ovpn_inv s1"
    "LinearStateMachine_Run ovpn_udp_exec ovpn_respLSM ovpn_respLSM_update ?p = Some (Some ((c2, d2), s2))"
    "ovpn_inv s2"
    by metis
  with False show ?thesis
    by (cases rv) (simp_all add: openvpnUDPStream_Feed_def Let_def)
qed

text \<open>
  The same invariant holds for OpenVPN over TCP, however the packets are cut into segments.
\<close>

lemma openvpnTCPStream_Feed_total:
  assumes "ovpn_inv s"
  shows "\<exists>u d s'. openvpnTCPStream_Feed rv st en skip data s = Some (Some ((u, d), s')) \<and> ovpn_inv s'"
proof (cases "skip \<noteq> 0 \<or> data = []")
  case True
  with assms show ?thesis by (auto simp: openvpnTCPStream_Feed_def)
next
  case False
  let ?q = "s\<lparr>ovpn_reqBuf := ByteBuffer_Append (ovpn_reqBuf s) data, ovpn_reqUpdated := False\<rparr>"
  let ?p = "s\<lparr>ovpn_respBuf := ByteBuffer_Append (ovpn_respBuf s) data, ovpn_respUpdated := False\<rparr>"
  from assms have "ovpn_inv ?q" "ovpn_inv ?p" by simp_all
  from ovpn_tcp.req.run_total [OF this(1)] ovpn_tcp.resp.run_total [OF this(2)]
  obtain c1 d1 s1 c2 d2 s2 where
    "LinearStateMachine_Run ovpn_tcp_exec ovpn_reqLSM ovpn_reqLSM_update ?q = Some (Some ((c1, d1), s1))"
    "ovpn_inv s1"
    "LinearStateMachine_Run ovpn_tcp_exec ovpn_respLSM ovpn_respLSM_update ?p = Some (Some ((c2, d2), s2))"
    "ovpn_inv s2"
    by metis
  with False show ?thesis
    by (cases rv) (simp_all add: openvpnTCPStream_Feed_def Let_def)
qed

section \<open>Who opens a session over UDP\<close>

definition udp_opcode :: "bytes \<Rightarrow> byte" where
  "udp_opcode d = drop_bit 3 (d ! 0)"

text \<open>
  \<open>cl\<close>: a client packet was a hard reset; \<open>sv\<close>: a server packet was. The packet held, if it is one
  of the resets \<open>R\<close>, counts as seen.
\<close>

definition resets_seen :: "bool \<Rightarrow> bool \<Rightarrow> byte set \<Rightarrow> bool \<Rightarrow> openvpnUDPStream \<Rightarrow> bool" where
  "resets_seen cl sv R seen s \<longleftrightarrow> ovpn_inv s
     \<and> (0 < lsm_index (ovpn_reqLSM s) \<longrightarrow> cl) \<and> (0 < lsm_index (ovpn_respLSM s) \<longrightarrow> sv)
     \<and> (\<forall>d. curPkt s = Some d \<longrightarrow> udp_opcode d \<in> R \<longrightarrow> seen)"

lemma udp_parse_opcode:
  assumes "openvpnUDPStream_parsePkt s = ((p, a), s')"
  shows "\<And>q. p = Some q \<Longrightarrow> \<exists>d. curPkt s = Some d \<and> opcode q = udp_opcode d"
    and "\<And>d. curPkt s' = Some d \<Longrightarrow> curPkt s = Some d"
  using assms by (auto simp: openvpnUDPStream_parsePkt_def udp_opcode_def Let_def split: option.splits if_splits)

interpretation seen_req: lsm_linear ovpn_udp_exec ovpn_reqLSM ovpn_reqLSM_update
  "resets_seen cl sv hardResetClient cl" for cl sv
proof (unfold_locales, goal_cases)
  case (2 s)
  then have i: "ovpn_inv s" by (simp add: resets_seen_def)
  obtain a s' where e: "ovpn_udp_exec (Steps (ovpn_reqLSM s) ! lsm_index (ovpn_reqLSM s)) s = Some (a, s')" and
    r: "a \<noteq> LSMActionReset" "ovpn_reqLSM s' = ovpn_reqLSM s"
      "ovpn_inv (if a = LSMActionNext then ovpn_reqLSM_update lsm_next s'
                  else if a = LSMActionCancel then ovpn_reqLSM_update lsm_cancel s' else s')"
    using ovpn_udp.req_step [OF i 2(2)] by blast
  have idx: "lsm_index (ovpn_reqLSM s) = 0 \<or> lsm_index (ovpn_reqLSM s) = Suc 0"
    and steps: "Steps (ovpn_reqLSM s) = [parseCtlHardResetClient, parseReq]"
    using i 2(2) by (auto simp: ovpn_inv_def)
  obtain p b s1 where p: "openvpnUDPStream_parsePkt s = ((p, b), s1)" by (metis prod.exhaust)
  have "ovpn_respLSM s' = ovpn_respLSM s" "\<forall>d. curPkt s' = Some d \<longrightarrow> curPkt s = Some d" "a = LSMActionNext \<longrightarrow> cl"
    using idx e p ovpn_udp.parse_ok [OF disjI1 [OF p]] udp_parse_opcode [OF p] 2(1)
    by (auto simp: steps openvpnStream_parseCtlHardResetClient_def openvpnStream_parseReq_def resets_seen_def
        split: if_splits option.splits)
  then show ?case
    using e r 2(1) by (intro exI conjI) (assumption | auto simp: resets_seen_def)+
qed simp

interpretation seen_resp: lsm_linear ovpn_udp_exec ovpn_respLSM ovpn_respLSM_update
  "resets_seen cl sv hardResetServer sv" for cl sv
proof (unfold_locales, goal_cases)
  case (2 s)
  then have i: "ovpn_inv s" by (simp add: resets_seen_def)
  obtain a s' where e: "ovpn_udp_exec (Steps (ovpn_respLSM s) ! lsm_index (ovpn_respLSM s)) s = Some (a, s')" and
    r: "a \<noteq> LSMActionReset" "ovpn_respLSM s' = ovpn_respLSM s"
      "ovpn_inv (if a = LSMActionNext then ovpn_respLSM_update lsm_next s'
                  else if a = LSMActionCancel then ovpn_respLSM_update lsm_cancel s' else s')"
    using ovpn_udp.resp_step [OF i 2(2)] by blast
  have idx: "lsm_index (ovpn_respLSM s) = 0 \<or> lsm_index (ovpn_respLSM s) = Suc 0"
    and steps: "Steps (ovpn_respLSM s) = [parseCtlHardResetServer, parseResp]"
    using i 2(2) by (auto simp: ovpn_inv_def)
  obtain p b s1 where p: "openvpnUDPStream_parsePkt s = ((p, b), s1)" by (metis prod.exhaust)
  have "ovpn_reqLSM s' = ovpn_reqLSM s" "\<forall>d. curPkt s' = Some d \<longrightarrow> curPkt s = Some d" "a = LSMActionNext \<longrightarrow> sv"
    using idx e p ovpn_udp.parse_ok [OF disjI1 [OF p]] udp_parse_opcode [OF p] 2(1)
    by (auto simp: steps openvpnStream_parseCtlHardResetServer_def openvpnStream_parseResp_def resets_seen_def
        split: if_splits option.splits)
  then show ?case
    using e r 2(1) by (intro exI conjI) (assumption | auto simp: resets_seen_def)+
qed simp

definition is_reset :: "bool \<Rightarrow> bool \<times> bytes \<Rightarrow> bool" where
  "is_reset rv p \<longleftrightarrow> fst p = rv \<and> snd p \<noteq> []
     \<and> udp_opcode (snd p) \<in> (if rv then hardResetServer else hardResetClient)"

text \<open>The packets of a session in order; what the analyzer publishes on the way is dropped.\<close>

fun ovpn_udp_feeds :: "(bool \<times> bytes) list \<Rightarrow> openvpnUDPStream \<Rightarrow> openvpnUDPStream go option" where
  "ovpn_udp_feeds [] s = Some (Some s)"
| "ovpn_udp_feeds ((rv, d) # ps) s =
     (case openvpnUDPStream_Feed rv d s of
        None \<Rightarrow> None
      | Some None \<Rightarrow> Some None
      | Some (Some (_, s)) \<Rightarrow> ovpn_udp_feeds ps s)"

abbreviation session_inv :: "bool \<Rightarrow> bool \<Rightarrow> openvpnUDPStream \<Rightarrow> bool" where
  "session_inv cl sv s \<equiv> resets_seen cl sv {} False s"

lemma session_feed:
  assumes "session_inv cl sv s"
  shows "\<exists>u dn s'. openvpnUDPStream_Feed rv d s = Some (Some ((u, dn), s'))
      \<and> session_inv (cl \<or> is_reset False (rv, d)) (sv \<or> is_reset True (rv, d)) s'"
proof (cases "d = []")
  case True
  with assms show ?thesis by (auto simp: openvpnUDPStream_Feed_def is_reset_def)
next
  case False
  let ?cl = "cl \<or> is_reset False (rv, d)" and ?sv = "sv \<or> is_reset True (rv, d)"
  let ?q = "s\<lparr>curPkt := Some d, ovpn_reqUpdated := False\<rparr>"
  let ?p = "s\<lparr>curPkt := Some d, ovpn_respUpdated := False\<rparr>"
  show ?thesis
  proof (cases rv)
    case True
    then have "resets_seen ?cl ?sv hardResetServer ?sv ?p"
      using assms False by (auto simp: resets_seen_def is_reset_def)
    from seen_resp.run_total [OF this] obtain c dn s' where
      r: "LinearStateMachine_Run ovpn_udp_exec ovpn_respLSM ovpn_respLSM_update ?p = Some (Some ((c, dn), s'))"
        "resets_seen ?cl ?sv hardResetServer ?sv s'"
      by metis
    with False True r show ?thesis
      by (simp add: openvpnUDPStream_Feed_def Let_def resets_seen_def)
  next
    case rv: False
    then have "resets_seen ?cl ?sv hardResetClient ?cl ?q"
      using assms False by (auto simp: resets_seen_def is_reset_def)
    from seen_req.run_total [OF this] obtain c dn s' where
      r: "LinearStateMachine_Run ovpn_udp_exec ovpn_reqLSM ovpn_reqLSM_update ?q = Some (Some ((c, dn), s'))"
        "resets_seen ?cl ?sv hardResetClient ?cl s'"
      by metis
    with False rv show ?thesis
      by (simp add: openvpnUDPStream_Feed_def Let_def resets_seen_def)
  qed
qed

lemma session_feeds:
  "session_inv cl sv s \<Longrightarrow> \<exists>s'. ovpn_udp_feeds ps s = Some (Some s')
     \<and> session_inv (cl \<or> list_ex (is_reset False) ps) (sv \<or> list_ex (is_reset True) ps) s'"
proof (induction ps arbitrary: s cl sv)
  case (Cons p ps)
  obtain rv d where p: "p = (rv, d)" by fastforce
  obtain u dn s1 where "openvpnUDPStream_Feed rv d s = Some (Some ((u, dn), s1))"
    "session_inv (cl \<or> is_reset False (rv, d)) (sv \<or> is_reset True (rv, d)) s1"
    using session_feed [OF Cons.prems] by blast
  then show ?case
    using Cons.IH [of "cl \<or> is_reset False (rv, d)" "sv \<or> is_reset True (rv, d)" s1] by (simp add: p disj_assoc)
qed simp

text \<open>
  Feeding any packets to a new OpenVPN UDP stream returns without a panic, and its counters
  leave zero only in a session: client packets are counted only if a client packet was a hard
  reset, server packets only if, besides, a server packet was.
\<close>

lemma openvpn_session_counts:
  "\<exists>s. ovpn_udp_feeds ps newOpenVPNUDPStream = Some (Some s)
     \<and> (rxPktCnt s = 0 \<or> list_ex (is_reset False) ps \<and> list_ex (is_reset True) ps)
     \<and> (txPktCnt s = 0 \<or> list_ex (is_reset False) ps)"
proof -
  have "session_inv False False newOpenVPNUDPStream"
    using ovpn_inv_new(1) by (simp add: resets_seen_def newOpenVPNUDPStream_def NewLinearStateMachine_def)
  from session_feeds [OF this, of ps] obtain s where
    "ovpn_udp_feeds ps newOpenVPNUDPStream = Some (Some s)"
    "session_inv (list_ex (is_reset False) ps) (list_ex (is_reset True) ps) s"
    by auto
  then show ?thesis
    by (auto simp: resets_seen_def ovpn_inv_def)
qed

end
