(* ===== verification/WireGuard.thy ===== *)
theory WireGuard
  imports Props
begin

text \<open>
  \<open>analyzer/udp/wireguard.go\<close>: the WireGuard analyzer. It remembers sender indexes in a ring of
  six nodes (\<open>container/ring\<close>), here the list of the nodes' values and the position of the current
  one. The specification of the ring is the history of the indexes put into it, newest first.
\<close>

definition wireguardUDPInvalidCountThreshold :: nat where "wireguardUDPInvalidCountThreshold = 4"
definition wireguardRememberedIndexCount :: nat where "wireguardRememberedIndexCount = 6"

definition WireGuardAnalyzer_Name :: string where "WireGuardAnalyzer_Name = ''wireguard''"
definition WireGuardAnalyzer_Limit :: int where "WireGuardAnalyzer_Limit = 0"

record wireGuardIndex =
  SenderIndex :: u32
  Reverse :: bool

record wireGuardUDPStream =
  wg_invalidCount :: nat
  wg_ring :: "wireGuardIndex option list"
  wg_pos :: nat

definition newWireGuardUDPStream :: wireGuardUDPStream where
  "newWireGuardUDPStream =
     \<lparr>wg_invalidCount = 0, wg_ring = replicate wireguardRememberedIndexCount None, wg_pos = 0\<rparr>"

text \<open>The positions \<open>Next()\<close> and \<open>Prev()\<close> move to.\<close>

definition ring_next :: "nat \<Rightarrow> nat \<Rightarrow> nat" where "ring_next n i = (i + 1) mod n"
definition ring_prev :: "nat \<Rightarrow> nat \<Rightarrow> nat" where "ring_prev n i = (i + (n - 1)) mod n"

definition wireGuardUDPStream_putSenderIndex :: "bool \<Rightarrow> u32 \<Rightarrow> wireGuardUDPStream \<Rightarrow> wireGuardUDPStream" where
  "wireGuardUDPStream_putSenderIndex rv senderIndex s =
     s\<lparr>wg_ring := (wg_ring s)[wg_pos s := Some \<lparr>SenderIndex = senderIndex, Reverse = rv\<rparr>],
       wg_pos := ring_prev (length (wg_ring s)) (wg_pos s)\<rparr>"

text \<open>
  \<open>for it := ris.Next(); it != ris; it = it.Next()\<close>: the values of the other nodes in the order of
  the ring, up to the first nil.
\<close>

definition ring_others :: "wireGuardUDPStream \<Rightarrow> wireGuardIndex option list" where
  "ring_others s =
     map (\<lambda>k. wg_ring s ! ((ring_next (length (wg_ring s)) ^^ k) (wg_pos s))) [1..<length (wg_ring s)]"

fun match_loop :: "bool \<Rightarrow> u32 \<Rightarrow> wireGuardIndex option list \<Rightarrow> bool" where
  "match_loop rv receiverIndex [] = False"
| "match_loop rv receiverIndex (None # its) = False"
| "match_loop rv receiverIndex (Some wgidx # its) =
     (if Reverse wgidx = (\<not> rv) \<and> SenderIndex wgidx = receiverIndex then True
      else match_loop rv receiverIndex its)"

definition wireGuardUDPStream_matchReceiverIndex :: "bool \<Rightarrow> u32 \<Rightarrow> wireGuardUDPStream \<Rightarrow> bool" where
  "wireGuardUDPStream_matchReceiverIndex rv receiverIndex s = match_loop rv receiverIndex (ring_others s)"

section \<open>Packets\<close>

definition le_u32_at :: "nat \<Rightarrow> bytes \<Rightarrow> u32" where
  "le_u32_at i d = le_u32 (d ! i) (d ! (i + 1)) (d ! (i + 2)) (d ! (i + 3))"

definition le_u64_at :: "nat \<Rightarrow> bytes \<Rightarrow> u64" where
  "le_u64_at i d = ucast (le_u32_at i d) OR push_bit 32 (ucast (le_u32_at (i + 4) d))"

type_synonym wg_parse = "bool \<Rightarrow> bytes \<Rightarrow> wireGuardUDPStream \<Rightarrow> PropMap option \<times> wireGuardUDPStream"

definition wireGuardUDPStream_parseWireGuardHandshakeInitiation :: wg_parse where
  "wireGuardUDPStream_parseWireGuardHandshakeInitiation rv data s =
     (if length data \<noteq> 148 then (None, s)
      else
        (let senderIndex = le_u32_at 4 data in
         (Some [''sender_index'' \<mapsto> PU32 senderIndex],
          wireGuardUDPStream_putSenderIndex rv senderIndex s)))"

definition wireGuardUDPStream_parseWireGuardHandshakeResponse :: wg_parse where
  "wireGuardUDPStream_parseWireGuardHandshakeResponse rv data s =
     (if length data \<noteq> 92 then (None, s)
      else
        (let senderIndex = le_u32_at 4 data;
             s = wireGuardUDPStream_putSenderIndex rv senderIndex s;
             receiverIndex = le_u32_at 8 data in
         (Some [''sender_index'' \<mapsto> PU32 senderIndex,
                ''receiver_index'' \<mapsto> PU32 receiverIndex,
                ''receiver_index_matched'' \<mapsto> PBool (wireGuardUDPStream_matchReceiverIndex rv receiverIndex s)],
          s)))"

definition wireGuardUDPStream_parseWireGuardPacketData :: wg_parse where
  "wireGuardUDPStream_parseWireGuardPacketData rv data s =
     (if length data < 32 then (None, s)
      else if length data mod 16 \<noteq> 0 then (None, s)
      else
        (let receiverIndex = le_u32_at 4 data in
         (Some [''receiver_index'' \<mapsto> PU32 receiverIndex,
                ''receiver_index_matched'' \<mapsto> PBool (wireGuardUDPStream_matchReceiverIndex rv receiverIndex s),
                ''counter'' \<mapsto> PU64 (le_u64_at 8 data)],
          s)))"

definition wireGuardUDPStream_parseWireGuardPacketCookieReply :: wg_parse where
  "wireGuardUDPStream_parseWireGuardPacketCookieReply rv data s =
     (if length data \<noteq> 64 then (None, s)
      else
        (let receiverIndex = le_u32_at 4 data in
         (Some [''receiver_index'' \<mapsto> PU32 receiverIndex,
                ''receiver_index_matched'' \<mapsto> PBool (wireGuardUDPStream_matchReceiverIndex rv receiverIndex s)],
          s)))"

definition wireGuardUDPStream_parseWireGuardPacket :: wg_parse where
  "wireGuardUDPStream_parseWireGuardPacket rv data s =
     (if length data < 4 then (None, s)
      else if data ! 1 \<noteq> 0 \<or> data ! 2 \<noteq> 0 \<or> data ! 3 \<noteq> 0 then (None, s)
      else
        (let messageType = data ! 0;
             (propKey, propValue, s) =
               (if messageType = 1 then
                  (''handshake_initiation'', wireGuardUDPStream_parseWireGuardHandshakeInitiation rv data s)
                else if messageType = 2 then
                  (''handshake_response'', wireGuardUDPStream_parseWireGuardHandshakeResponse rv data s)
                else if messageType = 4 then
                  (''packet_data'', wireGuardUDPStream_parseWireGuardPacketData rv data s)
                else if messageType = 3 then
                  (''packet_cookie_reply'', wireGuardUDPStream_parseWireGuardPacketCookieReply rv data s)
                else ('''', None, s)) in
         (case propValue of
            None \<Rightarrow> (None, s)
          | Some v \<Rightarrow> (Some [''message_type'' \<mapsto> PU8 messageType, propKey \<mapsto> PMap v], s))))"

definition wireGuardUDPStream_Feed ::
    "bool \<Rightarrow> bytes \<Rightarrow> wireGuardUDPStream \<Rightarrow> (PropUpdate option \<times> bool) \<times> wireGuardUDPStream" where
  "wireGuardUDPStream_Feed rv data s =
     (case wireGuardUDPStream_parseWireGuardPacket rv data s of
        (None, s) \<Rightarrow>
          (let s = s\<lparr>wg_invalidCount := wg_invalidCount s + 1\<rparr> in
           ((None, wireguardUDPInvalidCountThreshold \<le> wg_invalidCount s), s))
      | (Some m, s) \<Rightarrow>
          ((Some \<lparr>Type = (if m ''message_type'' = Some (PU8 1) then PropUpdateReplace else PropUpdateMerge),
                  M = m\<rparr>, False), s\<lparr>wg_invalidCount := 0\<rparr>))"

definition wireGuardUDPStream_Close :: "bool \<Rightarrow> PropUpdate option" where
  "wireGuardUDPStream_Close limited = None"

section \<open>The ring remembers\<close>

text \<open>
  \<open>ring_holds s hist\<close>: walking the ring from the node after the current one meets the history,
  newest first, then nils.
\<close>

definition ring_holds :: "wireGuardUDPStream \<Rightarrow> wireGuardIndex list \<Rightarrow> bool" where
  "ring_holds s hist \<longleftrightarrow> length (wg_ring s) = 6 \<and> wg_pos s < 6
     \<and> (\<forall>k < 6. wg_ring s ! ((wg_pos s + 1 + k) mod 6) = (if k < length hist then Some (hist ! k) else None))"

lemma ring_holds_new: "ring_holds newWireGuardUDPStream []"
  by (auto simp: ring_holds_def newWireGuardUDPStream_def wireguardRememberedIndexCount_def)

lemma ring_holds_put:
  assumes "ring_holds s hist"
  shows "ring_holds (wireGuardUDPStream_putSenderIndex rv i s) (\<lparr>SenderIndex = i, Reverse = rv\<rparr> # hist)"
proof -
  let ?p = "wg_pos s"
  have p: "?p < 6" and len: "length (wg_ring s) = 6"
    using assms by (simp_all add: ring_holds_def)
  have at: "wg_ring s ! ((?p + 1 + k) mod 6) = (if k < length hist then Some (hist ! k) else None)" if "k < 6" for k
    using assms that by (simp add: ring_holds_def)
  have prev: "((?p + 5) mod 6 + 1 + k) mod 6 = (?p + k) mod 6" for k
  proof -
    have "((?p + 5) mod 6 + (1 + k)) mod 6 = (?p + 5 + (1 + k)) mod 6"
      by (rule mod_add_left_eq)
    also have "?p + 5 + (1 + k) = (?p + k) + 6" by simp
    also have "(?p + k + 6) mod 6 = (?p + k) mod 6" by (rule mod_add_self2)
    finally show ?thesis by (simp only: add.assoc)
  qed
  have "(wg_ring s)[?p := Some x] ! ((?p + k) mod 6) = (if k < Suc (length hist) then Some ((x # hist) ! k) else None)"
    if "k < 6" for k x
  proof (cases k)
    case 0
    with p len show ?thesis by simp
  next
    case (Suc j)
    have "(?p + k) mod 6 \<noteq> ?p"
    proof (cases "?p + k < 6")
      case False
      then have "(?p + k) mod 6 = ?p + k - 6"
        using p that by (simp add: le_mod_geq)
      with False that show ?thesis by linarith
    qed (simp add: Suc)
    then show ?thesis
      using at [of j] that Suc by simp
  qed
  with p len show ?thesis
    by (simp add: ring_holds_def wireGuardUDPStream_putSenderIndex_def ring_prev_def prev [simplified])
qed

lemma ring_next_pow: "i < n \<Longrightarrow> (ring_next n ^^ k) i = (i + k) mod n"
  by (induction k) (simp_all add: ring_next_def mod_simps)

lemma ring_others_hist:
  assumes "ring_holds s hist"
  shows "ring_others s = map Some (take 5 hist) @ replicate (5 - length hist) None"
proof (rule nth_equalityI)
  show "length (ring_others s) = length (map Some (take 5 hist) @ replicate (5 - length hist) None)"
    using assms by (simp add: ring_others_def ring_holds_def)
next
  fix k
  assume "k < length (ring_others s)"
  then have k: "k < 5"
    using assms by (simp add: ring_others_def ring_holds_def)
  then have "ring_others s ! k = wg_ring s ! ((wg_pos s + 1 + k) mod 6)"
    using assms by (simp add: ring_others_def ring_holds_def ring_next_pow)
  then show "ring_others s ! k = (map Some (take 5 hist) @ replicate (5 - length hist) None) ! k"
    using assms k by (auto simp: ring_holds_def nth_append)
qed

lemma match_loop_hist:
  "match_loop rv i (map Some h @ replicate n None) \<longleftrightarrow> \<lparr>SenderIndex = i, Reverse = (\<not> rv)\<rparr> \<in> set h"
proof (induction h)
  case Nil
  then show ?case by (cases n) auto
next
  case (Cons x h)
  then show ?case by (cases x) auto
qed

text \<open>A receiver index matches if it is one of the last five sender indexes of the other side.\<close>

lemma match_last_five:
  assumes "ring_holds s hist"
  shows "wireGuardUDPStream_matchReceiverIndex rv i s \<longleftrightarrow>
           \<lparr>SenderIndex = i, Reverse = (\<not> rv)\<rparr> \<in> set (take 5 hist)"
  by (simp add: wireGuardUDPStream_matchReceiverIndex_def ring_others_hist [OF assms] match_loop_hist)

section \<open>Feeding\<close>

lemma wg_parse_ring:
  assumes "ring_holds s hist" "wireGuardUDPStream_parseWireGuardPacket rv data s = (r, s')"
  shows "(\<exists>hist'. ring_holds s' hist') \<and> wg_invalidCount s' = wg_invalidCount s"
  using assms ring_holds_put [OF assms(1)]
  by (auto simp: wireGuardUDPStream_parseWireGuardPacket_def
      wireGuardUDPStream_parseWireGuardHandshakeInitiation_def
      wireGuardUDPStream_parseWireGuardHandshakeResponse_def
      wireGuardUDPStream_parseWireGuardPacketData_def
      wireGuardUDPStream_parseWireGuardPacketCookieReply_def
      wireGuardUDPStream_putSenderIndex_def Let_def
      split: if_splits option.splits prod.splits)

text \<open>Packets that are not WireGuard's, counted until one is.\<close>

lemma wg_feed_cases:
  assumes "ring_holds s hist" "wireGuardUDPStream_Feed rv data s = ((u, dn), s')"
  shows "\<exists>hist'. ring_holds s' hist'"
    and "if u = None then wg_invalidCount s' = wg_invalidCount s + 1 \<and> (dn \<longleftrightarrow> 4 \<le> wg_invalidCount s')
         else wg_invalidCount s' = 0 \<and> \<not> dn"
proof -
  obtain r s1 where p: "wireGuardUDPStream_parseWireGuardPacket rv data s = (r, s1)"
    by fastforce
  note keep = wg_parse_ring [OF assms(1) p]
  then obtain h1 where "ring_holds s1 h1" by blast
  with assms(2) p show "\<exists>hist'. ring_holds s' hist'"
    by (cases r) (auto simp: wireGuardUDPStream_Feed_def Let_def ring_holds_def)
  from assms(2) p keep
  show "if u = None then wg_invalidCount s' = wg_invalidCount s + 1 \<and> (dn \<longleftrightarrow> 4 \<le> wg_invalidCount s')
         else wg_invalidCount s' = 0 \<and> \<not> dn"
    by (cases r) (auto simp: wireGuardUDPStream_Feed_def Let_def wireguardUDPInvalidCountThreshold_def)
qed

section \<open>Histories of packets\<close>

text \<open>
  The sender index a packet announces: it is a handshake initiation or response of the right size.
\<close>

definition wg_sent :: "bool \<times> bytes \<Rightarrow> wireGuardIndex list" where
  "wg_sent p =
     (let (rv, d) = p in
      if 4 \<le> length d \<and> d ! 1 = 0 \<and> d ! 2 = 0 \<and> d ! 3 = 0
         \<and> (d ! 0 = 1 \<and> length d = 148 \<or> d ! 0 = 2 \<and> length d = 92)
      then [\<lparr>SenderIndex = le_u32_at 4 d, Reverse = rv\<rparr>] else [])"

definition wg_fed :: "(bool \<times> bytes) list \<Rightarrow> wireGuardUDPStream" where
  "wg_fed ps = foldl (\<lambda>s (rv, d). snd (wireGuardUDPStream_Feed rv d s)) newWireGuardUDPStream ps"

text \<open>The sender indexes of a flow, newest first.\<close>

definition wg_senders :: "(bool \<times> bytes) list \<Rightarrow> wireGuardIndex list" where
  "wg_senders ps = concat (map wg_sent (List.rev ps))"

lemma wg_parse_history:
  assumes "ring_holds s hist"
  shows "ring_holds (snd (wireGuardUDPStream_parseWireGuardPacket rv d s)) (wg_sent (rv, d) @ hist)"
  using assms ring_holds_put [OF assms]
  by (auto simp: wireGuardUDPStream_parseWireGuardPacket_def wg_sent_def Let_def
      wireGuardUDPStream_parseWireGuardHandshakeInitiation_def
      wireGuardUDPStream_parseWireGuardHandshakeResponse_def
      wireGuardUDPStream_parseWireGuardPacketData_def
      wireGuardUDPStream_parseWireGuardPacketCookieReply_def split: option.splits)

lemma ring_holds_count: "ring_holds (s\<lparr>wg_invalidCount := n\<rparr>) hist \<longleftrightarrow> ring_holds s hist"
  by (simp add: ring_holds_def)

lemma wg_feed_history:
  assumes "ring_holds s hist"
  shows "ring_holds (snd (wireGuardUDPStream_Feed rv d s)) (wg_sent (rv, d) @ hist)"
  using wg_parse_history [OF assms, of rv d]
  by (auto simp: wireGuardUDPStream_Feed_def Let_def ring_holds_count split: prod.splits option.splits)

lemma wg_fed_history: "ring_holds (wg_fed ps) (wg_senders ps)"
proof (induction ps rule: rev_induct)
  case Nil
  then show ?case by (simp add: wg_fed_def wg_senders_def ring_holds_new)
next
  case (snoc p ps)
  then show ?case
    using wg_feed_history by (cases p) (simp add: wg_fed_def wg_senders_def)
qed

text \<open>
  C33. After any packets, a WireGuard data packet is published as matched iff its receiver index
  is among the five sender indexes announced last and was announced by the other side.
\<close>

theorem wireguard_data_matched:
  assumes "32 \<le> length d" "length d mod 16 = 0" "take 4 d = [4, 0, 0, 0]"
  shows "fst (wireGuardUDPStream_Feed rv d (wg_fed ps)) =
    (Some \<lparr>Type = PropUpdateMerge,
      M = [''message_type'' \<mapsto> PU8 4,
           ''packet_data'' \<mapsto> PMap
             [''receiver_index'' \<mapsto> PU32 (le_u32_at 4 d),
              ''receiver_index_matched'' \<mapsto>
                PBool (\<lparr>SenderIndex = le_u32_at 4 d, Reverse = (\<not> rv)\<rparr> \<in> set (take 5 (wg_senders ps))),
              ''counter'' \<mapsto> PU64 (le_u64_at 8 d)]]\<rparr>, False)"
proof -
  have "d ! i = take 4 d ! i" if "i < 4" for i
    using that assms(1) by simp
  from this [of 0] this [of 1] this [of 2] this [of 3]
  have "d ! 0 = 4" "d ! 1 = 0" "d ! 2 = 0" "d ! 3 = 0"
    using assms(3) by simp_all
  then show ?thesis
    using assms(1,2) match_last_five [OF wg_fed_history [of ps]]
    by (simp add: wireGuardUDPStream_Feed_def wireGuardUDPStream_parseWireGuardPacket_def
        wireGuardUDPStream_parseWireGuardPacketData_def Let_def)
qed

text \<open>Two handshake packets and a data packet that answers the first.\<close>

definition wg_flow_example :: "(bool \<times> bytes) list" where
  "wg_flow_example =
     [(False, [1, 0, 0, 0, 7, 0, 0, 0] @ replicate 140 0), (True, [2, 0, 0, 0, 9, 0, 0, 0, 7, 0, 0, 0] @ replicate 80 0)]"

theorem wireguard_data_matched_witness:
  "fst (wireGuardUDPStream_Feed True ([4, 0, 0, 0, 7] @ replicate 27 0) (wg_fed wg_flow_example)) =
    (Some \<lparr>Type = PropUpdateMerge,
      M = [''message_type'' \<mapsto> PU8 4,
           ''packet_data'' \<mapsto> PMap
             [''receiver_index'' \<mapsto> PU32 7, ''receiver_index_matched'' \<mapsto> PBool True,
              ''counter'' \<mapsto> PU64 0]]\<rparr>, False)"
  using wireguard_data_matched [of "[4, 0, 0, 0, 7] @ replicate 27 0" True wg_flow_example]
  by (simp add: wg_flow_example_def wg_senders_def wg_sent_def le_u32_at_def le_u64_at_def le_u32_def)

text \<open>
  A packet that is not WireGuard's is counted and the fourth in a row ends the analysis; a
  WireGuard packet resets the count.
\<close>

lemma wireguard_invalid_count:
  assumes "wireGuardUDPStream_Feed rv d (wg_fed ps) = ((u, dn), s')"
  shows "(u = None \<and> wg_invalidCount s' = wg_invalidCount (wg_fed ps) + 1 \<and> (dn \<longleftrightarrow> 4 \<le> wg_invalidCount s'))
       \<or> (u \<noteq> None \<and> wg_invalidCount s' = 0 \<and> \<not> dn)"
  using wg_feed_cases(2) [OF wg_fed_history assms] by (cases u) auto

theorem wireguard_invalid_count_witness:
  "\<exists>s'. wireGuardUDPStream_Feed False [9] (wg_fed []) = ((None, False), s') \<and> wg_invalidCount s' = 1"
proof -
  have "wireGuardUDPStream_Feed False [9] (wg_fed []) = ((None, False), newWireGuardUDPStream\<lparr>wg_invalidCount := 1\<rparr>)"
    by (simp add: wireGuardUDPStream_Feed_def wireGuardUDPStream_parseWireGuardPacket_def wg_fed_def
        newWireGuardUDPStream_def wireguardUDPInvalidCountThreshold_def)
  from wireguard_invalid_count [OF this] this show ?thesis by simp
qed

end
