(* ===== verification/UDPFlow.thy ===== *)
theory UDPFlow
  imports GoFloat Props
begin

text \<open>
  \<open>analyzer/udp/udpflow.go\<close>: the flow statistics analyzer. Times are nanoseconds; the clock is the
  argument \<open>now\<close> of \<open>Feed\<close>, and the clock of Go is monotonic, so durations are not negative. A zero
  \<open>started\<close> time is \<open>None\<close>. Floats are the rounded quotients of \<open>GoFloat\<close>.
\<close>

definition UDPFlowAnalyzer_Name :: string where "UDPFlowAnalyzer_Name = ''udpflow''"
definition UDPFlowAnalyzer_Limit :: int where "UDPFlowAnalyzer_Limit = 0"

definition udpFlowLongLivedThreshold :: int where "udpFlowLongLivedThreshold = 30 * 1000000000"

record udpFlowStream =
  flow_srcPort :: u16
  flow_dstPort :: u16
  started :: "int option"
  lastSeen :: int
  packetCount :: nat
  txPacketCount :: nat
  rxPacketCount :: nat
  firstPacketLen :: nat
  minPacketLen :: nat
  maxPacketLen :: nat
  totalBytes :: nat
  txBytes :: nat
  rxBytes :: nat
  lenBuckets :: "nat list"
  firstLens :: "nat list"
  firstTXLen :: nat
  firstRXLen :: nat
  lastDirection :: nat
  currentRun :: nat
  maxRun :: nat
  directionTurns :: nat

definition UDPFlowAnalyzer_NewUDP :: "u16 \<Rightarrow> u16 \<Rightarrow> udpFlowStream" where
  "UDPFlowAnalyzer_NewUDP src dst =
     \<lparr>flow_srcPort = src, flow_dstPort = dst, started = None, lastSeen = 0, packetCount = 0,
      txPacketCount = 0, rxPacketCount = 0, firstPacketLen = 0, minPacketLen = 0, maxPacketLen = 0,
      totalBytes = 0, txBytes = 0, rxBytes = 0, lenBuckets = replicate 8 0, firstLens = replicate 4 0,
      firstTXLen = 0, firstRXLen = 0, lastDirection = 0, currentRun = 0, maxRun = 0, directionTurns = 0\<rparr>"

definition udpFlowLenBucket :: "nat \<Rightarrow> nat" where
  "udpFlowLenBucket packetLen =
     (if packetLen \<le> 0 then 0 else if packetLen \<le> 64 then 1 else if packetLen \<le> 128 then 2
      else if packetLen \<le> 256 then 3 else if packetLen \<le> 512 then 4 else if packetLen \<le> 1024 then 5
      else if packetLen \<le> 1200 then 6 else 7)"

definition udpFlowRatio :: "nat \<Rightarrow> nat \<Rightarrow> rat" where
  "udpFlowRatio cnt tot = (if tot \<le> 0 then 0 else fdiv 53 (int cnt) (int tot))"

definition udpFlowStream_updateDirectionRun :: "bool \<Rightarrow> udpFlowStream \<Rightarrow> udpFlowStream" where
  "udpFlowStream_updateDirectionRun rv s =
     (let direction = (if rv then 2 else 1) in
      if lastDirection s = 0 then s\<lparr>currentRun := 1, maxRun := 1, lastDirection := direction\<rparr>
      else
        (let s = (if lastDirection s = direction then s\<lparr>currentRun := currentRun s + 1\<rparr>
                  else s\<lparr>directionTurns := directionTurns s + 1, currentRun := 1, lastDirection := direction\<rparr>) in
         if maxRun s < currentRun s then s\<lparr>maxRun := currentRun s\<rparr> else s))"

definition udpFlowStream_duration :: "int \<Rightarrow> udpFlowStream \<Rightarrow> int" where
  "udpFlowStream_duration now s = (case started s of None \<Rightarrow> 0 | Some t \<Rightarrow> now - t)"

text \<open>\<open>Duration.Seconds\<close>: whole seconds plus the rest, both as \<open>float64\<close>.\<close>

definition duration_Seconds :: "int \<Rightarrow> rat" where
  "duration_Seconds d =
     float64 (float64 (of_int (d div 1000000000)) + fdiv 53 (d mod 1000000000) 1000000000)"

definition udpFlowStream_propMap :: "int \<Rightarrow> udpFlowStream \<Rightarrow> PropMap" where
  "udpFlowStream_propMap now s =
     (let n = packetCount s; bucket = (\<lambda>i. lenBuckets s ! i); int_of = (\<lambda>k. PInt (int k));
          avgLen = (if 0 < n then fdiv 53 (int (totalBytes s)) (int n) else 0);
          durationSeconds = duration_Seconds (udpFlowStream_duration now s);
          packetRate = (if 0 < durationSeconds then float64 (float64 (of_nat n) / durationSeconds) else 0);
          byteRate = (if 0 < durationSeconds
                      then float64 (float64 (of_nat (totalBytes s)) / durationSeconds) else 0);
          largePackets = (if 0 < n then bucket 6 + bucket 7 else 0);
          smallPackets = (if 0 < n then bucket 1 + bucket 2 else 0);
          largePacketRatio = (if 0 < n then fdiv 53 (int largePackets) (int n) else 0);
          smallPacketRatio = (if 0 < n then fdiv 53 (int smallPackets) (int n) else 0);
          txPacketRatio = (if 0 < n then fdiv 53 (int (txPacketCount s)) (int n) else 0);
          rxPacketRatio = (if 0 < n then fdiv 53 (int (rxPacketCount s)) (int n) else 0);
          txByteRatio = (if 0 < totalBytes s then fdiv 53 (int (txBytes s)) (int (totalBytes s)) else 0);
          rxByteRatio = (if 0 < totalBytes s then fdiv 53 (int (rxBytes s)) (int (totalBytes s)) else 0) in
      [''src_port'' \<mapsto> PU16 (flow_srcPort s),
       ''dst_port'' \<mapsto> PU16 (flow_dstPort s),
       ''packet_count'' \<mapsto> int_of n,
       ''tx_packet_count'' \<mapsto> int_of (txPacketCount s),
       ''rx_packet_count'' \<mapsto> int_of (rxPacketCount s),
       ''tx_packet_ratio'' \<mapsto> PFloat txPacketRatio,
       ''rx_packet_ratio'' \<mapsto> PFloat rxPacketRatio,
       ''first_packet_len'' \<mapsto> int_of (firstPacketLen s),
       ''second_packet_len'' \<mapsto> int_of (firstLens s ! 1),
       ''third_packet_len'' \<mapsto> int_of (firstLens s ! 2),
       ''fourth_packet_len'' \<mapsto> int_of (firstLens s ! 3),
       ''first_tx_packet_len'' \<mapsto> int_of (firstTXLen s),
       ''first_rx_packet_len'' \<mapsto> int_of (firstRXLen s),
       ''min_packet_len'' \<mapsto> int_of (minPacketLen s),
       ''max_packet_len'' \<mapsto> int_of (maxPacketLen s),
       ''avg_packet_len'' \<mapsto> PFloat avgLen,
       ''tx_bytes'' \<mapsto> int_of (txBytes s),
       ''rx_bytes'' \<mapsto> int_of (rxBytes s),
       ''total_bytes'' \<mapsto> int_of (totalBytes s),
       ''tx_byte_ratio'' \<mapsto> PFloat txByteRatio,
       ''rx_byte_ratio'' \<mapsto> PFloat rxByteRatio,
       ''duration_seconds'' \<mapsto> PFloat durationSeconds,
       ''packet_rate'' \<mapsto> PFloat packetRate,
       ''byte_rate'' \<mapsto> PFloat byteRate,
       ''long_lived'' \<mapsto> PBool (udpFlowLongLivedThreshold \<le> udpFlowStream_duration now s),
       ''bidirectional'' \<mapsto> PBool (0 < txPacketCount s \<and> 0 < rxPacketCount s),
       ''large_packet_count'' \<mapsto> int_of largePackets,
       ''large_packet_ratio'' \<mapsto> PFloat largePacketRatio,
       ''small_packet_count'' \<mapsto> int_of smallPackets,
       ''small_packet_ratio'' \<mapsto> PFloat smallPacketRatio,
       ''direction_change_count'' \<mapsto> int_of (directionTurns s),
       ''max_same_direction_run'' \<mapsto> int_of (maxRun s),
       ''tx_dominant'' \<mapsto> PBool (float64 (80/100) \<le> txPacketRatio),
       ''rx_dominant'' \<mapsto> PBool (float64 (80/100) \<le> rxPacketRatio),
       ''balanced_directions'' \<mapsto>
         PBool (float64 (20/100) \<le> txPacketRatio \<and> float64 (20/100) \<le> rxPacketRatio),
       ''len_bucket_empty_count'' \<mapsto> int_of (bucket 0),
       ''len_bucket_le64_count'' \<mapsto> int_of (bucket 1),
       ''len_bucket_le128_count'' \<mapsto> int_of (bucket 2),
       ''len_bucket_le256_count'' \<mapsto> int_of (bucket 3),
       ''len_bucket_le512_count'' \<mapsto> int_of (bucket 4),
       ''len_bucket_le1024_count'' \<mapsto> int_of (bucket 5),
       ''len_bucket_le1200_count'' \<mapsto> int_of (bucket 6),
       ''len_bucket_gt1200_count'' \<mapsto> int_of (bucket 7),
       ''len_bucket_empty_ratio'' \<mapsto> PFloat (udpFlowRatio (bucket 0) n),
       ''len_bucket_le64_ratio'' \<mapsto> PFloat (udpFlowRatio (bucket 1) n),
       ''len_bucket_le128_ratio'' \<mapsto> PFloat (udpFlowRatio (bucket 2) n),
       ''len_bucket_le256_ratio'' \<mapsto> PFloat (udpFlowRatio (bucket 3) n),
       ''len_bucket_le512_ratio'' \<mapsto> PFloat (udpFlowRatio (bucket 4) n),
       ''len_bucket_le1024_ratio'' \<mapsto> PFloat (udpFlowRatio (bucket 5) n),
       ''len_bucket_le1200_ratio'' \<mapsto> PFloat (udpFlowRatio (bucket 6) n),
       ''len_bucket_gt1200_ratio'' \<mapsto> PFloat (udpFlowRatio (bucket 7) n),
       ''udp443'' \<mapsto> PBool (flow_dstPort s = 443)])"

text \<open>
  The counters after one packet of length \<open>len\<close>. The code assigns them one after the other; every
  assignment but those under the new packet count reads only its own field, so they are one update.
\<close>

definition udpFlowStream_count :: "int \<Rightarrow> bool \<Rightarrow> nat \<Rightarrow> udpFlowStream \<Rightarrow> udpFlowStream" where
  "udpFlowStream_count now rv len s =
     (let n = packetCount s + 1; b = udpFlowLenBucket len in
      (udpFlowStream_updateDirectionRun rv s)
       \<lparr>started := (if packetCount s = 0 then Some now else started s),
        firstPacketLen := (if packetCount s = 0 then len else firstPacketLen s),
        lastSeen := now,
        packetCount := n,
        rxPacketCount := (if rv then rxPacketCount s + 1 else rxPacketCount s),
        txPacketCount := (if rv then txPacketCount s else txPacketCount s + 1),
        firstLens := (if n \<le> length (firstLens s) then (firstLens s)[n - 1 := len] else firstLens s),
        firstRXLen := (if rv \<and> firstRXLen s = 0 then len else firstRXLen s),
        firstTXLen := (if \<not> rv \<and> firstTXLen s = 0 then len else firstTXLen s),
        totalBytes := totalBytes s + len,
        rxBytes := (if rv then rxBytes s + len else rxBytes s),
        txBytes := (if rv then txBytes s else txBytes s + len),
        minPacketLen := (if minPacketLen s = 0 \<or> len < minPacketLen s then len else minPacketLen s),
        maxPacketLen := (if maxPacketLen s < len then len else maxPacketLen s),
        lenBuckets := (lenBuckets s)[b := lenBuckets s ! b + 1]\<rparr>)"

definition udpFlowStream_Feed ::
    "int \<Rightarrow> bool \<Rightarrow> bytes \<Rightarrow> udpFlowStream \<Rightarrow> (PropUpdate option \<times> bool) \<times> udpFlowStream" where
  "udpFlowStream_Feed now rv data s =
     (let s = udpFlowStream_count now rv (length data) s in
      ((Some \<lparr>Type = PropUpdateMerge, M = udpFlowStream_propMap now s\<rparr>, False), s))"

definition udpFlowStream_Close :: "bool \<Rightarrow> PropUpdate option" where
  "udpFlowStream_Close limited = None"

section \<open>The counters count\<close>

text \<open>The packets of a flow: time, direction, length.\<close>

type_synonym flow_history = "(int \<times> bool \<times> nat) list"

definition flow_after :: "u16 \<Rightarrow> u16 \<Rightarrow> flow_history \<Rightarrow> udpFlowStream" where
  "flow_after src dst h = foldl (\<lambda>s (t, rv, n). udpFlowStream_count t rv n s) (UDPFlowAnalyzer_NewUDP src dst) h"

definition dirs :: "flow_history \<Rightarrow> bool list" where
  "dirs h = map (\<lambda>(t, rv, n). rv) h"

definition lens :: "flow_history \<Rightarrow> nat list" where
  "lens h = map (\<lambda>(t, rv, n). n) h"

text \<open>The lengths of the packets of one direction, and the number of packets whose length is as said.\<close>

definition lens_of :: "bool \<Rightarrow> flow_history \<Rightarrow> nat list" where
  "lens_of rv h = map (\<lambda>(t, r, n). n) (filter (\<lambda>(t, r, n). r = rv) h)"

definition count_lens :: "(nat \<Rightarrow> bool) \<Rightarrow> flow_history \<Rightarrow> nat" where
  "count_lens P h = length (filter P (lens h))"

fun dir_changes :: "bool list \<Rightarrow> nat" where
  "dir_changes (a # b # ds) = (if a \<noteq> b then 1 else 0) + dir_changes (b # ds)"
| "dir_changes _ = 0"

lemma flow_after_snoc:
  "flow_after src dst (h @ [(t, rv, n)]) = udpFlowStream_count t rv n (flow_after src dst h)"
  by (simp add: flow_after_def)

lemma dir_changes_snoc:
  "dir_changes (ds @ [a]) = dir_changes ds + (if ds \<noteq> [] \<and> last ds \<noteq> a then 1 else 0)"
  by (induction ds rule: dir_changes.induct) auto

lemma bucket_range:
  "udpFlowLenBucket n = 0 \<longleftrightarrow> n = 0" "udpFlowLenBucket n = 1 \<longleftrightarrow> 1 \<le> n \<and> n \<le> 64"
  "udpFlowLenBucket n = 2 \<longleftrightarrow> 65 \<le> n \<and> n \<le> 128" "udpFlowLenBucket n = 3 \<longleftrightarrow> 129 \<le> n \<and> n \<le> 256"
  "udpFlowLenBucket n = 4 \<longleftrightarrow> 257 \<le> n \<and> n \<le> 512" "udpFlowLenBucket n = 5 \<longleftrightarrow> 513 \<le> n \<and> n \<le> 1024"
  "udpFlowLenBucket n = 6 \<longleftrightarrow> 1025 \<le> n \<and> n \<le> 1200" "udpFlowLenBucket n = 7 \<longleftrightarrow> 1200 < n"
  by (auto simp: udpFlowLenBucket_def)

lemma bucket_less: "udpFlowLenBucket n < 8"
  by (simp add: udpFlowLenBucket_def)

lemma updateDirectionRun_simps:
  "packetCount (udpFlowStream_updateDirectionRun rv s) = packetCount s"
  "lastDirection (udpFlowStream_updateDirectionRun rv s) = (if rv then 2 else 1)"
  "directionTurns (udpFlowStream_updateDirectionRun rv s) =
     (if lastDirection s \<noteq> 0 \<and> lastDirection s \<noteq> (if rv then 2 else 1) then directionTurns s + 1
      else directionTurns s)"
  by (auto simp: udpFlowStream_updateDirectionRun_def Let_def)

text \<open>What the counters say of the history.\<close>

definition flow_counts :: "flow_history \<Rightarrow> udpFlowStream \<Rightarrow> bool" where
  "flow_counts h s \<longleftrightarrow>
     packetCount s = length h
     \<and> txPacketCount s = length (filter Not (dirs h)) \<and> rxPacketCount s = length (filter id (dirs h))
     \<and> totalBytes s = sum_list (lens h) \<and> txBytes s = sum_list (lens_of False h) \<and> rxBytes s = sum_list (lens_of True h)
     \<and> firstPacketLen s = (if h = [] then 0 else hd (lens h))
     \<and> maxPacketLen s = fold max (lens h) 0
     \<and> directionTurns s = dir_changes (dirs h)
     \<and> lastDirection s = (if h = [] then 0 else if last (dirs h) then 2 else 1)
     \<and> length (lenBuckets s) = 8
     \<and> (\<forall>i < 8. lenBuckets s ! i = length (filter (\<lambda>n. udpFlowLenBucket n = i) (lens h)))
     \<and> length (firstLens s) = 4
     \<and> (\<forall>i < 4. firstLens s ! i = (if i < length h then lens h ! i else 0))"

lemma flow_counts_new: "flow_counts [] (UDPFlowAnalyzer_NewUDP src dst)"
  by (auto simp: flow_counts_def UDPFlowAnalyzer_NewUDP_def dirs_def lens_def lens_of_def less_Suc_eq numeral_eq_Suc)

lemma flow_counts_step:
  assumes "flow_counts h s"
  shows "flow_counts (h @ [(t, rv, n)]) (udpFlowStream_count t rv n s)"
proof -
  have d: "dirs (h @ [(t, rv, n)]) = dirs h @ [rv]" and l: "lens (h @ [(t, rv, n)]) = lens h @ [n]"
    and len: "length (lens h) = length h" "(dirs h = []) = (h = [])" "lens [] = []" "h \<noteq> [] \<Longrightarrow> lens h \<noteq> []"
    and lo: "lens_of b (h @ [(t, rv, n)]) = lens_of b h @ (if rv = b then [n] else [])" for b
    by (simp_all add: dirs_def lens_def lens_of_def)
  have m: "max n k = (if k < n then n else k)" for k
    by auto
  show ?thesis
    using assms bucket_less [of n]
    unfolding flow_counts_def d l lo udpFlowStream_count_def Let_def
    by (simp add: updateDirectionRun_simps dir_changes_snoc len m nth_list_update nth_append less_Suc_eq)
qed

lemma flow_counts_after: "flow_counts h (flow_after src dst h)"
proof (induction h rule: rev_induct)
  case Nil
  then show ?case by (simp add: flow_after_def flow_counts_new)
next
  case (snoc x xs)
  then show ?case
    by (cases x) (simp add: flow_after_snoc flow_counts_step)
qed

section \<open>Dominance\<close>

text \<open>The \<open>float64\<close> comparisons decide as exact arithmetic does, up to 2 to the 45 packets.\<close>

lemma ratio_le:
  assumes "0 < n" "k \<le> n" "n < 2 ^ 45" "0 < b" "b \<le> 100" "a \<le> b"
  shows "float64 (of_int (int a) / of_int (int b)) \<le> fdiv 53 (int k) (int n) \<longleftrightarrow> a * n \<le> b * k"
proof -
  have small: "int k * int b + int a * int n < 2 ^ 53" 
  proof -
    have "k * b \<le> n * 100" "a * n \<le> 100 * n"
      using assms by (auto intro: mult_le_mono)
    then have "k * b + a * n \<le> 200 * n" by linarith
    also have "\<dots> < 2 ^ 53 + 0"
      using assms(3) by simp
    finally show ?thesis
      by (metis add.right_neutral of_nat_add of_nat_less_iff of_nat_mult of_nat_numeral of_nat_power)
  qed
  have "fdiv 53 (int k) (int n) = float64 (of_int (int k) / of_int (int n))"
    using assms by (intro fdiv_exact) auto
  moreover have "float64 (of_int (int k) / of_int (int n)) < float64 (of_int (int a) / of_int (int b)) \<longleftrightarrow>
      int k * int b < int a * int n"
    using assms small by (intro fl_quot_less_iff) auto
  ultimately show ?thesis
    by (simp add: not_less [symmetric] mult.commute flip: of_nat_mult)
qed

section \<open>What a flow publishes\<close>

text \<open>The packets of a flow with their bytes, fed one after the other.\<close>

definition flow_fed :: "u16 \<Rightarrow> u16 \<Rightarrow> (int \<times> bool \<times> bytes) list \<Rightarrow> udpFlowStream" where
  "flow_fed src dst h = foldl (\<lambda>s (t, rv, d). snd (udpFlowStream_Feed t rv d s)) (UDPFlowAnalyzer_NewUDP src dst) h"

definition history_of :: "(int \<times> bool \<times> bytes) list \<Rightarrow> flow_history" where
  "history_of h = map (\<lambda>(t, rv, d). (t, rv, length d)) h"

lemma flow_fed_snoc:
  "flow_fed src dst (h @ [(t, rv, d)]) = snd (udpFlowStream_Feed t rv d (flow_fed src dst h))"
  by (simp add: flow_fed_def)

lemma flow_fed_after: "flow_fed src dst h = flow_after src dst (history_of h)"
proof (induction h rule: rev_induct)
  case Nil
  then show ?case by (simp add: flow_fed_def flow_after_def history_of_def)
next
  case (snoc x h)
  then show ?case
    by (cases x) (simp add: flow_fed_snoc history_of_def flow_after_snoc udpFlowStream_Feed_def Let_def)
qed

lemma length_history_of [simp]: "length (history_of h) = length h"
  by (simp add: history_of_def)

text \<open>What the map of a packet says, whatever the counters are.\<close>

lemma propMap_counts:
  "udpFlowStream_propMap now s ''packet_count'' = Some (PInt (int (packetCount s)))"
  "udpFlowStream_propMap now s ''tx_packet_count'' = Some (PInt (int (txPacketCount s)))"
  "udpFlowStream_propMap now s ''rx_packet_count'' = Some (PInt (int (rxPacketCount s)))"
  "udpFlowStream_propMap now s ''total_bytes'' = Some (PInt (int (totalBytes s)))"
  "udpFlowStream_propMap now s ''tx_bytes'' = Some (PInt (int (txBytes s)))"
  "udpFlowStream_propMap now s ''rx_bytes'' = Some (PInt (int (rxBytes s)))"
  "udpFlowStream_propMap now s ''max_packet_len'' = Some (PInt (int (maxPacketLen s)))"
  "udpFlowStream_propMap now s ''direction_change_count'' = Some (PInt (int (directionTurns s)))"
  "udpFlowStream_propMap now s ''first_packet_len'' = Some (PInt (int (firstPacketLen s)))"
  "udpFlowStream_propMap now s ''second_packet_len'' = Some (PInt (int (firstLens s ! 1)))"
  "udpFlowStream_propMap now s ''third_packet_len'' = Some (PInt (int (firstLens s ! 2)))"
  "udpFlowStream_propMap now s ''fourth_packet_len'' = Some (PInt (int (firstLens s ! 3)))"
  by (simp_all add: udpFlowStream_propMap_def Let_def)

lemma propMap_buckets:
  "udpFlowStream_propMap now s ''len_bucket_empty_count'' = Some (PInt (int (lenBuckets s ! 0)))"
  "udpFlowStream_propMap now s ''len_bucket_le64_count'' = Some (PInt (int (lenBuckets s ! 1)))"
  "udpFlowStream_propMap now s ''len_bucket_le128_count'' = Some (PInt (int (lenBuckets s ! 2)))"
  "udpFlowStream_propMap now s ''len_bucket_le256_count'' = Some (PInt (int (lenBuckets s ! 3)))"
  "udpFlowStream_propMap now s ''len_bucket_le512_count'' = Some (PInt (int (lenBuckets s ! 4)))"
  "udpFlowStream_propMap now s ''len_bucket_le1024_count'' = Some (PInt (int (lenBuckets s ! 5)))"
  "udpFlowStream_propMap now s ''len_bucket_le1200_count'' = Some (PInt (int (lenBuckets s ! 6)))"
  "udpFlowStream_propMap now s ''len_bucket_gt1200_count'' = Some (PInt (int (lenBuckets s ! 7)))"
  by (simp_all add: udpFlowStream_propMap_def Let_def)

lemma propMap_dominance:
  "0 < packetCount s \<Longrightarrow> udpFlowStream_propMap now s ''tx_dominant'' =
     Some (PBool (float64 (80/100) \<le> fdiv 53 (int (txPacketCount s)) (int (packetCount s))))"
  "0 < packetCount s \<Longrightarrow> udpFlowStream_propMap now s ''rx_dominant'' =
     Some (PBool (float64 (80/100) \<le> fdiv 53 (int (rxPacketCount s)) (int (packetCount s))))"
  by (simp_all add: udpFlowStream_propMap_def Let_def)

lemma counted_buckets:
  assumes "flow_counts h s"
  shows "lenBuckets s ! 0 = count_lens (\<lambda>n. n = 0) h" "lenBuckets s ! 1 = count_lens (\<lambda>n. 1 \<le> n \<and> n \<le> 64) h"
    "lenBuckets s ! 2 = count_lens (\<lambda>n. 65 \<le> n \<and> n \<le> 128) h" "lenBuckets s ! 3 = count_lens (\<lambda>n. 129 \<le> n \<and> n \<le> 256) h"
    "lenBuckets s ! 4 = count_lens (\<lambda>n. 257 \<le> n \<and> n \<le> 512) h" "lenBuckets s ! 5 = count_lens (\<lambda>n. 513 \<le> n \<and> n \<le> 1024) h"
    "lenBuckets s ! 6 = count_lens (\<lambda>n. 1025 \<le> n \<and> n \<le> 1200) h" "lenBuckets s ! 7 = count_lens (\<lambda>n. 1200 < n) h"
proof -
  have *: "lenBuckets s ! i = length (filter (\<lambda>n. udpFlowLenBucket n = i) (lens h))" if "i < 8" for i
    using assms that by (simp add: flow_counts_def)
  show "lenBuckets s ! 0 = count_lens (\<lambda>n. n = 0) h" "lenBuckets s ! 1 = count_lens (\<lambda>n. 1 \<le> n \<and> n \<le> 64) h"
    "lenBuckets s ! 2 = count_lens (\<lambda>n. 65 \<le> n \<and> n \<le> 128) h" "lenBuckets s ! 3 = count_lens (\<lambda>n. 129 \<le> n \<and> n \<le> 256) h"
    "lenBuckets s ! 4 = count_lens (\<lambda>n. 257 \<le> n \<and> n \<le> 512) h" "lenBuckets s ! 5 = count_lens (\<lambda>n. 513 \<le> n \<and> n \<le> 1024) h"
    "lenBuckets s ! 6 = count_lens (\<lambda>n. 1025 \<le> n \<and> n \<le> 1200) h" "lenBuckets s ! 7 = count_lens (\<lambda>n. 1200 < n) h"
    using * [of 0, simplified bucket_range] * [of 1, simplified bucket_range] * [of 2, simplified bucket_range]
      * [of 3, simplified bucket_range] * [of 4, simplified bucket_range] * [of 5, simplified bucket_range]
      * [of 6, simplified bucket_range] * [of 7, simplified bucket_range]
    unfolding count_lens_def by simp_all
qed

lemma dominance:
  assumes "flow_counts h s" "h \<noteq> []" "length h < 2 ^ 45"
  shows "udpFlowStream_propMap now s ''tx_dominant'' = Some (PBool (4 * length h \<le> 5 * length (filter Not (dirs h))))"
    and "udpFlowStream_propMap now s ''rx_dominant'' = Some (PBool (4 * length h \<le> 5 * length (filter id (dirs h))))"
proof -
  have "length (filter P (dirs h)) \<le> length h" for P
    using length_filter_le [of P "dirs h"] by (simp add: dirs_def)
  then have "float64 (80 / 100) \<le> fdiv 53 (int (length (filter P (dirs h)))) (int (length h))
      \<longleftrightarrow> 4 * length h \<le> 5 * length (filter P (dirs h))" for P
    using ratio_le [of "length h" "length (filter P (dirs h))" 100 80] assms(2,3) by auto
  moreover have "packetCount s = length h" "txPacketCount s = length (filter Not (dirs h))"
    "rxPacketCount s = length (filter id (dirs h))"
    using assms(1) by (simp_all add: flow_counts_def)
  ultimately show "udpFlowStream_propMap now s ''tx_dominant'' = Some (PBool (4 * length h \<le> 5 * length (filter Not (dirs h))))"
    "udpFlowStream_propMap now s ''rx_dominant'' = Some (PBool (4 * length h \<le> 5 * length (filter id (dirs h))))"
    using propMap_dominance [of s now] assms(2) by simp_all
qed

text \<open>
  C34.
\<close>

text \<open>
  C34. Every packet of a UDP flow publishes the packets and bytes of the flow so far, in all and
  by direction, the greatest length, the changes of direction, the first four lengths and the
  eight counts of lengths by range. Below 2 to the 45 packets, tx_dominant (rx_dominant), a
  comparison of float64 quotients, holds iff at least four fifths of the packets are the client's
  (the server's).
\<close>

theorem udpflow_published:
  assumes hist: "hist = history_of (h @ [(now, rv, d)])"
  shows "\<exists>m. fst (udpFlowStream_Feed now rv d (flow_fed src dst h)) = (Some \<lparr>Type = PropUpdateMerge, M = m\<rparr>, False)
    \<and> m ''packet_count'' = Some (PInt (int (length hist)))
    \<and> m ''tx_packet_count'' = Some (PInt (int (length (filter Not (dirs hist)))))
    \<and> m ''rx_packet_count'' = Some (PInt (int (length (filter id (dirs hist)))))
    \<and> m ''total_bytes'' = Some (PInt (int (sum_list (lens hist))))
    \<and> m ''tx_bytes'' = Some (PInt (int (sum_list (lens_of False hist))))
    \<and> m ''rx_bytes'' = Some (PInt (int (sum_list (lens_of True hist))))
    \<and> m ''max_packet_len'' = Some (PInt (int (Max (set (lens hist)))))
    \<and> m ''direction_change_count'' = Some (PInt (int (dir_changes (dirs hist))))
    \<and> m ''first_packet_len'' = Some (PInt (int (hd (lens hist))))
    \<and> m ''second_packet_len'' = Some (PInt (if 1 < length hist then int (lens hist ! 1) else 0))
    \<and> m ''third_packet_len'' = Some (PInt (if 2 < length hist then int (lens hist ! 2) else 0))
    \<and> m ''fourth_packet_len'' = Some (PInt (if 3 < length hist then int (lens hist ! 3) else 0))
    \<and> m ''len_bucket_empty_count'' = Some (PInt (int (count_lens (\<lambda>n. n = 0) hist)))
    \<and> m ''len_bucket_le64_count'' = Some (PInt (int (count_lens (\<lambda>n. 1 \<le> n \<and> n \<le> 64) hist)))
    \<and> m ''len_bucket_le128_count'' = Some (PInt (int (count_lens (\<lambda>n. 65 \<le> n \<and> n \<le> 128) hist)))
    \<and> m ''len_bucket_le256_count'' = Some (PInt (int (count_lens (\<lambda>n. 129 \<le> n \<and> n \<le> 256) hist)))
    \<and> m ''len_bucket_le512_count'' = Some (PInt (int (count_lens (\<lambda>n. 257 \<le> n \<and> n \<le> 512) hist)))
    \<and> m ''len_bucket_le1024_count'' = Some (PInt (int (count_lens (\<lambda>n. 513 \<le> n \<and> n \<le> 1024) hist)))
    \<and> m ''len_bucket_le1200_count'' = Some (PInt (int (count_lens (\<lambda>n. 1025 \<le> n \<and> n \<le> 1200) hist)))
    \<and> m ''len_bucket_gt1200_count'' = Some (PInt (int (count_lens (\<lambda>n. 1200 < n) hist)))
    \<and> (length hist < 2 ^ 45 \<longrightarrow>
         m ''tx_dominant'' = Some (PBool (4 * length hist \<le> 5 * length (filter Not (dirs hist))))
       \<and> m ''rx_dominant'' = Some (PBool (4 * length hist \<le> 5 * length (filter id (dirs hist)))))"
proof -
  define s where "s = flow_fed src dst (h @ [(now, rv, d)])"
  have c: "flow_counts hist s"
    unfolding s_def hist flow_fed_after by (rule flow_counts_after)
  have n: "hist \<noteq> []" by (simp add: hist history_of_def)
  then have l: "lens hist \<noteq> []" by (simp add: lens_def)
  have mx: "fold max (lens hist) 0 = Max (set (lens hist))"
    using Max.set_eq_fold [of 0 "lens hist"] l by simp
  have "fst (udpFlowStream_Feed now rv d (flow_fed src dst h)) =
      (Some \<lparr>Type = PropUpdateMerge, M = udpFlowStream_propMap now s\<rparr>, False)"
    by (simp add: s_def flow_fed_snoc udpFlowStream_Feed_def Let_def)
  moreover have "packetCount s = length hist" "txPacketCount s = length (filter Not (dirs hist))"
    "rxPacketCount s = length (filter id (dirs hist))" "totalBytes s = sum_list (lens hist)"
    "txBytes s = sum_list (lens_of False hist)" "rxBytes s = sum_list (lens_of True hist)"
    "maxPacketLen s = Max (set (lens hist))" "directionTurns s = dir_changes (dirs hist)"
    "firstPacketLen s = hd (lens hist)" "firstLens s ! 1 = (if 1 < length hist then lens hist ! 1 else 0)"
    "firstLens s ! 2 = (if 2 < length hist then lens hist ! 2 else 0)"
    "firstLens s ! 3 = (if 3 < length hist then lens hist ! 3 else 0)"
    using c n unfolding flow_counts_def mx by simp_all
  note k = this counted_buckets [OF c]
  ultimately show ?thesis
    by (intro exI [of _ "udpFlowStream_propMap now s"] conjI impI)
      (simp_all add: propMap_counts propMap_buckets [simplified] k [simplified] dominance [OF c n])
qed

theorem udpflow_published_witness:
  "\<exists>m. fst (udpFlowStream_Feed 5 True [1, 2] (flow_fed 1000 443 [(0, False, [1])])) =
       (Some \<lparr>Type = PropUpdateMerge, M = m\<rparr>, False)
     \<and> m ''packet_count'' = Some (PInt 2) \<and> m ''total_bytes'' = Some (PInt 3)
     \<and> m ''rx_bytes'' = Some (PInt 2) \<and> m ''len_bucket_le64_count'' = Some (PInt 2)
     \<and> m ''tx_dominant'' = Some (PBool False)"
  using udpflow_published [of _ "[(0, False, [1])]" 5 True "[1, 2]" 1000 443, OF refl]
  by (simp add: history_of_def lens_def dirs_def lens_of_def count_lens_def) fastforce

end
