(* ===== verification/QUIC.thy ===== *)
theory QUIC
  imports Props "HOL-Library.Multiset"
begin

text \<open>
  \<open>analyzer/udp/internal/quic\<close>: from an Initial packet of QUIC to the bytes of its CRYPTO frames.

  Parameters of the model. The variable-length integers are read by \<open>quicvarint.Read\<close> of quic-go,
  here a function \<open>varint\<close> from the unread bytes to the value and the bytes left. The primitives
  of the packet protection (HKDF, AES-GCM, the AES and ChaCha20 header masks, ChaCha20-Poly1305)
  are the fields of \<open>quic_crypto\<close>. \<open>Open\<close> decrypts in place: it returns the plaintext, if any,
  and the bytes its destination, the payload of the packet, holds afterwards.

  A result is \<open>None\<close> for a panic, \<open>Some None\<close> for an error and \<open>Some (Some r)\<close> otherwise. Slices of
  the packet may reach beyond its length up to its capacity, so the packet is given as the array
  \<open>arr\<close> from its first byte to its capacity and its length.
\<close>

type_synonym 'a res = "'a option go"

type_synonym varint = "bytes \<Rightarrow> (nat \<times> bytes) option"

definition V1 :: u32 where "V1 = 0x1"
definition V2 :: u32 where "V2 = 0x6b3343cf"

definition quicSaltOld :: bytes where
  "quicSaltOld = [0xaf, 0xbf, 0xec, 0x28, 0x99, 0x93, 0xd2, 0x4c, 0x9e, 0x97, 0x86, 0xf1, 0x9c, 0x61,
     0x11, 0xe0, 0x43, 0x90, 0xa8, 0x99]"
definition quicSaltV1 :: bytes where
  "quicSaltV1 = [0x38, 0x76, 0x2c, 0xf7, 0xf5, 0x59, 0x34, 0xb3, 0x4d, 0x17, 0x9a, 0xe6, 0xa4, 0xc8,
     0x0c, 0xad, 0xcc, 0xbb, 0x7f, 0x0a]"
definition quicSaltV2 :: bytes where
  "quicSaltV2 = [0x0d, 0xed, 0xe3, 0xde, 0xf7, 0x00, 0xa6, 0xdb, 0x81, 0x93, 0x81, 0xbe, 0x6e, 0x26,
     0x9d, 0xcb, 0xf9, 0xbd, 0x2e, 0xd9]"

definition isLongHeader :: "byte \<Rightarrow> bool" where
  "isLongHeader b \<longleftrightarrow> 0 < b AND 0x80"

definition getSalt :: "u32 \<Rightarrow> bytes" where
  "getSalt v = (if v = V1 then quicSaltV1 else if v = V2 then quicSaltV2 else quicSaltOld)"

definition keyLabel :: "u32 \<Rightarrow> string" where
  "keyLabel v = (if v = V2 then ''quicv2 key'' else ''quic key'')"

definition ivLabel :: "u32 \<Rightarrow> string" where
  "ivLabel v = (if v = V2 then ''quicv2 iv'' else ''quic iv'')"

definition headerProtectionLabel :: "u32 \<Rightarrow> string" where
  "headerProtectionLabel v = (if v = V2 then ''quicv2 hp'' else ''quic hp'')"

section \<open>The long header\<close>

record Header =
  hdr_Version :: u32
  hdr_SrcConnectionID :: bytes
  hdr_DestConnectionID :: bytes
  hdr_Length :: nat
  hdr_Token :: bytes

text \<open>
  \<open>readConnectionID\<close>: a partial read is an error; reading nothing at the end of the input is not,
  and leaves the identifier zero.
\<close>

definition readConnectionID :: "nat \<Rightarrow> bytes \<Rightarrow> (bytes \<times> bytes) option" where
  "readConnectionID n b =
     (if n \<le> length b then Some (take n b, drop n b)
      else if b = [] then Some (replicate n 0, [])
      else None)"

definition beUint32 :: "bytes \<Rightarrow> (u32 \<times> bytes) option" where
  "beUint32 b =
     (if length b < 4 then None else Some (be_u32 (b ! 0) (b ! 1) (b ! 2) (b ! 3), drop 4 b))"

text \<open>\<open>ReadByte\<close> of a reader.\<close>

fun read_byte :: "bytes \<Rightarrow> (byte \<times> bytes) option" where
  "read_byte [] = None"
| "read_byte (x # b) = Some (x, b)"

text \<open>The token of an Initial packet.\<close>

definition read_token :: "varint \<Rightarrow> bytes \<Rightarrow> (bytes \<times> bytes) option" where
  "read_token varint b =
     (case varint b of
        None \<Rightarrow> None
      | Some (tokenLen, b) \<Rightarrow>
          if length b < tokenLen then None else Some (take tokenLen b, drop tokenLen b))"

definition parseLongHeader :: "varint \<Rightarrow> bytes \<Rightarrow> (Header \<times> bytes) option" where
  "parseLongHeader varint b =
     (case read_byte b of None \<Rightarrow> None | Some (typeByte, b) \<Rightarrow>
     (case beUint32 b of None \<Rightarrow> None | Some (ver, b) \<Rightarrow>
     if ver \<noteq> 0 \<and> typeByte AND 0x40 = 0 then None else
     (case read_byte b of None \<Rightarrow> None | Some (destConnIDLen, b) \<Rightarrow>
     (case readConnectionID (unat destConnIDLen) b of None \<Rightarrow> None | Some (dest, b) \<Rightarrow>
     (case read_byte b of None \<Rightarrow> None | Some (srcConnIDLen, b) \<Rightarrow>
     (case readConnectionID (unat srcConnIDLen) b of None \<Rightarrow> None | Some (src, b) \<Rightarrow>
     (let initialPacketType = (if ver = V2 then 0b01 else 0b00) in
     (case (if drop_bit 4 typeByte AND 0b11 = initialPacketType then read_token varint b else Some ([], b)) of
        None \<Rightarrow> None | Some (token, b) \<Rightarrow>
     (case varint b of None \<Rightarrow> None | Some (pl, b) \<Rightarrow>
       Some (\<lparr>hdr_Version = ver, hdr_SrcConnectionID = src, hdr_DestConnectionID = dest,
              hdr_Length = pl, hdr_Token = token\<rparr>, b))))))))))"

definition ParseInitialHeader :: "varint \<Rightarrow> bytes \<Rightarrow> (Header \<times> nat) option" where
  "ParseInitialHeader varint data =
     (case parseLongHeader varint data of
        None \<Rightarrow> None
      | Some (hdr, b) \<Rightarrow> Some (hdr, length data - length b))"

section \<open>Packet protection\<close>

record ProtectionKey =
  aead_Open :: "bytes \<Rightarrow> bytes \<Rightarrow> bytes \<Rightarrow> bytes option \<times> bytes"
  headerProtection :: "bytes \<Rightarrow> bytes"
  pk_iv :: bytes

record quic_crypto =
  hkdf_Extract :: "bytes \<Rightarrow> bytes \<Rightarrow> bytes"
  hkdf_Expand :: "bytes \<Rightarrow> bytes \<Rightarrow> nat \<Rightarrow> bytes"
  aes_gcm :: "bytes \<Rightarrow> bytes \<Rightarrow> bytes \<Rightarrow> bytes \<Rightarrow> bytes option \<times> bytes"
  aes_block :: "bytes \<Rightarrow> bytes \<Rightarrow> bytes"
  chacha20_poly1305 :: "bytes \<Rightarrow> bytes \<Rightarrow> bytes \<Rightarrow> bytes \<Rightarrow> bytes option \<times> bytes"
  chacha20_mask :: "bytes \<Rightarrow> bytes \<Rightarrow> u32 \<Rightarrow> bytes"

text \<open>\<open>hkdfExpandLabel\<close>: the label structure of TLS 1.3.\<close>

definition hkdf_label :: "string \<Rightarrow> bytes \<Rightarrow> nat \<Rightarrow> bytes" where
  "hkdf_label label context len =
     [of_nat (len div 256), of_nat len]
       @ [of_nat (length (''tls13 '' @ label))] @ go_bytes (''tls13 '' @ label)
       @ [of_nat (length context)] @ context"

definition hkdfExpandLabel :: "quic_crypto \<Rightarrow> bytes \<Rightarrow> string \<Rightarrow> bytes \<Rightarrow> nat \<Rightarrow> bytes" where
  "hkdfExpandLabel C secret label context len = hkdf_Expand C secret (hkdf_label label context len) len"

definition TLS_AES_128_GCM_SHA256 :: u16 where "TLS_AES_128_GCM_SHA256 = 0x1301"
definition TLS_CHACHA20_POLY1305_SHA256 :: u16 where "TLS_CHACHA20_POLY1305_SHA256 = 0x1303"

definition newProtectionKey :: "quic_crypto \<Rightarrow> u16 \<Rightarrow> bytes \<Rightarrow> u32 \<Rightarrow> ProtectionKey option" where
  "newProtectionKey C suite secret v =
     (if suite = TLS_AES_128_GCM_SHA256 then
        Some \<lparr>aead_Open = aes_gcm C (hkdfExpandLabel C secret (keyLabel v) [] 16),
              headerProtection = aes_block C (hkdfExpandLabel C secret (headerProtectionLabel v) [] 16),
              pk_iv = hkdfExpandLabel C secret (ivLabel v) [] 12\<rparr>
      else if suite = TLS_CHACHA20_POLY1305_SHA256 then
        Some \<lparr>aead_Open = chacha20_poly1305 C (hkdfExpandLabel C secret (keyLabel v) [] 32),
              headerProtection = (\<lambda>sample.
                chacha20_mask C (hkdfExpandLabel C secret (headerProtectionLabel v) [] 32)
                  (take 12 (drop 4 sample)) (le_u32 (sample ! 0) (sample ! 1) (sample ! 2) (sample ! 3))),
              pk_iv = hkdfExpandLabel C secret (ivLabel v) [] 12\<rparr>
      else None)"

definition NewInitialProtectionKey :: "quic_crypto \<Rightarrow> bytes \<Rightarrow> u32 \<Rightarrow> ProtectionKey option" where
  "NewInitialProtectionKey C secret v = newProtectionKey C TLS_AES_128_GCM_SHA256 secret v"

text \<open>The packet number in the last eight bytes, exclusive-or with the initialisation vector.\<close>

definition be_u64_bytes :: "int \<Rightarrow> bytes" where
  "be_u64_bytes pn = map (\<lambda>i. of_int (pn div 2 ^ (8 * i))) (rev [0..<8])"

definition ProtectionKey_nonce :: "ProtectionKey \<Rightarrow> int \<Rightarrow> bytes" where
  "ProtectionKey_nonce pk pn =
     map2 (XOR) (replicate (length (pk_iv pk) - 8) 0 @ be_u64_bytes pn) (pk_iv pk)"

definition decodePacketNumber :: "int \<Rightarrow> int \<Rightarrow> nat \<Rightarrow> int" where
  "decodePacketNumber largest truncated nbits =
     (let expected = largest + 1; win = 2 ^ (nbits * 8); hwin = win div 2; msk = win - 1;
          candidate = (expected AND NOT msk) OR truncated in
      if candidate \<le> expected - hwin \<and> candidate < 2 ^ 62 - win then candidate + win
      else if expected + hwin < candidate \<and> win \<le> candidate then candidate - win
      else candidate)"

text \<open>
  The loop over the bytes of the packet number: unmask the byte, take it in. Indexing past the
  length of the packet panics.
\<close>

fun unmask_pn :: "bytes \<Rightarrow> nat \<Rightarrow> nat \<Rightarrow> bytes \<Rightarrow> nat \<Rightarrow> int \<Rightarrow> (bytes \<times> int) go" where
  "unmask_pn msk pnOffset len arr 0 pn = Some (arr, pn)"
| "unmask_pn msk pnOffset len arr (Suc k) pn =
     (case unmask_pn msk pnOffset len arr k pn of
        None \<Rightarrow> None
      | Some (arr, pn) \<Rightarrow>
          if pnOffset + k < len then
            (let arr = arr[pnOffset + k := arr ! (pnOffset + k) XOR msk ! (1 + k)] in
             Some (arr, push_bit 8 pn OR uint (arr ! (pnOffset + k))))
          else None)"

definition PacketProtector_UnProtect ::
    "ProtectionKey \<Rightarrow> bytes \<Rightarrow> nat \<Rightarrow> nat \<Rightarrow> int \<Rightarrow> (bytes option \<times> bytes) go" where
  "PacketProtector_UnProtect key arr len pnOffset pnMax =
     (if len = 0 then None
      else if isLongHeader (arr ! 0) \<and> len < pnOffset + 4 + 16 then Some (None, arr)
      else
        (case go_slice (pnOffset + 4) (pnOffset + 4 + 16) arr of
           None \<Rightarrow> None
         | Some sample \<Rightarrow>
             (let msk = headerProtection key sample;
                  arr = arr[0 := arr ! 0 XOR (msk ! 0 AND (if isLongHeader (arr ! 0) then 0x0f else 0x1f))];
                  pnLen = unat (arr ! 0 AND 0x3) + 1 in
              case unmask_pn msk pnOffset len arr pnLen 0 of
                None \<Rightarrow> None
              | Some (arr, pn) \<Rightarrow>
                  (let pn = decodePacketNumber pnMax pn pnLen;
                       payload = take (len - (pnOffset + pnLen)) (drop (pnOffset + pnLen) arr);
                       (dec, left) = aead_Open key (ProtectionKey_nonce key pn) payload (take (pnOffset + pnLen) arr) in
                   Some (dec, take (pnOffset + pnLen) arr @ left @ drop len arr)))))"

section \<open>CRYPTO frames\<close>

record cryptoFrame =
  fr_Offset :: nat
  fr_Data :: bytes

text \<open>
  \<open>make([]byte, n)\<close>: more than the address space of the heap (48 bits on amd64) is a panic.
\<close>

definition max_make :: nat where "max_make = 2 ^ 48"

definition go_make :: "nat \<Rightarrow> bytes go" where
  "go_make n = (if n \<le> max_make then Some (replicate n 0) else None)"

text \<open>One frame: \<open>Some (None, rest)\<close> for padding and ping.\<close>

definition read_frame :: "varint \<Rightarrow> bytes \<Rightarrow> (cryptoFrame option \<times> bytes) res" where
  "read_frame varint r =
     (case varint r of None \<Rightarrow> Some None | Some (typ, r) \<Rightarrow>
     if typ = 0x00 \<or> typ = 0x01 then Some (Some (None, r)) else
     if typ \<noteq> 0x06 then Some None else
     (case varint r of None \<Rightarrow> Some None | Some (offset, r) \<Rightarrow>
     (case varint r of None \<Rightarrow> Some None | Some (dataLen, r) \<Rightarrow>
     (case go_make dataLen of
        None \<Rightarrow> None
      | Some _ \<Rightarrow>
          if length r < dataLen then Some None
          else Some (Some (Some \<lparr>fr_Offset = offset, fr_Data = take dataLen r\<rparr>, drop dataLen r))))))"

text \<open>The loop ends if reading an integer consumes input; its outer \<open>None\<close> is a loop that does not.\<close>

partial_function (option) extractCryptoFrames_loop ::
    "varint \<Rightarrow> cryptoFrame list \<Rightarrow> bytes \<Rightarrow> cryptoFrame list res option" where
  "extractCryptoFrames_loop varint frames r =
     (if r = [] then Some (Some (Some frames))
      else
        (case read_frame varint r of
           None \<Rightarrow> Some None
         | Some None \<Rightarrow> Some (Some None)
         | Some (Some (fro, r')) \<Rightarrow>
             extractCryptoFrames_loop varint
               (case fro of None \<Rightarrow> frames | Some fr \<Rightarrow> frames @ [fr]) r'))"

definition extractCryptoFrames :: "varint \<Rightarrow> bytes \<Rightarrow> cryptoFrame list res option" where
  "extractCryptoFrames varint r = extractCryptoFrames_loop varint [] r"

fun contiguous :: "cryptoFrame list \<Rightarrow> bool" where
  "contiguous (f # g # fs) =
     (fr_Offset g = fr_Offset f + length (fr_Data f) \<and> contiguous (g # fs))"
| "contiguous _ = True"

text \<open>\<open>copy(data[off:], d)\<close>: a panic if \<open>off\<close> is past the end, else as much as fits.\<close>

definition copy_at :: "nat \<Rightarrow> bytes \<Rightarrow> bytes \<Rightarrow> bytes go" where
  "copy_at off d data =
     (if length data < off then None
      else Some (take off data @ take (length data - off) d @ drop (off + length d) data))"

fun copy_frames :: "cryptoFrame list \<Rightarrow> bytes \<Rightarrow> bytes go" where
  "copy_frames [] data = Some data"
| "copy_frames (f # fs) data = Option.bind (copy_at (fr_Offset f) (fr_Data f) data) (copy_frames fs)"

text \<open>
  \<open>assembleCryptoFrames\<close>: \<open>Some None\<close> is the nil slice. \<open>sort.Slice\<close> leaves the order of frames with
  the same offset open; here they keep their order.
\<close>

definition assembleCryptoFrames :: "cryptoFrame list \<Rightarrow> bytes res" where
  "assembleCryptoFrames frames =
     (if length frames = 0 then Some None
      else if length frames = 1 then Some (Some (fr_Data (frames ! 0)))
      else
        (let frames = sort_key fr_Offset frames in
         if \<not> contiguous frames then Some None
         else
           (case go_make (fr_Offset (last frames) + length (fr_Data (last frames))) of
              None \<Rightarrow> None
            | Some data \<Rightarrow> map_option Some (copy_frames frames data))))"

text \<open>
  \<open>ReadCryptoPayload\<close>: the payload, if any, and the array of the packet, changed in place. The
  packet is the first \<open>len\<close> bytes of \<open>arr\<close>.
\<close>

definition ReadCryptoPayload ::
    "quic_crypto \<Rightarrow> varint \<Rightarrow> bytes \<Rightarrow> nat \<Rightarrow> (bytes option \<times> bytes) go option" where
  "ReadCryptoPayload C varint arr len =
     (case ParseInitialHeader varint (take len arr) of
        None \<Rightarrow> Some (Some (None, arr))
      | Some (hdr, offset) \<Rightarrow>
     if hdr_Version hdr \<noteq> V1 \<and> hdr_Version hdr \<noteq> V2 then Some (Some (None, arr)) else
     if offset = 0 \<or> hdr_Length hdr = 0 then Some (Some (None, arr)) else
     (let initialSecret = hkdf_Extract C (hdr_DestConnectionID hdr) (getSalt (hdr_Version hdr));
          clientSecret = hkdfExpandLabel C initialSecret ''client in'' [] 32 in
     (case NewInitialProtectionKey C clientSecret (hdr_Version hdr) of
        None \<Rightarrow> Some (Some (None, arr))
      | Some key \<Rightarrow>
     if len < offset + hdr_Length hdr then Some (Some (None, arr)) else
     (case PacketProtector_UnProtect key arr (offset + hdr_Length hdr) offset 2 of
        None \<Rightarrow> Some None
      | Some (None, arr) \<Rightarrow> Some (Some (None, arr))
      | Some (Some plain, arr) \<Rightarrow>
     (case extractCryptoFrames varint plain of
        None \<Rightarrow> None
      | Some None \<Rightarrow> Some None
      | Some (Some None) \<Rightarrow> Some (Some (None, arr))
      | Some (Some (Some frs)) \<Rightarrow>
          Some (map_option (\<lambda>data. (data, arr)) (assembleCryptoFrames frs)))))))"

section \<open>Packet numbers\<close>

lemma and_not_mask_or:
  fixes e t :: int
  assumes "0 \<le> t" "t < 2 ^ n"
  shows "(e AND NOT (2 ^ n - 1)) OR t = e div 2 ^ n * 2 ^ n + t"
proof -
  have m: "(2::int) ^ n - 1 = Bit_Operations.mask n"
    by (simp add: mask_eq_exp_minus_1)
  have hi: "e AND NOT (Bit_Operations.mask n) = push_bit n (drop_bit n e)"
    by (rule bit_eqI) (auto simp: bit_simps)
  have t: "t = take_bit n t"
    using assms by (simp add: take_bit_int_eq_self)
  have "push_bit n (drop_bit n e) AND take_bit n t = 0"
    by (rule bit_eqI) (auto simp: bit_simps)
  then have "push_bit n (drop_bit n e) OR take_bit n t = push_bit n (drop_bit n e) + take_bit n t"
    by (simp add: disjunctive_add_eq_or)
  then show ?thesis
    using t by (simp add: m hi push_bit_eq_mult drop_bit_eq_div)
qed

text \<open>
  The decoding of RFC 9000, appendix A: a packet number is recovered from its low bytes when it lies
  within half a window of the one expected next.
\<close>

text \<open>
  A packet number within half a window of the next expected one is recovered from its low one
  to four bytes.
\<close>

lemma decode_packet_number:
  assumes n: "1 \<le> nbits" "nbits \<le> 4" and l: "0 \<le> largest"
    and lo: "largest + 1 - 2 ^ (nbits * 8) div 2 < pn" and hi: "pn \<le> largest + 1 + 2 ^ (nbits * 8) div 2"
    and b: "0 \<le> pn" "pn < 2 ^ 62"
  shows "decodePacketNumber largest (pn mod 2 ^ (nbits * 8)) nbits = pn"
proof -
  define w :: int where "w = 2 ^ (nbits * 8)"
  have "nbits * 8 = Suc (nbits * 8 - 1)" using n by simp
  then have "w = 2 * 2 ^ (nbits * 8 - 1)" unfolding w_def by (metis power_Suc)
  then obtain h where w: "w = 2 * h" and h: "0 < h" by auto
  define q where "q = (largest + 1) div w"
  have c: "((largest + 1) AND NOT (w - 1)) OR (pn mod w) = q * w + pn mod w"
    unfolding w_def q_def by (rule and_not_mask_or) auto
  have e: "q * w \<le> largest + 1" "largest + 1 < (q + 1) * w"
    using div_mult_mod_eq [of "largest + 1" w] pos_mod_bound [of w "largest + 1"]
      pos_mod_sign [of w "largest + 1"] h w unfolding q_def distrib_right by linarith+
  define d where "d = pn div w"
  have wpos: "0 < w" using h w by simp
  have p: "pn = d * w + pn mod w" "0 \<le> pn mod w" "pn mod w < w"
    using wpos unfolding d_def by (simp_all only: div_mult_mod_eq pos_mod_sign pos_mod_bound)
  have half: "w div 2 = h" using w by simp
  have "d * w < (q + 2) * w" "(q - 1) * w < (d + 1) * w"
    using e p lo hi w unfolding w_def [symmetric] half distrib_right left_diff_distrib by linarith+
  then have "d < q + 2" "q - 1 < d + 1"
    using wpos by (simp_all only: mult_less_cancel_right_pos)
  then have d: "d = q \<or> d = q + 1 \<or> d = q - 1" by linarith
  define m where "m = pn mod w"
  have "decodePacketNumber largest m nbits =
          (if q * w + m \<le> largest + 1 - h \<and> q * w + m < 2 ^ 62 - w then q * w + m + w
           else if largest + 1 + h < q * w + m \<and> w \<le> q * w + m then q * w + m - w else q * w + m)"
    unfolding decodePacketNumber_def Let_def m_def using c half by (simp only: w_def [symmetric])
  moreover have "d * w = q * w \<or> d * w = q * w + w \<or> d * w = q * w - w"
    using d by (auto simp: distrib_right left_diff_distrib)
  ultimately have "decodePacketNumber largest m nbits = pn"
    using p lo hi b w unfolding w_def [symmetric] half m_def [symmetric] by (auto split: if_splits)
  then show ?thesis by (simp only: m_def w_def)
qed

text \<open>With 2 for the largest number, as the caller passes, the bytes are the number.\<close>

lemma decode_packet_number_2:
  assumes "1 \<le> nbits" "nbits \<le> 4" "0 \<le> t" "t < 2 ^ (nbits * 8)"
  shows "decodePacketNumber 2 t nbits = t"
proof -
  have "(2::int) ^ 8 \<le> 2 ^ (nbits * 8)"
    using assms(1) by (intro power_increasing) auto
  moreover have "((3::int) AND NOT (2 ^ (nbits * 8) - 1)) OR t = 3 div 2 ^ (nbits * 8) * 2 ^ (nbits * 8) + t"
    using assms by (intro and_not_mask_or) auto
  moreover have "(128::int) \<le> 2 ^ (nbits * 8) div 2"
    using zdiv_mono1 [OF calculation(1), of 2] by simp
  ultimately show ?thesis
    using assms by (simp add: decodePacketNumber_def Let_def)
qed

section \<open>CRYPTO frames: reassembly\<close>

text \<open>The frames that carry the consecutive pieces \<open>ds\<close> of a stream from offset \<open>o\<close> on.\<close>

fun pieces :: "nat \<Rightarrow> bytes list \<Rightarrow> cryptoFrame list" where
  "pieces off [] = []"
| "pieces off (d # ds) = \<lparr>fr_Offset = off, fr_Data = d\<rparr> # pieces (off + length d) ds"

lemma length_pieces [simp]: "length (pieces off ds) = length ds"
  by (induction ds arbitrary: off) auto

lemma pieces_eq_Nil [simp]: "pieces off ds = [] \<longleftrightarrow> ds = []"
  by (cases ds) auto

lemma contiguous_pieces: "contiguous (pieces off ds)"
proof (induction ds arbitrary: off)
  case (Cons d ds)
  then show ?case using Cons.IH [of "off + length d"] by (cases ds) auto
qed simp

lemma last_pieces:
  "ds \<noteq> [] \<Longrightarrow>
   fr_Offset (last (pieces off ds)) + length (fr_Data (last (pieces off ds))) = off + length (concat ds)"
  by (induction ds arbitrary: off) auto

lemma pieces_offsets:
  assumes "[] \<notin> set ds"
  shows "sorted_wrt (<) (map fr_Offset (pieces off ds)) \<and> (\<forall>f \<in> set (pieces off ds). off \<le> fr_Offset f)"
  using assms
proof (induction ds arbitrary: off)
  case (Cons d ds)
  have "0 < length d" "[] \<notin> set ds" using Cons.prems by auto
  have lt: "off < off + length d" using \<open>0 < length d\<close> by (simp only: less_add_same_cancel1)
  have "\<forall>f \<in> set (pieces (off + length d) ds). off < fr_Offset f"
    using Cons.IH [of "off + length d"] \<open>[] \<notin> set ds\<close> less_le_trans [OF lt] by blast
  then show ?case
    using Cons.IH [of "off + length d"] \<open>[] \<notin> set ds\<close> by (auto simp: less_imp_le)
qed simp

lemma sort_pieces:
  assumes "[] \<notin> set ds" "mset frames = mset (pieces off ds)"
  shows "sort_key fr_Offset frames = pieces off ds"
proof (rule sort_key_inj_key_eq)
  have s: "sorted_wrt (<) (map fr_Offset (pieces off ds))"
    using pieces_offsets [OF assms(1)] by blast
  then have "distinct (map fr_Offset (pieces off ds))"
    by (simp add: strict_sorted_iff)
  then show "inj_on fr_Offset (set frames)"
    using mset_eq_setD [OF assms(2)] by (simp add: distinct_map)
  show "sorted (map fr_Offset (pieces off ds))"
    using s by (simp add: strict_sorted_iff)
qed (rule assms(2))

lemma copy_pieces:
  "copy_frames (pieces (length pre) ds) (pre @ replicate (length (concat ds)) 0) = Some (pre @ concat ds)"
proof (induction ds arbitrary: pre)
  case (Cons d ds)
  show ?case
    using Cons.IH [of "pre @ d"] by (simp add: copy_at_def)
qed simp

text \<open>
  Frames in any order give their stream back, after a gap of zeros if the first does not start at
  offset 0. A single frame gives its bytes, whatever its offset.
\<close>

lemma assemble_pieces:
  assumes "[] \<notin> set ds" "2 \<le> length ds" "mset frames = mset (pieces off ds)"
    and "off + length (concat ds) \<le> max_make"
  shows "assembleCryptoFrames frames = Some (Some (replicate off 0 @ concat ds))"
proof -
  have "length frames = length ds"
    using mset_eq_length [OF assms(3)] by simp
  moreover have "ds \<noteq> []" using assms(2) by auto
  moreover have "replicate (off + length (concat ds)) 0 =
      replicate off (0::byte) @ replicate (length (concat ds)) 0"
    by (simp only: replicate_add)
  ultimately show ?thesis
    using assms copy_pieces [of "replicate off 0" ds] last_pieces [of ds off]
    by (simp add: assembleCryptoFrames_def Let_def sort_pieces contiguous_pieces go_make_def del: length_concat)
qed

text \<open>What is assembled from two frames or more is contiguous: a gap or an overlap is refused.\<close>

lemma contiguous_spec:
  "contiguous fs \<longleftrightarrow>
     (\<forall>i. Suc i < length fs \<longrightarrow> fr_Offset (fs ! Suc i) = fr_Offset (fs ! i) + length (fr_Data (fs ! i)))"
proof (induction fs rule: contiguous.induct)
  case (1 f g fs)
  show ?case
  proof
    assume "contiguous (f # g # fs)"
    then show "\<forall>i. Suc i < length (f # g # fs) \<longrightarrow>
        fr_Offset ((f # g # fs) ! Suc i) = fr_Offset ((f # g # fs) ! i) + length (fr_Data ((f # g # fs) ! i))"
      using 1 by (auto simp: nth_Cons' split: if_splits)
  next
    assume "\<forall>i. Suc i < length (f # g # fs) \<longrightarrow>
        fr_Offset ((f # g # fs) ! Suc i) = fr_Offset ((f # g # fs) ! i) + length (fr_Data ((f # g # fs) ! i))"
    then show "contiguous (f # g # fs)" using 1 by fastforce
  qed
qed auto

section \<open>CRYPTO frames: extraction\<close>

text \<open>
  Reading an integer consumes input (\<open>quicvarint.Read\<close> reads at least one byte), so the loop ends;
  whether it panics depends on the lengths it is told.
\<close>

definition varint_consumes :: "varint \<Rightarrow> bool" where
  "varint_consumes varint \<longleftrightarrow> (\<forall>b v b'. varint b = Some (v, b') \<longrightarrow> length b' < length b)"

lemma varint_consumesD: "varint_consumes varint \<Longrightarrow> varint b = Some (v, b') \<Longrightarrow> length b' < length b"
  by (auto simp: varint_consumes_def)

lemma read_frame_shrinks:
  assumes "varint_consumes varint" "read_frame varint r = Some (Some (fro, r'))"
  shows "length r' < length r"
proof -
  note d = varint_consumesD [OF assms(1)]
  obtain ty r1 where r1: "varint r = Some (ty, r1)"
    using assms(2) by (auto simp: read_frame_def split: option.splits)
  show ?thesis
  proof (cases "ty = 0 \<or> ty = 1")
    case True
    then show ?thesis using assms(2) r1 d [OF r1] by (auto simp: read_frame_def)
  next
    case False
    then obtain off r2 n r3 where r2: "varint r1 = Some (off, r2)" and r3: "varint r2 = Some (n, r3)"
      using assms(2) r1 by (auto simp: read_frame_def split: option.splits if_splits)
    then have "r' = drop n r3"
      using assms(2) r1 False by (auto simp: read_frame_def split: option.splits if_splits)
    then show ?thesis using d [OF r1] d [OF r2] d [OF r3] by simp
  qed
qed

lemma extract_loop_returns:
  assumes "varint_consumes varint"
  shows "\<exists>res. extractCryptoFrames_loop varint frames r = Some res"
proof (induction r arbitrary: frames rule: length_induct)
  case (1 r)
  show ?case
  proof (cases "r = []")
    case True
    then show ?thesis by (subst extractCryptoFrames_loop.simps) simp
  next
    case False
    show ?thesis
    proof (cases "\<exists>fro r'. read_frame varint r = Some (Some (fro, r'))")
      case True
      then obtain fro r' where rf: "read_frame varint r = Some (Some (fro, r'))" by blast
      then have "length r' < length r" by (rule read_frame_shrinks [OF assms])
      then show ?thesis
        using 1 rf False by (subst extractCryptoFrames_loop.simps) auto
    next
      case c: False
      then show ?thesis
        using False by (subst extractCryptoFrames_loop.simps) (auto split: option.splits)
    qed
  qed
qed

lemma extract_returns:
  "varint_consumes varint \<Longrightarrow> \<exists>res. extractCryptoFrames varint r = Some res"
  unfolding extractCryptoFrames_def by (rule extract_loop_returns)

text \<open>A reader and a writer of integers that match, below the 62 bits they can carry.\<close>

definition varint_encoded :: "varint \<Rightarrow> (nat \<Rightarrow> bytes) \<Rightarrow> bool" where
  "varint_encoded varint enc \<longleftrightarrow> (\<forall>n r. n < 2 ^ 62 \<longrightarrow> varint (enc n @ r) = Some (n, r))"

lemma varint_encodedD: "varint_encoded varint enc \<Longrightarrow> n < 2 ^ 62 \<Longrightarrow> varint (enc n @ r) = Some (n, r)"
  by (auto simp: varint_encoded_def)

text \<open>A payload of frames: \<open>None\<close> for a padding frame.\<close>

definition frame_bytes :: "(nat \<Rightarrow> bytes) \<Rightarrow> cryptoFrame option \<Rightarrow> bytes" where
  "frame_bytes enc fro =
     (case fro of
        None \<Rightarrow> enc 0
      | Some f \<Rightarrow> enc 6 @ enc (fr_Offset f) @ enc (length (fr_Data f)) @ fr_Data f)"

definition frame_ok :: "cryptoFrame option \<Rightarrow> bool" where
  "frame_ok fro =
     (case fro of None \<Rightarrow> True | Some f \<Rightarrow> fr_Offset f < 2 ^ 62 \<and> length (fr_Data f) \<le> max_make)"

lemma read_frame_bytes:
  assumes "varint_encoded varint enc" "frame_ok fro"
  shows "read_frame varint (frame_bytes enc fro @ r) = Some (Some (fro, r))"
  using assms varint_encodedD [OF assms(1)]
  by (cases fro) (auto simp: read_frame_def frame_bytes_def frame_ok_def go_make_def max_make_def)

fun frames_in :: "cryptoFrame option list \<Rightarrow> cryptoFrame list" where
  "frames_in [] = []"
| "frames_in (None # fs) = frames_in fs"
| "frames_in (Some f # fs) = f # frames_in fs"

lemma extract_loop_frames:
  assumes "varint_encoded varint enc" "varint [] = None" "\<forall>fro \<in> set fs. frame_ok fro"
  shows "extractCryptoFrames_loop varint acc (concat (map (frame_bytes enc) fs)) =
           Some (Some (Some (acc @ frames_in fs)))"
  using assms(3)
proof (induction fs arbitrary: acc)
  case Nil
  then show ?case by (subst extractCryptoFrames_loop.simps) simp
next
  case (Cons fro fs)
  let ?r = "frame_bytes enc fro @ concat (map (frame_bytes enc) fs)"
  have rf: "read_frame varint ?r = Some (Some (fro, concat (map (frame_bytes enc) fs)))"
    using Cons.prems by (intro read_frame_bytes [OF assms(1)]) simp
  have "?r \<noteq> []"
  proof
    assume "?r = []"
    then show False using rf assms(2) unfolding \<open>?r = []\<close> by (simp add: read_frame_def)
  qed
  then show ?case
    using Cons rf by (subst extractCryptoFrames_loop.simps) (cases fro; auto)
qed

lemma extract_frames:
  assumes "varint_encoded varint enc" "varint [] = None" "\<forall>fro \<in> set fs. frame_ok fro"
  shows "extractCryptoFrames varint (concat (map (frame_bytes enc) fs)) =
           Some (Some (Some (frames_in fs)))"
  unfolding extractCryptoFrames_def using extract_loop_frames [OF assms, of "[]"] by simp

text \<open>
  A payload whose CRYPTO frames, between padding and in any order, carry at least two consecutive
  pieces from offset 0: what is assembled from it is the stream.
\<close>

text \<open>
  C10. A decrypted Initial payload whose CRYPTO frames carry consecutive non-empty pieces of a
  stream, in any order and with padding between them, gives the stream back, for any matching
  reader and writer of variable-length integers.
\<close>

theorem crypto_stream_recovered:
  assumes "varint_encoded varint enc" "varint [] = None" "\<forall>fro \<in> set fs. frame_ok fro"
    and "[] \<notin> set ds" "2 \<le> length ds" "mset (frames_in fs) = mset (pieces 0 ds)"
    and "length (concat ds) \<le> max_make"
  shows "\<exists>frs. extractCryptoFrames varint (concat (map (frame_bytes enc) fs)) = Some (Some (Some frs))
           \<and> assembleCryptoFrames frs = Some (Some (concat ds))"
  using extract_frames [OF assms(1-3)] assemble_pieces [OF assms(4-6)] assms(7) by simp

section \<open>The packet as a whole\<close>

text \<open>
  Under the same hypothesis reading a packet returns or panics. A packet that claims the short
  form skips the length check of \<open>UnProtect\<close>, and panics when the sample lies beyond its array.
\<close>

lemma read_crypto_returns:
  assumes "varint_consumes varint"
  shows "\<exists>res. ReadCryptoPayload C varint arr len = Some res"
proof -
  have "(extractCryptoFrames varint p = None) = False" for p
    using extract_returns [OF assms, of p] by auto
  then have "ReadCryptoPayload C varint arr len \<noteq> None"
    by (auto simp: ReadCryptoPayload_def Let_def simp del: not_None_eq split: option.splits prod.splits)
  then show ?thesis by auto
qed

lemma unprotect_short_panics:
  assumes "\<not> isLongHeader (arr ! 0)" "length arr < pnOffset + 20"
  shows "PacketProtector_UnProtect key arr len pnOffset pnMax = None"
  using assms by (simp add: PacketProtector_UnProtect_def go_slice_def)

lemma unprotect_long_short_packet:
  assumes "isLongHeader (arr ! 0)" "0 < len" "len < pnOffset + 20"
  shows "PacketProtector_UnProtect key arr len pnOffset pnMax = Some (None, arr)"
  using assms by (simp add: PacketProtector_UnProtect_def)

lemma unmask_pn_inside:
  "pnOffset + k \<le> len \<Longrightarrow> len \<le> length arr \<Longrightarrow>
   \<exists>arr' pn'. unmask_pn msk pnOffset len arr k pn = Some (arr', pn') \<and> length arr' = length arr"
  by (induction k) (auto simp: Let_def)

lemma unprotect_long_total:
  assumes "isLongHeader (arr ! 0)" "0 < len" "len \<le> length arr"
  shows "PacketProtector_UnProtect key arr len pnOffset pnMax \<noteq> None"
proof (cases "len < pnOffset + 20")
  case True
  then show ?thesis using assms by (simp add: unprotect_long_short_packet)
next
  case False
  define sample where "sample = take 16 (drop (pnOffset + 4) arr)"
  define arr1 where "arr1 = arr[0 := arr ! 0 XOR (headerProtection key sample ! 0 AND 0x0f)]"
  have s: "go_slice (pnOffset + 4) (pnOffset + 4 + 16) arr = Some sample"
    using False assms by (simp add: go_slice_def sample_def)
  have n: "unat (arr1 ! 0 AND 0x3) + 1 \<le> 4"
  proof -
    have "arr1 ! 0 AND 0x3 \<le> 0x3" by (rule word_and_le1)
    then show ?thesis by (simp add: word_le_nat_alt)
  qed
  define k where "k = unat (arr1 ! 0 AND 0x3) + 1"
  have "pnOffset + k \<le> len" "len \<le> length arr1"
    using False assms n by (simp_all add: arr1_def k_def)
  then obtain arr2 pn where u: "unmask_pn (headerProtection key sample) pnOffset len arr1 k 0 = Some (arr2, pn)"
    using unmask_pn_inside [of pnOffset k len arr1 "headerProtection key sample" 0] by auto
  have "(len = 0) = False" "(isLongHeader (arr ! 0) \<and> len < pnOffset + 4 + 16) = False"
    "isLongHeader (arr ! 0) = True"
    using assms False by auto
  note c = this
  show ?thesis
    by (simp only: PacketProtector_UnProtect_def Let_def c if_True if_False s option.case
        arr1_def [symmetric] k_def [symmetric] u prod.case) (simp split: prod.split)
qed

section \<open>The statements at concrete inputs\<close>

text \<open>The integers of RFC 9000, section 16: the two high bits of the first byte give the length.\<close>

definition varint_rfc :: varint where
  "varint_rfc b =
     (case b of
        [] \<Rightarrow> None
      | x # r \<Rightarrow>
          (let n = 2 ^ unat (drop_bit 6 x) - 1 in
           if length r < n then None
           else Some (foldl (\<lambda>v y. v * 256 + unat y) (unat (x AND 0x3f)) (take n r), drop n r)))"

lemma varint_rfc_consumes: "varint_consumes varint_rfc"
  by (auto simp: varint_consumes_def varint_rfc_def Let_def split: list.splits if_splits)

theorem decode_packet_number_witness:
  "decodePacketNumber 1000000 (999990 mod 2 ^ (1 * 8)) 1 = 999990"
  by (rule decode_packet_number) simp_all

text \<open>A writer for every integer: eight bytes.\<close>

definition varint_enc :: "nat \<Rightarrow> bytes" where
  "varint_enc n =
     (of_nat (n div 256 ^ 7) OR 0xc0) # map (\<lambda>i. of_nat (n div 256 ^ i)) (List.rev [0..<7])"

lemma foldl_digits:
  "foldl (\<lambda>v y. v * 256 + unat (y :: byte)) (n div 256 ^ k) (map (\<lambda>i. of_nat (n div 256 ^ i)) (List.rev [0..<k])) = n"
proof (induction k)
  case (Suc k)
  have "n div 256 ^ Suc k * 256 + unat (of_nat (n div 256 ^ k) :: byte) = n div 256 ^ k"
    using div_mult_mod_eq [of "n div 256 ^ k" 256]
    by (simp add: unat_of_nat div_mult2_eq [symmetric] mult.commute)
  then show ?case using Suc.IH by simp
qed simp

lemma top_byte:
  assumes "q < 64"
  shows "drop_bit 6 (of_nat q OR 0xc0 :: byte) = 3" and "unat ((of_nat q OR 0xc0 :: byte) AND 0x3f) = q"
proof -
  have "list_all (\<lambda>q. drop_bit 6 (of_nat q OR 0xc0 :: byte) = 3 \<and> unat ((of_nat q OR 0xc0 :: byte) AND 0x3f) = q) [0..<64]"
    by code_simp
  then show "drop_bit 6 (of_nat q OR 0xc0 :: byte) = 3" and "unat ((of_nat q OR 0xc0 :: byte) AND 0x3f) = q"
    using assms by (auto simp: list_all_iff)
qed

lemma varint_rfc_encoded: "varint_encoded varint_rfc varint_enc"
  unfolding varint_encoded_def
proof (intro allI impI)
  fix n :: nat and r :: bytes
  assume "n < 2 ^ 62"
  then have "n div 256 ^ 7 < 64" by (simp add: less_mult_imp_div_less)
  then show "varint_rfc (varint_enc n @ r) = Some (n, r)"
    using foldl_digits [of n 7] top_byte [of "n div 256 ^ 7"]
    by (simp add: varint_rfc_def varint_enc_def Let_def del: upt_rec_numeral)
qed

theorem crypto_stream_recovered_witness:
  "\<exists>frs. extractCryptoFrames varint_rfc
       (concat (map (frame_bytes varint_enc) [Some \<lparr>fr_Offset = 2, fr_Data = [3]\<rparr>, None, Some \<lparr>fr_Offset = 0, fr_Data = [1, 2]\<rparr>]))
       = Some (Some (Some frs))
     \<and> assembleCryptoFrames frs = Some (Some (concat [[1, 2], [3]]))"
  by (rule crypto_stream_recovered [OF varint_rfc_encoded])
    (simp_all add: varint_rfc_def frame_ok_def max_make_def)

text \<open>
  If reading a variable-length integer consumes at least one byte, reading the CRYPTO payload
  of any packet returns (with data, an error or a panic).
\<close>

lemma read_crypto_payload_returns:
  assumes "varint_consumes varint"
  shows "\<exists>res. ReadCryptoPayload C varint arr len = Some res"
  using assms by (rule read_crypto_returns)

theorem read_crypto_payload_returns_witness:
  "\<forall>C. \<exists>res. ReadCryptoPayload C varint_rfc [0x40, 0, 0, 0] 4 = Some res"
  using read_crypto_payload_returns [OF varint_rfc_consumes] by blast

end
