(* ===== verification/QUICStream.thy ===== *)
theory QUICStream
  imports QUIC TLSHello
begin

text \<open>
  \<open>analyzer/udp/quic.go\<close>: the QUIC analyzer of a UDP flow. It gives up after four packets it can
  make nothing of, counting every packet of the server among them, and is done with the first
  packet that carries a whole ClientHello.

  The data is the array of the packet up to its capacity, and its length; \<open>Feed\<close> also returns the
  array, which the decryption changes in place.
\<close>

definition quicInvalidCountThreshold :: nat where "quicInvalidCountThreshold = 4"

record quicStream =
  quic_invalidCount :: nat

definition QUICAnalyzer_Name :: string where "QUICAnalyzer_Name = ''quic''"

definition QUICAnalyzer_Limit :: int where "QUICAnalyzer_Limit = 0"

definition NewUDP_quic :: quicStream where "NewUDP_quic = \<lparr>quic_invalidCount = 0\<rparr>"

definition quic_invalid :: "quicStream \<Rightarrow> (PropUpdate option \<times> bool) \<times> quicStream" where
  "quic_invalid s =
     (let s = s\<lparr>quic_invalidCount := quic_invalidCount s + 1\<rparr> in
      ((None, quicInvalidCountThreshold \<le> quic_invalidCount s), s))"

text \<open>What \<open>Feed\<close> makes of the payload of the CRYPTO frames; \<open>None\<close> is an invalid packet.\<close>

definition quic_client_hello :: "bytes \<Rightarrow> PropMap option" where
  "quic_client_hello pl =
     (if length pl < 4 then None
      else if pl ! 0 \<noteq> TypeClientHello then None
      else if be_int3 (pl ! 1) (pl ! 2) (pl ! 3) < 41 then None
      else ParseQUICClientHelloMsgData \<lparr>Buf = drop 4 pl\<rparr>)"

definition quicStream_Feed ::
    "quic_crypto \<Rightarrow> varint \<Rightarrow> bool \<Rightarrow> bytes \<Rightarrow> nat \<Rightarrow> quicStream \<Rightarrow>
     (((PropUpdate option \<times> bool) \<times> quicStream) \<times> bytes) go option" where
  "quicStream_Feed C varint rv arr len s =
     (if rv then Some (Some (quic_invalid s, arr))
      else
        (case ReadCryptoPayload C varint arr len of
           None \<Rightarrow> None
         | Some None \<Rightarrow> Some None
         | Some (Some (None, arr)) \<Rightarrow> Some (Some (quic_invalid s, arr))
         | Some (Some (Some pl, arr)) \<Rightarrow>
             (case quic_client_hello pl of
                None \<Rightarrow> Some (Some (quic_invalid s, arr))
              | Some m \<Rightarrow>
                  Some (Some (((Some \<lparr>Type = PropUpdateMerge, M = [''req'' \<mapsto> PMap m]\<rparr>, True), s), arr)))))"

definition quicStream_Close :: "bool \<Rightarrow> quicStream \<Rightarrow> PropUpdate option" where
  "quicStream_Close limited s = None"

section \<open>The counter\<close>

lemma quic_feed_cases:
  assumes "quicStream_Feed C varint rv arr len s = Some (Some (((u, dn), s'), arr'))"
  shows "(u = None \<and> quic_invalidCount s' = quic_invalidCount s + 1
           \<and> (dn \<longleftrightarrow> 4 \<le> quic_invalidCount s'))
       \<or> (\<not> rv \<and> dn \<and> s' = s \<and> (\<exists>m. u = Some \<lparr>Type = PropUpdateMerge, M = [''req'' \<mapsto> PMap m]\<rparr>))"
  using assms
  by (auto simp: quicStream_Feed_def quic_invalid_def quicInvalidCountThreshold_def Let_def
      split: if_splits option.splits prod.splits)

lemma quic_feed_returns:
  assumes "varint_consumes varint"
  shows "\<exists>res. quicStream_Feed C varint rv arr len s = Some res"
  using read_crypto_returns [OF assms, of C arr len]
  by (auto simp: quicStream_Feed_def split: option.splits prod.splits)

section \<open>A packet with a short first byte\<close>





text \<open>
  A packet fed to the QUIC analyzer either publishes a ClientHello and ends the analysis, or
  is counted as invalid, and the fourth invalid packet ends it.
\<close>

lemma quic_feed_counts:
  assumes "quicStream_Feed C varint rv arr len s = Some (Some (((u, dn), s'), arr'))"
  shows "(u = None \<and> quic_invalidCount s' = quic_invalidCount s + 1 \<and> (dn \<longleftrightarrow> 4 \<le> quic_invalidCount s'))
       \<or> (\<not> rv \<and> dn \<and> s' = s \<and> (\<exists>m. u = Some \<lparr>Type = PropUpdateMerge, M = [''req'' \<mapsto> PMap m]\<rparr>))"
  using assms by (rule quic_feed_cases)

theorem quic_feed_counts_witness:
  "\<forall>C. \<exists>s'. quicStream_Feed C varint_rfc True [1] 1 NewUDP_quic = Some (Some (((None, False), s'), [1]))
     \<and> quic_invalidCount s' = 1"
proof
  fix C
  have "quicStream_Feed C varint_rfc True [1] 1 NewUDP_quic =
      Some (Some (((None, False), \<lparr>quic_invalidCount = 1\<rparr>), [1]))"
    by (simp add: quicStream_Feed_def quic_invalid_def NewUDP_quic_def quicInvalidCountThreshold_def)
  from quic_feed_counts [OF this] this
  show "\<exists>s'. quicStream_Feed C varint_rfc True [1] 1 NewUDP_quic = Some (Some (((None, False), s'), [1]))
     \<and> quic_invalidCount s' = 1" by auto
qed

end
