(* ===== verification/EngineBase.thy ===== *)
theory EngineBase
  imports Props "HOL-Library.AList"
begin

text \<open>
  What the TCP and the UDP engine share: actions, verdicts and stream information
  (\<open>ruleset/interface.go\<close>, \<open>io/interface.go\<close>), metadata (\<open>engine/utils.go\<close>), the entries of the
  analyzers of a stream, and the two loops over them that \<open>engine/tcp.go\<close> and \<open>engine/udp.go\<close> both
  write out. The calls of the logger are the events an operation returns, in order.

  A metadata map is \<open>None\<close> when nil and a list of pairs otherwise; a key is bound to its first value.
\<close>

datatype Action = ActionMaybe | ActionAllow | ActionBlock | ActionDrop | ActionModify

definition Action_String :: "Action \<Rightarrow> string" where
  "Action_String a =
     (case a of ActionMaybe \<Rightarrow> ''maybe'' | ActionAllow \<Rightarrow> ''allow'' | ActionBlock \<Rightarrow> ''block''
      | ActionDrop \<Rightarrow> ''drop'' | ActionModify \<Rightarrow> ''modify'')"

datatype Verdict = VerdictAccept | VerdictAcceptModify | VerdictAcceptStream | VerdictDrop | VerdictDropStream

datatype Protocol = ProtocolTCP | ProtocolUDP

definition Protocol_String :: "Protocol \<Rightarrow> string" where
  "Protocol_String p = (case p of ProtocolTCP \<Rightarrow> ''tcp'' | ProtocolUDP \<Rightarrow> ''udp'')"

type_synonym metadata = "(string \<times> string) list option"

record StreamInfo =
  si_ID :: int
  si_Protocol :: Protocol
  si_SrcIP :: bytes
  si_DstIP :: bytes
  si_SrcPort :: u16
  si_DstPort :: u16
  si_Meta :: metadata
  si_Props :: CombinedPropMap

text \<open>
  A modifier instance is an empty interface; the engine asks whether it is one for UDP, which is
  its \<open>Process\<close>: the new packet (\<open>None\<close> for nil) and the error, if any.
\<close>

datatype modInstance =
    UDPModifierInstance "bytes \<Rightarrow> bytes option \<times> string option"
  | OtherInstance

record MatchResult =
  mr_Action :: Action
  mr_ModInstance :: "modInstance option"

record 'an Ruleset =
  rs_Analyzers :: "StreamInfo \<Rightarrow> 'an list"
  rs_Match :: "StreamInfo \<Rightarrow> MatchResult"

datatype event =
    StreamNew int StreamInfo
  | StreamPropUpdate StreamInfo bool
  | StreamAction StreamInfo Action bool
  | ModifyError StreamInfo string

section \<open>Metadata\<close>

definition copyMetadata :: "metadata \<Rightarrow> metadata" where
  "copyMetadata src = (case src of None \<Rightarrow> None | Some m \<Rightarrow> if length m = 0 then None else Some m)"

type_synonym MetadataEnricher = "StreamInfo \<Rightarrow> metadata"

definition enrichMetadata :: "MetadataEnricher option \<Rightarrow> StreamInfo \<Rightarrow> metadata" where
  "enrichMetadata enricher info =
     (let meta = copyMetadata (si_Meta info) in
      case enricher of
        None \<Rightarrow> meta
      | Some f \<Rightarrow>
          (let info = info\<lparr>si_Meta := copyMetadata meta\<rparr>;
               extra = (case f info of None \<Rightarrow> [] | Some e \<Rightarrow> e) in
           if length extra = 0 then meta
           else Some (AList.merge (case meta of None \<Rightarrow> [] | Some m \<Rightarrow> m) extra)))"

definition meta_get :: "metadata \<Rightarrow> string \<Rightarrow> string option" where
  "meta_get m = (case m of None \<Rightarrow> Map.empty | Some m \<Rightarrow> map_of m)"

lemma meta_get_copy [simp]: "meta_get (copyMetadata m) = meta_get m"
  by (auto simp: meta_get_def copyMetadata_def split: option.split)

lemma copyMetadata_idem [simp]: "copyMetadata (copyMetadata m) = copyMetadata m"
  by (auto simp: copyMetadata_def split: option.split)

text \<open>What the enricher returns overrides, key by key, what the packet carried.\<close>

lemma meta_get_enrich:
  "meta_get (enrichMetadata (Some f) info) k =
     (case meta_get (f (info\<lparr>si_Meta := copyMetadata (si_Meta info)\<rparr>)) k of
        None \<Rightarrow> meta_get (si_Meta info) k
      | Some v \<Rightarrow> Some v)"
proof -
  have "meta_get (Some (AList.merge (case m of None \<Rightarrow> [] | Some m \<Rightarrow> m) e)) k =
      (case map_of e k of None \<Rightarrow> meta_get m k | Some v \<Rightarrow> Some v)" for m e
    by (cases m) (auto simp: meta_get_def merge_conv' map_add_def split: option.split)
  moreover have "meta_get (copyMetadata (si_Meta info)) k = meta_get (si_Meta info) k"
    by simp
  ultimately show ?thesis
    by (auto simp: enrichMetadata_def Let_def meta_get_def [of "f _"] split: option.split)
qed

section \<open>The entries of a stream\<close>

record 'st streamEntry =
  se_Name :: string
  se_Stream :: 'st
  se_HasLimit :: bool
  se_Quota :: int

text \<open>
  The loop of a feed, from the last entry to the first: feed it, take in its updates, keep it or
  move it to the entries that are done. \<open>es\<close> are the entries left, last first.
\<close>

type_synonym 'st entry_result =
  "((PropUpdate option \<times> PropUpdate option \<times> bool) \<times> 'st streamEntry) go option"

fun feed_entries ::
    "('st streamEntry \<Rightarrow> 'st entry_result) \<Rightarrow> 'st streamEntry list \<Rightarrow>
     'st streamEntry list \<Rightarrow> 'st streamEntry list \<Rightarrow> CombinedPropMap \<Rightarrow> bool \<Rightarrow>
     ('st streamEntry list \<times> 'st streamEntry list \<times> CombinedPropMap \<times> bool) go option" where
  "feed_entries f [] active dn props updated = Some (Some (active, dn, props, updated))"
| "feed_entries f (e # es) active dn props updated =
     (case f e of
        None \<Rightarrow> None
      | Some None \<Rightarrow> Some None
      | Some (Some ((update, closeUpdate, fin), e)) \<Rightarrow>
          (let (props, up1) = processPropUpdate props (se_Name e) update;
               (props, up2) = processPropUpdate props (se_Name e) closeUpdate;
               updated = (updated \<or> up1 \<or> up2) in
           if fin then feed_entries f es active (dn @ [e]) props updated
           else feed_entries f es (e # active) dn props updated))"

text \<open>The loop of a close: every active entry, first to last.\<close>

fun close_entries ::
    "('st \<Rightarrow> PropUpdate option \<times> 'st) \<Rightarrow> 'st streamEntry list \<Rightarrow> CombinedPropMap \<Rightarrow> bool \<Rightarrow>
     'st streamEntry list \<times> CombinedPropMap \<times> bool" where
  "close_entries close [] props updated = ([], props, updated)"
| "close_entries close (e # es) props updated =
     (let (update, st) = close (se_Stream e);
          (props, up) = processPropUpdate props (se_Name e) update;
          (es, props, updated) = close_entries close es props (updated \<or> up) in
      (e\<lparr>se_Stream := st\<rparr> # es, props, updated))"

text \<open>
  An entry keeps its name through a feed. When no feed diverges or panics the loop does neither,
  and it deals the entries out between the active ones and those done.
\<close>

lemma feed_entries_ok:
  assumes "\<And>e. e \<in> set es \<Longrightarrow> \<exists>u c fin e'. f e = Some (Some ((u, c, fin), e')) \<and> (\<not> fin \<longrightarrow> Q e')"
    and "\<forall>e \<in> set active. Q e"
  shows "\<exists>active' dn' props' updated'.
           feed_entries f es active dn props updated = Some (Some (active', dn', props', updated'))
           \<and> (\<forall>e \<in> set active'. Q e)"
  using assms
proof (induction es arbitrary: active dn props updated)
  case (Cons e es)
  obtain u c fin e' where f: "f e = Some (Some ((u, c, fin), e'))" and q: "\<not> fin \<longrightarrow> Q e'"
    using Cons.prems(1) [of e] by auto
  show ?case
    using Cons.IH [of "if fin then active else e' # active"] Cons.prems q
    by (cases fin) (auto simp: f Let_def split: prod.split)
qed simp

lemma feed_entries_returns:
  assumes "\<And>e. e \<in> set es \<Longrightarrow> \<exists>r. f e = Some r \<and> (\<forall>u c fin e'. r = Some ((u, c, fin), e') \<longrightarrow> \<not> fin \<longrightarrow> Q e')"
    and "\<forall>e \<in> set active. Q e"
  shows "\<exists>r. feed_entries f es active dn props updated = Some r
           \<and> (\<forall>active' dn' props' updated'. r = Some (active', dn', props', updated') \<longrightarrow> (\<forall>e \<in> set active'. Q e))"
  using assms
proof (induction es arbitrary: active dn props updated)
  case (Cons e es)
  obtain r where f: "f e = Some r" and q: "\<forall>u c fin e'. r = Some ((u, c, fin), e') \<longrightarrow> \<not> fin \<longrightarrow> Q e'"
    using Cons.prems(1) [of e] by auto
  show ?case
  proof (cases r)
    case None
    then show ?thesis by (simp add: f)
  next
    case (Some x)
    then obtain u c fin e' where r: "r = Some ((u, c, fin), e')" by (cases x) auto
    show ?thesis
      using Cons.IH [of "if fin then active else e' # active"] Cons.prems q r
      by (cases fin) (auto simp: f Let_def split: prod.split)
  qed
qed simp

lemma feed_entries_empty_updated:
  "feed_entries f [] active dn props updated = Some (Some (active', dn', props', updated'))
     \<longleftrightarrow> active' = active \<and> dn' = dn \<and> props' = props \<and> updated' = updated"
  by auto

end
