(* ===== verification/TCPEngine.thy ===== *)
theory TCPEngine
  imports EngineBase
begin

text \<open>
  \<open>engine/tcp.go\<close>: a TCP stream and its analyzers. What analyzers do is a pair of functions, \<open>feed\<close>
  and \<open>close\<close>, on the state \<open>'st\<close> of an analyzer's stream; the theory Analyzers gives them for the
  analyzers of the repository. The reassembly of gopacket is a parameter in this form: for each
  packet it asks \<open>Accept\<close> once and, if told so, delivers the segments the packet completes to
  \<open>ReassembledSG\<close>, in order, with the context of the packet. gopacket passes the context of
  the first page it delivers; that is the current packet's whenever the packet continues the stream, but
  an earlier packet's when a full buffer makes it give up a gap and deliver queued data first. That
  case is not modelled.

  A result is \<open>None\<close> for a run that does not return and \<open>Some None\<close> for a panic.
\<close>

type_synonym 'st tcp_feed = "bool \<Rightarrow> bool \<Rightarrow> bool \<Rightarrow> int \<Rightarrow> bytes \<Rightarrow> 'st \<Rightarrow> 'st feed_result"
type_synonym 'st an_close = "bool \<Rightarrow> 'st \<Rightarrow> PropUpdate option \<times> 'st"

record tcpContext =
  tc_Verdict :: Verdict
  tc_Metadata :: metadata

record ('an, 'st) tcpStream =
  ts_info :: StreamInfo
  ts_virgin :: bool
  ts_ruleset :: "'an Ruleset"
  ts_activeEntries :: "'st streamEntry list"
  ts_doneEntries :: "'st streamEntry list"
  ts_lastVerdict :: Verdict

text \<open>
  \<open>New\<close>: the addresses and ports of the first packet, an identifier, the analyzers the ruleset asks
  for that are TCP analyzers. \<open>newTCP\<close> is the \<open>NewTCP\<close> of an analyzer, \<open>None\<close> if it has none.
\<close>

record 'an tcpStreamFactory =
  tf_WorkerID :: int
  tf_Ruleset :: "'an Ruleset"
  tf_MetadataEnricher :: "MetadataEnricher option"

record TCPInfo =
  ti_SrcIP :: bytes
  ti_DstIP :: bytes
  ti_SrcPort :: u16
  ti_DstPort :: u16

record ('an, 'st) analyzer_api =
  an_Name :: "'an \<Rightarrow> string"
  an_Limit :: "'an \<Rightarrow> int"
  an_New :: "'an \<Rightarrow> TCPInfo \<Rightarrow> 'st option"

definition analyzersToAPI :: "('an, 'st) analyzer_api \<Rightarrow> TCPInfo \<Rightarrow> 'an list \<Rightarrow> ('an \<times> 'st) list" where
  "analyzersToAPI api info ans =
     concat (map (\<lambda>a. case an_New api a info of None \<Rightarrow> [] | Some st \<Rightarrow> [(a, st)]) ans)"

definition new_entry :: "('an, 'st) analyzer_api \<Rightarrow> 'an \<times> 'st \<Rightarrow> 'st streamEntry" where
  "new_entry api = (\<lambda>(a, st).
     \<lparr>se_Name = an_Name api a, se_Stream = st, se_HasLimit = 0 < an_Limit api a, se_Quota = an_Limit api a\<rparr>)"

definition tcpStreamFactory_New ::
    "('an, 'st) analyzer_api \<Rightarrow> 'an tcpStreamFactory \<Rightarrow> int \<Rightarrow> TCPInfo \<Rightarrow> tcpContext \<Rightarrow>
     ('an, 'st) tcpStream \<times> event list" where
  "tcpStreamFactory_New api f sid tcp ctx =
     (let info = \<lparr>si_ID = sid, si_Protocol = ProtocolTCP, si_SrcIP = ti_SrcIP tcp, si_DstIP = ti_DstIP tcp,
                  si_SrcPort = ti_SrcPort tcp, si_DstPort = ti_DstPort tcp,
                  si_Meta = copyMetadata (tc_Metadata ctx), si_Props = Map.empty\<rparr>;
          info = info\<lparr>si_Meta := enrichMetadata (tf_MetadataEnricher f) info\<rparr>;
          rs = tf_Ruleset f;
          entries = map (new_entry api) (analyzersToAPI api tcp (rs_Analyzers rs info)) in
      (\<lparr>ts_info = info, ts_virgin = True, ts_ruleset = rs, ts_activeEntries = entries,
        ts_doneEntries = [], ts_lastVerdict = VerdictAccept\<rparr>,
       [StreamNew (tf_WorkerID f) info]))"

definition tcpStreamFactory_UpdateRuleset :: "'an Ruleset \<Rightarrow> 'an tcpStreamFactory \<Rightarrow> 'an tcpStreamFactory" where
  "tcpStreamFactory_UpdateRuleset r f = f\<lparr>tf_Ruleset := r\<rparr>"

definition tcpStream_Accept :: "('an, 'st) tcpStream \<Rightarrow> tcpContext \<Rightarrow> bool \<times> tcpContext" where
  "tcpStream_Accept s ctx =
     (if 0 < length (ts_activeEntries s) \<or> ts_virgin s then (True, ctx)
      else (False, ctx\<lparr>tc_Verdict := ts_lastVerdict s\<rparr>))"

definition actionToTCPVerdict :: "Action \<Rightarrow> Verdict" where
  "actionToTCPVerdict a =
     (case a of
        ActionMaybe \<Rightarrow> VerdictAcceptStream | ActionAllow \<Rightarrow> VerdictAcceptStream
      | ActionModify \<Rightarrow> VerdictAcceptStream
      | ActionBlock \<Rightarrow> VerdictDropStream | ActionDrop \<Rightarrow> VerdictDropStream)"

text \<open>An entry with a limit is given the first \<open>Quota\<close> bytes only; a negative quota would panic.\<close>

definition tcpStream_feedEntry ::
    "'st tcp_feed \<Rightarrow> 'st an_close \<Rightarrow> bool \<Rightarrow> bool \<Rightarrow> bool \<Rightarrow> int \<Rightarrow> bytes \<Rightarrow> 'st streamEntry \<Rightarrow> 'st entry_result" where
  "tcpStream_feedEntry feed close rv start en skip data entry =
     (if \<not> se_HasLimit entry then
        (case feed rv start en skip data (se_Stream entry) of
           None \<Rightarrow> None
         | Some None \<Rightarrow> Some None
         | Some (Some ((update, dn), st)) \<Rightarrow> Some (Some ((update, None, dn), entry\<lparr>se_Stream := st\<rparr>)))
      else if se_Quota entry < int (length data) \<and> se_Quota entry < 0 then Some None
      else
        (let qData = (if se_Quota entry < int (length data) then take (nat (se_Quota entry)) data else data) in
         case feed rv start en skip qData (se_Stream entry) of
           None \<Rightarrow> None
         | Some None \<Rightarrow> Some None
         | Some (Some ((update, dn), st)) \<Rightarrow>
             (let entry = entry\<lparr>se_Stream := st, se_Quota := se_Quota entry - int (length qData)\<rparr> in
              if se_Quota entry \<le> 0 then
                (let (closeUpdate, st) = close True (se_Stream entry) in
                 Some (Some ((update, closeUpdate, True), entry\<lparr>se_Stream := st\<rparr>)))
              else Some (Some ((update, None, dn), entry)))))"

definition tcpStream_closeActiveEntries ::
    "'st an_close \<Rightarrow> ('an, 'st) tcpStream \<Rightarrow> ('an, 'st) tcpStream \<times> event list" where
  "tcpStream_closeActiveEntries close s =
     (let (closed, props, updated) = close_entries (close False) (ts_activeEntries s) (si_Props (ts_info s)) False;
          s = s\<lparr>ts_info := (ts_info s)\<lparr>si_Props := props\<rparr>\<rparr> in
      (s\<lparr>ts_doneEntries := ts_doneEntries s @ closed, ts_activeEntries := []\<rparr>,
       if updated then [StreamPropUpdate (ts_info s) True] else []))"

text \<open>The segment: direction, start, end, skip and data.\<close>

type_synonym segment = "bool \<times> bool \<times> bool \<times> int \<times> bytes"

text \<open>The part of \<open>ReassembledSG\<close> after the loop over the entries.\<close>

definition tcpStream_match ::
    "'st an_close \<Rightarrow> ('an, 'st) tcpStream \<Rightarrow> tcpContext \<Rightarrow> ('an, 'st) tcpStream \<times> tcpContext \<times> event list" where
  "tcpStream_match close s ctx =
     (let s = s\<lparr>ts_virgin := False\<rparr>;
          action = mr_Action (rs_Match (ts_ruleset s) (ts_info s));
          ev = [StreamPropUpdate (ts_info s) False] in
      if action \<noteq> ActionMaybe \<and> action \<noteq> ActionModify then
        (let verdict = actionToTCPVerdict action;
             s = s\<lparr>ts_lastVerdict := verdict\<rparr>;
             ev = ev @ [StreamAction (ts_info s) action False];
             (s, ev') = tcpStream_closeActiveEntries close s in
         (s, ctx\<lparr>tc_Verdict := verdict\<rparr>, ev @ ev'))
      else (s, ctx, ev))"

definition tcpStream_ReassembledSG ::
    "'st tcp_feed \<Rightarrow> 'st an_close \<Rightarrow> segment \<Rightarrow> ('an, 'st) tcpStream \<Rightarrow> tcpContext \<Rightarrow>
     (('an, 'st) tcpStream \<times> tcpContext \<times> event list) go option" where
  "tcpStream_ReassembledSG feed close sg s ctx =
     (let (rv, start, en, skip, data) = sg in
      case feed_entries (tcpStream_feedEntry feed close rv start en skip data)
             (rev (ts_activeEntries s)) [] (ts_doneEntries s) (si_Props (ts_info s)) False of
        None \<Rightarrow> None
      | Some None \<Rightarrow> Some None
      | Some (Some (active, dn, props, updated)) \<Rightarrow>
          (let s = s\<lparr>ts_activeEntries := active, ts_doneEntries := dn,
                     ts_info := (ts_info s)\<lparr>si_Props := props\<rparr>\<rparr>;
               (s, ctx, ev) = (if updated \<or> ts_virgin s then tcpStream_match close s ctx else (s, ctx, [])) in
           if length (ts_activeEntries s) = 0 \<and> tc_Verdict ctx = VerdictAccept then
             Some (Some (s\<lparr>ts_lastVerdict := VerdictAcceptStream\<rparr>,
                         ctx\<lparr>tc_Verdict := VerdictAcceptStream\<rparr>,
                         ev @ [StreamAction (ts_info s) ActionAllow True]))
           else Some (Some (s, ctx, ev))))"

definition tcpStream_ReassemblyComplete ::
    "'st an_close \<Rightarrow> ('an, 'st) tcpStream \<Rightarrow> ('an, 'st) tcpStream \<times> event list" where
  "tcpStream_ReassemblyComplete close s = tcpStream_closeActiveEntries close s"

section \<open>Packets\<close>

text \<open>
  \<open>handleTCP\<close> of \<open>engine/worker.go\<close> for a packet of a known stream, with the segments the
  assembler delivers for it.
\<close>

fun tcp_segments ::
    "'st tcp_feed \<Rightarrow> 'st an_close \<Rightarrow> segment list \<Rightarrow> ('an, 'st) tcpStream \<Rightarrow> tcpContext \<Rightarrow>
     (('an, 'st) tcpStream \<times> tcpContext \<times> event list) go option" where
  "tcp_segments feed close [] s ctx = Some (Some (s, ctx, []))"
| "tcp_segments feed close (sg # sgs) s ctx =
     (case tcpStream_ReassembledSG feed close sg s ctx of
        None \<Rightarrow> None
      | Some None \<Rightarrow> Some None
      | Some (Some (s, ctx, ev)) \<Rightarrow>
          (case tcp_segments feed close sgs s ctx of
             None \<Rightarrow> None
           | Some None \<Rightarrow> Some None
           | Some (Some (s, ctx, ev')) \<Rightarrow> Some (Some (s, ctx, ev @ ev'))))"

definition worker_handleTCP ::
    "'st tcp_feed \<Rightarrow> 'st an_close \<Rightarrow> metadata \<Rightarrow> segment list \<Rightarrow> ('an, 'st) tcpStream \<Rightarrow>
     (('an, 'st) tcpStream \<times> Verdict \<times> event list) go option" where
  "worker_handleTCP feed close metadata sgs s =
     (let (ok, ctx) = tcpStream_Accept s \<lparr>tc_Verdict = VerdictAccept, tc_Metadata = metadata\<rparr> in
      if \<not> ok then Some (Some (s, tc_Verdict ctx, []))
      else
        (case tcp_segments feed close sgs s ctx of
           None \<Rightarrow> None
         | Some None \<Rightarrow> Some None
         | Some (Some (s, ctx, ev)) \<Rightarrow> Some (Some (s, tc_Verdict ctx, ev))))"

section \<open>What a segment does to a stream\<close>

lemma closeActiveEntries_simps [simp]:
  "ts_activeEntries (fst (tcpStream_closeActiveEntries close s)) = []"
  "ts_virgin (fst (tcpStream_closeActiveEntries close s)) = ts_virgin s"
  "ts_lastVerdict (fst (tcpStream_closeActiveEntries close s)) = ts_lastVerdict s"
  "ts_ruleset (fst (tcpStream_closeActiveEntries close s)) = ts_ruleset s"
  by (simp_all add: tcpStream_closeActiveEntries_def Let_def split: prod.split)

text \<open>The three outcomes of matching the ruleset.\<close>

lemma tcpStream_match_cases:
  assumes "tcpStream_match close s ctx = (s', ctx', ev)"
  shows "\<not> ts_virgin s' \<and> ts_ruleset s' = ts_ruleset s
     \<and> (if mr_Action (rs_Match (ts_ruleset s) (ts_info s)) \<in> {ActionMaybe, ActionModify}
        then ctx' = ctx \<and> ts_activeEntries s' = ts_activeEntries s \<and> ts_lastVerdict s' = ts_lastVerdict s
        else ts_activeEntries s' = []
          \<and> ts_lastVerdict s' = actionToTCPVerdict (mr_Action (rs_Match (ts_ruleset s) (ts_info s)))
          \<and> tc_Verdict ctx' = ts_lastVerdict s')"
proof -
  let ?a = "mr_Action (rs_Match (ts_ruleset s) (ts_info s))"
  obtain s1 ev1 where c: "tcpStream_closeActiveEntries close
      (s\<lparr>ts_virgin := False, ts_lastVerdict := actionToTCPVerdict ?a\<rparr>) = (s1, ev1)"
    by fastforce
  have "ts_activeEntries s1 = []" "\<not> ts_virgin s1" "ts_lastVerdict s1 = actionToTCPVerdict ?a"
    "ts_ruleset s1 = ts_ruleset s"
    using closeActiveEntries_simps [of close "s\<lparr>ts_virgin := False, ts_lastVerdict := actionToTCPVerdict ?a\<rparr>"]
    unfolding c by simp_all
  then show ?thesis
    using assms by (auto simp: tcpStream_match_def Let_def c)
qed

definition tcp_decides :: "Action \<Rightarrow> bool" where
  "tcp_decides a \<longleftrightarrow> a \<noteq> ActionMaybe \<and> a \<noteq> ActionModify"

lemma actionToTCPVerdict_final: "actionToTCPVerdict a \<in> {VerdictAcceptStream, VerdictDropStream}"
  by (cases a) (simp_all add: actionToTCPVerdict_def)

lemma actionToTCPVerdict_not_accept [simp]:
  "actionToTCPVerdict a \<noteq> VerdictAccept" "VerdictAccept \<noteq> actionToTCPVerdict a"
  by (cases a; simp add: actionToTCPVerdict_def)+

text \<open>
  The contract of a stream, as one sees it from outside: it is pending, or it has decided on a
  verdict for good.
\<close>

datatype tcp_phase = Pending | Decided Verdict

definition tcp_phase :: "('an, 'st) tcpStream \<Rightarrow> tcp_phase" where
  "tcp_phase s = (if ts_virgin s \<or> ts_activeEntries s \<noteq> [] then Pending else Decided (ts_lastVerdict s))"

inductive tcp_step :: "tcp_phase \<Rightarrow> Verdict \<Rightarrow> tcp_phase \<Rightarrow> bool" where
  wait: "tcp_step Pending VerdictAccept Pending"
| decide: "v \<in> {VerdictAcceptStream, VerdictDropStream} \<Longrightarrow> tcp_step Pending v (Decided v)"
| keep: "tcp_step (Decided v) v (Decided v)"

inductive_cases tcp_step_DecidedE: "tcp_step (Decided v) v' p"

text \<open>
  The state while the segments of one packet are delivered: no verdict yet, or a verdict that the
  stream has recorded.
\<close>

definition tcp_consistent :: "('an, 'st) tcpStream \<Rightarrow> tcpContext \<Rightarrow> bool" where
  "tcp_consistent s ctx \<longleftrightarrow>
     (if tc_Verdict ctx = VerdictAccept then ts_virgin s \<or> ts_activeEntries s \<noteq> []
      else \<not> ts_virgin s \<and> ts_activeEntries s = [] \<and> ts_lastVerdict s = tc_Verdict ctx
           \<and> tc_Verdict ctx \<in> {VerdictAcceptStream, VerdictDropStream})"

text \<open>A segment by its two halves: the loop over the entries, then the match.\<close>

lemma ReassembledSG_run:
  assumes "feed_entries (tcpStream_feedEntry feed close rv st en sk d) (rev (ts_activeEntries s)) []
             (ts_doneEntries s) (si_Props (ts_info s)) False = Some (Some (act, dn, props, upd))"
    and "s1 = s\<lparr>ts_activeEntries := act, ts_doneEntries := dn, ts_info := (ts_info s)\<lparr>si_Props := props\<rparr>\<rparr>"
    and "(if upd \<or> ts_virgin s1 then tcpStream_match close s1 ctx else (s1, ctx, [])) = (s2, ctx2, ev2)"
  shows "tcpStream_ReassembledSG feed close (rv, st, en, sk, d) s ctx =
           Some (Some (if ts_activeEntries s2 = [] \<and> tc_Verdict ctx2 = VerdictAccept
             then (s2\<lparr>ts_lastVerdict := VerdictAcceptStream\<rparr>, ctx2\<lparr>tc_Verdict := VerdictAcceptStream\<rparr>,
                   ev2 @ [StreamAction (ts_info s2) ActionAllow True])
             else (s2, ctx2, ev2)))"
  using assms(3) unfolding tcpStream_ReassembledSG_def Let_def prod.case assms(1) option.case assms(2) [symmetric]
  by (simp split: prod.splits)

lemma tcp_consistent_step:
  assumes c: "tcp_consistent s ctx"
    and r: "tcpStream_ReassembledSG feed close sg s ctx = Some (Some (s', ctx', ev))"
  shows "tcp_consistent s' ctx'"
proof -
  obtain rv st en sk d where sg: "sg = (rv, st, en, sk, d)" by (cases sg)
  let ?f = "tcpStream_feedEntry feed close rv st en sk d"
  obtain act dn props upd where f: "feed_entries ?f (rev (ts_activeEntries s)) [] (ts_doneEntries s)
      (si_Props (ts_info s)) False = Some (Some (act, dn, props, upd))"
    using r by (auto simp: tcpStream_ReassembledSG_def sg split: option.splits)
  define s1 where "s1 = s\<lparr>ts_activeEntries := act, ts_doneEntries := dn, ts_info := (ts_info s)\<lparr>si_Props := props\<rparr>\<rparr>"
  obtain s2 ctx2 ev2 where m: "(if upd \<or> ts_virgin s1 then tcpStream_match close s1 ctx else (s1, ctx, [])) = (s2, ctx2, ev2)"
    by (metis prod_cases3)
  have res: "(s', ctx') = (if ts_activeEntries s2 = [] \<and> tc_Verdict ctx2 = VerdictAccept
      then (s2\<lparr>ts_lastVerdict := VerdictAcceptStream\<rparr>, ctx2\<lparr>tc_Verdict := VerdictAcceptStream\<rparr>) else (s2, ctx2))"
    using r unfolding sg ReassembledSG_run [OF f s1_def m] by (auto split: if_splits)
  show ?thesis
  proof (cases "tc_Verdict ctx = VerdictAccept")
    case False
    then have "act = []" "\<not> upd" "\<not> ts_virgin s" "ts_activeEntries s = []"
      using c f by (auto simp: tcp_consistent_def)
    then show ?thesis
      using m res c False by (auto simp: s1_def tcp_consistent_def)
  next
    case True
    show ?thesis
    proof (cases "upd \<or> ts_virgin s1")
      case True
      then have "tcpStream_match close s1 ctx = (s2, ctx2, ev2)" using m by simp
      from tcpStream_match_cases [OF this] show ?thesis
        using res \<open>tc_Verdict ctx = VerdictAccept\<close> actionToTCPVerdict_final
        by (auto simp: tcp_consistent_def split: if_splits)
    next
      case False
      then show ?thesis
        using m res \<open>tc_Verdict ctx = VerdictAccept\<close> by (auto simp: tcp_consistent_def s1_def split: if_splits)
    qed
  qed
qed

lemma tcp_consistent_segments:
  assumes "tcp_consistent s ctx" "tcp_segments feed close sgs s ctx = Some (Some (s', ctx', ev))"
  shows "tcp_consistent s' ctx'"
  using assms
proof (induction sgs arbitrary: s ctx ev)
  case (Cons sg sgs)
  obtain s1 ctx1 ev1 ev2 where one: "tcpStream_ReassembledSG feed close sg s ctx = Some (Some (s1, ctx1, ev1))"
    and rest: "tcp_segments feed close sgs s1 ctx1 = Some (Some (s', ctx', ev2))"
    using Cons.prems(2) by (auto split: option.splits)
  show ?case
    by (rule Cons.IH [OF tcp_consistent_step [OF Cons.prems(1) one] rest])
qed simp

lemma handleTCP_refines:
  assumes "worker_handleTCP feed close md sgs s = Some (Some (s', v, ev))"
  shows "tcp_step (tcp_phase s) v (tcp_phase s')"
proof (cases "ts_virgin s \<or> ts_activeEntries s \<noteq> []")
  case False
  then show ?thesis
    using assms by (auto simp: worker_handleTCP_def tcpStream_Accept_def tcp_phase_def intro: tcp_step.keep)
next
  case True
  let ?ctx = "\<lparr>tc_Verdict = VerdictAccept, tc_Metadata = md\<rparr>"
  obtain ctx' where seg: "tcp_segments feed close sgs s ?ctx = Some (Some (s', ctx', ev))" and v: "v = tc_Verdict ctx'"
    using assms True by (auto simp: worker_handleTCP_def tcpStream_Accept_def split: option.splits)
  have "tcp_consistent s ?ctx" using True by (simp add: tcp_consistent_def)
  from tcp_consistent_segments [OF this seg] show ?thesis
    using True v by (auto simp: tcp_consistent_def tcp_phase_def intro: tcp_step.intros split: if_splits)
qed

text \<open>The packets of a stream, each with the segments it completes, and their verdicts.\<close>

fun tcp_packets ::
    "'st tcp_feed \<Rightarrow> 'st an_close \<Rightarrow> (metadata \<times> segment list) list \<Rightarrow> ('an, 'st) tcpStream \<Rightarrow>
     (('an, 'st) tcpStream \<times> Verdict list) go option" where
  "tcp_packets feed close [] s = Some (Some (s, []))"
| "tcp_packets feed close ((md, sgs) # ps) s =
     (case worker_handleTCP feed close md sgs s of
        None \<Rightarrow> None
      | Some None \<Rightarrow> Some None
      | Some (Some (s, v, ev)) \<Rightarrow>
          (case tcp_packets feed close ps s of
             None \<Rightarrow> None
           | Some None \<Rightarrow> Some None
           | Some (Some (s, vs)) \<Rightarrow> Some (Some (s, v # vs))))"

lemma tcp_packets_Cons:
  assumes "tcp_packets feed close (p # ps) s = Some (Some (s', vs))"
  obtains s1 v ev vs' where "worker_handleTCP feed close (fst p) (snd p) s = Some (Some (s1, v, ev))"
    "tcp_packets feed close ps s1 = Some (Some (s', vs'))" "vs = v # vs'"
  using assms by (cases p) (auto split: option.splits)

lemma tcp_packets_Decided:
  assumes "tcp_packets feed close ps s = Some (Some (s', vs))" "tcp_phase s = Decided v"
  shows "vs = replicate (length ps) v"
  using assms
proof (induction ps arbitrary: s vs)
  case (Cons p ps)
  from Cons.prems(1) obtain s1 v1 ev vs' where one:
    "worker_handleTCP feed close (fst p) (snd p) s = Some (Some (s1, v1, ev))"
    and rest: "tcp_packets feed close ps s1 = Some (Some (s', vs'))" "vs = v1 # vs'"
    by (rule tcp_packets_Cons)
  from handleTCP_refines [OF one] have "v1 = v" "tcp_phase s1 = Decided v"
    unfolding Cons.prems(2) by (auto elim: tcp_step_DecidedE)
  then show ?case using Cons.IH [OF rest(1)] rest(2) by simp
qed simp

lemma tcp_packets_Pending:
  assumes "tcp_packets feed close ps s = Some (Some (s', vs))" "tcp_phase s = Pending"
  shows "\<exists>n m v. vs = replicate n VerdictAccept @ replicate m v \<and> v \<in> {VerdictAcceptStream, VerdictDropStream}"
  using assms
proof (induction ps arbitrary: s vs)
  case Nil
  then show ?case by (auto intro: exI [of _ 0])
next
  case (Cons p ps)
  from Cons.prems(1) obtain s1 v1 ev vs' where one:
    "worker_handleTCP feed close (fst p) (snd p) s = Some (Some (s1, v1, ev))"
    and rest: "tcp_packets feed close ps s1 = Some (Some (s', vs'))" "vs = v1 # vs'"
    by (rule tcp_packets_Cons)
  from handleTCP_refines [OF one, unfolded Cons.prems(2)] show ?case
  proof cases
    case wait
    then obtain n m v where "vs' = replicate n VerdictAccept @ replicate m v" "v \<in> {VerdictAcceptStream, VerdictDropStream}"
      using Cons.IH [OF rest(1)] by metis
    then show ?thesis
      using rest(2) wait by (intro exI [of _ "Suc n"] exI [of _ m] exI [of _ v]) simp
  next
    case decide
    then have "vs = replicate 0 VerdictAccept @ replicate (Suc (length ps)) v1"
      using tcp_packets_Decided [OF rest(1)] rest(2) by simp
    then show ?thesis using decide by blast
  qed
qed

text \<open>
  C13. The verdicts on the packets of a new TCP stream are a run of Accept followed by one final
  verdict, AcceptStream or DropStream, for all the rest.
\<close>

theorem tcp_verdicts:
  assumes "tcp_packets feed close ps (fst (tcpStreamFactory_New api f sid tcp ctx)) = Some (Some (s', vs))"
  shows "\<exists>n m v. vs = replicate n VerdictAccept @ replicate m v \<and> v \<in> {VerdictAcceptStream, VerdictDropStream}"
  by (rule tcp_packets_Pending [OF assms]) (simp add: tcpStreamFactory_New_def tcp_phase_def Let_def)

text \<open>
  C2. Whatever the analyzers and the rules answer, a packet takes a TCP stream through the
  abstract machine: it is accepted and the stream stays pending, or the stream is decided on
  accepting or dropping, and a decided stream gives its verdict to every packet.
\<close>

theorem tcp_refines:
  assumes "worker_handleTCP feed close md sgs s = Some (Some (s', v, ev))"
  shows "tcp_step (tcp_phase s) v (tcp_phase s')"
  using assms by (rule handleTCP_refines)

text \<open>The first segment of a stream is matched against the ruleset, whatever its analyzers say.\<close>

theorem tcp_first_segment_matched:
  assumes "ts_virgin s" "tcpStream_ReassembledSG feed close sg s ctx = Some (Some (s', ctx', ev))"
  shows "\<not> ts_virgin s' \<and> (\<exists>info ev'. ev = StreamPropUpdate info False # ev'
     \<and> (tcp_decides (mr_Action (rs_Match (ts_ruleset s) info)) \<longrightarrow>
          tc_Verdict ctx' = actionToTCPVerdict (mr_Action (rs_Match (ts_ruleset s) info))
          \<and> ts_lastVerdict s' = tc_Verdict ctx' \<and> ts_activeEntries s' = []))"
proof -
  obtain rv st en sk d where sg: "sg = (rv, st, en, sk, d)" by (cases sg)
  obtain act dn props upd where f: "feed_entries (tcpStream_feedEntry feed close rv st en sk d)
      (rev (ts_activeEntries s)) [] (ts_doneEntries s) (si_Props (ts_info s)) False = Some (Some (act, dn, props, upd))"
    using assms(2) by (auto simp: tcpStream_ReassembledSG_def sg split: option.splits)
  define s1 where "s1 = s\<lparr>ts_activeEntries := act, ts_doneEntries := dn, ts_info := (ts_info s)\<lparr>si_Props := props\<rparr>\<rparr>"
  have s1: "ts_virgin s1" "ts_ruleset s1 = ts_ruleset s" by (simp_all add: s1_def assms(1))
  obtain s2 ctx2 ev2 where m: "tcpStream_match close s1 ctx = (s2, ctx2, ev2)"
    by (metis prod_cases3)
  have res: "(s', ctx', ev) = (if ts_activeEntries s2 = [] \<and> tc_Verdict ctx2 = VerdictAccept
      then (s2\<lparr>ts_lastVerdict := VerdictAcceptStream\<rparr>, ctx2\<lparr>tc_Verdict := VerdictAcceptStream\<rparr>,
             ev2 @ [StreamAction (ts_info s2) ActionAllow True]) else (s2, ctx2, ev2))"
    using assms(2) ReassembledSG_run [OF f s1_def, of ctx s2 ctx2 ev2] m s1(1) unfolding sg by simp
  have ev: "\<exists>ev'. ev2 = StreamPropUpdate (ts_info s1) False # ev'"
    using m by (auto simp: tcpStream_match_def Let_def split: if_splits prod.splits)
  show ?thesis
    using res ev tcpStream_match_cases [OF m] s1 actionToTCPVerdict_final
    by (auto simp: tcp_decides_def split: if_splits)
qed

section \<open>What an analyzer with a limit is shown\<close>

text \<open>The segments of one direction or both, fed to one entry until it is done.\<close>

fun entry_feeds ::
    "'st tcp_feed \<Rightarrow> 'st an_close \<Rightarrow> segment list \<Rightarrow> 'st streamEntry \<Rightarrow> (bool \<times> 'st streamEntry) go option" where
  "entry_feeds feed close [] e = Some (Some (False, e))"
| "entry_feeds feed close ((rv, start, en, skip, data) # sgs) e =
     (case tcpStream_feedEntry feed close rv start en skip data e of
        None \<Rightarrow> None
      | Some None \<Rightarrow> Some None
      | Some (Some ((u, c, fin), e)) \<Rightarrow> if fin then Some (Some (True, e)) else entry_feeds feed close sgs e)"

text \<open>An analyzer that records what it is shown, and how it was closed.\<close>

type_synonym recorder = "bytes list \<times> bool option"

definition record_feed :: "recorder tcp_feed" where
  "record_feed rv start en skip data s = Some (Some ((None, False), (fst s @ [data], snd s)))"

definition record_close :: "recorder an_close" where
  "record_close limited s = (None, (fst s, Some limited))"

definition seg_data :: "segment \<Rightarrow> bytes" where
  "seg_data sg = (case sg of (rv, start, en, skip, data) \<Rightarrow> data)"

lemma entry_feeds_quota:
  assumes "se_HasLimit e" "0 < se_Quota e" "snd (se_Stream e) = None"
  shows "\<exists>e'. entry_feeds record_feed record_close sgs e =
              Some (Some (se_Quota e \<le> int (length (concat (map seg_data sgs))), e'))
           \<and> concat (fst (se_Stream e')) =
               concat (fst (se_Stream e)) @ take (nat (se_Quota e)) (concat (map seg_data sgs))
           \<and> snd (se_Stream e') = (if se_Quota e \<le> int (length (concat (map seg_data sgs))) then Some True else None)"
  using assms
proof (induction sgs arbitrary: e)
  case (Cons sg sgs)
  obtain rv start en skip data where sg: "sg = (rv, start, en, skip, data)" by (cases sg)
  let ?q = "se_Quota e" and ?n = "int (length data)"
  show ?case
  proof (cases "?q \<le> ?n")
    case True
    then have "(if ?q < ?n then take (nat ?q) data else data) = take (nat ?q) data"
      by auto
    moreover have "int (length (take (nat ?q) data)) = ?q"
      using True Cons.prems(2) by auto
    ultimately show ?thesis
      using True Cons.prems
      by (auto simp: sg tcpStream_feedEntry_def record_feed_def record_close_def Let_def seg_data_def)
  next
    case False
    let ?e = "e\<lparr>se_Stream := (fst (se_Stream e) @ [data], snd (se_Stream e)), se_Quota := ?q - ?n\<rparr>"
    have "tcpStream_feedEntry record_feed record_close rv start en skip data e = Some (Some ((None, None, False), ?e))"
      using False Cons.prems by (simp add: tcpStream_feedEntry_def record_feed_def Let_def)
    moreover have "nat (?q - ?n) = nat ?q - length data" "length data \<le> nat ?q"
      using False by auto
    ultimately show ?thesis
      using Cons.IH [of ?e] Cons.prems False
      by (auto simp: sg seg_data_def)
  qed
qed simp

definition all_data :: "segment list \<Rightarrow> bytes" where
  "all_data sgs = concat (map seg_data sgs)"

text \<open>
  An analyzer with a limit is shown exactly the first bytes of the stream up to the limit,
  over all segments and both directions, and is closed as limited when it has seen them all.
\<close>

lemma tcp_limit_prefix:
  assumes "0 < limit"
  shows "\<exists>e. entry_feeds record_feed record_close sgs
               \<lparr>se_Name = name, se_Stream = ([], None), se_HasLimit = True, se_Quota = limit\<rparr> =
               Some (Some (limit \<le> int (length (all_data sgs)), e))
           \<and> concat (fst (se_Stream e)) = take (nat limit) (all_data sgs)
           \<and> snd (se_Stream e) = (if limit \<le> int (length (all_data sgs)) then Some True else None)"
  using entry_feeds_quota [of "\<lparr>se_Name = name, se_Stream = ([], None), se_HasLimit = True, se_Quota = limit\<rparr>" sgs] assms(1)
  unfolding all_data_def by simp

section \<open>Analyzers that return\<close>

definition entry_inv :: "('st \<Rightarrow> bool) \<Rightarrow> 'st streamEntry \<Rightarrow> bool" where
  "entry_inv good e \<longleftrightarrow> good (se_Stream e) \<and> (se_HasLimit e \<longrightarrow> 0 < se_Quota e)"

text \<open>
  The contract of the analyzers: feeding a stream that satisfies the invariant returns, and unless
  it panics or is done the invariant is kept. Then every packet of a stream of such analyzers returns.
\<close>

locale tcp_analyzers =
  fixes feed :: "'st tcp_feed" and close :: "'st an_close" and good :: "'st \<Rightarrow> bool"
  assumes feed_returns:
    "good s \<Longrightarrow> \<exists>r. feed rv start en skip data s = Some r \<and> (\<forall>u s'. r = Some ((u, False), s') \<longrightarrow> good s')"
begin

lemma entry_returns:
  assumes "entry_inv good e"
  shows "\<exists>r. tcpStream_feedEntry feed close rv start en skip data e = Some r
           \<and> (\<forall>u c fin e'. r = Some ((u, c, fin), e') \<longrightarrow> \<not> fin \<longrightarrow> entry_inv good e')"
proof -
  let ?q = "if se_HasLimit e \<and> se_Quota e < int (length data) then take (nat (se_Quota e)) data else data"
  obtain r where r: "feed rv start en skip ?q (se_Stream e) = Some r" "\<forall>u s'. r = Some ((u, False), s') \<longrightarrow> good s'"
    using feed_returns assms unfolding entry_inv_def by blast
  show ?thesis
    using r assms unfolding tcpStream_feedEntry_def entry_inv_def
    by (cases r) (auto simp: Let_def split: prod.splits if_splits)
qed

lemma segment_returns:
  assumes "\<forall>e \<in> set (ts_activeEntries s). entry_inv good e"
  shows "\<exists>r. tcpStream_ReassembledSG feed close sg s ctx = Some r
           \<and> (\<forall>s' ctx' ev. r = Some (s', ctx', ev) \<longrightarrow> (\<forall>e \<in> set (ts_activeEntries s'). entry_inv good e))"
proof -
  obtain rv st en sk d where sg: "sg = (rv, st, en, sk, d)" by (cases sg)
  let ?f = "tcpStream_feedEntry feed close rv st en sk d"
  have ret: "\<exists>r. ?f e = Some r \<and> (\<forall>u c fin e'. r = Some ((u, c, fin), e') \<longrightarrow> \<not> fin \<longrightarrow> entry_inv good e')"
    if "e \<in> set (rev (ts_activeEntries s))" for e
    using entry_returns assms that by simp
  obtain r where r: "feed_entries ?f (rev (ts_activeEntries s)) [] (ts_doneEntries s) (si_Props (ts_info s)) False = Some r"
    and q: "\<forall>a d p u. r = Some (a, d, p, u) \<longrightarrow> (\<forall>e \<in> set a. entry_inv good e)"
    using feed_entries_returns [of "rev (ts_activeEntries s)" ?f "entry_inv good" "[]" "ts_doneEntries s"
        "si_Props (ts_info s)" False] ret by auto
  show ?thesis
  proof (cases r)
    case None
    then show ?thesis using r by (simp add: tcpStream_ReassembledSG_def sg)
  next
    case (Some x)
    obtain act dn props upd where x: "x = (act, dn, props, upd)" by (cases x)
    define s1 where "s1 = s\<lparr>ts_activeEntries := act, ts_doneEntries := dn, ts_info := (ts_info s)\<lparr>si_Props := props\<rparr>\<rparr>"
    obtain s2 ctx2 ev2 where m: "(if upd \<or> ts_virgin s1 then tcpStream_match close s1 ctx else (s1, ctx, [])) = (s2, ctx2, ev2)"
      by (metis prod_cases3)
    have act: "\<forall>e \<in> set (ts_activeEntries s2). entry_inv good e"
    proof (cases "upd \<or> ts_virgin s1")
      case True
      then have "tcpStream_match close s1 ctx = (s2, ctx2, ev2)" using m by simp
      from tcpStream_match_cases [OF this] show ?thesis
        using q Some x by (auto simp: s1_def split: if_splits)
    next
      case False
      then show ?thesis using m q Some x by (auto simp: s1_def)
    qed
    then show ?thesis
      using r Some x unfolding sg
      by (subst ReassembledSG_run [OF _ s1_def m]) auto
  qed
qed

lemma segments_return:
  assumes "\<forall>e \<in> set (ts_activeEntries s). entry_inv good e"
  shows "\<exists>r. tcp_segments feed close sgs s ctx = Some r
           \<and> (\<forall>s' ctx' ev. r = Some (s', ctx', ev) \<longrightarrow> (\<forall>e \<in> set (ts_activeEntries s'). entry_inv good e))"
  using assms
proof (induction sgs arbitrary: s ctx)
  case (Cons sg sgs)
  obtain r where r: "tcpStream_ReassembledSG feed close sg s ctx = Some r"
    "\<forall>s' ctx' ev. r = Some (s', ctx', ev) \<longrightarrow> (\<forall>e \<in> set (ts_activeEntries s'). entry_inv good e)"
    using segment_returns [OF Cons.prems] by blast
  show ?case
  proof (cases r)
    case (Some x)
    obtain s1 ctx1 ev1 where x: "x = (s1, ctx1, ev1)" by (cases x)
    then obtain r' where "tcp_segments feed close sgs s1 ctx1 = Some r'"
      "\<forall>s' ctx' ev. r' = Some (s', ctx', ev) \<longrightarrow> (\<forall>e \<in> set (ts_activeEntries s'). entry_inv good e)"
      using Cons.IH [of s1 ctx1] r Some by auto
    then show ?thesis using r Some x by (cases r') auto
  qed (simp add: r)
qed simp

lemma packet_returns:
  assumes "\<forall>e \<in> set (ts_activeEntries s). entry_inv good e"
  shows "\<exists>r. worker_handleTCP feed close md sgs s = Some r
           \<and> (\<forall>s' v ev. r = Some (s', v, ev) \<longrightarrow> (\<forall>e \<in> set (ts_activeEntries s'). entry_inv good e))"
proof -
  obtain ok ctx where a: "tcpStream_Accept s \<lparr>tc_Verdict = VerdictAccept, tc_Metadata = md\<rparr> = (ok, ctx)" by fastforce
  obtain r where "tcp_segments feed close sgs s ctx = Some r"
    "\<forall>s' ctx' ev. r = Some (s', ctx', ev) \<longrightarrow> (\<forall>e \<in> set (ts_activeEntries s'). entry_inv good e)"
    using segments_return [OF assms] by blast
  then show ?thesis
    using assms by (cases r) (auto simp: worker_handleTCP_def a)
qed

end

text \<open>Analyzers that do not panic either.\<close>

locale tcp_analyzers_safe = tcp_analyzers +
  assumes feed_safe: "good s \<Longrightarrow> feed rv start en skip data s \<noteq> Some None"
begin

lemma entry_safe:
  assumes "entry_inv good e"
  shows "tcpStream_feedEntry feed close rv start en skip data e \<noteq> Some None"
  using assms feed_safe unfolding tcpStream_feedEntry_def entry_inv_def
  by (auto simp: Let_def split: option.splits prod.splits if_splits)

lemma entries_safe:
  "\<forall>e \<in> set es. entry_inv good e \<Longrightarrow>
   feed_entries (tcpStream_feedEntry feed close rv start en skip data) es active dn props upd \<noteq> Some None"
proof (induction es arbitrary: active dn props upd)
  case (Cons e es)
  then show ?case
    using entry_safe [of e rv start en skip data]
    by (auto simp: Let_def split: option.splits prod.splits)
qed simp

lemma segment_safe:
  assumes "\<forall>e \<in> set (ts_activeEntries s). entry_inv good e"
  shows "tcpStream_ReassembledSG feed close sg s ctx \<noteq> Some None"
  using entries_safe [of "rev (ts_activeEntries s)"] assms
  by (auto simp: tcpStream_ReassembledSG_def Let_def split: option.splits prod.splits if_splits)

lemma segments_safe:
  assumes "\<forall>e \<in> set (ts_activeEntries s). entry_inv good e"
  shows "tcp_segments feed close sgs s ctx \<noteq> Some None"
  using assms
proof (induction sgs arbitrary: s ctx)
  case (Cons sg sgs)
  obtain r where r: "tcpStream_ReassembledSG feed close sg s ctx = Some r"
    "\<forall>s' ctx' ev. r = Some (s', ctx', ev) \<longrightarrow> (\<forall>e \<in> set (ts_activeEntries s'). entry_inv good e)"
    using segment_returns [OF Cons.prems] by blast
  then show ?case
    using segment_safe [OF Cons.prems, of sg ctx] Cons.IH
    by (cases r) (auto split: option.splits)
qed simp

lemma packet_safe:
  assumes "\<forall>e \<in> set (ts_activeEntries s). entry_inv good e"
  shows "\<exists>s' v ev. worker_handleTCP feed close md sgs s = Some (Some (s', v, ev))
           \<and> (\<forall>e \<in> set (ts_activeEntries s'). entry_inv good e)"
proof -
  obtain r where r: "worker_handleTCP feed close md sgs s = Some r"
    "\<forall>s' v ev. r = Some (s', v, ev) \<longrightarrow> (\<forall>e \<in> set (ts_activeEntries s'). entry_inv good e)"
    using packet_returns [OF assms] by blast
  moreover have "r \<noteq> None"
    using r(1) segments_safe [OF assms]
    by (auto simp: worker_handleTCP_def split: prod.splits option.splits if_splits)
  ultimately show ?thesis by (cases r) auto
qed

lemma packets_safe:
  "\<forall>e \<in> set (ts_activeEntries s). entry_inv good e \<Longrightarrow>
   \<exists>s' vs. tcp_packets feed close ps s = Some (Some (s', vs)) \<and> length vs = length ps"
proof (induction ps arbitrary: s)
  case (Cons p ps)
  obtain md sgs where p: "p = (md, sgs)" by fastforce
  obtain s1 v ev where one: "worker_handleTCP feed close md sgs s = Some (Some (s1, v, ev))"
    and g: "\<forall>e \<in> set (ts_activeEntries s1). entry_inv good e"
    using packet_safe [OF Cons.prems] by blast
  from Cons.IH [OF g] show ?case by (auto simp: p one)
qed simp

end

text \<open>When every entry returns and one panics, the loop panics.\<close>

lemma feed_entries_panics:
  assumes "\<forall>e \<in> set es. f e \<noteq> None" "\<exists>e \<in> set es. f e = Some None"
  shows "feed_entries f es active dn props upd = Some None"
  using assms
proof (induction es arbitrary: active dn props upd)
  case (Cons e es)
  show ?case
  proof (cases "f e = Some None")
    case False
    then obtain x where "f e = Some (Some x)" using Cons.prems(1) by auto
    then show ?thesis
      using Cons False by (cases x) (auto simp: Let_def split: prod.split)
  qed simp
qed simp

section \<open>The statements at concrete inputs\<close>

text \<open>The statements at a stream of one analyzer, the recorder with a limit of three bytes.\<close>

definition example_tcp_factory :: "unit tcpStreamFactory" where
  "example_tcp_factory = \<lparr>tf_WorkerID = 0,
     tf_Ruleset = \<lparr>rs_Analyzers = (\<lambda>_. [()]), rs_Match = (\<lambda>_. \<lparr>mr_Action = ActionMaybe, mr_ModInstance = None\<rparr>)\<rparr>,
     tf_MetadataEnricher = None\<rparr>"

definition example_tcp_stream :: "(unit, recorder) tcpStream" where
  "example_tcp_stream = fst (tcpStreamFactory_New
     \<lparr>an_Name = (\<lambda>_. ''rec''), an_Limit = (\<lambda>_. 3), an_New = (\<lambda>_ _. Some ([], None))\<rparr> example_tcp_factory 1
     \<lparr>ti_SrcIP = [10, 0, 0, 1], ti_DstIP = [10, 0, 0, 2], ti_SrcPort = 4000, ti_DstPort = 80\<rparr>
     \<lparr>tc_Verdict = VerdictAccept, tc_Metadata = None\<rparr>)"

lemmas example_tcp_defs = example_tcp_stream_def example_tcp_factory_def tcpStreamFactory_New_def analyzersToAPI_def
  new_entry_def worker_handleTCP_def tcpStream_Accept_def tcpStream_ReassembledSG_def tcpStream_feedEntry_def
  record_feed_def record_close_def tcpStream_match_def processPropUpdate_def enrichMetadata_def copyMetadata_def Let_def

lemma example_tcp_run:
  "worker_handleTCP record_feed record_close None [(False, True, False, 0, [1, 2])] example_tcp_stream =
     Some (Some (fst (the (the (worker_handleTCP record_feed record_close None [(False, True, False, 0, [1, 2])] example_tcp_stream))),
       VerdictAccept, [StreamPropUpdate (ts_info example_tcp_stream) False]))"
  by (simp add: example_tcp_defs)

theorem tcp_refines_witness:
  "\<exists>s' ev. worker_handleTCP record_feed record_close None [(False, True, False, 0, [1, 2])] example_tcp_stream =
       Some (Some (s', VerdictAccept, ev))
     \<and> tcp_step (tcp_phase example_tcp_stream) VerdictAccept (tcp_phase s')"
  using tcp_refines [OF example_tcp_run] example_tcp_run by blast

lemma example_tcp_packets:
  "\<exists>s. tcp_packets record_feed record_close [(None, [(False, True, False, 0, [1, 2])]), (None, [(False, False, False, 0, [3, 4])]), (None, [])]
     example_tcp_stream = Some (Some (s, [VerdictAccept, VerdictAcceptStream, VerdictAcceptStream]))"
  by (simp add: example_tcp_defs)

theorem tcp_verdicts_witness:
  "\<exists>n m v. [VerdictAccept, VerdictAcceptStream, VerdictAcceptStream] = replicate n VerdictAccept @ replicate m v
     \<and> v \<in> {VerdictAcceptStream, VerdictDropStream}"
proof -
  obtain s where "tcp_packets record_feed record_close [(None, [(False, True, False, 0, [1, 2])]), (None, [(False, False, False, 0, [3, 4])]), (None, [])]
     example_tcp_stream = Some (Some (s, [VerdictAccept, VerdictAcceptStream, VerdictAcceptStream]))"
    using example_tcp_packets by blast
  from tcp_verdicts [OF this [unfolded example_tcp_stream_def]] show ?thesis .
qed

theorem tcp_first_segment_matched_witness:
  "\<exists>s' ctx' ev. tcpStream_ReassembledSG record_feed record_close (False, True, False, 0, [1]) example_tcp_stream
      \<lparr>tc_Verdict = VerdictAccept, tc_Metadata = None\<rparr> = Some (Some (s', ctx', ev)) \<and> \<not> ts_virgin s'"
proof -
  let ?r = "tcpStream_ReassembledSG record_feed record_close (False, True, False, 0, [1]) example_tcp_stream
      \<lparr>tc_Verdict = VerdictAccept, tc_Metadata = None\<rparr>"
  have r: "?r = Some (Some (fst (the (the ?r)), fst (snd (the (the ?r))), snd (snd (the (the ?r)))))"
    by (simp add: example_tcp_defs)
  have v: "ts_virgin example_tcp_stream" by (simp add: example_tcp_defs)
  show ?thesis using tcp_first_segment_matched [OF v r] r by blast
qed

theorem tcp_limit_prefix_witness:
  "\<exists>e. entry_feeds record_feed record_close [(False, True, False, 0, [1, 2]), (True, False, False, 0, [3, 4])]
         \<lparr>se_Name = ''rec'', se_Stream = ([], None), se_HasLimit = True, se_Quota = 3\<rparr> = Some (Some (True, e))
       \<and> concat (fst (se_Stream e)) = [1, 2, 3]"
  using tcp_limit_prefix [of 3 "[(False, True, False, 0, [1, 2]), (True, False, False, 0, [3, 4])]" "''rec''"]
  by (auto simp: all_data_def seg_data_def eval_nat_numeral simp del: entry_feeds.simps)

end
