(* ===== verification/UDPEngine.thy ===== *)
theory UDPEngine
  imports EngineBase
begin

text \<open>
  \<open>engine/udp.go\<close>: a UDP stream, its analyzers and modifiers, and the manager that finds the stream
  of a packet. As for TCP, \<open>feed\<close> and \<open>close\<close> are what analyzers do.

  A payload is the array from its first byte to its capacity, and its length, because an analyzer
  may change it in place (the QUIC analyzer does), and then the analyzers after it and the modifier
  see the change. The LRU cache of hashicorp and gopacket's flows are parameters: \<open>lru_get\<close>,
  \<open>lru_add\<close> and \<open>flow_rev\<close>. The cache holds pointers, so the values lie in a store and the cache
  holds their addresses.
\<close>

type_synonym payload = "bytes \<times> nat"
type_synonym 'st udp_feed =
  "bool \<Rightarrow> payload \<Rightarrow> 'st \<Rightarrow> (((PropUpdate option \<times> bool) \<times> 'st) \<times> payload) go option"
type_synonym 'st an_close = "bool \<Rightarrow> 'st \<Rightarrow> PropUpdate option \<times> 'st"

definition payload_bytes :: "payload \<Rightarrow> bytes" where
  "payload_bytes p = take (snd p) (fst p)"

record udpContext =
  uc_Verdict :: Verdict
  uc_Packet :: "bytes option"
  uc_Metadata :: metadata

record ('an, 'st) udpStream =
  us_info :: StreamInfo
  us_virgin :: bool
  us_ruleset :: "'an Ruleset"
  us_activeEntries :: "'st streamEntry list"
  us_doneEntries :: "'st streamEntry list"
  us_lastVerdict :: Verdict

section \<open>The factory\<close>

record 'an udpStreamFactory =
  uf_WorkerID :: int
  uf_Ruleset :: "'an Ruleset"
  uf_MetadataEnricher :: "MetadataEnricher option"
  uf_nextID :: "int list"

text \<open>
  The identifiers \<open>Node.Generate\<close> returns are a list, taken one by one (0 past its end).
  \<open>newUDP\<close> is the \<open>NewUDP\<close> of an analyzer, \<open>None\<close> if it has none.
\<close>

record UDPInfo =
  ui_SrcIP :: bytes
  ui_DstIP :: bytes
  ui_SrcPort :: u16
  ui_DstPort :: u16

record ('an, 'st) udp_api =
  ua_Name :: "'an \<Rightarrow> string"
  ua_Limit :: "'an \<Rightarrow> int"
  ua_New :: "'an \<Rightarrow> UDPInfo \<Rightarrow> 'st option"

definition analyzersToUDPAnalyzers :: "('an, 'st) udp_api \<Rightarrow> UDPInfo \<Rightarrow> 'an list \<Rightarrow> ('an \<times> 'st) list" where
  "analyzersToUDPAnalyzers api info ans =
     concat (map (\<lambda>a. case ua_New api a info of None \<Rightarrow> [] | Some st \<Rightarrow> [(a, st)]) ans)"

definition udpStreamFactory_New ::
    "('an, 'st) udp_api \<Rightarrow> 'an udpStreamFactory \<Rightarrow> UDPInfo \<Rightarrow> udpContext \<Rightarrow>
     (('an, 'st) udpStream \<times> 'an udpStreamFactory) \<times> event list" where
  "udpStreamFactory_New api f udp uc =
     (let sid = (case uf_nextID f of [] \<Rightarrow> 0 | i # _ \<Rightarrow> i);
          f = f\<lparr>uf_nextID := tl (uf_nextID f)\<rparr>;
          info = \<lparr>si_ID = sid, si_Protocol = ProtocolUDP, si_SrcIP = ui_SrcIP udp, si_DstIP = ui_DstIP udp,
                  si_SrcPort = ui_SrcPort udp, si_DstPort = ui_DstPort udp,
                  si_Meta = copyMetadata (uc_Metadata uc), si_Props = Map.empty\<rparr>;
          info = info\<lparr>si_Meta := enrichMetadata (uf_MetadataEnricher f) info\<rparr>;
          rs = uf_Ruleset f;
          entries = map (\<lambda>(a, st). \<lparr>se_Name = ua_Name api a, se_Stream = st,
                                    se_HasLimit = 0 < ua_Limit api a, se_Quota = ua_Limit api a\<rparr>)
                      (analyzersToUDPAnalyzers api udp (rs_Analyzers rs info)) in
      ((\<lparr>us_info = info, us_virgin = True, us_ruleset = rs, us_activeEntries = entries,
         us_doneEntries = [], us_lastVerdict = VerdictAccept\<rparr>, f),
       [StreamNew (uf_WorkerID f) info]))"

definition udpStreamFactory_UpdateRuleset :: "'an Ruleset \<Rightarrow> 'an udpStreamFactory \<Rightarrow> 'an udpStreamFactory" where
  "udpStreamFactory_UpdateRuleset r f = f\<lparr>uf_Ruleset := r\<rparr>"

section \<open>The stream\<close>

definition udpStream_Accept :: "('an, 'st) udpStream \<Rightarrow> udpContext \<Rightarrow> bool \<times> udpContext" where
  "udpStream_Accept s uc =
     (if 0 < length (us_activeEntries s) \<or> us_virgin s then (True, uc)
      else (False, uc\<lparr>uc_Verdict := us_lastVerdict s\<rparr>))"

definition actionToUDPVerdict :: "Action \<Rightarrow> Verdict \<times> bool" where
  "actionToUDPVerdict a =
     (case a of
        ActionMaybe \<Rightarrow> (VerdictAccept, False)
      | ActionAllow \<Rightarrow> (VerdictAcceptStream, True)
      | ActionBlock \<Rightarrow> (VerdictDropStream, True)
      | ActionDrop \<Rightarrow> (VerdictDrop, False)
      | ActionModify \<Rightarrow> (VerdictAcceptModify, False))"

text \<open>Unlike TCP, an entry with a limit is given the whole packet, and the quota may go below zero.\<close>

definition udpStream_feedEntry ::
    "'st udp_feed \<Rightarrow> 'st an_close \<Rightarrow> bool \<Rightarrow> payload \<Rightarrow> 'st streamEntry \<Rightarrow>
     (((PropUpdate option \<times> PropUpdate option \<times> bool) \<times> 'st streamEntry) \<times> payload) go option" where
  "udpStream_feedEntry feed close rv p entry =
     (case feed rv p (se_Stream entry) of
        None \<Rightarrow> None
      | Some None \<Rightarrow> Some None
      | Some (Some (((update, dn), st), p')) \<Rightarrow>
          (let entry = entry\<lparr>se_Stream := st\<rparr> in
           if se_HasLimit entry then
             (let entry = entry\<lparr>se_Quota := se_Quota entry - int (snd p)\<rparr> in
              if se_Quota entry \<le> 0 then
                (let (closeUpdate, st) = close True (se_Stream entry) in
                 Some (Some (((update, closeUpdate, True), entry\<lparr>se_Stream := st\<rparr>), p')))
              else Some (Some (((update, None, dn), entry), p')))
           else Some (Some (((update, None, dn), entry), p'))))"

fun udp_feed_entries ::
    "'st udp_feed \<Rightarrow> 'st an_close \<Rightarrow> bool \<Rightarrow> payload \<Rightarrow> 'st streamEntry list \<Rightarrow>
     'st streamEntry list \<Rightarrow> 'st streamEntry list \<Rightarrow> CombinedPropMap \<Rightarrow> bool \<Rightarrow>
     (('st streamEntry list \<times> 'st streamEntry list \<times> CombinedPropMap \<times> bool) \<times> payload) go option" where
  "udp_feed_entries feed close rv p [] active dn props updated = Some (Some ((active, dn, props, updated), p))"
| "udp_feed_entries feed close rv p (e # es) active dn props updated =
     (case udpStream_feedEntry feed close rv p e of
        None \<Rightarrow> None
      | Some None \<Rightarrow> Some None
      | Some (Some (((update, closeUpdate, fin), e), p)) \<Rightarrow>
          (let (props, up1) = processPropUpdate props (se_Name e) update;
               (props, up2) = processPropUpdate props (se_Name e) closeUpdate;
               updated = (updated \<or> up1 \<or> up2) in
           if fin then udp_feed_entries feed close rv p es active (dn @ [e]) props updated
           else udp_feed_entries feed close rv p es (e # active) dn props updated))"

definition udpStream_closeActiveEntries ::
    "'st an_close \<Rightarrow> ('an, 'st) udpStream \<Rightarrow> ('an, 'st) udpStream \<times> event list" where
  "udpStream_closeActiveEntries close s =
     (let (closed, props, updated) = close_entries (close False) (us_activeEntries s) (si_Props (us_info s)) False;
          s = s\<lparr>us_info := (us_info s)\<lparr>si_Props := props\<rparr>\<rparr> in
      (s\<lparr>us_doneEntries := us_doneEntries s @ closed, us_activeEntries := []\<rparr>,
       if updated then [StreamPropUpdate (us_info s) True] else []))"

text \<open>The modifier: the action after it, the context, and what is logged.\<close>

definition udp_modify ::
    "MatchResult \<Rightarrow> payload \<Rightarrow> StreamInfo \<Rightarrow> udpContext \<Rightarrow> Action \<times> udpContext \<times> event list" where
  "udp_modify result p info uc =
     (if mr_Action result = ActionModify then
        (case mr_ModInstance result of
           Some (UDPModifierInstance process) \<Rightarrow>
             (let (pkt, err) = process (payload_bytes p);
                  uc = uc\<lparr>uc_Packet := pkt\<rparr> in
              case err of
                None \<Rightarrow> (ActionModify, uc, [])
              | Some e \<Rightarrow> (ActionMaybe, uc, [ModifyError info e]))
         | _ \<Rightarrow> (ActionMaybe, uc, [ModifyError info ''invalid modifier'']))
      else (mr_Action result, uc, []))"

text \<open>The part of \<open>Feed\<close> after the loop over the entries.\<close>

definition udpStream_match ::
    "'st an_close \<Rightarrow> payload \<Rightarrow> ('an, 'st) udpStream \<Rightarrow> udpContext \<Rightarrow>
     ('an, 'st) udpStream \<times> udpContext \<times> event list" where
  "udpStream_match close p s uc =
     (let s = s\<lparr>us_virgin := False\<rparr>;
          (action, uc, ev) = udp_modify (rs_Match (us_ruleset s) (us_info s)) p (us_info s) uc;
          ev = StreamPropUpdate (us_info s) False # ev in
      if action \<noteq> ActionMaybe then
        (let (verdict, final) = actionToUDPVerdict action;
             s = s\<lparr>us_lastVerdict := verdict\<rparr>;
             ev = ev @ [StreamAction (us_info s) action False];
             (s, ev') = (if final then udpStream_closeActiveEntries close s else (s, [])) in
         (s, uc\<lparr>uc_Verdict := verdict\<rparr>, ev @ ev'))
      else (s, uc, ev))"

definition udpStream_Feed ::
    "'st udp_feed \<Rightarrow> 'st an_close \<Rightarrow> bool \<Rightarrow> payload \<Rightarrow> ('an, 'st) udpStream \<Rightarrow> udpContext \<Rightarrow>
     (('an, 'st) udpStream \<times> udpContext \<times> event list) go option" where
  "udpStream_Feed feed close rv p s uc =
     (case udp_feed_entries feed close rv p (rev (us_activeEntries s)) [] (us_doneEntries s)
             (si_Props (us_info s)) False of
        None \<Rightarrow> None
      | Some None \<Rightarrow> Some None
      | Some (Some ((active, dn, props, updated), p)) \<Rightarrow>
          (let s = s\<lparr>us_activeEntries := active, us_doneEntries := dn,
                     us_info := (us_info s)\<lparr>si_Props := props\<rparr>\<rparr>;
               (s, uc, ev) = (if updated \<or> us_virgin s then udpStream_match close p s uc else (s, uc, [])) in
           if length (us_activeEntries s) = 0 \<and> uc_Verdict uc = VerdictAccept then
             Some (Some (s\<lparr>us_lastVerdict := VerdictAcceptStream\<rparr>,
                         uc\<lparr>uc_Verdict := VerdictAcceptStream\<rparr>,
                         ev @ [StreamAction (us_info s) ActionAllow True]))
           else Some (Some (s, uc, ev))))"

definition udpStream_Close ::
    "'st an_close \<Rightarrow> ('an, 'st) udpStream \<Rightarrow> ('an, 'st) udpStream \<times> event list" where
  "udpStream_Close close s = udpStream_closeActiveEntries close s"

text \<open>A packet of a known stream: \<open>Accept\<close>, and \<open>Feed\<close> if told so.\<close>

definition udp_packet ::
    "'st udp_feed \<Rightarrow> 'st an_close \<Rightarrow> bool \<Rightarrow> payload \<Rightarrow> ('an, 'st) udpStream \<Rightarrow> udpContext \<Rightarrow>
     (('an, 'st) udpStream \<times> udpContext \<times> event list) go option" where
  "udp_packet feed close rv p s uc =
     (let (ok, uc) = udpStream_Accept s uc in
      if ok then udpStream_Feed feed close rv p s uc else Some (Some (s, uc, [])))"

section \<open>The manager\<close>

record ('an, 'st, 'f) udpStreamValue =
  uv_Stream :: "('an, 'st) udpStream"
  uv_IPFlow :: 'f
  uv_UDPFlow :: 'f

text \<open>\<open>Match\<close>: whether the packet is of the stream, and whether it goes against its direction.\<close>

definition udpStreamValue_Match ::
    "('f \<Rightarrow> 'f) \<Rightarrow> 'f \<Rightarrow> 'f \<Rightarrow> ('an, 'st, 'f) udpStreamValue \<Rightarrow> bool \<times> bool" where
  "udpStreamValue_Match flow_rev ipFlow udpFlow v =
     (let fwd = (uv_IPFlow v = ipFlow \<and> uv_UDPFlow v = udpFlow);
          rv = (uv_IPFlow v = flow_rev ipFlow \<and> uv_UDPFlow v = flow_rev udpFlow) in
      (fwd \<or> rv, rv))"

record ('an, 'st, 'f, 'c) udpStreamManager =
  um_factory :: "'an udpStreamFactory"
  um_streams :: 'c
  um_store :: "('an, 'st, 'f) udpStreamValue list"

text \<open>
  The cache maps a stream id to an address, an index of the store. \<open>lru_get\<close> also returns the cache
  because a lookup makes the entry the most recent one. The packet: its stream id, flows, addresses
  and ports, payload and context.
\<close>

record 'c lru_api =
  lru_get :: "u32 \<Rightarrow> 'c \<Rightarrow> nat option \<times> 'c"
  lru_add :: "u32 \<Rightarrow> nat \<Rightarrow> 'c \<Rightarrow> 'c"

record 'f udp_datagram =
  dg_IPFlow :: 'f
  dg_UDPFlow :: 'f
  dg_Info :: UDPInfo
  dg_Payload :: payload

definition new_value ::
    "('an, 'st) udp_api \<Rightarrow> 'c lru_api \<Rightarrow> u32 \<Rightarrow> 'f udp_datagram \<Rightarrow> udpContext \<Rightarrow>
     ('an, 'st, 'f, 'c) udpStreamManager \<Rightarrow> (nat \<times> ('an, 'st, 'f, 'c) udpStreamManager) \<times> event list" where
  "new_value api lru sid dg uc m =
     (let ((s, f), ev) = udpStreamFactory_New api (um_factory m) (dg_Info dg) uc;
          a = length (um_store m);
          v = \<lparr>uv_Stream = s, uv_IPFlow = dg_IPFlow dg, uv_UDPFlow = dg_UDPFlow dg\<rparr> in
      ((a, m\<lparr>um_factory := f, um_store := um_store m @ [v], um_streams := lru_add lru sid a (um_streams m)\<rparr>), ev))"

definition udpStreamManager_MatchWithContext ::
    "('an, 'st) udp_api \<Rightarrow> 'st udp_feed \<Rightarrow> 'st an_close \<Rightarrow> 'c lru_api \<Rightarrow> ('f \<Rightarrow> 'f) \<Rightarrow> u32 \<Rightarrow> 'f udp_datagram \<Rightarrow>
     udpContext \<Rightarrow> ('an, 'st, 'f, 'c) udpStreamManager \<Rightarrow>
     (('an, 'st, 'f, 'c) udpStreamManager \<times> udpContext \<times> event list) go option" where
  "udpStreamManager_MatchWithContext api feed close lru flow_rev sid dg uc m =
     (let (found, c) = lru_get lru sid (um_streams m);
          m = m\<lparr>um_streams := c\<rparr>;
          (rv, (a, m), ev) =
            (case found of
               None \<Rightarrow> (False, new_value api lru sid dg uc m)
             | Some a \<Rightarrow>
                 (let v = um_store m ! a;
                      (ok, rv) = udpStreamValue_Match flow_rev (dg_IPFlow dg) (dg_UDPFlow dg) v in
                  if ok then (rv, (a, m), [])
                  else
                    (let (s, ev) = udpStream_Close close (uv_Stream v);
                         m = m\<lparr>um_store := (um_store m)[a := v\<lparr>uv_Stream := s\<rparr>]\<rparr>;
                         (am, ev') = new_value api lru sid dg uc m in
                     (rv, am, ev @ ev')))) in
      case udp_packet feed close rv (dg_Payload dg) (uv_Stream (um_store m ! a)) uc of
        None \<Rightarrow> None
      | Some None \<Rightarrow> Some None
      | Some (Some (s, uc, ev')) \<Rightarrow>
          Some (Some (m\<lparr>um_store := (um_store m)[a := (um_store m ! a)\<lparr>uv_Stream := s\<rparr>]\<rparr>, uc, ev @ ev')))"

section \<open>What a packet does to a stream\<close>

lemma udp_closeActiveEntries_simps [simp]:
  "us_activeEntries (fst (udpStream_closeActiveEntries close s)) = []"
  "us_virgin (fst (udpStream_closeActiveEntries close s)) = us_virgin s"
  "us_lastVerdict (fst (udpStream_closeActiveEntries close s)) = us_lastVerdict s"
  by (simp_all add: udpStream_closeActiveEntries_def Let_def split: prod.split)

lemma udp_modify_context:
  "udp_modify r p info uc = (action, uc', ev) \<Longrightarrow> uc_Verdict uc' = uc_Verdict uc"
  by (auto simp: udp_modify_def Let_def split: if_splits option.splits modInstance.splits prod.splits)

text \<open>The outcomes of matching: nothing, or a verdict, which is recorded and final or not.\<close>

lemma udpStream_match_cases:
  assumes "udpStream_match close p s uc = (s', uc', ev)"
  shows "\<not> us_virgin s' \<and>
     (uc_Verdict uc' = uc_Verdict uc \<and> us_activeEntries s' = us_activeEntries s \<and> us_lastVerdict s' = us_lastVerdict s
      \<or> (\<exists>action. action \<noteq> ActionMaybe \<and> uc_Verdict uc' = fst (actionToUDPVerdict action)
           \<and> us_lastVerdict s' = uc_Verdict uc'
           \<and> us_activeEntries s' = (if snd (actionToUDPVerdict action) then [] else us_activeEntries s)))"
proof -
  let ?s = "s\<lparr>us_virgin := False\<rparr>"
  obtain action uc1 ev1 where m: "udp_modify (rs_Match (us_ruleset ?s) (us_info ?s)) p (us_info ?s) uc = (action, uc1, ev1)"
    by (metis prod_cases3)
  obtain v final where a: "actionToUDPVerdict action = (v, final)" by fastforce
  obtain s1 ev2 where c: "udpStream_closeActiveEntries close (?s\<lparr>us_lastVerdict := v\<rparr>) = (s1, ev2)"
    by fastforce
  have "us_activeEntries s1 = []" "\<not> us_virgin s1" "us_lastVerdict s1 = v"
    using udp_closeActiveEntries_simps [of close "?s\<lparr>us_lastVerdict := v\<rparr>"] unfolding c by simp_all
  note s1 = this
  have r: "udpStream_match close p s uc =
      (if action \<noteq> ActionMaybe then
         (if final then s1 else ?s\<lparr>us_lastVerdict := v\<rparr>, uc1\<lparr>uc_Verdict := v\<rparr>,
          (StreamPropUpdate (us_info ?s) False # ev1 @ [StreamAction (us_info ?s) action False])
            @ (if final then ev2 else []))
       else (?s, uc1, StreamPropUpdate (us_info ?s) False # ev1))"
    unfolding udpStream_match_def Let_def m prod.case a c by (cases final) (simp_all add: c)
  show ?thesis
  proof (cases "action = ActionMaybe")
    case True
    then show ?thesis using assms r udp_modify_context [OF m] by auto
  next
    case False
    then have "s' = (if final then s1 else ?s\<lparr>us_lastVerdict := v\<rparr>)" "uc' = uc1\<lparr>uc_Verdict := v\<rparr>"
      using assms r by auto
    then show ?thesis using False a s1 by (intro conjI disjI2 exI [of _ action]) auto
  qed
qed

lemma Feed_run:
  assumes "udp_feed_entries feed close rv p (rev (us_activeEntries s)) [] (us_doneEntries s)
             (si_Props (us_info s)) False = Some (Some ((act, dn, props, upd), p'))"
    and "s1 = s\<lparr>us_activeEntries := act, us_doneEntries := dn, us_info := (us_info s)\<lparr>si_Props := props\<rparr>\<rparr>"
    and "(if upd \<or> us_virgin s1 then udpStream_match close p' s1 uc else (s1, uc, [])) = (s2, uc2, ev2)"
  shows "udpStream_Feed feed close rv p s uc =
           Some (Some (if us_activeEntries s2 = [] \<and> uc_Verdict uc2 = VerdictAccept
             then (s2\<lparr>us_lastVerdict := VerdictAcceptStream\<rparr>, uc2\<lparr>uc_Verdict := VerdictAcceptStream\<rparr>,
                   ev2 @ [StreamAction (us_info s2) ActionAllow True])
             else (s2, uc2, ev2)))"
  using assms(3) unfolding udpStream_Feed_def Let_def assms(1) option.case prod.case assms(2) [symmetric]
  by (simp split: prod.splits)

section \<open>Verdicts of a stream\<close>

text \<open>
  The contract: pending, or decided. Unlike TCP, a pending stream may drop or modify a packet and go
  on; and a stream may also be decided on dropping or modifying, which then holds for every packet.
\<close>

datatype udp_phase = UPending | UDecided Verdict

definition udp_phase :: "('an, 'st) udpStream \<Rightarrow> udp_phase" where
  "udp_phase s = (if us_virgin s \<or> us_activeEntries s \<noteq> [] then UPending else UDecided (us_lastVerdict s))"

inductive udp_step :: "udp_phase \<Rightarrow> Verdict \<Rightarrow> udp_phase \<Rightarrow> bool" where
  wait: "v \<in> {VerdictAccept, VerdictDrop, VerdictAcceptModify} \<Longrightarrow> udp_step UPending v UPending"
| decide: "v \<noteq> VerdictAccept \<Longrightarrow> udp_step UPending v (UDecided v)"
| keep: "udp_step (UDecided v) v (UDecided v)"

inductive_cases udp_step_DecidedE: "udp_step (UDecided v) v' p"

lemma actionToUDPVerdict_cases:
  "action \<noteq> ActionMaybe \<Longrightarrow> fst (actionToUDPVerdict action) \<noteq> VerdictAccept"
  "snd (actionToUDPVerdict action) \<longleftrightarrow> fst (actionToUDPVerdict action) \<in> {VerdictAcceptStream, VerdictDropStream}"
  by (cases action; simp add: actionToUDPVerdict_def)+

lemma udp_feed_refines:
  assumes "us_virgin s \<or> us_activeEntries s \<noteq> []" "uc_Verdict uc = VerdictAccept"
    and "udpStream_Feed feed close rv p s uc = Some (Some (s', uc', ev))"
  shows "udp_step UPending (uc_Verdict uc') (udp_phase s')"
proof -
  obtain act dn props upd p' where f: "udp_feed_entries feed close rv p (rev (us_activeEntries s)) []
      (us_doneEntries s) (si_Props (us_info s)) False = Some (Some ((act, dn, props, upd), p'))"
    using assms(3) by (auto simp: udpStream_Feed_def split: option.splits)
  define s1 where "s1 = s\<lparr>us_activeEntries := act, us_doneEntries := dn, us_info := (us_info s)\<lparr>si_Props := props\<rparr>\<rparr>"
  obtain s2 uc2 ev2 where m: "(if upd \<or> us_virgin s1 then udpStream_match close p' s1 uc else (s1, uc, [])) = (s2, uc2, ev2)"
    by (metis prod_cases3)
  have res: "(s', uc') = (if us_activeEntries s2 = [] \<and> uc_Verdict uc2 = VerdictAccept
      then (s2\<lparr>us_lastVerdict := VerdictAcceptStream\<rparr>, uc2\<lparr>uc_Verdict := VerdictAcceptStream\<rparr>) else (s2, uc2))"
    using assms(3) unfolding Feed_run [OF f s1_def m] by (auto split: if_splits)
  show ?thesis
  proof (cases "upd \<or> us_virgin s1")
    case True
    then have "udpStream_match close p' s1 uc = (s2, uc2, ev2)" using m by simp
    from udpStream_match_cases [OF this] have nv: "\<not> us_virgin s2"
      and c: "uc_Verdict uc2 = VerdictAccept \<or>
        (\<exists>a. a \<noteq> ActionMaybe \<and> uc_Verdict uc2 = fst (actionToUDPVerdict a) \<and> us_lastVerdict s2 = uc_Verdict uc2
           \<and> (snd (actionToUDPVerdict a) \<longrightarrow> us_activeEntries s2 = []))"
      using assms(2) by auto
    from c show ?thesis
    proof
      assume "uc_Verdict uc2 = VerdictAccept"
      then show ?thesis
        using res nv by (auto simp: udp_phase_def intro!: udp_step.intros split: if_splits)
    next
      assume "\<exists>a. a \<noteq> ActionMaybe \<and> uc_Verdict uc2 = fst (actionToUDPVerdict a) \<and> us_lastVerdict s2 = uc_Verdict uc2
           \<and> (snd (actionToUDPVerdict a) \<longrightarrow> us_activeEntries s2 = [])"
      then obtain a where a: "a \<noteq> ActionMaybe" "uc_Verdict uc2 = fst (actionToUDPVerdict a)"
        "us_lastVerdict s2 = uc_Verdict uc2" "snd (actionToUDPVerdict a) \<longrightarrow> us_activeEntries s2 = []" by blast
      have "uc_Verdict uc2 \<noteq> VerdictAccept" using a actionToUDPVerdict_cases(1) by simp
      then have "uc' = uc2" "s' = s2" using res by auto
      then show ?thesis
        using a nv actionToUDPVerdict_cases \<open>uc_Verdict uc2 \<noteq> VerdictAccept\<close>
        by (cases "uc_Verdict uc2"; cases "us_activeEntries s2 = []")
           (auto simp: udp_phase_def intro!: udp_step.intros)
    qed
  next
    case False
    then show ?thesis
      using m res assms(2) by (auto simp: s1_def udp_phase_def intro!: udp_step.intros split: if_splits)
  qed
qed

text \<open>
  C3. A packet takes a UDP stream through the abstract machine: a pending stream may accept, drop
  or modify the packet and stay pending, or be decided; a decided stream gives the same verdict to
  every packet.
\<close>

theorem udp_refines:
  assumes "udp_packet feed close rv p s uc = Some (Some (s', uc', ev))" "uc_Verdict uc = VerdictAccept"
  shows "udp_step (udp_phase s) (uc_Verdict uc') (udp_phase s')"
proof (cases "us_virgin s \<or> us_activeEntries s \<noteq> []")
  case True
  then have "udpStream_Feed feed close rv p s uc = Some (Some (s', uc', ev))"
    using assms by (auto simp: udp_packet_def udpStream_Accept_def)
  from udp_feed_refines [OF True assms(2) this] True show ?thesis
    by (auto simp: udp_phase_def [of s])
next
  case False
  then show ?thesis
    using assms by (auto simp: udp_packet_def udpStream_Accept_def udp_phase_def intro: udp_step.keep)
qed

text \<open>
  A drop that outlives its packet: a stream without analyzers whose first packet the rules drop
  drops every later packet, and the rules are never asked again.
\<close>

fun udp_packets ::
    "'st udp_feed \<Rightarrow> 'st an_close \<Rightarrow> (bool \<times> payload \<times> metadata) list \<Rightarrow> ('an, 'st) udpStream \<Rightarrow>
     (('an, 'st) udpStream \<times> (Verdict \<times> bytes option \<times> event list) list) go option" where
  "udp_packets feed close [] s = Some (Some (s, []))"
| "udp_packets feed close ((rv, p, md) # ps) s =
     (case udp_packet feed close rv p s \<lparr>uc_Verdict = VerdictAccept, uc_Packet = None, uc_Metadata = md\<rparr> of
        None \<Rightarrow> None
      | Some None \<Rightarrow> Some None
      | Some (Some (s, uc, ev)) \<Rightarrow>
          (case udp_packets feed close ps s of
             None \<Rightarrow> None
           | Some None \<Rightarrow> Some None
           | Some (Some (s, vs)) \<Rightarrow> Some (Some (s, (uc_Verdict uc, uc_Packet uc, ev) # vs))))"

lemma udp_packets_Decided:
  assumes "udp_phase s = UDecided v"
  shows "udp_packets feed close ps s = Some (Some (s, replicate (length ps) (v, None, [])))"
  using assms
proof (induction ps)
  case (Cons p ps)
  then show ?case
    by (cases p) (auto simp: udp_packet_def udpStream_Accept_def udp_phase_def split: if_splits)
qed simp

text \<open>
  C29. A UDP stream without analyzers whose first packet the rules drop drops every later packet
  as well, without asking the rules again, though the verdict is documented to drop one packet
  only.
\<close>

theorem udp_verdict_outlives_packet:
  assumes "us_virgin s" "us_activeEntries s = []"
    and "mr_Action (rs_Match (us_ruleset s) (us_info s)) = ActionDrop"
  shows "\<exists>s' ev. udp_packets feed close (p # ps) s =
           Some (Some (s', (VerdictDrop, None, ev) # replicate (length ps) (VerdictDrop, None, [])))"
proof -
  obtain rv pl md where p: "p = (rv, pl, md)" by (cases p)
  let ?uc = "\<lparr>uc_Verdict = VerdictAccept, uc_Packet = None, uc_Metadata = md\<rparr>"
  have "\<exists>s' ev. udp_packet feed close rv pl s ?uc =
      Some (Some (s', ?uc\<lparr>uc_Verdict := VerdictDrop\<rparr>, ev)) \<and> udp_phase s' = UDecided VerdictDrop"
    using assms
    by (simp add: udp_packet_def udpStream_Accept_def udpStream_Feed_def udpStream_match_def udp_modify_def
        actionToUDPVerdict_def udp_phase_def Let_def)
  then obtain s' ev where "udp_packet feed close rv pl s ?uc =
      Some (Some (s', ?uc\<lparr>uc_Verdict := VerdictDrop\<rparr>, ev))" "udp_phase s' = UDecided VerdictDrop" by blast
  then show ?thesis
    using udp_packets_Decided [of s' VerdictDrop] by (auto simp: p)
qed

section \<open>The manager finds the stream\<close>

text \<open>
  Of the cache it is used that a key just added is found with its value. After a packet of a new flow,
  an answer in the other direction with the same stream id reaches the same stream, as a reversed packet.
\<close>

definition lru_finds_added :: "'c lru_api \<Rightarrow> bool" where
  "lru_finds_added lru \<longleftrightarrow> (\<forall>sid a c. fst (lru_get lru sid (lru_add lru sid a c)) = Some a)"

lemma new_value_simps:
  assumes "new_value api lru sid dg uc m = ((a, m'), ev)"
  shows "a = length (um_store m)" "um_streams m' = lru_add lru sid a (um_streams m)"
    and "\<exists>s. um_store m' = um_store m @ [\<lparr>uv_Stream = s, uv_IPFlow = dg_IPFlow dg, uv_UDPFlow = dg_UDPFlow dg\<rparr>]"
  using assms by (auto simp: new_value_def Let_def split: prod.splits)

text \<open>
  C28. After the first packet of a flow, an answer with the flows reversed and the same stream id
  is fed to the same stream, as a reversed packet.
\<close>

theorem udp_answer_reaches_stream:
  assumes lru: "lru_finds_added lru" and rv: "\<And>f. flow_rev (flow_rev f) = f"
    and new: "fst (lru_get lru sid (um_streams m)) = None"
    and one: "udpStreamManager_MatchWithContext api feed close lru flow_rev sid dg uc m = Some (Some (m1, uc1, ev1))"
    and flows: "dg_IPFlow dg' = flow_rev (dg_IPFlow dg)" "dg_UDPFlow dg' = flow_rev (dg_UDPFlow dg)"
  shows "udpStreamManager_MatchWithContext api feed close lru flow_rev sid dg' uc' m1 =
           (case udp_packet feed close True (dg_Payload dg') (uv_Stream (um_store m1 ! length (um_store m))) uc' of
              None \<Rightarrow> None
            | Some None \<Rightarrow> Some None
            | Some (Some (s, uc2, ev)) \<Rightarrow>
                Some (Some (m1\<lparr>um_streams := snd (lru_get lru sid (um_streams m1)),
                  um_store := (um_store m1)[length (um_store m) :=
                    (um_store m1 ! length (um_store m))\<lparr>uv_Stream := s\<rparr>]\<rparr>, uc2, ev)))"
proof -
  obtain c where c: "lru_get lru sid (um_streams m) = (None, c)"
    using new by (cases "lru_get lru sid (um_streams m)") auto
  obtain a m' ev where nv: "new_value api lru sid dg uc (m\<lparr>um_streams := c\<rparr>) = ((a, m'), ev)"
    by (metis prod.exhaust)
  note nvs = new_value_simps [OF nv]
  then obtain st where st: "um_store m' = um_store m @ [\<lparr>uv_Stream = st, uv_IPFlow = dg_IPFlow dg, uv_UDPFlow = dg_UDPFlow dg\<rparr>]"
    by auto
  have a: "a = length (um_store m)" using nvs(1) by simp
  obtain s uc2 ev2 where pk: "udp_packet feed close False (dg_Payload dg) st uc = Some (Some (s, uc2, ev2))"
    using one by (auto simp: udpStreamManager_MatchWithContext_def c nv st a split: option.splits)
  have m1: "m1 = m'\<lparr>um_store := um_store m @ [\<lparr>uv_Stream = s, uv_IPFlow = dg_IPFlow dg, uv_UDPFlow = dg_UDPFlow dg\<rparr>]\<rparr>"
    using one by (simp add: udpStreamManager_MatchWithContext_def c nv st a pk)
  have "fst (lru_get lru sid (um_streams m1)) = Some a"
    using lru nvs(2) by (simp add: m1 lru_finds_added_def)
  then obtain c1 where c1: "lru_get lru sid (um_streams m1) = (Some a, c1)"
    by (cases "lru_get lru sid (um_streams m1)") auto
  have "udpStreamValue_Match flow_rev (dg_IPFlow dg') (dg_UDPFlow dg') (um_store m1 ! a) = (True, True)"
    by (simp add: udpStreamValue_Match_def m1 a flows rv)
  then show ?thesis
    by (simp add: udpStreamManager_MatchWithContext_def c1 a Let_def split: option.split)
qed

text \<open>A packet of another flow with the same stream id: the old stream is closed, the packet starts a new one.\<close>

theorem udp_collision_starts_stream:
  assumes "lru_get lru sid (um_streams m) = (Some a, c)" "a < length (um_store m)"
    and "\<not> fst (udpStreamValue_Match flow_rev (dg_IPFlow dg) (dg_UDPFlow dg) (um_store m ! a))"
    and "udpStreamManager_MatchWithContext api feed close lru flow_rev sid dg uc m = Some (Some (m', uc', ev))"
  shows "length (um_store m') = length (um_store m) + 1
    \<and> us_activeEntries (uv_Stream (um_store m' ! a)) = []
    \<and> uv_IPFlow (um_store m' ! length (um_store m)) = dg_IPFlow dg
    \<and> uv_UDPFlow (um_store m' ! length (um_store m)) = dg_UDPFlow dg
    \<and> um_streams m' = lru_add lru sid (length (um_store m)) c"
proof -
  let ?v = "um_store m ! a"
  obtain s ev0 where cl: "udpStream_Close close (uv_Stream ?v) = (s, ev0)" by fastforce
  then have closed: "us_activeEntries s = []"
    using udp_closeActiveEntries_simps(1) [of close "uv_Stream ?v"] by (simp add: udpStream_Close_def)
  let ?m = "m\<lparr>um_streams := c, um_store := (um_store m)[a := ?v\<lparr>uv_Stream := s\<rparr>]\<rparr>"
  obtain b m1 ev1 where nv: "new_value api lru sid dg uc ?m = ((b, m1), ev1)" by (metis prod.exhaust)
  note nvs = new_value_simps [OF nv]
  then obtain st where st: "um_store m1 = (um_store m)[a := ?v\<lparr>uv_Stream := s\<rparr>]
      @ [\<lparr>uv_Stream = st, uv_IPFlow = dg_IPFlow dg, uv_UDPFlow = dg_UDPFlow dg\<rparr>]"
    by auto
  obtain rv where "udpStreamValue_Match flow_rev (dg_IPFlow dg) (dg_UDPFlow dg) ?v = (False, rv)"
    using assms(3) by (cases "udpStreamValue_Match flow_rev (dg_IPFlow dg) (dg_UDPFlow dg) ?v") auto
  then have "\<exists>s'. m' = m1\<lparr>um_store := (um_store m1)[b := (um_store m1 ! b)\<lparr>uv_Stream := s'\<rparr>]\<rparr>"
    using assms(4) nv by (auto simp: udpStreamManager_MatchWithContext_def assms(1) cl Let_def split: option.splits)
  then show ?thesis
    using nvs(1,2) st assms(2) closed by (auto simp: nth_append)
qed

section \<open>Analyzers that return\<close>

text \<open>
  Of the cache it is used here that it holds only addresses it was given: \<open>addrs\<close> are those it holds.
  The manager's invariant: every address is one of the store, and every stream's analyzers are good.
\<close>

definition lru_laws :: "'c lru_api \<Rightarrow> ('c \<Rightarrow> nat set) \<Rightarrow> bool" where
  "lru_laws lru addrs \<longleftrightarrow>
     (\<forall>sid c. (\<forall>a. fst (lru_get lru sid c) = Some a \<longrightarrow> a \<in> addrs c) \<and> addrs (snd (lru_get lru sid c)) \<subseteq> addrs c)
     \<and> (\<forall>sid a c. addrs (lru_add lru sid a c) \<subseteq> insert a (addrs c))"

definition manager_inv :: "('st \<Rightarrow> bool) \<Rightarrow> ('c \<Rightarrow> nat set) \<Rightarrow> ('an, 'st, 'f, 'c) udpStreamManager \<Rightarrow> bool" where
  "manager_inv good addrs m \<longleftrightarrow> addrs (um_streams m) \<subseteq> {..<length (um_store m)}
     \<and> (\<forall>v \<in> set (um_store m). \<forall>e \<in> set (us_activeEntries (uv_Stream v)). good (se_Stream e))"

lemma lru_laws_get:
  assumes "lru_laws lru addrs" "lru_get lru sid c = (found, c')"
  shows "addrs c' \<subseteq> addrs c" "found = Some a \<Longrightarrow> a \<in> addrs c"
  using assms unfolding lru_laws_def by (metis fst_conv snd_conv)+

locale udp_analyzers =
  fixes feed :: "'st udp_feed" and close :: "'st an_close" and good :: "'st \<Rightarrow> bool"
  assumes feed_returns:
    "good s \<Longrightarrow> \<exists>r. feed rv p s = Some r \<and> (\<forall>u s' p'. r = Some (((u, False), s'), p') \<longrightarrow> good s')"
begin

lemma entries_return:
  assumes "\<forall>e \<in> set es. good (se_Stream e)" "\<forall>e \<in> set active. good (se_Stream e)"
  shows "\<exists>r. udp_feed_entries feed close rv p es active dn props upd = Some r
     \<and> (\<forall>a d ps u p'. r = Some ((a, d, ps, u), p') \<longrightarrow> (\<forall>e \<in> set a. good (se_Stream e)))"
  using assms
proof (induction es arbitrary: p active dn props upd)
  case (Cons e es)
  obtain r where r: "feed rv p (se_Stream e) = Some r" "\<forall>u s' p'. r = Some (((u, False), s'), p') \<longrightarrow> good s'"
    using feed_returns [of "se_Stream e" rv p] Cons.prems(1) by (meson list.set_intros(1))
  show ?case
  proof (cases r)
    case None
    then show ?thesis by (simp add: udpStream_feedEntry_def r)
  next
    case (Some x)
    then obtain u d s' p' where x: "r = Some (((u, d), s'), p')" by (metis prod.exhaust)
    have "\<exists>c fin e'. udpStream_feedEntry feed close rv p e = Some (Some (((u, c, fin), e'), p'))
        \<and> (\<not> fin \<longrightarrow> good (se_Stream e'))"
      using r x by (cases "close True s'") (auto simp: udpStream_feedEntry_def Let_def ex_bool_eq)
    then obtain c fin e' where e: "udpStream_feedEntry feed close rv p e = Some (Some (((u, c, fin), e'), p'))"
      and g: "\<not> fin \<longrightarrow> good (se_Stream e')" by blast
    then show ?thesis
      using Cons.IH [of "if fin then active else e' # active" p'] Cons.prems
      by (cases fin) (auto simp: Let_def split: prod.split)
  qed
qed simp

lemma packet_returns:
  assumes "\<forall>e \<in> set (us_activeEntries s). good (se_Stream e)"
  shows "\<exists>r. udp_packet feed close rv p s uc = Some r
     \<and> (\<forall>s' uc' ev. r = Some (s', uc', ev) \<longrightarrow> (\<forall>e \<in> set (us_activeEntries s'). good (se_Stream e)))"
proof -
  obtain r where r: "udp_feed_entries feed close rv p (rev (us_activeEntries s)) [] (us_doneEntries s)
      (si_Props (us_info s)) False = Some r"
    and q: "\<forall>a d ps u p'. r = Some ((a, d, ps, u), p') \<longrightarrow> (\<forall>e \<in> set a. good (se_Stream e))"
    using entries_return [of "rev (us_activeEntries s)" "[]" rv p "us_doneEntries s" "si_Props (us_info s)" False] assms
    by auto
  have "\<exists>r. udpStream_Feed feed close rv p s uc' = Some r
     \<and> (\<forall>s' uc' ev. r = Some (s', uc', ev) \<longrightarrow> (\<forall>e \<in> set (us_activeEntries s'). good (se_Stream e)))" for uc'
  proof (cases r)
    case None
    then show ?thesis using r by (simp add: udpStream_Feed_def)
  next
    case (Some x)
    then obtain act dn props upd p' where x: "r = Some ((act, dn, props, upd), p')" by (metis prod.exhaust)
    define s1 where "s1 = s\<lparr>us_activeEntries := act, us_doneEntries := dn, us_info := (us_info s)\<lparr>si_Props := props\<rparr>\<rparr>"
    obtain s2 uc2 ev2 where m: "(if upd \<or> us_virgin s1 then udpStream_match close p' s1 uc' else (s1, uc', [])) = (s2, uc2, ev2)"
      by (metis prod_cases3)
    have "\<forall>e \<in> set (us_activeEntries s2). good (se_Stream e)"
    proof (cases "upd \<or> us_virgin s1")
      case True
      then have "udpStream_match close p' s1 uc' = (s2, uc2, ev2)" using m by simp
      from udpStream_match_cases [OF this] show ?thesis
        using q x by (auto simp: s1_def split: if_splits)
    next
      case False
      then show ?thesis using m q x by (auto simp: s1_def)
    qed
    then show ?thesis
      using r x by (subst Feed_run [OF _ s1_def m]) auto
  qed
  then show ?thesis
    using assms by (auto simp: udp_packet_def udpStream_Accept_def)
qed

lemma entries_new:
  assumes "\<forall>a info s. ua_New api a info = Some s \<longrightarrow> good s"
    and "udpStreamFactory_New api f udp uc = ((s, f'), ev)" "e \<in> set (us_activeEntries s)"
  shows "good (se_Stream e)"
  using assms by (auto simp: udpStreamFactory_New_def analyzersToUDPAnalyzers_def Let_def split: option.splits)

lemma new_value_inv:
  assumes new: "\<forall>a info s. ua_New api a info = Some s \<longrightarrow> good s" and lru: "lru_laws lru addrs"
    and m: "manager_inv good addrs m"
    and v: "new_value api lru sid dg uc m = ((b, m2), ev')"
  shows "b < length (um_store m2) \<and> manager_inv good addrs m2"
proof -
  obtain s f ev where n: "udpStreamFactory_New api (um_factory m) (dg_Info dg) uc = ((s, f), ev)"
    by (metis prod.exhaust)
  have "addrs (lru_add lru sid (length (um_store m)) (um_streams m)) \<subseteq> {..<length (um_store m) + 1}"
    using lru m by (force simp: lru_laws_def manager_inv_def)
  then show ?thesis
    using m entries_new [OF new n] v unfolding new_value_def n
    by (auto simp: manager_inv_def Let_def)
qed

lemma manager_returns:
  assumes new: "\<forall>a info s. ua_New api a info = Some s \<longrightarrow> good s" and lru: "lru_laws lru addrs"
    and m: "manager_inv good addrs m"
  shows "\<exists>r. udpStreamManager_MatchWithContext api feed close lru flow_rev sid dg uc m = Some r
     \<and> (\<forall>m' uc' ev. r = Some (m', uc', ev) \<longrightarrow> manager_inv good addrs m')"
proof -
  have nv: "b < length (um_store m2) \<and> manager_inv good addrs m2"
    if "manager_inv good addrs m1" "new_value api lru sid dg uc m1 = ((b, m2), ev)" for m1 b m2 ev
    using new_value_inv [OF new lru that] .
  obtain found c where g: "lru_get lru sid (um_streams m) = (found, c)" by fastforce
  then have c: "manager_inv good addrs (m\<lparr>um_streams := c\<rparr>)"
    using m lru_laws_get(1) [OF lru g] by (auto simp: manager_inv_def)
  define pick where "pick = (case found of
       None \<Rightarrow> (False, new_value api lru sid dg uc (m\<lparr>um_streams := c\<rparr>))
     | Some a \<Rightarrow>
         (let m = m\<lparr>um_streams := c\<rparr>; v = um_store m ! a;
              (ok, rv) = udpStreamValue_Match flow_rev (dg_IPFlow dg) (dg_UDPFlow dg) v in
          if ok then (rv, (a, m), [])
          else
            (let (s, ev) = udpStream_Close close (uv_Stream v);
                 m = m\<lparr>um_store := (um_store m)[a := v\<lparr>uv_Stream := s\<rparr>]\<rparr>;
                 (am, ev') = new_value api lru sid dg uc m in
             (rv, am, ev @ ev'))))"
  obtain rv b m1 ev1 where pk: "pick = (rv, (b, m1), ev1)" by (metis prod.exhaust)
  have b: "b < length (um_store m1) \<and> manager_inv good addrs m1"
  proof (cases found)
    case None
    then show ?thesis using pk nv [OF c] by (auto simp: pick_def)
  next
    case (Some a)
    then have a: "a < length (um_store m)"
      using m lru_laws_get(2) [OF lru g] by (auto simp: manager_inv_def)
    obtain ok rv' where om: "udpStreamValue_Match flow_rev (dg_IPFlow dg) (dg_UDPFlow dg) (um_store m ! a) = (ok, rv')"
      by fastforce
    obtain s ev where cl: "udpStream_Close close (uv_Stream (um_store m ! a)) = (s, ev)" by fastforce
    then have "us_activeEntries s = []"
      using udp_closeActiveEntries_simps(1) [of close "uv_Stream (um_store m ! a)"] by (simp add: udpStream_Close_def)
    then have "manager_inv good addrs (m\<lparr>um_streams := c, um_store := (um_store m)[a := (um_store m ! a)\<lparr>uv_Stream := s\<rparr>]\<rparr>)"
      using c a by (auto simp: manager_inv_def dest: subsetD [OF set_update_subset_insert])
    from nv [OF this] show ?thesis
      using pk Some a om cl c by (auto simp: pick_def Let_def split: if_splits prod.splits)
  qed
  then have "\<forall>e \<in> set (us_activeEntries (uv_Stream (um_store m1 ! b))). good (se_Stream e)"
    by (auto simp: manager_inv_def)
  from packet_returns [OF this, of rv "dg_Payload dg" uc] obtain r where
    r: "udp_packet feed close rv (dg_Payload dg) (uv_Stream (um_store m1 ! b)) uc = Some r"
    "\<forall>s' uc' ev. r = Some (s', uc', ev) \<longrightarrow> (\<forall>e \<in> set (us_activeEntries s'). good (se_Stream e))" by blast
  have "udpStreamManager_MatchWithContext api feed close lru flow_rev sid dg uc m =
      (case r of None \<Rightarrow> Some None | Some (s, uc, ev) \<Rightarrow>
         Some (Some (m1\<lparr>um_store := (um_store m1)[b := (um_store m1 ! b)\<lparr>uv_Stream := s\<rparr>]\<rparr>, uc, ev1 @ ev)))"
    using pk r(1) unfolding udpStreamManager_MatchWithContext_def pick_def g Let_def prod.case
    by (simp split: option.split)
  then show ?thesis
    using r(2) b by (auto simp: manager_inv_def split: option.splits dest!: subsetD [OF set_update_subset_insert])
qed

end

section \<open>The statements at concrete inputs\<close>

text \<open>The statements at streams of the rules \<open>drop\<close>, without analyzers.\<close>

definition example_udp_feed :: "unit udp_feed" where
  "example_udp_feed rv p s = Some (Some (((None, False), s), p))"

definition example_udp_close :: "unit an_close" where
  "example_udp_close limited s = (None, s)"

definition example_udp_manager :: "(unit, unit, nat \<times> nat, (u32 \<times> nat) list) udpStreamManager" where
  "example_udp_manager =
     \<lparr>um_factory = \<lparr>uf_WorkerID = 0,
        uf_Ruleset = \<lparr>rs_Analyzers = (\<lambda>_. []), rs_Match = (\<lambda>_. \<lparr>mr_Action = ActionDrop, mr_ModInstance = None\<rparr>)\<rparr>,
        uf_MetadataEnricher = None, uf_nextID = [7, 8]\<rparr>, um_streams = [], um_store = []\<rparr>"

definition assoc_lru :: "(u32 \<times> nat) list lru_api" where
  "assoc_lru = \<lparr>lru_get = (\<lambda>k c. (map_of c k, c)), lru_add = (\<lambda>k a c. (k, a) # c)\<rparr>"

definition example_api :: "(unit, unit) udp_api" where
  "example_api = \<lparr>ua_Name = (\<lambda>_. ''x''), ua_Limit = (\<lambda>_. 0), ua_New = (\<lambda>_ _. Some ())\<rparr>"

definition example_dg :: "nat \<times> nat \<Rightarrow> (nat \<times> nat) udp_datagram" where
  "example_dg f = \<lparr>dg_IPFlow = f, dg_UDPFlow = f, dg_Info = \<lparr>ui_SrcIP = [], ui_DstIP = [], ui_SrcPort = 1, ui_DstPort = 2\<rparr>,
     dg_Payload = ([1], 1)\<rparr>"

abbreviation fresh_uc :: udpContext where
  "fresh_uc \<equiv> \<lparr>uc_Verdict = VerdictAccept, uc_Packet = None, uc_Metadata = None\<rparr>"

abbreviation example_match :: "nat \<times> nat \<Rightarrow> (unit, unit, nat \<times> nat, (u32 \<times> nat) list) udpStreamManager \<Rightarrow>
    ((unit, unit, nat \<times> nat, (u32 \<times> nat) list) udpStreamManager \<times> udpContext \<times> event list) go option" where
  "example_match f \<equiv> udpStreamManager_MatchWithContext example_api example_udp_feed example_udp_close assoc_lru prod.swap 5
     (example_dg f) fresh_uc"

definition example_udp_stream :: "(unit, unit) udpStream" where
  "example_udp_stream = fst (fst (udpStreamFactory_New example_api (um_factory example_udp_manager)
      \<lparr>ui_SrcIP = [], ui_DstIP = [], ui_SrcPort = 1, ui_DstPort = 2\<rparr> fresh_uc))"

lemmas example_udp_defs = example_udp_stream_def example_udp_manager_def example_dg_def example_api_def assoc_lru_def
  example_udp_feed_def example_udp_close_def udpStreamFactory_New_def analyzersToUDPAnalyzers_def enrichMetadata_def
  copyMetadata_def udp_packet_def udpStream_Accept_def udpStream_Feed_def udpStream_match_def udp_modify_def
  actionToUDPVerdict_def udpStreamManager_MatchWithContext_def new_value_def Let_def

lemma example_udp_run:
  "udp_packet example_udp_feed example_udp_close False ([1], 1) example_udp_stream fresh_uc =
     Some (Some (fst (the (the (udp_packet example_udp_feed example_udp_close False ([1], 1) example_udp_stream fresh_uc))),
       fresh_uc\<lparr>uc_Verdict := VerdictDrop\<rparr>,
       [StreamPropUpdate (us_info example_udp_stream) False, StreamAction (us_info example_udp_stream) ActionDrop False]))"
  by (simp add: example_udp_defs)

theorem udp_refines_witness:
  "\<exists>s' uc ev. udp_packet example_udp_feed example_udp_close False ([1], 1) example_udp_stream fresh_uc = Some (Some (s', uc, ev))
     \<and> udp_step (udp_phase example_udp_stream) (uc_Verdict uc) (udp_phase s')"
  using udp_refines [OF example_udp_run] example_udp_run by fastforce

theorem udp_verdict_outlives_packet_witness:
  "\<exists>s' ev. udp_packets example_udp_feed example_udp_close
       [(False, ([1], 1), None), (True, ([2], 1), None), (False, ([3], 1), None)] example_udp_stream =
     Some (Some (s', [(VerdictDrop, None, ev), (VerdictDrop, None, []), (VerdictDrop, None, [])]))"
  using udp_verdict_outlives_packet [of example_udp_stream example_udp_feed example_udp_close "(False, ([1], 1), None)"
      "[(True, ([2], 1), None), (False, ([3], 1), None)]"]
  by (simp add: example_udp_stream_def example_udp_manager_def udpStreamFactory_New_def analyzersToUDPAnalyzers_def
      Let_def eval_nat_numeral)

lemma example_match_run:
  "example_match (1, 2) example_udp_manager =
     Some (Some (fst (the (the (example_match (1, 2) example_udp_manager))),
       fst (snd (the (the (example_match (1, 2) example_udp_manager)))),
       snd (snd (the (the (example_match (1, 2) example_udp_manager))))))"
  by (simp add: example_udp_defs)

theorem udp_answer_reaches_stream_witness:
  "\<exists>m uc ev m' uc' ev'. example_match (1, 2) example_udp_manager = Some (Some (m, uc, ev))
     \<and> example_match (2, 1) m = Some (Some (m', uc', ev')) \<and> length (um_store m') = 1 \<and> uc_Verdict uc' = VerdictDrop"
proof -
  let ?r = "the (the (example_match (1, 2) example_udp_manager))"
  have answer: "example_match (2, 1) (fst ?r) =
           (case udp_packet example_udp_feed example_udp_close True (dg_Payload (example_dg (2, 1)))
                (uv_Stream (um_store (fst ?r) ! length (um_store example_udp_manager))) fresh_uc of
              None \<Rightarrow> None
            | Some None \<Rightarrow> Some None
            | Some (Some (s, uc2, ev)) \<Rightarrow>
                Some (Some ((fst ?r)\<lparr>um_streams := snd (lru_get assoc_lru 5 (um_streams (fst ?r))),
                  um_store := (um_store (fst ?r))[length (um_store example_udp_manager) :=
                    (um_store (fst ?r) ! length (um_store example_udp_manager))\<lparr>uv_Stream := s\<rparr>]\<rparr>, uc2, ev)))"
    by (rule udp_answer_reaches_stream [OF _ _ _ example_match_run])
       (simp_all add: lru_finds_added_def assoc_lru_def example_dg_def example_udp_manager_def)
  have "\<exists>m' uc' ev'. example_match (2, 1) (fst ?r) = Some (Some (m', uc', ev'))
      \<and> length (um_store m') = 1 \<and> uc_Verdict uc' = VerdictDrop"
    unfolding answer by (simp add: example_udp_defs)
  then show ?thesis
    using example_match_run by blast
qed

theorem udp_collision_starts_stream_witness:
  "\<exists>m uc ev m' uc' ev'. example_match (1, 2) example_udp_manager = Some (Some (m, uc, ev))
     \<and> example_match (3, 4) m = Some (Some (m', uc', ev')) \<and> length (um_store m') = 2
     \<and> um_streams m' = [(5, 1), (5, 0)]"
proof -
  obtain m uc ev where one: "example_match (1, 2) example_udp_manager = Some (Some (m, uc, ev))"
    and st: "um_streams m = [(5, 0)]" "length (um_store m) = 1"
      "\<not> fst (udpStreamValue_Match prod.swap (dg_IPFlow (example_dg (3, 4))) (dg_UDPFlow (example_dg (3, 4))) (um_store m ! 0))"
    and "\<exists>m' uc' ev'. example_match (3, 4) m = Some (Some (m', uc', ev'))"
    by (simp add: example_udp_defs udpStreamValue_Match_def udpStream_Close_def udpStream_closeActiveEntries_def)
  then obtain m' uc' ev' where two: "example_match (3, 4) m = Some (Some (m', uc', ev'))" by blast
  have "lru_get assoc_lru 5 (um_streams m) = (Some 0, [(5, 0)])" "lru_add assoc_lru 5 1 [(5, 0)] = [(5, 1), (5, 0)]"
    unfolding st(1) by (simp_all add: assoc_lru_def)
  with udp_collision_starts_stream [OF this(1) _ st(3) two] st(2) one two
  show ?thesis by auto
qed

end
