(* ===== verification/Analyzers.thy ===== *)
theory Analyzers
  imports HTTP SSH TLSStream FET Socks Trojan DNS OpenVPN WireGuard UDPFlow QUICStream TCPEngine UDPEngine
begin

text \<open>
  The analyzers of \<open>cmd/root.go\<close>, each with its name, limit and constructors, and the streams of all
  of them as one type: the method calls of the interfaces \<open>TCPStream\<close> and \<open>UDPStream\<close> of
  \<open>analyzer/interface.go\<close> are a case analysis here. With it the contracts of the engine, the locales
  of TCPEngine and UDPEngine, are shown of the analyzers the program is built with.

  The DNS decoder of gopacket, the cryptographic primitives and the variable-length integers of
  quic-go, and the clock, are parameters of the dispatch, as in the theories of the analyzers.
\<close>

datatype Analyzer =
    FETAnalyzer | HTTPAnalyzer | SocksAnalyzer | SSHAnalyzer | TLSAnalyzer | TrojanAnalyzer
  | DNSAnalyzer | OpenVPNAnalyzer | QUICAnalyzer | UDPFlowAnalyzer | WireGuardAnalyzer

definition analyzers :: "Analyzer list" where
  "analyzers =
     [FETAnalyzer, HTTPAnalyzer, SocksAnalyzer, SSHAnalyzer, TLSAnalyzer, TrojanAnalyzer,
      DNSAnalyzer, OpenVPNAnalyzer, QUICAnalyzer, UDPFlowAnalyzer, WireGuardAnalyzer]"

fun Analyzer_Name :: "Analyzer \<Rightarrow> string" where
  "Analyzer_Name FETAnalyzer = FETAnalyzer_Name"
| "Analyzer_Name HTTPAnalyzer = HTTPAnalyzer_Name"
| "Analyzer_Name SocksAnalyzer = SocksAnalyzer_Name"
| "Analyzer_Name SSHAnalyzer = SSHAnalyzer_Name"
| "Analyzer_Name TLSAnalyzer = TLSAnalyzer_Name"
| "Analyzer_Name TrojanAnalyzer = TrojanAnalyzer_Name"
| "Analyzer_Name DNSAnalyzer = DNSAnalyzer_Name"
| "Analyzer_Name OpenVPNAnalyzer = OpenVPNAnalyzer_Name"
| "Analyzer_Name QUICAnalyzer = QUICAnalyzer_Name"
| "Analyzer_Name UDPFlowAnalyzer = UDPFlowAnalyzer_Name"
| "Analyzer_Name WireGuardAnalyzer = WireGuardAnalyzer_Name"

fun Analyzer_Limit :: "Analyzer \<Rightarrow> int" where
  "Analyzer_Limit FETAnalyzer = FETAnalyzer_Limit"
| "Analyzer_Limit HTTPAnalyzer = HTTPAnalyzer_Limit"
| "Analyzer_Limit SocksAnalyzer = SocksAnalyzer_Limit"
| "Analyzer_Limit SSHAnalyzer = SSHAnalyzer_Limit"
| "Analyzer_Limit TLSAnalyzer = TLSAnalyzer_Limit"
| "Analyzer_Limit TrojanAnalyzer = TrojanAnalyzer_Limit"
| "Analyzer_Limit DNSAnalyzer = DNSAnalyzer_Limit"
| "Analyzer_Limit OpenVPNAnalyzer = OpenVPNAnalyzer_Limit"
| "Analyzer_Limit QUICAnalyzer = QUICAnalyzer_Limit"
| "Analyzer_Limit UDPFlowAnalyzer = UDPFlowAnalyzer_Limit"
| "Analyzer_Limit WireGuardAnalyzer = WireGuardAnalyzer_Limit"

section \<open>TCP streams\<close>

datatype TCPStream =
    FETStream
  | HTTPStream httpStream
  | SocksStream socksStream
  | SSHStream sshStream
  | TLSStream tlsStream
  | TrojanStream trojanStream
  | DNSTCPStream dnsTCPStream
  | OpenVPNTCPStream openvpnTCPStream

fun Analyzer_NewTCP :: "Analyzer \<Rightarrow> TCPInfo \<Rightarrow> TCPStream option" where
  "Analyzer_NewTCP FETAnalyzer info = Some FETStream"
| "Analyzer_NewTCP HTTPAnalyzer info = Some (HTTPStream newHTTPStream)"
| "Analyzer_NewTCP SocksAnalyzer info = Some (SocksStream newSocksStream)"
| "Analyzer_NewTCP SSHAnalyzer info = Some (SSHStream newSSHStream)"
| "Analyzer_NewTCP TLSAnalyzer info = Some (TLSStream newTLSStream)"
| "Analyzer_NewTCP TrojanAnalyzer info = Some (TrojanStream newTrojanStream)"
| "Analyzer_NewTCP DNSAnalyzer info = Some (DNSTCPStream newDNSTCPStream)"
| "Analyzer_NewTCP OpenVPNAnalyzer info = Some (OpenVPNTCPStream newOpenVPNTCPStream)"
| "Analyzer_NewTCP _ info = None"

definition tcp_api :: "(Analyzer, TCPStream) analyzer_api" where
  "tcp_api = \<lparr>an_Name = Analyzer_Name, an_Limit = Analyzer_Limit, an_New = Analyzer_NewTCP\<rparr>"

definition fed :: "('s \<Rightarrow> 'st) \<Rightarrow> 's feed_result \<Rightarrow> 'st feed_result" where
  "fed C r = map_option (map_option (map_prod (\<lambda>u. u) C)) r"

fun TCPStream_Feed :: "dns_decode \<Rightarrow> TCPStream tcp_feed" where
  "TCPStream_Feed decode rv start en skip data FETStream =
     Some (Some (fetStream_Feed rv start en skip data, FETStream))"
| "TCPStream_Feed decode rv start en skip data (HTTPStream s) = fed HTTPStream (httpStream_Feed rv start en skip data s)"
| "TCPStream_Feed decode rv start en skip data (SocksStream s) = fed SocksStream (socksStream_Feed rv start en skip data s)"
| "TCPStream_Feed decode rv start en skip data (SSHStream s) = fed SSHStream (sshStream_Feed rv start en skip data s)"
| "TCPStream_Feed decode rv start en skip data (TLSStream s) = fed TLSStream (tlsStream_Feed rv start en skip data s)"
| "TCPStream_Feed decode rv start en skip data (TrojanStream s) =
     fed TrojanStream (Some (trojanStream_Feed rv start en skip data s))"
| "TCPStream_Feed decode rv start en skip data (DNSTCPStream s) =
     fed DNSTCPStream (dnsTCPStream_Feed decode rv start en skip data s)"
| "TCPStream_Feed decode rv start en skip data (OpenVPNTCPStream s) =
     fed OpenVPNTCPStream (openvpnTCPStream_Feed rv start en skip data s)"

fun TCPStream_Close :: "bool \<Rightarrow> TCPStream \<Rightarrow> PropUpdate option \<times> TCPStream" where
  "TCPStream_Close limited FETStream = (fetStream_Close limited, FETStream)"
| "TCPStream_Close limited (HTTPStream s) = map_prod (\<lambda>u. u) HTTPStream (httpStream_Close limited s)"
| "TCPStream_Close limited (SocksStream s) = map_prod (\<lambda>u. u) SocksStream (socksStream_Close limited s)"
| "TCPStream_Close limited (SSHStream s) = map_prod (\<lambda>u. u) SSHStream (sshStream_Close limited s)"
| "TCPStream_Close limited (TLSStream s) = map_prod (\<lambda>u. u) TLSStream (tlsStream_Close limited s)"
| "TCPStream_Close limited (TrojanStream s) = (trojanStream_Close limited, TrojanStream s)"
| "TCPStream_Close limited (DNSTCPStream s) = map_prod (\<lambda>u. u) DNSTCPStream (dnsTCPStream_Close limited s)"
| "TCPStream_Close limited (OpenVPNTCPStream s) = map_prod (\<lambda>u. u) OpenVPNTCPStream (openvpnTCPStream_Close limited s)"

section \<open>UDP streams\<close>

datatype UDPStream =
    DNSUDPStream dnsUDPStream
  | OpenVPNUDPStream openvpnUDPStream
  | QUICStream quicStream
  | UDPFlowStream udpFlowStream
  | WireGuardUDPStream wireGuardUDPStream

fun Analyzer_NewUDP :: "Analyzer \<Rightarrow> UDPInfo \<Rightarrow> UDPStream option" where
  "Analyzer_NewUDP DNSAnalyzer info = Some (DNSUDPStream newDNSUDPStream)"
| "Analyzer_NewUDP OpenVPNAnalyzer info = Some (OpenVPNUDPStream newOpenVPNUDPStream)"
| "Analyzer_NewUDP QUICAnalyzer info = Some (QUICStream NewUDP_quic)"
| "Analyzer_NewUDP UDPFlowAnalyzer info = Some (UDPFlowStream (UDPFlowAnalyzer_NewUDP (ui_SrcPort info) (ui_DstPort info)))"
| "Analyzer_NewUDP WireGuardAnalyzer info = Some (WireGuardUDPStream newWireGuardUDPStream)"
| "Analyzer_NewUDP _ info = None"

definition udp_api :: "(Analyzer, UDPStream) udp_api" where
  "udp_api = \<lparr>ua_Name = Analyzer_Name, ua_Limit = Analyzer_Limit, ua_New = Analyzer_NewUDP\<rparr>"

text \<open>An analyzer that only reads its packet; \<open>quicStream_Feed\<close> decrypts the header in place.\<close>

definition read_only :: "payload \<Rightarrow> ('s \<Rightarrow> 'st) \<Rightarrow> 's feed_result \<Rightarrow>
    (((PropUpdate option \<times> bool) \<times> 'st) \<times> payload) go option" where
  "read_only p C r = map_option (map_option (\<lambda>(u, s). ((u, C s), p))) r"

fun UDPStream_Feed :: "dns_decode \<Rightarrow> quic_crypto \<Rightarrow> varint \<Rightarrow> int \<Rightarrow> UDPStream udp_feed" where
  "UDPStream_Feed decode qc varint now rv p (DNSUDPStream s) =
     read_only p DNSUDPStream (Some (Some (dnsUDPStream_Feed decode rv (payload_bytes p) s)))"
| "UDPStream_Feed decode qc varint now rv p (OpenVPNUDPStream s) =
     read_only p OpenVPNUDPStream (openvpnUDPStream_Feed rv (payload_bytes p) s)"
| "UDPStream_Feed decode qc varint now rv p (QUICStream s) =
     map_option (map_option (\<lambda>((u, s), arr). ((u, QUICStream s), (arr, snd p))))
       (quicStream_Feed qc varint rv (fst p) (snd p) s)"
| "UDPStream_Feed decode qc varint now rv p (UDPFlowStream s) =
     read_only p UDPFlowStream (Some (Some (udpFlowStream_Feed now rv (payload_bytes p) s)))"
| "UDPStream_Feed decode qc varint now rv p (WireGuardUDPStream s) =
     read_only p WireGuardUDPStream (Some (Some (wireGuardUDPStream_Feed rv (payload_bytes p) s)))"

fun UDPStream_Close :: "bool \<Rightarrow> UDPStream \<Rightarrow> PropUpdate option \<times> UDPStream" where
  "UDPStream_Close limited (DNSUDPStream s) = (dnsUDPStream_Close limited, DNSUDPStream s)"
| "UDPStream_Close limited (OpenVPNUDPStream s) = (openvpnUDPStream_Close limited, OpenVPNUDPStream s)"
| "UDPStream_Close limited (QUICStream s) = (quicStream_Close limited s, QUICStream s)"
| "UDPStream_Close limited (UDPFlowStream s) = (udpFlowStream_Close limited, UDPFlowStream s)"
| "UDPStream_Close limited (WireGuardUDPStream s) = (wireGuardUDPStream_Close limited, WireGuardUDPStream s)"

section \<open>The invariant of the streams\<close>

definition trojan_inv :: "trojanStream \<Rightarrow> bool" where
  "trojan_inv s \<longleftrightarrow> length (troj_seq s) = 4 \<and> troj_seqIndex s < 4"

fun tcp_stream_inv :: "TCPStream \<Rightarrow> bool" where
  "tcp_stream_inv FETStream \<longleftrightarrow> True"
| "tcp_stream_inv (HTTPStream s) \<longleftrightarrow> http_inv s"
| "tcp_stream_inv (SocksStream s) \<longleftrightarrow> socks_inv s"
| "tcp_stream_inv (SSHStream s) \<longleftrightarrow> ssh_inv s"
| "tcp_stream_inv (TLSStream s) \<longleftrightarrow> tls_inv s"
| "tcp_stream_inv (TrojanStream s) \<longleftrightarrow> trojan_inv s"
| "tcp_stream_inv (DNSTCPStream s) \<longleftrightarrow> dns_inv s"
| "tcp_stream_inv (OpenVPNTCPStream s) \<longleftrightarrow> ovpn_inv s"

definition not_socks :: "TCPStream \<Rightarrow> bool" where
  "not_socks s \<longleftrightarrow> (case s of SocksStream _ \<Rightarrow> False | _ \<Rightarrow> True)"

fun udp_stream_inv :: "UDPStream \<Rightarrow> bool" where
  "udp_stream_inv (OpenVPNUDPStream s) \<longleftrightarrow> ovpn_inv s"
| "udp_stream_inv _ \<longleftrightarrow> True"

lemma fed_total:
  assumes "\<exists>u d s'. r = Some (Some ((u, d), s')) \<and> I s'" "\<And>s'. I s' \<Longrightarrow> J (C s')"
  shows "\<exists>u d s'. fed C r = Some (Some ((u, d), s')) \<and> (\<not> d \<longrightarrow> J s')"
  using assms by (auto simp: fed_def)

lemma trojan_feed_total:
  assumes "trojan_inv s"
  shows "\<exists>u d s'. trojanStream_Feed rv st en skip data s = Some ((u, d), s') \<and> (\<not> d \<longrightarrow> trojan_inv s')"
  using assms by (auto simp: trojanStream_Feed_def troj_add_def trojan_inv_def Let_def)

lemma new_tcp_inv: "Analyzer_NewTCP a info = Some s \<Longrightarrow> tcp_stream_inv s"
  by (cases a) (auto simp: http_inv_new socks_inv_new ssh_inv_new tls_inv_new dns_inv_new ovpn_inv_new
      trojan_inv_def newTrojanStream_def)

lemma new_tcp_not_socks: "Analyzer_NewTCP a info = Some s \<Longrightarrow> a \<noteq> SocksAnalyzer \<Longrightarrow> not_socks s"
  by (cases a) (auto simp: not_socks_def)

lemma new_udp_inv: "Analyzer_NewUDP a info = Some s \<Longrightarrow> udp_stream_inv s"
  by (cases a) (auto simp: ovpn_inv_new)

lemma tcp_feed_total:
  assumes "tcp_stream_inv s" "not_socks s"
  shows "\<exists>u d s'. TCPStream_Feed decode rv st en skip data s = Some (Some ((u, d), s'))
     \<and> (\<not> d \<longrightarrow> tcp_stream_inv s' \<and> not_socks s')"
proof (cases s)
  case FETStream
  then show ?thesis by (cases "fetStream_Feed rv st en skip data") (simp add: not_socks_def)
next
  case (TrojanStream t)
  then show ?thesis
    using trojan_feed_total [of t rv st en skip data] assms by (auto simp: fed_def not_socks_def)
next
  case (HTTPStream t)
  then show ?thesis
    using fed_total [OF httpStream_Feed_total, of t "\<lambda>s. tcp_stream_inv s \<and> not_socks s" HTTPStream] assms
    by (simp add: not_socks_def)
next
  case (SSHStream t)
  then show ?thesis
    using fed_total [OF sshStream_Feed_total, of t "\<lambda>s. tcp_stream_inv s \<and> not_socks s" SSHStream] assms
    by (simp add: not_socks_def)
next
  case (TLSStream t)
  then show ?thesis
    using fed_total [OF tlsStream_Feed_total, of t "\<lambda>s. tcp_stream_inv s \<and> not_socks s" TLSStream] assms
    by (simp add: not_socks_def)
next
  case (DNSTCPStream t)
  then show ?thesis
    using fed_total [OF dnsTCPStream_Feed_total, of t "\<lambda>s. tcp_stream_inv s \<and> not_socks s" DNSTCPStream] assms
    by (simp add: not_socks_def)
next
  case (OpenVPNTCPStream t)
  then show ?thesis
    using fed_total [OF openvpnTCPStream_Feed_total, of t "\<lambda>s. tcp_stream_inv s \<and> not_socks s" OpenVPNTCPStream] assms
    by (simp add: not_socks_def)
qed (use assms in \<open>simp add: not_socks_def\<close>)

lemma tcp_feed_returns:
  assumes "tcp_stream_inv s"
  shows "\<exists>r. TCPStream_Feed decode rv st en skip data s = Some r
     \<and> (\<forall>u s'. r = Some ((u, False), s') \<longrightarrow> tcp_stream_inv s')"
proof (cases "not_socks s")
  case True
  then show ?thesis using tcp_feed_total [OF assms, of decode rv st en skip data] by auto
next
  case False
  then obtain t where s: "s = SocksStream t" by (auto simp: not_socks_def split: TCPStream.splits)
  then have "socks_inv t" using assms by simp
  from socks_feed_returns [OF this, of rv st en skip data] show ?thesis
    by (auto simp: s fed_def)
qed

lemma udp_feed_returns:
  assumes "varint_consumes varint" "udp_stream_inv s"
  shows "\<exists>r. UDPStream_Feed decode qc varint now rv p s = Some r
     \<and> (\<forall>u s' p'. r = Some (((u, False), s'), p') \<longrightarrow> udp_stream_inv s')"
proof (cases s)
  case (OpenVPNUDPStream t)
  then show ?thesis
    using openvpnUDPStream_Feed_total [of t rv "payload_bytes p"] assms(2) by (auto simp: read_only_def)
next
  case (QUICStream t)
  then show ?thesis
    using quic_feed_returns [OF assms(1), of qc rv "fst p" "snd p" t] by (auto simp: option.map_comp)
qed (auto simp: read_only_def split: prod.splits)

interpretation tcp: tcp_analyzers "TCPStream_Feed decode" TCPStream_Close tcp_stream_inv for decode
  by unfold_locales (rule tcp_feed_returns)

interpretation tcp_safe: tcp_analyzers_safe "TCPStream_Feed decode" TCPStream_Close
    "\<lambda>s. tcp_stream_inv s \<and> not_socks s" for decode
proof (unfold_locales, goal_cases)
  case (1 s rv start en skip data)
  then show ?case using tcp_feed_total [of s decode rv start en skip data] by auto
next
  case (2 s rv start en skip data)
  then show ?case using tcp_feed_total [of s decode rv start en skip data] by auto
qed

text \<open>\<open>varint_consumes\<close> is what the reader of variable-length integers is relied on for.\<close>

interpretation udp: udp_analyzers "UDPStream_Feed decode qc varint now" UDPStream_Close
    "\<lambda>s. varint_consumes varint \<and> udp_stream_inv s" for decode qc varint now
proof (unfold_locales, goal_cases)
  case (1 s rv p)
  then show ?case using udp_feed_returns [of varint s decode qc now rv p] by auto
qed

end
