(* ===== verification/Engine.thy ===== *)
theory Engine
  imports Analyzers
begin

text \<open>
  \<open>engine/worker.go\<close> and \<open>engine/engine.go\<close>: the defaults of a worker, what it does with one packet,
  and how the engine deals packets out to the workers. gopacket is a parameter: the layers of a
  decoded packet, the TCP assembler with its pool of streams, and the serializer that rebuilds a
  modified packet. Channels are queues; a send that blocks is the scheduler's business.
\<close>

section \<open>The configuration of a worker\<close>

definition defaultChanSize :: int where "defaultChanSize = 64"
definition defaultTCPMaxBufferedPagesTotal :: int where "defaultTCPMaxBufferedPagesTotal = 65536"
definition defaultTCPMaxBufferedPagesPerConnection :: int where "defaultTCPMaxBufferedPagesPerConnection = 16"
definition defaultTCPTimeout :: int where "defaultTCPTimeout = 10 * 60 * 1000000000"
definition defaultUDPMaxStreams :: int where "defaultUDPMaxStreams = 4096"

record workerConfig =
  wc_ID :: int
  wc_ChanSize :: int
  wc_TCPMaxBufferedPagesTotal :: int
  wc_TCPMaxBufferedPagesPerConn :: int
  wc_TCPTimeout :: int
  wc_UDPMaxStreams :: int

definition workerConfig_fillDefaults :: "workerConfig \<Rightarrow> workerConfig" where
  "workerConfig_fillDefaults c =
     (let c = (if wc_ChanSize c \<le> 0 then c\<lparr>wc_ChanSize := defaultChanSize\<rparr> else c);
          c = (if wc_TCPMaxBufferedPagesTotal c \<le> 0
               then c\<lparr>wc_TCPMaxBufferedPagesTotal := defaultTCPMaxBufferedPagesTotal\<rparr> else c);
          c = (if wc_TCPMaxBufferedPagesPerConn c \<le> 0
               then c\<lparr>wc_TCPMaxBufferedPagesPerConn := defaultTCPMaxBufferedPagesPerConnection\<rparr> else c);
          c = (if wc_TCPTimeout c \<le> 0 then c\<lparr>wc_TCPTimeout := defaultTCPTimeout\<rparr> else c) in
      if wc_UDPMaxStreams c \<le> 0 then c\<lparr>wc_UDPMaxStreams := defaultUDPMaxStreams\<rparr> else c)"

section \<open>The packets a worker handles\<close>

text \<open>
  The layers gopacket finds: no network or transport layer, TCP with what the assembler wants of it,
  UDP with the datagram, or another transport.
\<close>

datatype ('f, 't) packet_layers =
    NoLayers
  | TCPPacket 't
  | UDPPacket "'f udp_datagram"
  | OtherTransport

record 'p workerPacket =
  wp_StreamID :: u32
  wp_Packet :: 'p
  wp_Metadata :: metadata

text \<open>
  What a worker keeps: the factory of TCP streams, the pool of the assembler, and the manager of UDP
  streams with its factory. What is fixed over its life: the interfaces of the analyzers, the cache,
  the assembler, the reversal of flows and the serializer.
\<close>

record ('an, 'st, 'f, 'c, 'pool) worker =
  wk_tcpStreamFactory :: "'an tcpStreamFactory"
  wk_tcpPool :: 'pool
  wk_udpStreamManager :: "('an, 'st, 'f, 'c) udpStreamManager"

record ('an, 'st, 'f, 't, 'c, 'pool) worker_env =
  we_api :: "('an, 'st) udp_api"
  we_feed :: "'st udp_feed"
  we_close :: "'st an_close"
  we_lru :: "'c lru_api"
  we_flow_rev :: "'f \<Rightarrow> 'f"
  we_assemble :: "'an tcpStreamFactory \<Rightarrow> 't \<Rightarrow> metadata \<Rightarrow> 'pool \<Rightarrow> (Verdict \<times> 'pool) go option"
  we_serialize :: "'f udp_datagram \<Rightarrow> bytes \<Rightarrow> bytes option"

definition worker_handleUDP ::
    "('an, 'st, 'f, 't, 'c, 'pool) worker_env \<Rightarrow> u32 \<Rightarrow> 'f udp_datagram \<Rightarrow> metadata \<Rightarrow> ('an, 'st, 'f, 'c, 'pool) worker \<Rightarrow>
     ((Verdict \<times> bytes option) \<times> ('an, 'st, 'f, 'c, 'pool) worker) go option" where
  "worker_handleUDP env sid udp metadata w =
     (case udpStreamManager_MatchWithContext (we_api env) (we_feed env) (we_close env) (we_lru env) (we_flow_rev env)
             sid udp \<lparr>uc_Verdict = VerdictAccept, uc_Packet = None, uc_Metadata = metadata\<rparr> (wk_udpStreamManager w) of
        None \<Rightarrow> None
      | Some None \<Rightarrow> Some None
      | Some (Some (m, uc, ev)) \<Rightarrow> Some (Some ((uc_Verdict uc, uc_Packet uc), w\<lparr>wk_udpStreamManager := m\<rparr>)))"

definition worker_handle ::
    "('an, 'st, 'f, 't, 'c, 'pool) worker_env \<Rightarrow> u32 \<Rightarrow> ('f, 't) packet_layers \<Rightarrow> metadata \<Rightarrow>
     ('an, 'st, 'f, 'c, 'pool) worker \<Rightarrow> ((Verdict \<times> bytes option) \<times> ('an, 'st, 'f, 'c, 'pool) worker) go option" where
  "worker_handle env sid p metadata w =
     (case p of
        NoLayers \<Rightarrow> Some (Some ((VerdictAccept, None), w))
      | TCPPacket tr \<Rightarrow>
          (case we_assemble env (wk_tcpStreamFactory w) tr metadata (wk_tcpPool w) of
             None \<Rightarrow> None
           | Some None \<Rightarrow> Some None
           | Some (Some (v, pool)) \<Rightarrow> Some (Some ((v, None), w\<lparr>wk_tcpPool := pool\<rparr>)))
      | UDPPacket tr \<Rightarrow>
          (case worker_handleUDP env sid tr metadata w of
             None \<Rightarrow> None
           | Some None \<Rightarrow> Some None
           | Some (Some ((v, modPayload), w)) \<Rightarrow>
               (case (v = VerdictAcceptModify, modPayload) of
                  (True, Some b) \<Rightarrow>
                    (case we_serialize env tr b of
                       None \<Rightarrow> Some (Some ((VerdictAccept, None), w))
                     | Some out \<Rightarrow> Some (Some ((v, Some out), w)))
                | _ \<Rightarrow> Some (Some ((v, None), w))))
      | OtherTransport \<Rightarrow> Some (Some ((VerdictAccept, None), w)))"

text \<open>Both factories are given the rules; streams that exist keep those they were created with.\<close>

definition worker_UpdateRuleset :: "'an Ruleset \<Rightarrow> ('an, 'st, 'f, 'c, 'pool) worker \<Rightarrow> ('an, 'st, 'f, 'c, 'pool) worker" where
  "worker_UpdateRuleset r w =
     (let w = w\<lparr>wk_tcpStreamFactory := tcpStreamFactory_UpdateRuleset r (wk_tcpStreamFactory w)\<rparr>;
          m = wk_udpStreamManager w in
      w\<lparr>wk_udpStreamManager := m\<lparr>um_factory := udpStreamFactory_UpdateRuleset r (um_factory m)\<rparr>\<rparr>)"

text \<open>\<open>Run\<close> without the flushes: the packets of its queue one after the other, with the verdict of each.\<close>

fun worker_Run ::
    "('an, 'st, 'f, 't, 'c, 'pool) worker_env \<Rightarrow> ('f, 't) packet_layers workerPacket list \<Rightarrow>
     ('an, 'st, 'f, 'c, 'pool) worker \<Rightarrow> ((Verdict \<times> bytes option) list \<times> ('an, 'st, 'f, 'c, 'pool) worker) go option" where
  "worker_Run env [] w = Some (Some ([], w))"
| "worker_Run env (p # ps) w =
     (case worker_handle env (wp_StreamID p) (wp_Packet p) (wp_Metadata p) w of
        None \<Rightarrow> None
      | Some None \<Rightarrow> Some None
      | Some (Some (v, w)) \<Rightarrow>
          (case worker_Run env ps w of
             None \<Rightarrow> None
           | Some None \<Rightarrow> Some None
           | Some (Some (vs, w)) \<Rightarrow> Some (Some (v # vs, w))))"

section \<open>Dealing packets out\<close>

text \<open>
  A packet from the IO: stream id, raw data, metadata. \<open>decode\<close> is \<open>gopacket.NewPacket\<close> from the IP
  layer. The engine's state is the queues of its workers and the packets accepted at once.
\<close>

record io_packet =
  ip_StreamID :: u32
  ip_Data :: bytes
  ip_Metadata :: metadata

record 'p engine_state =
  en_workers :: "'p workerPacket list list"
  en_accepted :: "io_packet list"

definition NewEngine_workerCount :: "int \<Rightarrow> int \<Rightarrow> int" where
  "NewEngine_workerCount numCPU workers = (if workers \<le> 0 then numCPU else workers)"

text \<open>\<open>data[0]\<close> of an empty packet panics.\<close>

definition engine_dispatch :: "(bytes \<Rightarrow> nat \<Rightarrow> 'p) \<Rightarrow> io_packet \<Rightarrow> 'p engine_state \<Rightarrow> 'p engine_state go" where
  "engine_dispatch decode p e =
     (let data = ip_Data p in
      if data = [] then None
      else
        (let ipVersion = unat (drop_bit 4 (data ! 0)) in
         if ipVersion \<noteq> 4 \<and> ipVersion \<noteq> 6 then Some (e\<lparr>en_accepted := en_accepted e @ [p]\<rparr>)
         else
           (let packet = decode data ipVersion;
                index = unat (ip_StreamID p mod word_of_nat (length (en_workers e)));
                wp = \<lparr>wp_StreamID = ip_StreamID p, wp_Packet = packet, wp_Metadata = copyMetadata (ip_Metadata p)\<rparr> in
            Some (e\<lparr>en_workers := (en_workers e)[index := en_workers e ! index @ [wp]]\<rparr>))))"

fun engine_dispatches :: "(bytes \<Rightarrow> nat \<Rightarrow> 'p) \<Rightarrow> io_packet list \<Rightarrow> 'p engine_state \<Rightarrow> 'p engine_state go" where
  "engine_dispatches decode [] e = Some e"
| "engine_dispatches decode (p # ps) e =
     (case engine_dispatch decode p e of None \<Rightarrow> None | Some e \<Rightarrow> engine_dispatches decode ps e)"

definition ip_version :: "io_packet \<Rightarrow> nat" where
  "ip_version p = unat (drop_bit 4 (ip_Data p ! 0))"

definition is_ip :: "io_packet \<Rightarrow> bool" where
  "is_ip p \<longleftrightarrow> ip_version p = 4 \<or> ip_version p = 6"

definition to_worker :: "(bytes \<Rightarrow> nat \<Rightarrow> 'p) \<Rightarrow> io_packet \<Rightarrow> 'p workerPacket" where
  "to_worker decode p =
     \<lparr>wp_StreamID = ip_StreamID p, wp_Packet = decode (ip_Data p) (ip_version p), wp_Metadata = copyMetadata (ip_Metadata p)\<rparr>"

lemma dispatch_step:
  assumes "ip_Data p \<noteq> []" "en_workers e \<noteq> []" "length (en_workers e) < 2 ^ 32"
  shows "engine_dispatch decode p e =
     Some (if is_ip p
           then e\<lparr>en_workers := map (\<lambda>i. en_workers e ! i
                    @ (if i = unat (ip_StreamID p) mod length (en_workers e) then [to_worker decode p] else []))
                  [0..<length (en_workers e)]\<rparr>
           else e\<lparr>en_accepted := en_accepted e @ [p]\<rparr>)"
proof -
  let ?n = "length (en_workers e)" and ?i = "unat (ip_StreamID p) mod length (en_workers e)"
  have "unat (ip_StreamID p mod word_of_nat ?n) = ?i"
    using assms(3) by (simp add: unat_mod_distrib unat_of_nat take_bit_nat_eq_self)
  moreover have "(en_workers e)[?i := en_workers e ! ?i @ [x]] =
      map (\<lambda>i. en_workers e ! i @ (if i = ?i then [x] else [])) [0..<?n]" for x
    by (rule nth_equalityI) (auto simp: nth_list_update)
  ultimately show ?thesis
    using assms(1) by (auto simp: engine_dispatch_def is_ip_def ip_version_def to_worker_def Let_def)
qed

text \<open>
  The queue of a worker after any packets: those of its stream ids, in the order of arrival. The
  packets of one stream are all in one queue.
\<close>

text \<open>
  C11. The queue of each worker is the IP packets whose stream id is its number modulo the number
  of workers, in the order of arrival, so the packets of a stream are handled by one worker in
  order; all other packets are accepted at once.
\<close>

theorem dispatch_queues':
  assumes "list_all (\<lambda>p. ip_Data p \<noteq> []) ps" "0 < n" "n < 2 ^ 32"
  shows "\<exists>e. engine_dispatches decode ps \<lparr>en_workers = replicate n [], en_accepted = []\<rparr> = Some e
     \<and> length (en_workers e) = n
     \<and> (\<forall>i < n. en_workers e ! i =
          map (to_worker decode) (filter (\<lambda>p. is_ip p \<and> unat (ip_StreamID p) mod n = i) ps))
     \<and> en_accepted e = filter (\<lambda>p. \<not> is_ip p) ps"
proof -
  have "\<exists>e'. engine_dispatches decode ps e = Some e' \<and> length (en_workers e') = n
     \<and> (\<forall>i < n. en_workers e' ! i = en_workers e ! i @
          map (to_worker decode) (filter (\<lambda>p. is_ip p \<and> unat (ip_StreamID p) mod n = i) ps))
     \<and> en_accepted e' = en_accepted e @ filter (\<lambda>p. \<not> is_ip p) ps"
    if "length (en_workers e) = n" for e
    using that assms(1)
  proof (induction ps arbitrary: e)
    case (Cons p ps)
    note step = dispatch_step [of p e decode]
    let ?e = "if is_ip p
           then e\<lparr>en_workers := map (\<lambda>i. en_workers e ! i
                    @ (if i = unat (ip_StreamID p) mod n then [to_worker decode p] else [])) [0..<n]\<rparr>
           else e\<lparr>en_accepted := en_accepted e @ [p]\<rparr>"
    have "engine_dispatch decode p e = Some ?e"
      using step Cons.prems assms(2,3) by auto
    moreover have "length (en_workers ?e) = n" using Cons.prems by simp
    ultimately show ?case
      using Cons.IH [of ?e] Cons.prems by (auto simp: nth_append)
  qed simp
  from this [of "\<lparr>en_workers = replicate n [], en_accepted = []\<rparr>"] show ?thesis by simp
qed

text \<open>
  C9. The queue of each worker is the IP packets whose stream id is its number modulo the number
  of workers, in the order of arrival, so the packets of a stream are handled by one worker in
  order; all other packets are accepted at once.
\<close>

theorem dispatch_queues:
  assumes "list_all (\<lambda>p. ip_Data p \<noteq> []) ps" "0 < n" "n < 2 ^ 32"
  shows "\<exists>e. engine_dispatches decode ps \<lparr>en_workers = replicate n [], en_accepted = []\<rparr> = Some e
     \<and> length (en_workers e) = n
     \<and> (\<forall>i < n. en_workers e ! i =
          map (to_worker decode) (filter (\<lambda>p. is_ip p \<and> unat (ip_StreamID p) mod n = i) ps))
     \<and> en_accepted e = filter (\<lambda>p. \<not> is_ip p) ps"
  by (rule dispatch_queues' [OF assms])

section \<open>The engine with the analyzers of the program\<close>

lemma new_tcp_stream:
  "ts_activeEntries (fst (tcpStreamFactory_New api f sid tcp ctx)) =
     map (new_entry api) (analyzersToAPI api tcp (rs_Analyzers (tf_Ruleset f)
       (ts_info (fst (tcpStreamFactory_New api f sid tcp ctx)))))"
  "ts_virgin (fst (tcpStreamFactory_New api f sid tcp ctx))"
  by (simp_all add: tcpStreamFactory_New_def Let_def)

lemma new_tcp_entries:
  assumes "e \<in> set (ts_activeEntries (fst (tcpStreamFactory_New tcp_api f sid tcp ctx)))"
  shows "\<exists>a \<in> set (rs_Analyzers (tf_Ruleset f) (ts_info (fst (tcpStreamFactory_New tcp_api f sid tcp ctx)))).
           Analyzer_NewTCP a tcp = Some (se_Stream e) \<and> entry_inv tcp_stream_inv e"
  using assms unfolding new_tcp_stream(1)
  by (auto simp: analyzersToAPI_def new_entry_def tcp_api_def entry_inv_def new_tcp_inv split: option.splits)

text \<open>
  With any analyzers but that of SOCKS, nothing a peer sends on a TCP connection makes the engine
  panic.
\<close>

text \<open>
  C5. With rules that ask for any of the program's analyzers except the SOCKS one, no sequence of
  TCP segments makes the engine panic or loop: every packet gets a verdict.
\<close>

theorem tcp_engine_safe:
  assumes "\<And>info. SocksAnalyzer \<notin> set (rs_Analyzers (tf_Ruleset f) info)"
  shows "\<exists>s vs. tcp_packets (TCPStream_Feed decode) TCPStream_Close ps
                  (fst (tcpStreamFactory_New tcp_api f sid tcp ctx)) = Some (Some (s, vs))
              \<and> length vs = length ps"
proof (rule tcp_safe.packets_safe, rule ballI)
  fix e
  assume "e \<in> set (ts_activeEntries (fst (tcpStreamFactory_New tcp_api f sid tcp ctx)))"
  from new_tcp_entries [OF this] assms new_tcp_not_socks
  show "entry_inv (\<lambda>s. tcp_stream_inv s \<and> not_socks s) e"
    by (fastforce simp: entry_inv_def)
qed

text \<open>
  With it, a SOCKS5 request for a domain name of more than 250 bytes does, whatever other analyzers
  are asked for. Nothing in the program recovers from a panic.
\<close>

text \<open>
  C26. With the SOCKS analyzer among those asked for, one segment with a SOCKS5 request for a
  domain name of more than 250 bytes makes the worker panic, whatever the other analyzers are.
\<close>

theorem socks_domain_panics_engine:
  assumes "\<And>info. SocksAnalyzer \<in> set (rs_Analyzers (tf_Ruleset f) info)"
    and "251 \<le> length host" "length host < 256"
  shows "worker_handleTCP (TCPStream_Feed decode) TCPStream_Close md
           [(False, st, en, 0, socks5_connect host p1 p2)]
           (fst (tcpStreamFactory_New tcp_api f sid tcp ctx)) = Some None"
proof -
  let ?s = "fst (tcpStreamFactory_New tcp_api f sid tcp ctx)"
  let ?f = "tcpStream_feedEntry (TCPStream_Feed decode) TCPStream_Close False st en 0 (socks5_connect host p1 p2)"
  let ?e = "new_entry tcp_api (SocksAnalyzer, SocksStream newSocksStream)"
  have "\<forall>e \<in> set (rev (ts_activeEntries ?s)). ?f e \<noteq> None"
  proof
    fix e
    assume "e \<in> set (rev (ts_activeEntries ?s))"
    then have "entry_inv tcp_stream_inv e" using new_tcp_entries by simp
    from tcp.entry_returns [OF this] show "?f e \<noteq> None" by (metis option.distinct(1))
  qed
  moreover have "?e \<in> set (rev (ts_activeEntries ?s))"
    using assms(1) unfolding new_tcp_stream(1)
    by (auto simp: analyzersToAPI_def tcp_api_def intro!: image_eqI bexI [of _ SocksAnalyzer])
  moreover have "?f ?e = Some None"
    using socks5_connect_fed(2) [OF assms(3,2), of st en p1 p2]
    by (simp add: new_entry_def tcp_api_def SocksAnalyzer_Limit_def tcpStream_feedEntry_def fed_def)
  ultimately have "feed_entries ?f (rev (ts_activeEntries ?s)) [] (ts_doneEntries ?s) (si_Props (ts_info ?s)) False = Some None"
    using feed_entries_panics [of "rev (ts_activeEntries ?s)" ?f] by blast
  then show ?thesis
    by (simp add: worker_handleTCP_def tcpStream_Accept_def new_tcp_stream(2) tcpStream_ReassembledSG_def)
qed

text \<open>
  A worker returns from every packet, with a verdict or a panic, whatever peers send over UDP, if
  the assembler does and reading a variable-length integer consumes a byte.
\<close>

definition worker_env_of ::
    "dns_decode \<Rightarrow> quic_crypto \<Rightarrow> varint \<Rightarrow> int \<Rightarrow> 'c lru_api \<Rightarrow> ('f \<Rightarrow> 'f) \<Rightarrow>
     (Analyzer tcpStreamFactory \<Rightarrow> 't \<Rightarrow> metadata \<Rightarrow> 'pool \<Rightarrow> (Verdict \<times> 'pool) go option) \<Rightarrow>
     ('f udp_datagram \<Rightarrow> bytes \<Rightarrow> bytes option) \<Rightarrow> (Analyzer, UDPStream, 'f, 't, 'c, 'pool) worker_env" where
  "worker_env_of decode qc varint now lru flow_rev assemble serialize =
     \<lparr>we_api = udp_api, we_feed = UDPStream_Feed decode qc varint now, we_close = UDPStream_Close,
      we_lru = lru, we_flow_rev = flow_rev, we_assemble = assemble, we_serialize = serialize\<rparr>"

lemma udp_api_new: "\<forall>a info s. ua_New udp_api a info = Some s \<longrightarrow> varint_consumes varint \<longrightarrow> varint_consumes varint \<and> udp_stream_inv s"
  by (auto simp: udp_api_def new_udp_inv)

lemma worker_handle_returns:
  assumes "varint_consumes varint" "lru_laws lru addrs" "\<forall>f t md pool. assemble f t md pool \<noteq> None"
    and "manager_inv udp_stream_inv addrs (wk_udpStreamManager w)"
  shows "\<exists>r. worker_handle (worker_env_of decode qc varint now lru flow_rev assemble serialize) sid p md w = Some r
     \<and> (\<forall>v w'. r = Some (v, w') \<longrightarrow> manager_inv udp_stream_inv addrs (wk_udpStreamManager w'))"
proof (cases p)
  case (TCPPacket t)
  obtain r where "assemble (wk_tcpStreamFactory w) t md (wk_tcpPool w) = Some r"
    using assms(3) by blast
  then show ?thesis
    using assms(4) by (cases r) (auto simp: worker_handle_def TCPPacket worker_env_of_def)
next
  case (UDPPacket dg)
  let ?m = "wk_udpStreamManager w" and ?uc = "\<lparr>uc_Verdict = VerdictAccept, uc_Packet = None, uc_Metadata = md\<rparr>"
  have inv: "(\<lambda>s. varint_consumes varint \<and> udp_stream_inv s) = udp_stream_inv" using assms(1) by simp
  have "\<forall>a info s. ua_New udp_api a info = Some s \<longrightarrow> varint_consumes varint \<and> udp_stream_inv s"
    using udp_api_new assms(1) by blast
  from udp.manager_returns [OF this assms(2), unfolded inv, OF assms(4), of decode qc now flow_rev sid dg ?uc]
  obtain r where r: "udpStreamManager_MatchWithContext udp_api (UDPStream_Feed decode qc varint now) UDPStream_Close lru
      flow_rev sid dg ?uc ?m = Some r"
    "\<forall>m' uc' ev. r = Some (m', uc', ev) \<longrightarrow> manager_inv udp_stream_inv addrs m'"
    by blast
  then show ?thesis
    by (cases r) (auto simp: worker_handle_def UDPPacket worker_env_of_def worker_handleUDP_def split: option.split bool.split)
qed (use assms(4) in \<open>simp_all add: worker_handle_def\<close>)

text \<open>
  C25. A worker returns from every packet of its queue, with a verdict or a panic, whatever is
  sent over UDP, if the assembler returns, the cache holds only what it was given and reading a
  variable-length integer consumes a byte.
\<close>

theorem worker_returns:
  assumes "varint_consumes varint" "lru_laws lru addrs" "\<forall>f t md pool. assemble f t md pool \<noteq> None"
    and "manager_inv udp_stream_inv addrs (wk_udpStreamManager w)"
  shows "worker_Run (worker_env_of decode qc varint now lru flow_rev assemble serialize) ps w \<noteq> None"
  using assms(4)
proof (induction ps arbitrary: w)
  case (Cons p ps)
  obtain r where r: "worker_handle (worker_env_of decode qc varint now lru flow_rev assemble serialize)
      (wp_StreamID p) (wp_Packet p) (wp_Metadata p) w = Some r"
    "\<forall>v w'. r = Some (v, w') \<longrightarrow> manager_inv udp_stream_inv addrs (wk_udpStreamManager w')"
    using worker_handle_returns [OF assms(1-3) Cons.prems] by blast
  then show ?case
    using Cons.IH by (cases r) (auto split: option.split)
qed simp

section \<open>The statements at concrete inputs\<close>

definition example_packets :: "io_packet list" where
  "example_packets = [\<lparr>ip_StreamID = 7, ip_Data = [0x45, 0], ip_Metadata = None\<rparr>,
     \<lparr>ip_StreamID = 8, ip_Data = [0x10], ip_Metadata = None\<rparr>]"

lemma example_packets_is_ip: "map is_ip example_packets = [True, False]"
  by (simp add: is_ip_def ip_version_def drop_bit_eq_div example_packets_def)

theorem dispatch_queues_witness:
  "\<exists>e. engine_dispatches (\<lambda>d v. (d, v)) example_packets \<lparr>en_workers = replicate 2 [], en_accepted = []\<rparr> = Some e
     \<and> length (en_workers e) = 2 \<and> length (en_workers e ! 1) = 1 \<and> en_workers e ! 0 = []"
proof -
  have "list_all (\<lambda>p. ip_Data p \<noteq> []) example_packets" by (simp add: example_packets_def)
  from dispatch_queues [OF this, of 2 "\<lambda>d v. (d, v)"] obtain e where
    e: "engine_dispatches (\<lambda>d v. (d, v)) example_packets \<lparr>en_workers = replicate 2 [], en_accepted = []\<rparr> = Some e"
    "length (en_workers e) = 2"
    and q: "\<And>i. i < 2 \<Longrightarrow> en_workers e ! i =
          map (to_worker (\<lambda>d v. (d, v))) (filter (\<lambda>p. is_ip p \<and> unat (ip_StreamID p) mod 2 = i) example_packets)"
    by auto
  have "filter (\<lambda>p. is_ip p \<and> unat (ip_StreamID p) mod 2 = 1) example_packets = [example_packets ! 0]"
    "filter (\<lambda>p. is_ip p \<and> unat (ip_StreamID p) mod 2 = 0) example_packets = []"
    using example_packets_is_ip by (simp_all add: example_packets_def)
  with e q [of 0] q [of 1] show ?thesis by auto
qed

definition example_factory :: "Analyzer list \<Rightarrow> Analyzer tcpStreamFactory" where
  "example_factory ans = \<lparr>tf_WorkerID = 0,
     tf_Ruleset = \<lparr>rs_Analyzers = (\<lambda>_. ans), rs_Match = (\<lambda>_. \<lparr>mr_Action = ActionMaybe, mr_ModInstance = None\<rparr>)\<rparr>,
     tf_MetadataEnricher = None\<rparr>"

abbreviation example_stream :: "Analyzer list \<Rightarrow> (Analyzer, TCPStream) tcpStream" where
  "example_stream ans \<equiv> fst (tcpStreamFactory_New tcp_api (example_factory ans) 1
     \<lparr>ti_SrcIP = [10, 0, 0, 1], ti_DstIP = [10, 0, 0, 2], ti_SrcPort = 4000, ti_DstPort = 80\<rparr>
     \<lparr>tc_Verdict = VerdictAccept, tc_Metadata = None\<rparr>)"

theorem tcp_engine_safe_witness:
  "\<exists>s vs. tcp_packets (TCPStream_Feed decode_example) TCPStream_Close [(None, [(False, True, False, 0, [22, 3])])]
       (example_stream (remove1 SocksAnalyzer analyzers)) = Some (Some (s, vs)) \<and> length vs = 1"
  using tcp_engine_safe [of "example_factory (remove1 SocksAnalyzer analyzers)" decode_example
      "[(None, [(False, True, False, 0, [22, 3])])]"]
  by (simp add: example_factory_def analyzers_def)

theorem socks_domain_panics_engine_witness:
  "worker_handleTCP (TCPStream_Feed decode_example) TCPStream_Close None
     [(False, True, False, 0, socks5_connect (replicate 255 CHR ''a'') 1 187)] (example_stream analyzers) = Some None"
  by (rule socks_domain_panics_engine) (simp_all add: example_factory_def analyzers_def)

definition example_worker :: "(Analyzer, UDPStream, nat, (u32 \<times> nat) list, unit) worker" where
  "example_worker = \<lparr>wk_tcpStreamFactory = example_factory analyzers, wk_tcpPool = (),
     wk_udpStreamManager = \<lparr>um_factory = \<lparr>uf_WorkerID = 0, uf_Ruleset = tf_Ruleset (example_factory analyzers),
       uf_MetadataEnricher = None, uf_nextID = []\<rparr>, um_streams = [], um_store = []\<rparr>\<rparr>"

theorem worker_returns_witness:
  "\<forall>qc. worker_Run (worker_env_of decode_example qc varint_rfc 0 assoc_lru (\<lambda>f. f) (\<lambda>f t md pool. Some (Some (VerdictAccept, pool)))
      (\<lambda>dg b. None))
     [\<lparr>wp_StreamID = 1, wp_Packet = UDPPacket \<lparr>dg_IPFlow = 0, dg_UDPFlow = 0,
         dg_Info = \<lparr>ui_SrcIP = [], ui_DstIP = [], ui_SrcPort = 1, ui_DstPort = 443\<rparr>, dg_Payload = ([0x40, 0, 0], 3)\<rparr>,
       wp_Metadata = None\<rparr>] example_worker \<noteq> None"
proof
  fix qc
  have "lru_laws assoc_lru (\<lambda>c. snd ` set c)"
    by (auto simp: lru_laws_def assoc_lru_def dest: map_of_SomeD intro: rev_image_eqI)
  then show "worker_Run (worker_env_of decode_example qc varint_rfc 0 assoc_lru (\<lambda>f. f) (\<lambda>f t md pool. Some (Some (VerdictAccept, pool)))
      (\<lambda>dg b. None))
     [\<lparr>wp_StreamID = 1, wp_Packet = UDPPacket \<lparr>dg_IPFlow = 0, dg_UDPFlow = 0,
         dg_Info = \<lparr>ui_SrcIP = [], ui_DstIP = [], ui_SrcPort = 1, ui_DstPort = 443\<rparr>, dg_Payload = ([0x40, 0, 0], 3)\<rparr>,
       wp_Metadata = None\<rparr>] example_worker \<noteq> None"
    by (rule worker_returns [OF varint_rfc_consumes])
       (simp_all add: manager_inv_def example_worker_def)
qed

end
