(* ===== verification/EngineSetup.thy ===== *)
theory EngineSetup
  imports Engine
begin

text \<open>
  How an engine is put together: \<open>NewEngine\<close> of \<open>engine/engine.go\<close>, \<open>newWorker\<close> of \<open>engine/worker.go\<close>
  and \<open>newUDPStreamManager\<close> of \<open>engine/udp.go\<close>. The snowflake node that numbers streams, the LRU
  cache and the stream pool of the assembler are parameters.
\<close>

record 'an engine_config =
  ec_Ruleset :: "'an Ruleset"
  ec_MetadataEnricher :: "MetadataEnricher option"
  ec_Workers :: int
  ec_WorkerQueueSize :: int
  ec_WorkerTCPMaxBufferedPagesTotal :: int
  ec_WorkerTCPMaxBufferedPagesPerConn :: int
  ec_WorkerTCPTimeout :: int
  ec_WorkerUDPMaxStreams :: int

record ('c, 'pool) engine_libs =
  el_NumCPU :: int
  el_NewNode :: "int \<Rightarrow> string + int list"
  el_lru_New :: "int \<Rightarrow> string + 'c"
  el_NewStreamPool :: "int \<Rightarrow> int \<Rightarrow> 'pool"

definition newUDPStreamManager ::
    "(int \<Rightarrow> string + 'c) \<Rightarrow> 'an udpStreamFactory \<Rightarrow> int \<Rightarrow> string + ('an, 'st, 'f, 'c) udpStreamManager" where
  "newUDPStreamManager lru_New factory maxStreams =
     (case lru_New maxStreams of
        Inl err \<Rightarrow> Inl err
      | Inr ss \<Rightarrow> Inr \<lparr>um_factory = factory, um_streams = ss, um_store = []\<rparr>)"

text \<open>A worker with the size of its channel and the time after which an idle connection is flushed.\<close>

definition newWorker ::
    "('c, 'pool) engine_libs \<Rightarrow> 'an Ruleset \<Rightarrow> MetadataEnricher option \<Rightarrow> workerConfig \<Rightarrow>
     string + int \<times> int \<times> ('an, 'st, 'f, 'c, 'pool) worker" where
  "newWorker libs rs enricher config =
     (let config = workerConfig_fillDefaults config in
      case el_NewNode libs (wc_ID config) of
        Inl err \<Rightarrow> Inl err
      | Inr node \<Rightarrow>
          (let tcpSF = \<lparr>tf_WorkerID = wc_ID config, tf_Ruleset = rs, tf_MetadataEnricher = enricher\<rparr>;
               pool = el_NewStreamPool libs (wc_TCPMaxBufferedPagesTotal config) (wc_TCPMaxBufferedPagesPerConn config);
               udpSF = \<lparr>uf_WorkerID = wc_ID config, uf_Ruleset = rs, uf_MetadataEnricher = enricher, uf_nextID = node\<rparr> in
           case newUDPStreamManager (el_lru_New libs) udpSF (wc_UDPMaxStreams config) of
             Inl err \<Rightarrow> Inl err
           | Inr udpSM \<Rightarrow>
               Inr (wc_ChanSize config, wc_TCPTimeout config,
                 \<lparr>wk_tcpStreamFactory = tcpSF, wk_tcpPool = pool, wk_udpStreamManager = udpSM\<rparr>)))"

definition worker_config :: "'an engine_config \<Rightarrow> int \<Rightarrow> workerConfig" where
  "worker_config config i =
     \<lparr>wc_ID = i, wc_ChanSize = ec_WorkerQueueSize config,
      wc_TCPMaxBufferedPagesTotal = ec_WorkerTCPMaxBufferedPagesTotal config,
      wc_TCPMaxBufferedPagesPerConn = ec_WorkerTCPMaxBufferedPagesPerConn config,
      wc_TCPTimeout = ec_WorkerTCPTimeout config, wc_UDPMaxStreams = ec_WorkerUDPMaxStreams config\<rparr>"

text \<open>The workers from the \<open>i\<close>-th on, \<open>n\<close> of them, up to the first error.\<close>

fun new_workers ::
    "('c, 'pool) engine_libs \<Rightarrow> 'an engine_config \<Rightarrow> nat \<Rightarrow> int \<Rightarrow>
     string + (int \<times> int \<times> ('an, 'st, 'f, 'c, 'pool) worker) list" where
  "new_workers libs config 0 i = Inr []"
| "new_workers libs config (Suc n) i =
     (case newWorker libs (ec_Ruleset config) (ec_MetadataEnricher config) (worker_config config i) of
        Inl err \<Rightarrow> Inl err
      | Inr w \<Rightarrow> map_sum id (Cons w) (new_workers libs config n (i + 1)))"

definition NewEngine ::
    "('c, 'pool) engine_libs \<Rightarrow> 'an engine_config \<Rightarrow> string + (int \<times> int \<times> ('an, 'st, 'f, 'c, 'pool) worker) list" where
  "NewEngine libs config = new_workers libs config (nat (NewEngine_workerCount (el_NumCPU libs) (ec_Workers config))) 0"

definition engine_UpdateRuleset ::
    "'an Ruleset \<Rightarrow> (int \<times> int \<times> ('an, 'st, 'f, 'c, 'pool) worker) list \<Rightarrow> (int \<times> int \<times> ('an, 'st, 'f, 'c, 'pool) worker) list" where
  "engine_UpdateRuleset r ws = map (\<lambda>(cap, timeout, w). (cap, timeout, worker_UpdateRuleset r w)) ws"

section \<open>What every worker has\<close>

definition worker_ready :: "'an Ruleset \<Rightarrow> int \<Rightarrow> int \<times> int \<times> ('an, 'st, 'f, 'c, 'pool) worker \<Rightarrow> bool" where
  "worker_ready rs i sw \<longleftrightarrow>
     (case sw of (cap, timeout, w) \<Rightarrow>
        0 < cap \<and> 0 < timeout
      \<and> tf_WorkerID (wk_tcpStreamFactory w) = i \<and> uf_WorkerID (um_factory (wk_udpStreamManager w)) = i
      \<and> tf_Ruleset (wk_tcpStreamFactory w) = rs \<and> uf_Ruleset (um_factory (wk_udpStreamManager w)) = rs
      \<and> um_store (wk_udpStreamManager w) = [])"

lemma fillDefaults_positive:
  "0 < wc_ChanSize (workerConfig_fillDefaults c)" "0 < wc_TCPTimeout (workerConfig_fillDefaults c)"
  "wc_ID (workerConfig_fillDefaults c) = wc_ID c"
  by (simp_all add: workerConfig_fillDefaults_def Let_def defaultChanSize_def defaultTCPTimeout_def)

lemma newWorker_ready:
  "newWorker libs rs enricher c = Inr w \<Longrightarrow> worker_ready rs (wc_ID c) w"
  using fillDefaults_positive [of c]
  by (auto simp: newWorker_def newUDPStreamManager_def worker_ready_def Let_def split: sum.splits)

lemma map_sum_Inr_iff: "map_sum id f x = Inr y \<longleftrightarrow> (\<exists>z. x = Inr z \<and> y = f z)"
  by (cases x) auto

text \<open>
  An engine has as many workers as configured, or as there are processors; each numbers its streams
  under its own id, has the rules, and has room in its queue.
\<close>

lemma new_engine_workers:
  assumes "NewEngine libs config = Inr ws" "0 < el_NumCPU libs"
  shows "ws \<noteq> [] \<and> int (length ws) = NewEngine_workerCount (el_NumCPU libs) (ec_Workers config)
     \<and> (\<forall>i < length ws. worker_ready (ec_Ruleset config) (int i) (ws ! i))"
proof -
  let ?rs = "ec_Ruleset config"
  have *: "length ws = n \<and> (\<forall>j < n. worker_ready ?rs (i + int j) (ws ! j))" if "new_workers libs config n i = Inr ws" for n i ws
    using that
  proof (induction n arbitrary: i ws)
    case (Suc n)
    then obtain w ws' where w: "newWorker libs ?rs (ec_MetadataEnricher config) (worker_config config i) = Inr w"
      "new_workers libs config n (i + 1) = Inr ws'" "ws = w # ws'"
      by (auto simp: map_sum_Inr_iff split: sum.splits)
    have "worker_ready ?rs i w" using newWorker_ready [OF w(1)] by (simp add: worker_config_def)
    then show ?case using Suc.IH [OF w(2)] by (auto simp: w(3) less_Suc_eq_0_disj add.assoc)
  qed simp
  show ?thesis using *[OF assms(1) [unfolded NewEngine_def]] assms(2) by (auto simp: NewEngine_workerCount_def split: if_splits)
qed

lemma update_reaches_workers:
  assumes "sw \<in> set (engine_UpdateRuleset r ws)"
  shows "tf_Ruleset (wk_tcpStreamFactory (snd (snd sw))) = r \<and> uf_Ruleset (um_factory (wk_udpStreamManager (snd (snd sw)))) = r"
  using assms by (auto simp: engine_UpdateRuleset_def worker_UpdateRuleset_def tcpStreamFactory_UpdateRuleset_def udpStreamFactory_UpdateRuleset_def Let_def)

end
