(* ===== verification/StreamRules.thy ===== *)
theory StreamRules
  imports EngineSetup
begin

text \<open>
  Which ruleset a stream matches against: the one its factory had when it was created, through all
  packets and through every new ruleset (\<open>New\<close> and \<open>UpdateRuleset\<close> of the factories in \<open>engine/tcp.go\<close>
  and \<open>engine/udp.go\<close>, \<open>handle\<close> of \<open>engine/worker.go\<close>). The streams of the TCP pool are the
  assembler's business; what the engine relies on is stated as \<open>assembler_documented\<close>.
\<close>

section \<open>TCP streams\<close>

text \<open>The same stream: only what its analyzers found and its verdict differ.\<close>

definition same_tcp :: "('an, 'st) tcpStream \<Rightarrow> ('an, 'st) tcpStream \<Rightarrow> bool" where
  "same_tcp s s' \<longleftrightarrow>
     ts_ruleset s' = ts_ruleset s \<and> (\<exists>props. ts_info s' = (ts_info s)\<lparr>si_Props := props\<rparr>)"

lemma same_tcp_trans: "same_tcp s s' \<Longrightarrow> same_tcp s' s'' \<Longrightarrow> same_tcp s s''"
  by (auto simp: same_tcp_def)

lemma same_tcp_refl [simp]: "same_tcp s s"
  by (auto simp: same_tcp_def intro: exI [of _ "si_Props (ts_info s)"])

lemma same_tcp_update [simp]:
  "same_tcp s (s'\<lparr>ts_virgin := b\<rparr>) = same_tcp s s'" "same_tcp s (s'\<lparr>ts_lastVerdict := v\<rparr>) = same_tcp s s'"
  "same_tcp s (s'\<lparr>ts_activeEntries := es\<rparr>) = same_tcp s s'" "same_tcp s (s'\<lparr>ts_doneEntries := es\<rparr>) = same_tcp s s'"
  by (simp_all add: same_tcp_def)

lemma closeActiveEntries_same [simp]: "same_tcp s (fst (tcpStream_closeActiveEntries close s))"
  by (auto simp: same_tcp_def tcpStream_closeActiveEntries_def Let_def case_prod_unfold)

lemma match_same: "same_tcp s (fst (tcpStream_match close s ctx))"
proof -
  let ?s = "s\<lparr>ts_virgin := False\<rparr>"
  have "same_tcp s (fst (tcpStream_closeActiveEntries close (?s\<lparr>ts_lastVerdict := v\<rparr>)))" for v
    by (rule same_tcp_trans [OF _ closeActiveEntries_same]) simp
  then show ?thesis by (simp add: tcpStream_match_def Let_def case_prod_unfold)
qed

lemma ReassembledSG_same:
  assumes "tcpStream_ReassembledSG feed close sg s ctx = Some (Some (s', ctx', ev))"
  shows "same_tcp s s'"
proof -
  obtain rv start en skip data where sg: "sg = (rv, start, en, skip, data)" by (cases sg) auto
  obtain active dn props updated where f: "feed_entries (tcpStream_feedEntry feed close rv start en skip data)
      (rev (ts_activeEntries s)) [] (ts_doneEntries s) (si_Props (ts_info s)) False = Some (Some (active, dn, props, updated))"
    using assms by (auto simp: tcpStream_ReassembledSG_def sg split: option.splits)
  let ?s = "s\<lparr>ts_activeEntries := active, ts_doneEntries := dn, ts_info := (ts_info s)\<lparr>si_Props := props\<rparr>\<rparr>"
  obtain s1 ctx1 ev1 where m: "(if updated \<or> ts_virgin ?s then tcpStream_match close ?s ctx else (?s, ctx, [])) = (s1, ctx1, ev1)"
    by (metis prod_cases3)
  have "same_tcp ?s s1"
  proof (cases "updated \<or> ts_virgin ?s")
    case True
    then show ?thesis using m match_same [of ?s close ctx] by simp
  next
    case False
    then show ?thesis using m by simp
  qed
  moreover have "same_tcp s ?s" by (auto simp: same_tcp_def)
  ultimately have "same_tcp s s1" using same_tcp_trans by blast
  moreover have "s' = s1 \<or> s' = s1\<lparr>ts_lastVerdict := VerdictAcceptStream\<rparr>"
    using assms unfolding tcpStream_ReassembledSG_def sg Let_def prod.case f option.case m by (auto split: if_splits)
  ultimately show ?thesis by auto
qed

text \<open>What the assembler may do with a stream: deliver segments to it and complete it.\<close>

inductive tcp_evolves :: "'st tcp_feed \<Rightarrow> 'st an_close \<Rightarrow> ('an, 'st) tcpStream \<Rightarrow> ('an, 'st) tcpStream \<Rightarrow> bool" for feed close where
  still: "tcp_evolves feed close s s"
| segment: "tcp_evolves feed close s s' \<Longrightarrow> tcpStream_ReassembledSG feed close sg s' ctx = Some (Some (s'', ctx', ev)) \<Longrightarrow>
    tcp_evolves feed close s s''"
| complete: "tcp_evolves feed close s s' \<Longrightarrow> tcp_evolves feed close s (fst (tcpStream_ReassemblyComplete close s'))"

lemma evolves_same: "tcp_evolves feed close s s' \<Longrightarrow> same_tcp s s'"
  by (induction rule: tcp_evolves.induct)
    (auto simp: tcpStream_ReassemblyComplete_def intro: same_tcp_trans ReassembledSG_same closeActiveEntries_same)

text \<open>
  The documented behaviour of the assembler: after a packet its pool holds streams that it held before
  or that the factory made for the packet, and it has only called their methods. \<open>streams\<close> are
  those of a pool.
\<close>

definition assembler_documented ::
    "('an, 'st) analyzer_api \<Rightarrow> 'st tcp_feed \<Rightarrow> 'st an_close \<Rightarrow> ('pool \<Rightarrow> ('an, 'st) tcpStream set) \<Rightarrow>
     ('an tcpStreamFactory \<Rightarrow> 't \<Rightarrow> metadata \<Rightarrow> 'pool \<Rightarrow> (Verdict \<times> 'pool) go option) \<Rightarrow> bool" where
  "assembler_documented api feed close streams assemble \<longleftrightarrow>
     (\<forall>f t md pool v pool'. assemble f t md pool = Some (Some (v, pool')) \<longrightarrow>
        (\<forall>s' \<in> streams pool'. \<exists>s. tcp_evolves feed close s s'
           \<and> (s \<in> streams pool \<or> (\<exists>sid tcp ctx. s = fst (tcpStreamFactory_New api f sid tcp ctx)))))"

section \<open>UDP streams\<close>

lemma udp_close_ruleset [simp]: "us_ruleset (fst (udpStream_closeActiveEntries close s)) = us_ruleset s"
  by (simp add: udpStream_closeActiveEntries_def Let_def case_prod_unfold)

lemma udp_match_ruleset: "udpStream_match close p s uc = (s', uc', ev) \<Longrightarrow> us_ruleset s' = us_ruleset s"
  by (auto simp: udpStream_match_def Let_def case_prod_unfold split: if_splits)

lemma udp_packet_ruleset:
  assumes "udp_packet feed close rv p s uc = Some (Some (s', uc', ev))"
  shows "us_ruleset s' = us_ruleset s"
proof (cases "fst (udpStream_Accept s uc)")
  case True
  then have "udpStream_Feed feed close rv p s (snd (udpStream_Accept s uc)) = Some (Some (s', uc', ev))"
    using assms by (simp add: udp_packet_def case_prod_unfold)
  then show ?thesis
    by (auto simp: udpStream_Feed_def Let_def split: option.splits if_splits prod.splits dest!: udp_match_ruleset)
next
  case False
  then show ?thesis using assms by (simp add: udp_packet_def case_prod_unfold)
qed

definition store_rulesets :: "('an, 'st, 'f, 'c) udpStreamManager \<Rightarrow> 'an Ruleset list" where
  "store_rulesets m = map (\<lambda>v. us_ruleset (uv_Stream v)) (um_store m)"

lemma store_rulesets_cache [simp]: "store_rulesets (m\<lparr>um_streams := c\<rparr>) = store_rulesets m"
  by (simp add: store_rulesets_def)

lemma new_value_rulesets:
  "store_rulesets (snd (fst (new_value api lru sid dg uc m))) = store_rulesets m @ [uf_Ruleset (um_factory m)]"
  "uf_Ruleset (um_factory (snd (fst (new_value api lru sid dg uc m)))) = uf_Ruleset (um_factory m)"
  by (simp_all add: new_value_def udpStreamFactory_New_def store_rulesets_def Let_def case_prod_unfold)

lemma store_rulesets_update:
  "us_ruleset (uv_Stream v) = us_ruleset (uv_Stream (um_store m ! a)) \<Longrightarrow>
     store_rulesets (m\<lparr>um_store := (um_store m)[a := v]\<rparr>) = store_rulesets m"
  by (cases "a < length (um_store m)") (simp_all add: store_rulesets_def map_update list_update_same_conv list_update_beyond)

text \<open>A packet changes no ruleset of a stream and adds at most one stream, with the factory's.\<close>

lemma manager_rulesets:
  assumes "udpStreamManager_MatchWithContext api feed close lru flow_rev sid dg uc m = Some (Some (m', uc', ev))"
  shows "(\<exists>k \<le> 1. store_rulesets m' = store_rulesets m @ replicate k (uf_Ruleset (um_factory m)))
     \<and> uf_Ruleset (um_factory m') = uf_Ruleset (um_factory m)"
proof -
  obtain found c where g: "lru_get lru sid (um_streams m) = (found, c)" by fastforce
  let ?m = "m\<lparr>um_streams := c\<rparr>"
  define r where "r = (case found of
      None \<Rightarrow> (False, new_value api lru sid dg uc ?m)
    | Some a \<Rightarrow>
        (let v = um_store ?m ! a;
             (ok, rv) = udpStreamValue_Match flow_rev (dg_IPFlow dg) (dg_UDPFlow dg) v in
         if ok then (rv, (a, ?m), [])
         else
           (let (s, ev) = udpStream_Close close (uv_Stream v);
                m = ?m\<lparr>um_store := (um_store ?m)[a := v\<lparr>uv_Stream := s\<rparr>]\<rparr>;
                (am, ev') = new_value api lru sid dg uc m in
            (rv, am, ev @ ev'))))"
  obtain rv a m1 ev1 where r: "r = (rv, (a, m1), ev1)" by (metis surj_pair)
  have "m1 = ?m \<or> (\<exists>m0. m1 = snd (fst (new_value api lru sid dg uc m0))
      \<and> store_rulesets m0 = store_rulesets m \<and> uf_Ruleset (um_factory m0) = uf_Ruleset (um_factory m))"
  proof (cases found)
    case None
    then have "m1 = snd (fst (new_value api lru sid dg uc ?m))" using r by (simp add: r_def)
    moreover have "store_rulesets ?m = store_rulesets m" "uf_Ruleset (um_factory ?m) = uf_Ruleset (um_factory m)"
      by (simp_all add: store_rulesets_def)
    ultimately show ?thesis by blast
  next
    case (Some i)
    let ?v = "um_store m ! i" let ?u = "fst (udpStream_Close close (uv_Stream ?v))"
    let ?new = "?m\<lparr>um_store := (um_store ?m)[i := ?v\<lparr>uv_Stream := ?u\<rparr>]\<rparr>"
    have "us_ruleset (uv_Stream (?v\<lparr>uv_Stream := ?u\<rparr>)) = us_ruleset (uv_Stream (um_store ?m ! i))"
      by (simp add: udpStream_Close_def)
    then have "store_rulesets ?new = store_rulesets ?m" by (rule store_rulesets_update)
    then have "store_rulesets ?new = store_rulesets m" by (rule trans) (rule store_rulesets_cache)
    moreover have "uf_Ruleset (um_factory ?new) = uf_Ruleset (um_factory m)" by simp
    moreover have "m1 = ?m \<or> m1 = snd (fst (new_value api lru sid dg uc ?new))"
      using r by (auto simp: r_def Some Let_def case_prod_unfold split: if_splits)
    ultimately show ?thesis by blast
  qed
  then have m1: "(\<exists>k \<le> 1. store_rulesets m1 = store_rulesets m @ replicate k (uf_Ruleset (um_factory m)))
      \<and> uf_Ruleset (um_factory m1) = uf_Ruleset (um_factory m)"
  proof (elim disjE exE conjE)
    assume "m1 = ?m"
    then show ?thesis by (intro conjI exI [of _ 0]) (simp_all add: store_rulesets_def)
  next
    fix m0
    assume "m1 = snd (fst (new_value api lru sid dg uc m0))" "store_rulesets m0 = store_rulesets m"
      "uf_Ruleset (um_factory m0) = uf_Ruleset (um_factory m)"
    then show ?thesis by (intro conjI exI [of _ 1]) (simp_all add: new_value_rulesets)
  qed
  obtain s uc2 ev2 where p: "udp_packet feed close rv (dg_Payload dg) (uv_Stream (um_store m1 ! a)) uc = Some (Some (s, uc2, ev2))"
    "m' = m1\<lparr>um_store := (um_store m1)[a := (um_store m1 ! a)\<lparr>uv_Stream := s\<rparr>]\<rparr>"
    using assms unfolding udpStreamManager_MatchWithContext_def Let_def g prod.case r_def [unfolded Let_def, symmetric] r
    by (auto split: option.splits)
  have "store_rulesets m' = store_rulesets m1"
    unfolding p(2) by (rule store_rulesets_update) (simp add: udp_packet_ruleset [OF p(1)])
  then show ?thesis using m1 by (simp add: p(2))
qed

section \<open>A worker\<close>

text \<open>
  What a packet does: the factories keep their rules, every TCP stream is one that was there or has
  the factory's rules, and so for UDP.
\<close>

definition rules_kept :: "('pool \<Rightarrow> ('an, 'st1) tcpStream set) \<Rightarrow> ('an, 'st, 'f, 'c, 'pool) worker \<Rightarrow> ('an, 'st, 'f, 'c, 'pool) worker \<Rightarrow> bool" where
  "rules_kept streams w w' \<longleftrightarrow>
     (\<forall>s' \<in> streams (wk_tcpPool w'). (\<exists>s \<in> streams (wk_tcpPool w). same_tcp s s') \<or> ts_ruleset s' = tf_Ruleset (wk_tcpStreamFactory w))
   \<and> (\<exists>k \<le> 1. store_rulesets (wk_udpStreamManager w') =
        store_rulesets (wk_udpStreamManager w) @ replicate k (uf_Ruleset (um_factory (wk_udpStreamManager w))))"

lemma handle_rules:
  assumes "assembler_documented api feed close streams (we_assemble env)"
    and "worker_handle env sid p md w = Some (Some (out, w'))"
  shows "rules_kept streams w w' \<and> tf_Ruleset (wk_tcpStreamFactory w') = tf_Ruleset (wk_tcpStreamFactory w)
     \<and> uf_Ruleset (um_factory (wk_udpStreamManager w')) = uf_Ruleset (um_factory (wk_udpStreamManager w))"
proof -
  have same: "\<exists>k \<le> 1. rs = rs @ replicate k r" for rs :: "'a Ruleset list" and r by (intro exI [of _ 0]) simp
  show ?thesis
  proof (cases p)
    case (TCPPacket t)
    then obtain v pool where a: "we_assemble env (wk_tcpStreamFactory w) t md (wk_tcpPool w) = Some (Some (v, pool))"
      "w' = w\<lparr>wk_tcpPool := pool\<rparr>"
      using assms(2) by (auto simp: worker_handle_def split: option.splits)
    have "(\<exists>s \<in> streams (wk_tcpPool w). same_tcp s s') \<or> ts_ruleset s' = tf_Ruleset (wk_tcpStreamFactory w)"
      if s': "s' \<in> streams pool" for s'
    proof -
      obtain s where s: "tcp_evolves feed close s s'"
        "s \<in> streams (wk_tcpPool w) \<or> (\<exists>sid tcp ctx. s = fst (tcpStreamFactory_New api (wk_tcpStreamFactory w) sid tcp ctx))"
        using assms(1) a(1) s' unfolding assembler_documented_def by blast
      show ?thesis
        using s(2) evolves_same [OF s(1)] by (auto simp: same_tcp_def tcpStreamFactory_New_def Let_def)
    qed
    then show ?thesis using same by (simp add: a(2) rules_kept_def)
  next
    case (UDPPacket dg)
    then obtain m uc ev where m: "udpStreamManager_MatchWithContext (we_api env) (we_feed env) (we_close env) (we_lru env)
        (we_flow_rev env) sid dg \<lparr>uc_Verdict = VerdictAccept, uc_Packet = None, uc_Metadata = md\<rparr> (wk_udpStreamManager w)
        = Some (Some (m, uc, ev))" "w' = w\<lparr>wk_udpStreamManager := m\<rparr>"
      using assms(2) by (auto simp: worker_handle_def worker_handleUDP_def split: option.splits bool.splits)
    show ?thesis using manager_rulesets [OF m(1)] by (auto simp: m(2) rules_kept_def intro: rev_bexI)
  qed (use assms(2) same in \<open>auto simp: worker_handle_def rules_kept_def intro: rev_bexI\<close>)
qed

text \<open>New rules change no stream.\<close>

lemma update_keeps_streams:
  "map (\<lambda>(cap, timeout, w). (wk_tcpPool w, um_store (wk_udpStreamManager w))) (engine_UpdateRuleset r ws) =
   map (\<lambda>(cap, timeout, w). (wk_tcpPool w, um_store (wk_udpStreamManager w))) ws"
  by (simp add: engine_UpdateRuleset_def worker_UpdateRuleset_def case_prod_unfold Let_def comp_def)

text \<open>The pool of a new worker is a new one.\<close>

lemma new_workers_pools:
  "new_workers libs config n i = Inr ws \<Longrightarrow> (cap, timeout, w) \<in> set ws \<Longrightarrow> \<exists>a b. wk_tcpPool w = el_NewStreamPool libs a b"
proof (induction n arbitrary: i ws)
  case (Suc n)
  obtain w0 ws' where w: "newWorker libs (ec_Ruleset config) (ec_MetadataEnricher config) (worker_config config i) = Inr w0"
    "new_workers libs config n (i + 1) = Inr ws'" "ws = w0 # ws'"
    using Suc.prems(1) by (auto simp: map_sum_Inr_iff split: sum.splits)
  show ?case
  proof (cases "(cap, timeout, w) = w0")
    case True
    have "\<exists>a b. el_NewStreamPool libs c d = el_NewStreamPool libs a b" for c d by blast
    then show ?thesis using w(1) by (auto simp: True [symmetric] newWorker_def Let_def split: sum.splits)
  next
    case False
    then show ?thesis using Suc w by auto
  qed
qed simp

end
