(* ===== verification/NFQueue.thy ===== *)
theory NFQueue
  imports EngineBase GoStrings
begin

text \<open>
  \<open>io/nfqueue.go\<close>: the packets the kernel queues, the verdicts given back, and the rules in the kernel
  that send packets to the queue and remember in a mark of the connection what was decided about a
  stream. The netlink library, nft and iptables are parameters: what a call answers, and the decoder
  of the attributes of a connection.
\<close>

section \<open>Configuration\<close>

record NFQueuePacketIOConfig =
  nc_QueueSize :: u32
  nc_QueueNum :: "u16 option"
  nc_Table :: string
  nc_ConnMarkAccept :: u32
  nc_ConnMarkDrop :: u32
  nc_ReadBuffer :: int
  nc_WriteBuffer :: int
  nc_Local :: bool
  nc_RST :: bool

record nfqueuePacketIO =
  nq_local :: bool
  nq_rst :: bool
  nq_rSet :: bool
  nq_queueNum :: int
  nq_table :: string
  nq_connMarkAccept :: int
  nq_connMarkDrop :: int
  nq_ipt :: bool

definition nfqueueDefaultQueueNum :: u16 where "nfqueueDefaultQueueNum = 100"
definition nfqueueDefaultQueueSize :: u32 where "nfqueueDefaultQueueSize = 128"
definition nfqueueDefaultConnMarkAccept :: u32 where "nfqueueDefaultConnMarkAccept = 1001"
definition nftFamily :: string where "nftFamily = ''inet''"
definition nftDefaultTable :: string where "nftDefaultTable = ''opengfw''"

definition nfq_defaults :: "NFQueuePacketIOConfig \<Rightarrow> NFQueuePacketIOConfig" where
  "nfq_defaults config =
     (let config = (if nc_QueueSize config = 0 then config\<lparr>nc_QueueSize := nfqueueDefaultQueueSize\<rparr> else config);
          config = (if nc_QueueNum config = None then config\<lparr>nc_QueueNum := Some nfqueueDefaultQueueNum\<rparr> else config);
          config = (if nc_Table config = [] then config\<lparr>nc_Table := nftDefaultTable\<rparr> else config);
          config = (if nc_ConnMarkAccept config = 0 then config\<lparr>nc_ConnMarkAccept := nfqueueDefaultConnMarkAccept\<rparr> else config) in
      if nc_ConnMarkDrop config = 0 then
        (let config = config\<lparr>nc_ConnMarkDrop := nc_ConnMarkAccept config + 1\<rparr> in
         if nc_ConnMarkDrop config = 0 then config\<lparr>nc_ConnMarkDrop := 1\<rparr> else config)
      else config)"

datatype nfq_error =
    SameMarks
  | IptablesFailed string
  | OpenFailed string
  | ReadBufferFailed string
  | WriteBufferFailed string

text \<open>What the system answers: \<open>None\<close> is no error.\<close>

record nfq_system =
  ns_nftCheck :: "string option"
  ns_iptables4 :: "string option"
  ns_iptables6 :: "string option"
  ns_open :: "u16 \<Rightarrow> u32 \<Rightarrow> string option"
  ns_SetReadBuffer :: "int \<Rightarrow> string option"
  ns_SetWriteBuffer :: "int \<Rightarrow> string option"

definition NewNFQueuePacketIO :: "nfq_system \<Rightarrow> NFQueuePacketIOConfig \<Rightarrow> nfq_error + nfqueuePacketIO" where
  "NewNFQueuePacketIO sys config =
     (let config = nfq_defaults config; queueNum = the (nc_QueueNum config); use_ipt = (ns_nftCheck sys \<noteq> None) in
      if nc_ConnMarkAccept config = nc_ConnMarkDrop config then Inl SameMarks
      else
        (case (if use_ipt then ns_iptables4 sys else None) of Some err \<Rightarrow> Inl (IptablesFailed err) | None \<Rightarrow>
        (case (if use_ipt then ns_iptables6 sys else None) of Some err \<Rightarrow> Inl (IptablesFailed err) | None \<Rightarrow>
        (case ns_open sys queueNum (nc_QueueSize config) of Some err \<Rightarrow> Inl (OpenFailed err) | None \<Rightarrow>
        (case (if 0 < nc_ReadBuffer config then ns_SetReadBuffer sys (nc_ReadBuffer config) else None) of
           Some err \<Rightarrow> Inl (ReadBufferFailed err) | None \<Rightarrow>
        (case (if 0 < nc_WriteBuffer config then ns_SetWriteBuffer sys (nc_WriteBuffer config) else None) of
           Some err \<Rightarrow> Inl (WriteBufferFailed err) | None \<Rightarrow>
           Inr \<lparr>nq_local = nc_Local config, nq_rst = nc_RST config, nq_rSet = False, nq_queueNum = uint queueNum,
                nq_table = nc_Table config, nq_connMarkAccept = uint (nc_ConnMarkAccept config),
                nq_connMarkDrop = uint (nc_ConnMarkDrop config), nq_ipt = use_ipt\<rparr>))))))"

section \<open>Rules in the kernel\<close>

record nftChainSpec =
  ch_Chain :: string
  ch_Header :: string
  ch_Rules :: "string list"

record nftTableSpec =
  ts_Defines :: "string list"
  ts_Family :: string
  ts_Table :: string
  ts_Chains :: "nftChainSpec list"

definition chain_rules :: "nfqueuePacketIO \<Rightarrow> string list" where
  "chain_rules n =
     [''meta mark $ACCEPT_CTMARK ct mark set $ACCEPT_CTMARK'', ''ct mark $ACCEPT_CTMARK counter accept'']
     @ (if nq_rst n then [''ip protocol tcp ct mark $DROP_CTMARK counter reject with tcp reset''] else [])
     @ [''ct mark $DROP_CTMARK counter drop'', ''counter queue num $QUEUE_NUM bypass'']"

text \<open>\<open>None\<close>: a reset is not supported in local mode.\<close>

definition generateNftRules :: "nfqueuePacketIO \<Rightarrow> nftTableSpec option" where
  "generateNftRules n =
     (if nq_local n \<and> nq_rst n then None
      else
        (let chains =
           (if nq_local n then
              [\<lparr>ch_Chain = ''INPUT'', ch_Header = ''type filter hook input priority filter; policy accept;'', ch_Rules = []\<rparr>,
               \<lparr>ch_Chain = ''OUTPUT'', ch_Header = ''type filter hook output priority filter; policy accept;'', ch_Rules = []\<rparr>]
            else
              [\<lparr>ch_Chain = ''FORWARD'', ch_Header = ''type filter hook forward priority filter; policy accept;'', ch_Rules = []\<rparr>]) in
         Some \<lparr>ts_Defines = [''define ACCEPT_CTMARK='' @ strconv_Itoa (nq_connMarkAccept n),
                 ''define DROP_CTMARK='' @ strconv_Itoa (nq_connMarkDrop n), ''define QUEUE_NUM='' @ strconv_Itoa (nq_queueNum n)],
               ts_Family = nftFamily, ts_Table = nq_table n,
               ts_Chains = map (\<lambda>c. c\<lparr>ch_Rules := ch_Rules c @ chain_rules n\<rparr>) chains\<rparr>))"

definition nl :: string where "nl = [CHR 0x0A]"

definition nftChainSpec_String :: "nftChainSpec \<Rightarrow> string" where
  "nftChainSpec_String c =
     nl @ ''  chain '' @ ch_Chain c @ '' {'' @ nl @ ''    '' @ ch_Header c @ nl @ ''    ''
     @ strings_Join (ch_Rules c) (nl @ ''    '') @ nl @ ''  }'' @ nl"

definition nftTableSpec_String :: "nftTableSpec \<Rightarrow> string" where
  "nftTableSpec_String t =
     nl @ strings_Join (ts_Defines t) nl @ nl @ nl @ ''table '' @ ts_Family t @ '' '' @ ts_Table t @ '' {'' @ nl
     @ strings_Join (map nftChainSpec_String (ts_Chains t)) [] @ nl @ ''}'' @ nl"

record iptRule =
  ir_Table :: string
  ir_Chain :: string
  ir_RuleSpec :: "string list"

definition nfq_chains :: "nfqueuePacketIO \<Rightarrow> string list" where
  "nfq_chains n = (if nq_local n then [''INPUT'', ''OUTPUT''] else [''FORWARD''])"

definition ipt_chain_rules :: "nfqueuePacketIO \<Rightarrow> string \<Rightarrow> iptRule list" where
  "ipt_chain_rules n chain =
     (let accept = strconv_Itoa (nq_connMarkAccept n); dropm = strconv_Itoa (nq_connMarkDrop n);
          rule = (\<lambda>spec. \<lparr>ir_Table = ''filter'', ir_Chain = chain, ir_RuleSpec = spec\<rparr>) in
      [rule [''-m'', ''mark'', ''--mark'', accept, ''-j'', ''CONNMARK'', ''--set-mark'', accept],
       rule [''-m'', ''connmark'', ''--mark'', accept, ''-j'', ''ACCEPT'']]
      @ (if nq_rst n then
           [rule [''-p'', ''tcp'', ''-m'', ''connmark'', ''--mark'', dropm, ''-j'', ''REJECT'', ''--reject-with'', ''tcp-reset'']]
         else [])
      @ [rule [''-m'', ''connmark'', ''--mark'', dropm, ''-j'', ''DROP''],
         rule [''-j'', ''NFQUEUE'', ''--queue-num'', strconv_Itoa (nq_queueNum n), ''--queue-bypass'']])"

definition generateIptRules :: "nfqueuePacketIO \<Rightarrow> iptRule list option" where
  "generateIptRules n =
     (if nq_local n \<and> nq_rst n then None
      else Some (concat (map (ipt_chain_rules n) (nfq_chains n))))"

section \<open>Setting the rules and taking them away\<close>

text \<open>A command on the kernel's rules; for iptables the flag tells IPv6 from IPv4.\<close>

datatype rule_cmd =
    NftAdd string
  | NftDelete string string
  | IptAppendUnique bool iptRule
  | IptDeleteIfExists bool iptRule

text \<open>Commands in order up to the first error.\<close>

fun run_cmds :: "(rule_cmd \<Rightarrow> string option) \<Rightarrow> rule_cmd list \<Rightarrow> rule_cmd list \<times> string option" where
  "run_cmds run [] = ([], None)"
| "run_cmds run (c # cs) =
     (case run c of
        Some err \<Rightarrow> ([c], Some err)
      | None \<Rightarrow> (let (done_cmds, err) = run_cmds run cs in (c # done_cmds, err)))"

definition iptsBatchAppendUnique :: "(rule_cmd \<Rightarrow> string option) \<Rightarrow> iptRule list \<Rightarrow> rule_cmd list \<times> string option" where
  "iptsBatchAppendUnique run rules =
     run_cmds run (concat (map (\<lambda>r. [IptAppendUnique False r, IptAppendUnique True r]) rules))"

definition iptsBatchDeleteIfExists :: "(rule_cmd \<Rightarrow> string option) \<Rightarrow> iptRule list \<Rightarrow> rule_cmd list \<times> string option" where
  "iptsBatchDeleteIfExists run rules =
     run_cmds run (concat (map (\<lambda>r. [IptDeleteIfExists False r, IptDeleteIfExists True r]) rules))"

definition setupNft :: "(rule_cmd \<Rightarrow> string option) \<Rightarrow> nfqueuePacketIO \<Rightarrow> bool \<Rightarrow> rule_cmd list \<times> string option" where
  "setupNft run n remove =
     (case generateNftRules n of
        None \<Rightarrow> ([], Some ''tcp rst is not supported in local mode'')
      | Some rules \<Rightarrow>
          (let del = NftDelete nftFamily (nq_table n); add = NftAdd (nftTableSpec_String rules) in
           if remove then ([del], run del) else ([del, add], run add)))"

definition setupIpt :: "(rule_cmd \<Rightarrow> string option) \<Rightarrow> nfqueuePacketIO \<Rightarrow> bool \<Rightarrow> rule_cmd list \<times> string option" where
  "setupIpt run n remove =
     (case generateIptRules n of
        None \<Rightarrow> ([], Some ''tcp rst is not supported in local mode'')
      | Some rules \<Rightarrow> if remove then iptsBatchDeleteIfExists run rules else iptsBatchAppendUnique run rules)"

definition setup_rules :: "(rule_cmd \<Rightarrow> string option) \<Rightarrow> nfqueuePacketIO \<Rightarrow> bool \<Rightarrow> rule_cmd list \<times> string option" where
  "setup_rules run n remove = (if nq_ipt n then setupIpt run n remove else setupNft run n remove)"

text \<open>\<open>Register\<close> once the hook is registered (\<open>err\<close> is the error of that), and \<open>Close\<close>.\<close>

definition nfq_Register ::
    "(rule_cmd \<Rightarrow> string option) \<Rightarrow> string option \<Rightarrow> nfqueuePacketIO \<Rightarrow> (rule_cmd list \<times> string option) \<times> nfqueuePacketIO" where
  "nfq_Register run err n =
     (case err of
        Some e \<Rightarrow> (([], Some e), n)
      | None \<Rightarrow>
          if nq_rSet n then (([], None), n)
          else
            (let (cmds, e) = setup_rules run n False in
             ((cmds, e), if e = None then n\<lparr>nq_rSet := True\<rparr> else n)))"

definition nfq_Close :: "(rule_cmd \<Rightarrow> string option) \<Rightarrow> nfqueuePacketIO \<Rightarrow> rule_cmd list \<times> nfqueuePacketIO" where
  "nfq_Close run n =
     (if nq_rSet n then (fst (setup_rules run n True), n\<lparr>nq_rSet := False\<rparr>) else ([], n))"

section \<open>Packets and verdicts\<close>

datatype nf_verdict = NfDrop | NfAccept

record Attribute =
  at_PacketID :: "u32 option"
  at_Payload :: "bytes option"
  at_Ct :: "bytes option"
  at_Timestamp :: "int option"

record nfqueuePacket =
  nk_id :: u32
  nk_streamID :: u32
  nk_timestamp :: int
  nk_data :: bytes

text \<open>The verdict \<open>-1\<close> of the code is \<open>None\<close>.\<close>

definition packetAttributeSanityCheck :: "nfqueuePacketIO \<Rightarrow> Attribute \<Rightarrow> bool \<times> nf_verdict option" where
  "packetAttributeSanityCheck n a =
     (if at_PacketID a = None then (False, None)
      else if (case at_Payload a of None \<Rightarrow> True | Some b \<Rightarrow> length b < 20) then (False, Some NfDrop)
      else if at_Ct a = None then (False, Some (if nq_local n then NfAccept else NfDrop))
      else (True, None))"

definition be_u32 :: "bytes \<Rightarrow> u32 go" where
  "be_u32 b =
     (if length b < 4 then None
      else Some (word_of_nat (((unat (b ! 0) * 256 + unat (b ! 1)) * 256 + unat (b ! 2)) * 256 + unat (b ! 3))))"

fun ct_find :: "(u16 \<times> bytes) list \<Rightarrow> u32 go" where
  "ct_find [] = Some 0"
| "ct_find ((ty, data) # attrs) = (if ty = 12 then be_u32 data else ct_find attrs)"

definition ctIDFromCtBytes :: "(bytes \<Rightarrow> (u16 \<times> bytes) list option) \<Rightarrow> bytes \<Rightarrow> u32 go" where
  "ctIDFromCtBytes unmarshal ct = (case unmarshal ct of None \<Rightarrow> Some 0 | Some attrs \<Rightarrow> ct_find attrs)"

datatype nfq_call =
    SetVerdictCall u32 nf_verdict
  | SetVerdictModPacketCall u32 nf_verdict "bytes option"
  | SetVerdictWithConnMarkCall u32 nf_verdict int

definition okBoolToInt :: "bool \<Rightarrow> int" where
  "okBoolToInt ok = (if ok then 0 else 1)"

text \<open>The hook for a packet: a verdict of its own, or the packet for the callback.\<close>

definition nfq_hook ::
    "(bytes \<Rightarrow> (u16 \<times> bytes) list option) \<Rightarrow> int \<Rightarrow> nfqueuePacketIO \<Rightarrow> Attribute \<Rightarrow> (nfq_call list + nfqueuePacket) go" where
  "nfq_hook unmarshal now n a =
     (case packetAttributeSanityCheck n a of
        (False, verdict) \<Rightarrow>
          Some (Inl (case (at_PacketID a, verdict) of (Some pid, Some v) \<Rightarrow> [SetVerdictCall pid v] | _ \<Rightarrow> []))
      | (True, _) \<Rightarrow>
          do { sid \<leftarrow> ctIDFromCtBytes unmarshal (the (at_Ct a));
               Some (Inr \<lparr>nk_id = the (at_PacketID a), nk_streamID = sid,
                          nk_timestamp = (case at_Timestamp a of Some t \<Rightarrow> t | None \<Rightarrow> now),
                          nk_data = the (at_Payload a)\<rparr>) })"

definition nfqueuePacket_Metadata :: "nfqueuePacket \<Rightarrow> metadata" where
  "nfqueuePacket_Metadata p = Some [(''capture.io'', ''nfqueue'')]"

text \<open>A packet of another source is an error; otherwise the call on the queue.\<close>

datatype packet_arg = NFQueuePacket nfqueuePacket | ForeignPacket

definition nfq_SetVerdict :: "nfqueuePacketIO \<Rightarrow> packet_arg \<Rightarrow> Verdict \<Rightarrow> bytes option \<Rightarrow> nfq_call option" where
  "nfq_SetVerdict n p v newPacket =
     (case p of
        ForeignPacket \<Rightarrow> None
      | NFQueuePacket nP \<Rightarrow>
          Some (case v of
                  VerdictAccept \<Rightarrow> SetVerdictCall (nk_id nP) NfAccept
                | VerdictAcceptModify \<Rightarrow> SetVerdictModPacketCall (nk_id nP) NfAccept newPacket
                | VerdictAcceptStream \<Rightarrow> SetVerdictWithConnMarkCall (nk_id nP) NfAccept (nq_connMarkAccept n)
                | VerdictDrop \<Rightarrow> SetVerdictCall (nk_id nP) NfDrop
                | VerdictDropStream \<Rightarrow> SetVerdictWithConnMarkCall (nk_id nP) NfDrop (nq_connMarkDrop n)))"

section \<open>The marks\<close>

text \<open>A configuration that is accepted has two marks that differ from each other and from the mark of a new connection.\<close>

lemma marks_distinct:
  assumes "NewNFQueuePacketIO sys config = Inr n"
  shows "nq_connMarkAccept n \<noteq> nq_connMarkDrop n"
    and "0 < nq_connMarkAccept n \<and> nq_connMarkAccept n < 2 ^ 32" "0 < nq_connMarkDrop n \<and> nq_connMarkDrop n < 2 ^ 32"
    and "\<not> nq_rSet n"
proof -
  let ?c = "nfq_defaults config"
  have n: "nc_ConnMarkAccept ?c \<noteq> nc_ConnMarkDrop ?c" "nq_connMarkAccept n = uint (nc_ConnMarkAccept ?c)"
    "nq_connMarkDrop n = uint (nc_ConnMarkDrop ?c)" "\<not> nq_rSet n"
    using assms by (auto simp: NewNFQueuePacketIO_def Let_def split: if_splits option.splits)
  moreover have "nc_ConnMarkAccept ?c \<noteq> 0" "nc_ConnMarkDrop ?c \<noteq> 0"
    by (auto simp: nfq_defaults_def Let_def nfqueueDefaultConnMarkAccept_def)
  moreover have "0 < uint w \<and> uint w < 2 ^ 32" if "w \<noteq> 0" for w :: u32
    using that uint_lt2p [of w] by (simp add: order.strict_iff_order uint_0_iff)
  ultimately show "nq_connMarkAccept n \<noteq> nq_connMarkDrop n"
    "0 < nq_connMarkAccept n \<and> nq_connMarkAccept n < 2 ^ 32" "0 < nq_connMarkDrop n \<and> nq_connMarkDrop n < 2 ^ 32" "\<not> nq_rSet n"
    by (simp_all add: word_uint_eq_iff)
qed

section \<open>What the rules do to a connection\<close>

text \<open>
  A packet as the rules see it: its own mark, the mark of its connection, and whether it is TCP.
  The rules of a chain are tried in order; the target of a rule that matches ends the search unless
  it only changes the packet. What a match means and what a target does is iptables' business:
  \<open>matches\<close> and \<open>changes\<close> (\<open>None\<close> for a target that ends the search).
\<close>

record nf_packet =
  np_mark :: int
  np_connmark :: int
  np_tcp :: bool

definition spec_match :: "string list \<Rightarrow> string list" where
  "spec_match spec = takeWhile (\<lambda>w. w \<noteq> ''-j'') spec"

definition spec_target :: "string list \<Rightarrow> string list" where
  "spec_target spec = tl (dropWhile (\<lambda>w. w \<noteq> ''-j'') spec)"

fun traverse ::
    "(string list \<Rightarrow> nf_packet \<Rightarrow> bool) \<Rightarrow> (string list \<Rightarrow> nf_packet \<Rightarrow> nf_packet option) \<Rightarrow> iptRule list \<Rightarrow> nf_packet \<Rightarrow>
     nf_packet \<times> string list option" where
  "traverse matches changes [] p = (p, None)"
| "traverse matches changes (r # rs) p =
     (if \<not> matches (spec_match (ir_RuleSpec r)) p then traverse matches changes rs p
      else
        (case changes (spec_target (ir_RuleSpec r)) p of
           Some p' \<Rightarrow> traverse matches changes rs p'
         | None \<Rightarrow> (p, Some (spec_target (ir_RuleSpec r)))))"

text \<open>The documented meaning of the matches and targets that the rules use.\<close>

definition iptables_documented ::
    "nfqueuePacketIO \<Rightarrow> (string list \<Rightarrow> nf_packet \<Rightarrow> bool) \<Rightarrow> (string list \<Rightarrow> nf_packet \<Rightarrow> nf_packet option) \<Rightarrow> bool" where
  "iptables_documented n matches changes \<longleftrightarrow>
     (\<forall>p. matches [] p)
   \<and> (\<forall>x \<in> {nq_connMarkAccept n, nq_connMarkDrop n}. \<forall>p.
        (matches [''-m'', ''mark'', ''--mark'', strconv_Itoa x] p \<longleftrightarrow> np_mark p = x)
      \<and> (matches [''-m'', ''connmark'', ''--mark'', strconv_Itoa x] p \<longleftrightarrow> np_connmark p = x)
      \<and> (matches [''-p'', ''tcp'', ''-m'', ''connmark'', ''--mark'', strconv_Itoa x] p \<longleftrightarrow> np_tcp p \<and> np_connmark p = x)
      \<and> changes [''CONNMARK'', ''--set-mark'', strconv_Itoa x] p = Some (p\<lparr>np_connmark := x\<rparr>))
   \<and> (\<forall>p. changes [''ACCEPT''] p = None \<and> changes [''DROP''] p = None
      \<and> changes [''REJECT'', ''--reject-with'', ''tcp-reset''] p = None
      \<and> changes [''NFQUEUE'', ''--queue-num'', strconv_Itoa (nq_queueNum n), ''--queue-bypass''] p = None)"

lemma Itoa_not_j: "strconv_Itoa x \<noteq> ''-j''"
proof
  assume "strconv_Itoa x = ''-j''"
  then have "digits10 (nat (- x)) = ''j'' \<or> digits10 (nat x) = ''-j''" by (auto simp: strconv_Itoa_def split: if_splits)
  moreover have "c \<in> set (digits10 m) \<Longrightarrow> c \<noteq> CHR ''j''" for c m
  proof (induction m rule: digits10.induct)
    case (1 m)
    have "CHR ''j'' \<noteq> digit_char d" if "d < 10" for d
    proof
      assume "CHR ''j'' = digit_char d"
      then have "of_char CHR ''j'' = (of_char (digit_char d) :: nat)" by simp
      then show False using that take_bit_nat_eq_self [of "48 + d" 8] by (simp add: digit_char_def)
    qed
    from this [of m] this [of "m mod 10"] show ?case
      using 1 by (subst (asm) digits10.simps) (auto split: if_splits)
  qed
  ultimately show False by (metis list.set_intros)
qed

text \<open>What becomes of a packet, by the marks.\<close>

lemma traverse_chain:
  assumes "iptables_documented n matches changes"
  shows "traverse matches changes (ipt_chain_rules n chain) p =
     (if np_mark p = nq_connMarkAccept n then (p\<lparr>np_connmark := nq_connMarkAccept n\<rparr>, Some [''ACCEPT''])
      else (p,
        Some (if np_connmark p = nq_connMarkAccept n then [''ACCEPT'']
              else if np_connmark p = nq_connMarkDrop n
              then (if nq_rst n \<and> np_tcp p then [''REJECT'', ''--reject-with'', ''tcp-reset''] else [''DROP''])
              else [''NFQUEUE'', ''--queue-num'', strconv_Itoa (nq_queueNum n), ''--queue-bypass''])))"
  using assms by (auto simp: iptables_documented_def ipt_chain_rules_def Let_def spec_match_def spec_target_def Itoa_not_j)

text \<open>The connection after a verdict on one of its packets: the mark of the call, if it has one, is kept.\<close>

definition after_verdict :: "nfqueuePacketIO \<Rightarrow> packet_arg \<Rightarrow> Verdict \<Rightarrow> nf_packet \<Rightarrow> nf_packet" where
  "after_verdict n q v p =
     (case nfq_SetVerdict n q v None of
        Some (SetVerdictWithConnMarkCall pid nf m) \<Rightarrow> p\<lparr>np_connmark := m\<rparr>
      | _ \<Rightarrow> p)"

text \<open>What the rules of a chain do with the next packet of the connection.\<close>

definition next_target ::
    "(string list \<Rightarrow> nf_packet \<Rightarrow> bool) \<Rightarrow> (string list \<Rightarrow> nf_packet \<Rightarrow> nf_packet option) \<Rightarrow> nfqueuePacketIO \<Rightarrow>
     iptRule list \<Rightarrow> string \<Rightarrow> nfqueuePacket \<Rightarrow> Verdict \<Rightarrow> nf_packet \<Rightarrow> string list option" where
  "next_target matches changes n rules chain q v p =
     snd (traverse matches changes (filter (\<lambda>r. ir_Chain r = chain) rules) (after_verdict n (NFQueuePacket q) v p))"

text \<open>
  C14. With any configuration that is accepted, the iptables rules that the program adds accept
  every later packet of a connection after an accept-stream verdict, drop or reset it after a
  drop-stream verdict, and hand it to the queue again after a verdict on the packet alone.
\<close>

theorem stream_verdict_sticks:
  assumes "NewNFQueuePacketIO sys config = Inr n" "generateIptRules n = Some rules" "chain \<in> set (nfq_chains n)"
    and "iptables_documented n matches changes" "np_mark p \<noteq> nq_connMarkAccept n"
  shows "next_target matches changes n rules chain q VerdictAcceptStream p = Some [''ACCEPT'']
     \<and> next_target matches changes n rules chain q VerdictDropStream p =
         Some (if nq_rst n \<and> np_tcp p then [''REJECT'', ''--reject-with'', ''tcp-reset''] else [''DROP''])
     \<and> (np_connmark p \<notin> {nq_connMarkAccept n, nq_connMarkDrop n} \<and> v \<in> {VerdictAccept, VerdictAcceptModify, VerdictDrop}
          \<longrightarrow> next_target matches changes n rules chain q v p =
               Some [''NFQUEUE'', ''--queue-num'', strconv_Itoa (nq_queueNum n), ''--queue-bypass''])"
proof -
  have chain: "filter (\<lambda>r. ir_Chain r = chain) rules = ipt_chain_rules n chain"
    using assms(2,3) by (auto simp: generateIptRules_def nfq_chains_def ipt_chain_rules_def Let_def split: if_splits)
  show ?thesis
    unfolding next_target_def chain traverse_chain [OF assms(4)]
    using marks_distinct(1) [OF assms(1)] assms(5) by (auto simp: after_verdict_def nfq_SetVerdict_def)
qed

text \<open>What \<open>Register\<close> added, \<open>Close\<close> takes away: the same rules, in both protocols.\<close>

lemma run_cmds_done: "snd (run_cmds run cs) = None \<Longrightarrow> fst (run_cmds run cs) = cs"
  by (induction cs) (auto split: option.splits prod.splits)

lemma iptables_cleaned:
  assumes "nq_ipt n" "\<not> nq_rSet n" "nfq_Register run None n = ((added, None), n')"
    and "\<And>c. run' c = None"
  shows "\<exists>removed. nfq_Close run' n' = (removed, n) \<and> length removed = length added
     \<and> (\<forall>v6 r. IptDeleteIfExists v6 r \<in> set removed \<longleftrightarrow> IptAppendUnique v6 r \<in> set added)"
proof -
  have n': "n' = n\<lparr>nq_rSet := True\<rparr>" and s: "setupIpt run n False = (added, None)"
    using assms(1-3) by (auto simp: nfq_Register_def setup_rules_def split: prod.splits if_splits)
  obtain rules where rules: "generateIptRules n = Some rules" "iptsBatchAppendUnique run rules = (added, None)"
    using s by (auto simp: setupIpt_def split: option.splits)
  have added: "added = concat (map (\<lambda>r. [IptAppendUnique False r, IptAppendUnique True r]) rules)"
    using run_cmds_done [of run "concat (map (\<lambda>r. [IptAppendUnique False r, IptAppendUnique True r]) rules)"] rules(2)
    by (simp add: iptsBatchAppendUnique_def)
  have "snd (run_cmds run' cs) = None" for cs
    by (induction cs) (auto simp: assms(4) split: prod.splits)
  then have removed: "fst (iptsBatchDeleteIfExists run' rules) = concat (map (\<lambda>r. [IptDeleteIfExists False r, IptDeleteIfExists True r]) rules)"
    using run_cmds_done by (simp add: iptsBatchDeleteIfExists_def)
  have "ipt_chain_rules n' = ipt_chain_rules n" by (simp add: n' ipt_chain_rules_def fun_eq_iff)
  then have "generateIptRules n' = Some rules" using rules(1) by (auto simp: n' generateIptRules_def nfq_chains_def split: if_splits)
  then have "nfq_Close run' n' = (concat (map (\<lambda>r. [IptDeleteIfExists False r, IptDeleteIfExists True r]) rules), n)"
    using assms(1,2) removed by (simp add: n' nfq_Close_def setup_rules_def setupIpt_def)
  moreover have "length (concat (map (\<lambda>r. [IptDeleteIfExists False r, IptDeleteIfExists True r]) rules)) = length added"
    unfolding added by (induction rules) auto
  ultimately show ?thesis by (auto simp: added)
qed

text \<open>When adding a rule fails half-way, those added before stay: nothing records them for \<open>Close\<close>.\<close>

lemma partial_rules_stay:
  assumes "nq_ipt n" "\<not> nq_rSet n" "nfq_Register run None n = ((added, Some err), n')"
  shows "nfq_Close run' n' = ([], n)"
  using assms by (auto simp: nfq_Register_def nfq_Close_def split: prod.splits if_splits)

section \<open>Instance\<close>

definition demo_nfq :: nfqueuePacketIO where
  "demo_nfq = \<lparr>nq_local = False, nq_rst = True, nq_rSet = False, nq_queueNum = 100, nq_table = ''opengfw'',
     nq_connMarkAccept = 1001, nq_connMarkDrop = 1002, nq_ipt = True\<rparr>"

definition demo_system :: nfq_system where
  "demo_system = \<lparr>ns_nftCheck = Some ''not found'', ns_iptables4 = None, ns_iptables6 = None, ns_open = (\<lambda>_ _. None),
     ns_SetReadBuffer = (\<lambda>_. None), ns_SetWriteBuffer = (\<lambda>_. None)\<rparr>"

definition demo_nfq_config :: NFQueuePacketIOConfig where
  "demo_nfq_config = \<lparr>nc_QueueSize = 0, nc_QueueNum = None, nc_Table = [], nc_ConnMarkAccept = 0, nc_ConnMarkDrop = 0,
     nc_ReadBuffer = 0, nc_WriteBuffer = 0, nc_Local = False, nc_RST = True\<rparr>"

definition demo_matches :: "string list \<Rightarrow> nf_packet \<Rightarrow> bool" where
  "demo_matches spec p \<longleftrightarrow>
     spec = []
   \<or> (np_mark p \<in> {1001, 1002} \<and> spec = [''-m'', ''mark'', ''--mark'', strconv_Itoa (np_mark p)])
   \<or> (np_connmark p \<in> {1001, 1002} \<and> spec = [''-m'', ''connmark'', ''--mark'', strconv_Itoa (np_connmark p)])
   \<or> (np_connmark p \<in> {1001, 1002} \<and> np_tcp p \<and> spec = [''-p'', ''tcp'', ''-m'', ''connmark'', ''--mark'', strconv_Itoa (np_connmark p)])"

definition demo_changes :: "string list \<Rightarrow> nf_packet \<Rightarrow> nf_packet option" where
  "demo_changes tgt p =
     (if tgt = [''CONNMARK'', ''--set-mark'', ''1001''] then Some (p\<lparr>np_connmark := 1001\<rparr>)
      else if tgt = [''CONNMARK'', ''--set-mark'', ''1002''] then Some (p\<lparr>np_connmark := 1002\<rparr>)
      else None)"

lemma demo_Itoa: "strconv_Itoa 1001 = ''1001''" "strconv_Itoa 1002 = ''1002''" "strconv_Itoa 100 = ''100''"
  by code_simp+

lemma demo_documented: "iptables_documented demo_nfq demo_matches demo_changes"
  unfolding iptables_documented_def demo_nfq_def demo_matches_def demo_changes_def
  by (auto simp: demo_Itoa)

lemma demo_nfq_new: "NewNFQueuePacketIO demo_system demo_nfq_config = Inr demo_nfq"
  by (simp add: NewNFQueuePacketIO_def nfq_defaults_def demo_system_def demo_nfq_config_def demo_nfq_def Let_def
    nfqueueDefaultQueueSize_def nfqueueDefaultQueueNum_def nftDefaultTable_def nfqueueDefaultConnMarkAccept_def)

lemma stream_verdict_sticks_witness:
  "next_target demo_matches demo_changes demo_nfq (ipt_chain_rules demo_nfq ''FORWARD'') ''FORWARD''
     \<lparr>nk_id = 1, nk_streamID = 7, nk_timestamp = 0, nk_data = []\<rparr> VerdictAcceptStream
     \<lparr>np_mark = 0, np_connmark = 0, np_tcp = True\<rparr> = Some [''ACCEPT'']"
proof -
  let ?rules = "ipt_chain_rules demo_nfq ''FORWARD''"
  have rules: "generateIptRules demo_nfq = Some ?rules" by (simp add: generateIptRules_def nfq_chains_def demo_nfq_def)
  have "''FORWARD'' \<in> set (nfq_chains demo_nfq)" "np_mark \<lparr>np_mark = 0, np_connmark = 0, np_tcp = True\<rparr> \<noteq> nq_connMarkAccept demo_nfq"
    by (simp_all add: nfq_chains_def demo_nfq_def)
  from stream_verdict_sticks [OF demo_nfq_new rules this(1) demo_documented this(2)]
  show ?thesis by blast
qed

end
