(* ===== verification/GoAddr.thy ===== *)
theory GoAddr
  imports GoNet
begin

text \<open>
  Addresses of the standard library as the rules and the management code use them: \<open>net.ParseIP\<close>,
  \<open>net.ParseCIDR\<close>, \<open>net.IPNet\<close> and \<open>net.ParseMAC\<close>. An address is its bytes, \<open>[]\<close> for nil.
\<close>

section \<open>IP addresses\<close>

definition is_digit :: "char \<Rightarrow> bool" where
  "is_digit c \<longleftrightarrow> 48 \<le> (of_char c :: nat) \<and> of_char c \<le> (57 :: nat)"

definition digits_value :: "string \<Rightarrow> nat" where
  "digits_value s = foldl (\<lambda>n c. 10 * n + (of_char c - 48)) 0 s"

definition hex_value :: "char \<Rightarrow> nat option" where
  "hex_value c =
     (let n = of_char c :: nat in
      if 48 \<le> n \<and> n \<le> 57 then Some (n - 48)
      else if 97 \<le> n \<and> n \<le> 102 then Some (n - 87)
      else if 65 \<le> n \<and> n \<le> 70 then Some (n - 55)
      else None)"

definition is_hex :: "char \<Rightarrow> bool" where
  "is_hex c \<longleftrightarrow> hex_value c \<noteq> None"

text \<open>A decimal octet: digits without a leading zero, at most 255.\<close>

definition parse_octet :: "string \<Rightarrow> byte option" where
  "parse_octet s =
     (if s = [] \<or> \<not> list_all is_digit s \<or> (1 < length s \<and> hd s = CHR ''0'') \<or> 255 < digits_value s then None
      else Some (word_of_nat (digits_value s)))"

definition parseIPv4 :: "string \<Rightarrow> bytes option" where
  "parseIPv4 s =
     (case map parse_octet (strings_Split s ''.'') of
        [Some a, Some b, Some c, Some d] \<Rightarrow> Some [a, b, c, d]
      | _ \<Rightarrow> None)"

text \<open>
  The loop of the IPv6 parser: the bytes so far, where \<open>::\<close> was, and what is left. The result is the
  bytes and the place of \<open>::\<close>; the loop stops at 16 bytes or at the end of the text.
\<close>

definition parse_group :: "string \<Rightarrow> (nat \<times> string) option" where
  "parse_group s =
     (let h = takeWhile is_hex s in
      if h = [] \<or> 4 < length h then None
      else Some (foldl (\<lambda>n c. 16 * n + the (hex_value c)) 0 h, drop (length h) s))"

function parseIPv6_loop :: "bytes \<Rightarrow> nat option \<Rightarrow> string \<Rightarrow> (bytes \<times> nat option \<times> string) option" where
  "parseIPv6_loop ip ell s =
     (if 16 \<le> length ip then Some (ip, ell, s)
      else
        (case parse_group s of
           None \<Rightarrow> None
         | Some (g, r) \<Rightarrow>
             if strings_HasPrefix r ''.'' then
               (if ell = None \<and> length ip \<noteq> 12 then None
                else if 16 < length ip + 4 then None
                else map_option (\<lambda>v4. (ip @ v4, ell, [])) (parseIPv4 s))
             else
               (let ip = ip @ [word_of_nat (g div 256), word_of_nat (g mod 256)] in
                case r of
                  [] \<Rightarrow> Some (ip, ell, [])
                | c # r1 \<Rightarrow>
                    if c \<noteq> CHR '':'' \<or> r1 = [] then None
                    else if hd r1 = CHR '':'' then
                      (if ell \<noteq> None then None
                       else if tl r1 = [] then Some (ip, Some (length ip), [])
                       else parseIPv6_loop ip (Some (length ip)) (tl r1))
                    else parseIPv6_loop ip ell r1)))"
  by pat_completeness auto
termination by (relation "measure (\<lambda>(ip, ell, s). 16 - length ip)") auto

declare parseIPv6_loop.simps [simp del]

definition parseIPv6 :: "string \<Rightarrow> bytes option" where
  "parseIPv6 s =
     (let (ell, r) = (if strings_HasPrefix s ''::'' then (Some 0, drop 2 s) else (None, s)) in
      if ell \<noteq> None \<and> r = [] then Some (replicate 16 0)
      else
        (case parseIPv6_loop [] ell r of
           None \<Rightarrow> None
         | Some (ip, ell, rest) \<Rightarrow>
             if rest \<noteq> [] then None
             else if length ip < 16 then
               (case ell of
                  None \<Rightarrow> None
                | Some e \<Rightarrow> Some (take e ip @ replicate (16 - length ip) 0 @ drop e ip))
             else if ell \<noteq> None then None
             else Some ip))"

text \<open>\<open>netip.ParseAddr\<close> for addresses without a zone: 4 or 16 bytes.\<close>

definition ParseAddr :: "string \<Rightarrow> bytes option" where
  "ParseAddr s =
     (case dropWhile (\<lambda>c. c \<notin> set ''.:%'') s of
        [] \<Rightarrow> None
      | c # _ \<Rightarrow>
          if CHR ''%'' \<in> set s then None
          else if c = CHR ''.'' then parseIPv4 s
          else if c = CHR '':'' then parseIPv6 s
          else None)"

definition v4InV6Prefix :: bytes where
  "v4InV6Prefix = replicate 10 0 @ [0xff, 0xff]"

definition As16 :: "bytes \<Rightarrow> bytes" where
  "As16 ip = (if length ip = 4 then v4InV6Prefix @ ip else ip)"

definition net_ParseIP :: "string \<Rightarrow> bytes" where
  "net_ParseIP s = (case ParseAddr s of None \<Rightarrow> [] | Some ip \<Rightarrow> As16 ip)"

definition IP_To4 :: "bytes \<Rightarrow> bytes" where
  "IP_To4 ip =
     (if length ip = 4 then ip
      else if length ip = 16 \<and> take 12 ip = v4InV6Prefix then drop 12 ip
      else [])"

definition IP_To16 :: "bytes \<Rightarrow> bytes" where
  "IP_To16 ip = (if length ip = 4 then v4InV6Prefix @ ip else if length ip = 16 then ip else [])"

section \<open>Networks\<close>

record IPNet =
  net_IP :: bytes
  net_Mask :: bytes

text \<open>\<open>net.CIDRMask(ones, bits)\<close>, \<open>[]\<close> for nil.\<close>

definition mask_byte :: "nat \<Rightarrow> byte" where
  "mask_byte n = (if 8 \<le> n then 0xff else push_bit (8 - n) (mask n))"

definition CIDRMask :: "nat \<Rightarrow> nat \<Rightarrow> bytes" where
  "CIDRMask ones bits =
     (if (bits = 32 \<or> bits = 128) \<and> ones \<le> bits then map (\<lambda>i. mask_byte (ones - 8 * i)) [0..<bits div 8] else [])"

definition and_bytes :: "bytes \<Rightarrow> bytes \<Rightarrow> bytes" where
  "and_bytes = map2 and"

definition networkNumberAndMask :: "IPNet \<Rightarrow> (bytes \<times> bytes) option" where
  "networkNumberAndMask n =
     (let ip = (if IP_To4 (net_IP n) = [] then net_IP n else IP_To4 (net_IP n)) in
      if IP_To4 (net_IP n) = [] \<and> length ip \<noteq> 16 then None
      else if length (net_Mask n) = 4 then (if length ip \<noteq> 4 then None else Some (ip, net_Mask n))
      else if length (net_Mask n) = 16 then Some (ip, if length ip = 4 then drop 12 (net_Mask n) else net_Mask n)
      else None)"

definition IPNet_Contains :: "IPNet \<Rightarrow> bytes \<Rightarrow> bool" where
  "IPNet_Contains n ip =
     (let ip = (if IP_To4 ip = [] then ip else IP_To4 ip) in
      case networkNumberAndMask n of
        None \<Rightarrow> length ip = 0
      | Some (nn, m) \<Rightarrow> length ip = length nn \<and> and_bytes nn m = and_bytes ip m)"

definition IP_Mask :: "bytes \<Rightarrow> bytes \<Rightarrow> bytes" where
  "IP_Mask ip m =
     (let m = (if length m = 16 \<and> length ip = 4 \<and> take 12 m = replicate 12 0xff then drop 12 m else m);
          ip = (if length m = 4 \<and> length ip = 16 \<and> take 12 ip = v4InV6Prefix then drop 12 ip else ip) in
      if length ip \<noteq> length m then [] else and_bytes ip m)"

text \<open>\<open>dtoi\<close> and \<open>net.ParseCIDR\<close>, whose first result the code never uses.\<close>

definition dtoi :: "string \<Rightarrow> nat option" where
  "dtoi s = (if s = [] \<or> \<not> list_all is_digit s \<or> 0xFFFFFF \<le> digits_value s then None else Some (digits_value s))"

definition net_ParseCIDR :: "string \<Rightarrow> IPNet option" where
  "net_ParseCIDR s =
     (case strings_SplitN s ''/'' 2 of
        [addr, m] \<Rightarrow>
          (case (ParseAddr addr, dtoi m) of
             (Some ip, Some n) \<Rightarrow>
               (if 8 * length ip < n then None
                else Some \<lparr>net_IP = IP_Mask (As16 ip) (CIDRMask n (8 * length ip)), net_Mask = CIDRMask n (8 * length ip)\<rparr>)
           | _ \<Rightarrow> None)
      | _ \<Rightarrow> None)"

section \<open>Hardware addresses\<close>

definition hex_byte :: "char \<Rightarrow> char \<Rightarrow> byte option" where
  "hex_byte a b =
     (case (hex_value a, hex_value b) of (Some x, Some y) \<Rightarrow> Some (word_of_nat (16 * x + y)) | _ \<Rightarrow> None)"

text \<open>Pairs of digits with the separator of the first group between them; the dotted form takes two pairs.\<close>

fun mac_pairs :: "char \<Rightarrow> string \<Rightarrow> bytes option" where
  "mac_pairs sep [a, b] = map_option (\<lambda>x. [x]) (hex_byte a b)"
| "mac_pairs sep (a # b # c # r) =
     (if c \<noteq> sep then None
      else case hex_byte a b of None \<Rightarrow> None | Some x \<Rightarrow> map_option ((#) x) (mac_pairs sep r))"
| "mac_pairs sep _ = None"

fun mac_quads :: "string \<Rightarrow> bytes option" where
  "mac_quads [a, b, c, d] =
     (case (hex_byte a b, hex_byte c d) of (Some x, Some y) \<Rightarrow> Some [x, y] | _ \<Rightarrow> None)"
| "mac_quads (a # b # c # d # e # r) =
     (if e \<noteq> CHR ''.'' then None
      else case (hex_byte a b, hex_byte c d) of
        (Some x, Some y) \<Rightarrow> map_option (\<lambda>m. x # y # m) (mac_quads r)
      | _ \<Rightarrow> None)"
| "mac_quads _ = None"

definition net_ParseMAC :: "string \<Rightarrow> bytes option" where
  "net_ParseMAC s =
     (let hw = (if length s < 14 then None
                else if s ! 2 = CHR '':'' \<or> s ! 2 = CHR ''-'' then mac_pairs (s ! 2) s
                else if s ! 4 = CHR ''.'' then mac_quads s
                else None) in
      case hw of None \<Rightarrow> None | Some m \<Rightarrow> if length m \<in> {6, 8, 20} then Some m else None)"

definition hex_pair :: "byte \<Rightarrow> string" where
  "hex_pair b = [hex_digit (unat b div 16), hex_digit (unat b mod 16)]"

definition HardwareAddr_String :: "bytes \<Rightarrow> string" where
  "HardwareAddr_String hw = strings_Join (map hex_pair hw) '':''"

section \<open>Round trips\<close>

lemma hex_value_digit: "d < 16 \<Longrightarrow> hex_value (hex_digit d) = Some d"
  by (auto simp: hex_value_def hex_digit_def Let_def of_char_of)

lemma hex_byte_pair: "hex_byte (hex_digit (unat (b :: byte) div 16)) (hex_digit (unat b mod 16)) = Some b"
proof -
  have "unat b < 256" by (rule unat_byte_less)
  then show ?thesis by (simp add: hex_byte_def hex_value_digit)
qed

lemma mac_pairs_String: "hw \<noteq> [] \<Longrightarrow> mac_pairs CHR '':'' (HardwareAddr_String hw) = Some hw"
proof (induction hw)
  case (Cons b hw)
  show ?case
  proof (cases hw)
    case Nil
    then show ?thesis by (simp add: HardwareAddr_String_def hex_pair_def hex_byte_pair)
  next
    case (Cons c hw')
    then show ?thesis using Cons.IH by (simp add: HardwareAddr_String_def hex_pair_def hex_byte_pair)
  qed
qed simp

lemma length_HardwareAddr_String: "hw \<noteq> [] \<Longrightarrow> length (HardwareAddr_String hw) = 3 * length hw - 1"
proof (induction hw)
  case (Cons b hw)
  then show ?case by (cases hw) (auto simp: HardwareAddr_String_def hex_pair_def)
qed simp

lemma HardwareAddr_String_sep:
  "2 \<le> length hw \<Longrightarrow> HardwareAddr_String hw ! 2 = CHR '':''"
  by (cases hw; cases "tl hw") (auto simp: HardwareAddr_String_def hex_pair_def)

lemma ParseMAC_String:
  assumes "length hw \<in> {6, 8, 20}"
  shows "net_ParseMAC (HardwareAddr_String hw) = Some hw"
proof -
  have "hw \<noteq> []" "2 \<le> length hw" using assms by auto
  then have "14 \<le> length (HardwareAddr_String hw)"
    using assms length_HardwareAddr_String [of hw] by auto
  then show ?thesis
    using mac_pairs_String [OF \<open>hw \<noteq> []\<close>] HardwareAddr_String_sep [OF \<open>2 \<le> length hw\<close>] assms
    by (auto simp: net_ParseMAC_def)
qed

lemma net_ParseMAC_length: "net_ParseMAC s = Some hw \<Longrightarrow> length hw \<in> {6, 8, 20}"
  by (auto simp: net_ParseMAC_def Let_def split: option.splits if_splits)

end
