(* ===== verification/GoTrim.thy ===== *)
theory GoTrim
  imports GoStrings
begin

text \<open>
  Trimming white space and changing to lower case commute, and trimming twice is trimming once: what
  the normal forms of addresses, names and hashes rest on.
\<close>

lemma of_char_ascii_lower:
  "(of_char (ascii_lower c) :: nat) = (if 65 \<le> (of_char c :: nat) \<and> of_char c \<le> (90 :: nat) then of_char c + 32 else of_char c)"
  by (auto simp: ascii_lower_def of_char_of)

lemma ascii_lower_space:
  "ascii_space (of_char (ascii_lower c)) = ascii_space (of_char c)"
  "0x80 \<le> n \<Longrightarrow> of_char (ascii_lower c) = (n :: nat) \<longleftrightarrow> of_char c = n"
  "0x80 \<le> n \<Longrightarrow> n \<le> (of_char (ascii_lower c) :: nat) \<longleftrightarrow> n \<le> of_char c"
  by (auto simp: of_char_ascii_lower ascii_space_def)

lemma space_seq3_lower:
  "space_seq3 (of_char (ascii_lower c)) (of_char (ascii_lower d)) (of_char (ascii_lower e))
     = space_seq3 (of_char c) (of_char d) (of_char e)"
proof -
  have "(of_char (ascii_lower e) :: nat) \<le> 0x8A \<and> 0x80 \<le> (of_char (ascii_lower e) :: nat) \<longleftrightarrow>
      of_char e \<le> (0x8A :: nat) \<and> 0x80 \<le> (of_char e :: nat)"
    by (auto simp: of_char_ascii_lower)
  then show ?thesis
    unfolding space_seq3_def using ascii_lower_space(2) [of _ c] ascii_lower_space(2) [of _ d] ascii_lower_space(2) [of _ e] by auto
qed

lemma space_len_lower: "space_len (map ascii_lower s) = space_len s"
  by (cases s; cases "tl s"; cases "tl (tl s)") (auto simp: space_len.simps ascii_lower_space space_seq3_lower)

lemma space_len_rev_lower: "space_len_rev (map ascii_lower s) = space_len_rev s"
  by (cases s; cases "tl s"; cases "tl (tl s)") (auto simp: space_len_rev.simps ascii_lower_space space_seq3_lower)

lemma trim_left_lower: "trim_left (map ascii_lower s) = map ascii_lower (trim_left s)"
proof (induction s rule: trim_left.induct)
  case (2 c s)
  then show ?case
    using space_len_lower [of "c # s"] by (simp add: Let_def drop_map)
qed simp

lemma trim_left_rev_lower: "trim_left_rev (map ascii_lower s) = map ascii_lower (trim_left_rev s)"
proof (induction s rule: trim_left_rev.induct)
  case (2 c s)
  then show ?case
    using space_len_rev_lower [of "c # s"] by (simp add: Let_def drop_map)
qed simp

lemma TrimSpace_ToLower: "strings_TrimSpace (strings_ToLower s) = strings_ToLower (strings_TrimSpace s)"
  by (simp add: strings_TrimSpace_def strings_ToLower_def trim_left_lower rev_map trim_left_rev_lower)

lemma trim_left_rev_idem: "trim_left_rev (trim_left_rev s) = trim_left_rev s"
proof (induction s rule: trim_left_rev.induct)
  case (2 c s)
  then show ?case by (auto simp: Let_def)
qed simp

lemma trim_left_rev_suffix: "\<exists>p. s = p @ trim_left_rev s"
proof (induction s rule: trim_left_rev.induct)
  case (2 c s)
  show ?case
  proof (cases "space_len_rev (c # s) = 0")
    case False
    then obtain p where "drop (space_len_rev (c # s) - 1) s = p @ trim_left_rev (drop (space_len_rev (c # s) - 1) s)"
      using 2 by blast
    then have "c # s = (c # take (space_len_rev (c # s) - 1) s @ p) @ trim_left_rev (c # s)"
      using False by (simp add: Let_def)
    then show ?thesis by blast
  qed simp
qed simp

lemma space_len_prefix: "space_len (s @ r) = 0 \<Longrightarrow> space_len s = 0"
  by (cases s; cases "tl s"; cases "tl (tl s)") (auto simp: space_len.simps split: list.splits if_splits)

lemma trim_left_fixed: "trim_left (c # s) = c # s \<Longrightarrow> space_len (c # s) = 0"
proof (rule ccontr)
  assume "trim_left (c # s) = c # s" "space_len (c # s) \<noteq> 0"
  moreover obtain p where "drop (space_len (c # s) - 1) s = p @ trim_left (drop (space_len (c # s) - 1) s)"
    using trim_left_suffix by blast
  then have "length (trim_left (drop (space_len (c # s) - 1) s)) \<le> length (drop (space_len (c # s) - 1) s)"
    by (metis length_append le_add2)
  ultimately show False by (simp add: Let_def)
qed

lemma TrimSpace_idem [simp]: "strings_TrimSpace (strings_TrimSpace s) = strings_TrimSpace s"
proof -
  define t where "t = trim_left s"
  define u where "u = rev (trim_left_rev (rev t))"
  obtain p where "rev t = p @ trim_left_rev (rev t)" using trim_left_rev_suffix by blast
  then have "rev (rev t) = rev (p @ trim_left_rev (rev t))" by (rule arg_cong)
  then have t: "t = u @ rev p" by (simp only: u_def rev_append rev_rev_ident)
  have "trim_left u = u"
  proof (cases u)
    case (Cons c u')
    have t': "t = c # (u' @ rev p)" using t Cons by simp
    have "trim_left t = t" unfolding t_def by (rule trim_left_idem)
    then have "space_len t = 0" unfolding t' by (rule trim_left_fixed)
    then have "space_len (c # u') = 0"
      using space_len_prefix [of "c # u'" "rev p"] by (simp add: t')
    then show ?thesis by (simp add: Cons)
  qed simp
  moreover have "rev (trim_left_rev (rev u)) = u"
    by (simp add: u_def trim_left_rev_idem)
  moreover have "strings_TrimSpace s = u"
    by (simp add: strings_TrimSpace_def t_def u_def)
  ultimately show ?thesis
    by (simp only: strings_TrimSpace_def [of u])
qed

end
