(* ===== verification/Identity.thy ===== *)
theory Identity
  imports EngineBase GoAddr GoTrim
begin

text \<open>
  \<open>cmd/identity.go\<close>: which machine a stream belongs to. An entry of the inventory is compiled into
  sets of normal forms; a stream is matched against the entries in order and the first match gives
  the metadata that the engine adds to the stream. The entries of the configuration come first,
  those that virsh lists follow. Files, YAML, XML and the virsh command are parameters. A set is a
  list without duplicates; a nil map and an empty one are the same, and so are a nil list and an
  empty one where the code does not ask.
\<close>

section \<open>Normal forms\<close>

definition isHexString :: "string \<Rightarrow> bool" where
  "isHexString value = list_all (\<lambda>c. c \<in> set ''0123456789abcdef'') value"

definition mac_compact :: "string \<Rightarrow> string" where
  "mac_compact value = filter (\<lambda>c. c \<notin> set '':-.'') value"

definition mac_join :: "string \<Rightarrow> string" where
  "mac_join s =
     strings_Join [take 2 s, take 2 (drop 2 s), take 2 (drop 4 s), take 2 (drop 6 s), take 2 (drop 8 s), take 2 (drop 10 s)] '':''"

definition normalizeMAC :: "string \<Rightarrow> string" where
  "normalizeMAC value =
     (let value = strings_ToLower (strings_TrimSpace value) in
      if value = [] then []
      else
        (case net_ParseMAC value of
           Some mac \<Rightarrow> HardwareAddr_String mac
         | None \<Rightarrow>
             (let compact = mac_compact value in
              if length compact = 12 \<and> isHexString compact then mac_join compact else value)))"

definition normalizeVLAN :: "string \<Rightarrow> string" where
  "normalizeVLAN value =
     (let value = strings_TrimSpace value in
      if value = [] then []
      else (let (i, ok) = strconv_Atoi value in if ok then strconv_Itoa i else value))"

definition makeStringSet :: "string list \<Rightarrow> string list" where
  "makeStringSet values = remdups (filter (\<lambda>v. v \<noteq> []) (map strings_TrimSpace values))"

definition normalizeStrings :: "string list \<Rightarrow> (string \<Rightarrow> string) \<Rightarrow> string list" where
  "normalizeStrings values norm_fn = filter (\<lambda>v. v \<noteq> []) (map norm_fn values)"

definition singleSetValue :: "string list \<Rightarrow> string option" where
  "singleSetValue values = (case values of [v] \<Rightarrow> Some v | _ \<Rightarrow> None)"

section \<open>Entries\<close>

record identityEntry =
  ie_ID :: string
  ie_Name :: string
  ie_Tenant :: string
  ie_MACs :: "string list"
  ie_IPs :: "string list"
  ie_Interfaces :: "string list"
  ie_VLANs :: "string list"
  ie_Labels :: "(string \<times> string) list"
  ie_Source :: string

record compiledIdentityEntry =
  ci_Entry :: identityEntry
  ci_MACs :: "string list"
  ci_IPs :: "string list"
  ci_IPNets :: "IPNet list"
  ci_Interfaces :: "string list"
  ci_VLANs :: "string list"

text \<open>The loop over the addresses: what cannot be parsed is left out.\<close>

fun compile_ips :: "string list \<Rightarrow> string list \<times> IPNet list" where
  "compile_ips [] = ([], [])"
| "compile_ips (raw # raws) =
     (let raw = strings_TrimSpace raw; (ips, nets) = compile_ips raws in
      if raw = [] then (ips, nets)
      else if strings_Contains raw ''/'' then
        (case net_ParseCIDR raw of Some n \<Rightarrow> (ips, n # nets) | None \<Rightarrow> (ips, nets))
      else if net_ParseIP raw \<noteq> [] then (List.insert (net_IP_String (net_ParseIP raw)) ips, nets)
      else (ips, nets))"

definition compileIdentityEntry :: "identityEntry \<Rightarrow> compiledIdentityEntry" where
  "compileIdentityEntry entry =
     (let (ips, nets) = compile_ips (ie_IPs entry) in
      \<lparr>ci_Entry = entry,
       ci_MACs = makeStringSet (normalizeStrings (ie_MACs entry) normalizeMAC),
       ci_IPs = ips, ci_IPNets = nets,
       ci_Interfaces = makeStringSet (ie_Interfaces entry),
       ci_VLANs = makeStringSet (normalizeStrings (ie_VLANs entry) normalizeVLAN)\<rparr>)"

section \<open>Matching a stream\<close>

text \<open>\<open>m[k]\<close> on a map of strings: the empty string when the key is missing.\<close>

definition meta_string :: "metadata \<Rightarrow> string \<Rightarrow> string" where
  "meta_string m k = (case meta_get m k of None \<Rightarrow> [] | Some v \<Rightarrow> v)"

definition constraintsMatch :: "compiledIdentityEntry \<Rightarrow> metadata \<Rightarrow> bool" where
  "constraintsMatch e meta =
     (if ci_Interfaces e \<noteq> [] \<and> meta_string meta ''capture.interface'' \<notin> set (ci_Interfaces e) then False
      else if ci_VLANs e \<noteq> [] \<and> normalizeVLAN (meta_string meta ''vlan.id'') \<notin> set (ci_VLANs e) then False
      else True)"

definition entry_matchIP :: "compiledIdentityEntry \<Rightarrow> bytes \<Rightarrow> bool" where
  "entry_matchIP e ip =
     (if ip = [] then False
      else if net_IP_String ip \<in> set (ci_IPs e) then True
      else list_ex (\<lambda>ipNet. IPNet_Contains ipNet ip) (ci_IPNets e))"

definition entry_Match :: "compiledIdentityEntry \<Rightarrow> StreamInfo \<Rightarrow> (string \<times> string) option" where
  "entry_Match e info =
     (if \<not> constraintsMatch e (si_Meta info) then None
      else
        (let srcMAC = normalizeMAC (meta_string (si_Meta info) ''l2.src'');
             dstMAC = normalizeMAC (meta_string (si_Meta info) ''l2.dst'') in
         if ci_MACs e \<noteq> [] \<and> srcMAC \<in> set (ci_MACs e) then Some (''l2.src'', srcMAC)
         else if ci_MACs e \<noteq> [] \<and> dstMAC \<in> set (ci_MACs e) then Some (''l2.dst'', dstMAC)
         else if entry_matchIP e (si_SrcIP info) then Some (''ip.src'', net_IP_String (si_SrcIP info))
         else if entry_matchIP e (si_DstIP info) then Some (''ip.dst'', net_IP_String (si_DstIP info))
         else None))"

text \<open>
  The metadata of an entry. A label comes last and its key is prefixed. Setting a key under a
  condition, and the key of the hardware address, which is that of the match or else the only one listed.
\<close>

definition put_if :: "bool \<Rightarrow> string \<Rightarrow> string \<Rightarrow> (string \<times> string) list \<Rightarrow> (string \<times> string) list" where
  "put_if c k v m = (if c then AList.update k v m else m)"

definition put_mac :: "bool \<Rightarrow> string \<Rightarrow> string option \<Rightarrow> (string \<times> string) list \<Rightarrow> (string \<times> string) list" where
  "put_mac c v only m =
     (if c then AList.update ''vm.mac'' v m else (case only of Some mac \<Rightarrow> AList.update ''vm.mac'' mac m | None \<Rightarrow> m))"

definition entry_Metadata :: "compiledIdentityEntry \<Rightarrow> string \<Rightarrow> string \<Rightarrow> (string \<times> string) list" where
  "entry_Metadata e source value =
     (let entry = ci_Entry e;
          identitySource = (if ie_Source entry = [] then ''inventory'' else ie_Source entry);
          m = [(''identity.source'', identitySource), (''identity.match'', source), (''identity.value'', value)];
          m = put_if (ie_ID entry \<noteq> []) ''vm.id'' (ie_ID entry) m;
          m = put_if (ie_Name entry \<noteq> []) ''vm.name'' (ie_Name entry) m;
          m = put_if (ie_Tenant entry \<noteq> []) ''vm.tenant'' (ie_Tenant entry) m;
          m = put_mac (strings_HasPrefix source ''l2.'' \<and> value \<noteq> []) value (singleSetValue (ci_MACs e)) m;
          m = put_if (strings_HasPrefix source ''ip.'' \<and> value \<noteq> []) ''vm.ip'' value m in
      fold (\<lambda>(k, v) m. if strings_TrimSpace k = [] then m else AList.update (''vm.label.'' @ k) v m) (ie_Labels entry) m)"

section \<open>The enricher\<close>

record identityEnricher =
  en_staticEntries :: "compiledIdentityEntry list"
  en_entries :: "compiledIdentityEntry list"

fun enrich_entries :: "compiledIdentityEntry list \<Rightarrow> StreamInfo \<Rightarrow> metadata" where
  "enrich_entries [] info = None"
| "enrich_entries (e # es) info =
     (case entry_Match e info of
        Some (source, value) \<Rightarrow> Some (entry_Metadata e source value)
      | None \<Rightarrow> enrich_entries es info)"

definition Enrich :: "identityEnricher option \<Rightarrow> StreamInfo \<Rightarrow> metadata" where
  "Enrich e info = (case e of None \<Rightarrow> None | Some e \<Rightarrow> enrich_entries (en_entries e) info)"

definition mergeIdentityEntries :: "compiledIdentityEntry list \<Rightarrow> identityEntry list \<Rightarrow> compiledIdentityEntry list" where
  "mergeIdentityEntries staticEntries dynamicEntries = staticEntries @ map compileIdentityEntry dynamicEntries"

text \<open>
  The inventory file: \<open>yaml_inventory\<close> decodes a document with a list of entries (\<open>None\<close> if it has
  no such list), \<open>yaml_entries\<close> a bare list.
\<close>

record identity_world =
  iw_ReadFile :: "string \<Rightarrow> string + bytes"
  iw_yaml_inventory :: "bytes \<Rightarrow> string + identityEntry list option"
  iw_yaml_entries :: "bytes \<Rightarrow> string + identityEntry list"

definition loadIdentityInventory :: "identity_world \<Rightarrow> string \<Rightarrow> string + identityEntry list" where
  "loadIdentityInventory w path =
     (case iw_ReadFile w path of
        Inl err \<Rightarrow> Inl err
      | Inr data \<Rightarrow>
          (case iw_yaml_inventory w data of
             Inr (Some es) \<Rightarrow> Inr es
           | _ \<Rightarrow> iw_yaml_entries w data))"

record cliConfigIdentity =
  cid_Inventory :: string
  cid_Entries :: "identityEntry list"
  cid_LibvirtEnabled :: bool
  cid_LibvirtURI :: string

definition newIdentityEnricher :: "identity_world \<Rightarrow> cliConfigIdentity \<Rightarrow> string + identityEnricher option" where
  "newIdentityEnricher w config =
     (case (if cid_Inventory config \<noteq> [] then loadIdentityInventory w (cid_Inventory config) else Inr []) of
        Inl err \<Rightarrow> Inl err
      | Inr inv_entries \<Rightarrow>
          (let entries = map (\<lambda>e. if ie_Source e = [] then e\<lparr>ie_Source := ''inventory''\<rparr> else e)
                           (cid_Entries config @ inv_entries) in
           if entries = [] \<and> \<not> cid_LibvirtEnabled config then Inr None
           else
             (let compiled = map compileIdentityEntry entries in
              Inr (Some \<lparr>en_staticEntries = compiled, en_entries = compiled\<rparr>))))"

section \<open>libvirt\<close>

datatype libvirt_error =
    VirshFailed "string list" string string
  | DumpFailed string libvirt_error
  | ParseFailed string string

type_synonym commandRunner = "string \<Rightarrow> string list \<Rightarrow> bytes \<times> string option"

record libvirtDomainXML =
  lx_Name :: string
  lx_UUID :: string
  lx_MACs :: "string list"

record libvirtInventoryProvider =
  lp_uri :: string
  lp_runCommand :: commandRunner
  lp_xml :: "bytes \<Rightarrow> string + libvirtDomainXML"

definition virsh :: "libvirtInventoryProvider \<Rightarrow> string list \<Rightarrow> libvirt_error + bytes" where
  "virsh p args =
     (let fullArgs = (if lp_uri p \<noteq> [] then [''--connect'', lp_uri p] else []) @ args;
          (output, err) = lp_runCommand p ''virsh'' fullArgs in
      case err of
        Some err \<Rightarrow> Inl (VirshFailed fullArgs err (strings_TrimSpace (go_string output)))
      | None \<Rightarrow> Inr output)"

definition domainNames :: "libvirtInventoryProvider \<Rightarrow> libvirt_error + string list" where
  "domainNames p =
     (case virsh p [''list'', ''--all'', ''--name''] of
        Inl err \<Rightarrow> Inl err
      | Inr output \<Rightarrow>
          Inr (filter (\<lambda>n. n \<noteq> []) (map strings_TrimSpace (strings_Split (go_string output) [CHR 0x0A]))))"

definition parseLibvirtDomainXML ::
    "(bytes \<Rightarrow> string + libvirtDomainXML) \<Rightarrow> bytes \<Rightarrow> string \<Rightarrow> string + identityEntry option" where
  "parseLibvirtDomainXML xml data fallbackName =
     (case xml data of
        Inl err \<Rightarrow> Inl err
      | Inr domain \<Rightarrow>
          (let name = strings_TrimSpace (lx_Name domain);
               name = (if name = [] then fallbackName else name);
               uuid = strings_TrimSpace (lx_UUID domain);
               macs = filter (\<lambda>m. m \<noteq> []) (map normalizeMAC (lx_MACs domain)) in
           if name = [] \<or> macs = [] then Inr None
           else Inr (Some \<lparr>ie_ID = (if uuid = [] then name else uuid), ie_Name = name, ie_Tenant = [], ie_MACs = macs,
                          ie_IPs = [], ie_Interfaces = [], ie_VLANs = [], ie_Labels = [], ie_Source = ''libvirt''\<rparr>)))"

fun load_domains :: "libvirtInventoryProvider \<Rightarrow> string list \<Rightarrow> libvirt_error + identityEntry list" where
  "load_domains p [] = Inr []"
| "load_domains p (name # names) =
     (case virsh p [''dumpxml'', name] of
        Inl err \<Rightarrow> Inl (DumpFailed name err)
      | Inr rawXML \<Rightarrow>
          (case parseLibvirtDomainXML (lp_xml p) rawXML name of
             Inl err \<Rightarrow> Inl (ParseFailed name err)
           | Inr entry \<Rightarrow>
               (case load_domains p names of
                  Inl err \<Rightarrow> Inl err
                | Inr entries \<Rightarrow> Inr (case entry of Some e \<Rightarrow> e # entries | None \<Rightarrow> entries))))"

definition provider_Load :: "libvirtInventoryProvider \<Rightarrow> libvirt_error + identityEntry list" where
  "provider_Load p = (case domainNames p of Inl err \<Rightarrow> Inl err | Inr names \<Rightarrow> load_domains p names)"

definition refreshLibvirtInventory :: "libvirtInventoryProvider \<Rightarrow> identityEnricher \<Rightarrow> identityEnricher" where
  "refreshLibvirtInventory p e =
     (case provider_Load p of
        Inl err \<Rightarrow> e
      | Inr entries \<Rightarrow> e\<lparr>en_entries := mergeIdentityEntries (en_staticEntries e) entries\<rparr>)"

section \<open>The normal form of a hardware address\<close>

lemma hex_digit_lower [simp]: "d < 16 \<Longrightarrow> ascii_lower (hex_digit d) = hex_digit d"
  by (auto simp: hex_digit_def ascii_lower_def of_char_of)

lemma hex_digit_token [simp]: "d < 16 \<Longrightarrow> token_char (hex_digit d)"
  by (auto simp: hex_digit_def token_char_def ascii_space_def of_char_of)

lemma unat_div_16: "unat (b :: byte) div 16 < 16" "unat b mod 16 < 16"
  using unat_byte_less [of b] by simp_all

lemma HardwareAddr_chars: "list_all (\<lambda>c. token_char c \<and> ascii_lower c = c) (HardwareAddr_String hw)"
proof -
  have "list_all (\<lambda>c. token_char c \<and> ascii_lower c = c) (strings_Join (map hex_pair hw) '':'')"
  proof (induction hw)
    case (Cons b hw)
    have "token_char CHR '':''" "ascii_lower CHR '':'' = CHR '':''" by code_simp+
    then show ?case
      using Cons unat_div_16 [of b] by (cases hw) (auto simp: hex_pair_def)
  qed simp
  then show ?thesis by (simp add: HardwareAddr_String_def)
qed

lemma HardwareAddr_normal:
  "strings_ToLower (strings_TrimSpace (HardwareAddr_String hw)) = HardwareAddr_String hw"
proof -
  have "strings_TrimSpace (HardwareAddr_String hw) = HardwareAddr_String hw"
    using HardwareAddr_chars [of hw] by (intro TrimSpace_tokens) (simp add: list_all_iff)
  then show ?thesis
    using HardwareAddr_chars [of hw] by (simp add: strings_ToLower_def list_all_iff map_idI)
qed

lemma normalizeMAC_String:
  assumes "length hw \<in> {6, 8, 20}"
  shows "normalizeMAC (HardwareAddr_String hw) = HardwareAddr_String hw"
proof -
  have "HardwareAddr_String hw \<noteq> []"
    using length_HardwareAddr_String [of hw] assms by (cases hw) auto
  then show ?thesis
    using ParseMAC_String [OF assms] by (simp add: normalizeMAC_def HardwareAddr_normal)
qed

lemma hex_digit_of_char:
  assumes "c \<in> set ''0123456789abcdef''"
  obtains d where "d < 16" "c = hex_digit d"
proof -
  have "list_all (\<lambda>c. c = hex_digit (the (hex_value c)) \<and> the (hex_value c) < 16) ''0123456789abcdef''"
    by code_simp
  then have "c = hex_digit (the (hex_value c)) \<and> the (hex_value c) < 16"
    using assms unfolding list_all_iff by blast
  then show ?thesis using that by blast
qed

lemma hex_pair_of_chars:
  assumes "c \<in> set ''0123456789abcdef''" "d \<in> set ''0123456789abcdef''"
  obtains b where "[c, d] = hex_pair b"
proof -
  obtain x y where xy: "x < 16" "c = hex_digit x" "y < 16" "d = hex_digit y"
    using hex_digit_of_char assms by metis
  then have "unat (word_of_nat (16 * x + y) :: byte) = 16 * x + y"
    using take_bit_nat_eq_self [of "16 * x + y" 8] by (simp add: unsigned_of_nat del: of_nat_add of_nat_mult)
  then have "[c, d] = hex_pair (word_of_nat (16 * x + y))"
    using xy by (simp add: hex_pair_def)
  then show ?thesis using that by blast
qed

lemma compact_String:
  assumes "length cmpt = 12" "isHexString cmpt"
  obtains hw where "length hw = 6"
    and "mac_join cmpt = HardwareAddr_String hw"
proof -
  have "\<exists>b. take 2 (drop (2 * i) cmpt) = hex_pair b" if "i < 6" for i
  proof -
    have "take 2 (drop (2 * i) cmpt) = [cmpt ! (2 * i), cmpt ! (2 * i + 1)]"
      using that assms(1) by (intro nth_equalityI) (auto simp: less_Suc_eq numeral_2_eq_2)
    moreover have "cmpt ! (2 * i) \<in> set ''0123456789abcdef''" "cmpt ! (2 * i + 1) \<in> set ''0123456789abcdef''"
      using that assms unfolding isHexString_def list_all_length by simp_all
    ultimately show ?thesis using hex_pair_of_chars by metis
  qed
  then obtain f where f: "\<forall>i < 6. take 2 (drop (2 * i) cmpt) = hex_pair (f i)" by metis
  show ?thesis
  proof (rule that)
    show "length [f 0, f 1, f 2, f 3, f 4, f 5] = 6" by simp
    show "mac_join cmpt = HardwareAddr_String [f 0, f 1, f 2, f 3, f 4, f 5]"
      using f [rule_format, of 0] f [rule_format, of 1] f [rule_format, of 2] f [rule_format, of 3]
        f [rule_format, of 4] f [rule_format, of 5]
      by (simp add: HardwareAddr_String_def mac_join_def)
  qed
qed

lemma normalizeMAC_cases:
  obtains "normalizeMAC value = []" "strings_TrimSpace value = []"
  | hw where "length hw \<in> {6, 8, 20}" "normalizeMAC value = HardwareAddr_String hw"
  | "normalizeMAC value = strings_ToLower (strings_TrimSpace value)" "net_ParseMAC (normalizeMAC value) = None"
proof -
  define v where "v = strings_ToLower (strings_TrimSpace value)"
  define cmpt where "cmpt = mac_compact v"
  consider "v = []" | mac where "v \<noteq> []" "net_ParseMAC v = Some mac"
    | "v \<noteq> []" "net_ParseMAC v = None" "length cmpt = 12" "isHexString cmpt"
    | "v \<noteq> []" "net_ParseMAC v = None" "\<not> (length cmpt = 12 \<and> isHexString cmpt)"
    by (cases "net_ParseMAC v") auto
  then show ?thesis
  proof cases
    case 1
    then show ?thesis using that(1) by (simp add: normalizeMAC_def v_def)
  next
    case 2
    then show ?thesis using that(2) net_ParseMAC_length [of v mac] by (simp add: normalizeMAC_def v_def)
  next
    case 3
    then obtain hw where "length hw = 6"
      "mac_join cmpt = HardwareAddr_String hw"
      using compact_String by metis
    then show ?thesis
      using 3 that(2) [of hw] by (simp add: normalizeMAC_def v_def [symmetric] cmpt_def [symmetric])
  next
    case 4
    then have "normalizeMAC value = v"
      by (auto simp: normalizeMAC_def v_def [symmetric] cmpt_def [symmetric])
    then show ?thesis using 4 that(3) by (simp add: v_def)
  qed
qed

lemma normalizeMAC_cong:
  "strings_ToLower (strings_TrimSpace a) = strings_ToLower (strings_TrimSpace b) \<Longrightarrow> normalizeMAC a = normalizeMAC b"
  by (simp only: normalizeMAC_def)

lemma normalizeMAC_idem': "normalizeMAC (normalizeMAC value) = normalizeMAC value"
proof (cases "value" rule: normalizeMAC_cases)
  case 1
  then show ?thesis by (simp add: normalizeMAC_def strings_TrimSpace_def)
next
  case 2
  then show ?thesis by (simp add: normalizeMAC_String)
next
  case 3
  then have "strings_ToLower (strings_TrimSpace (normalizeMAC value)) = strings_ToLower (strings_TrimSpace value)"
    by (simp add: TrimSpace_ToLower)
  then show ?thesis by (rule normalizeMAC_cong)
qed

text \<open>However an address is written, the normal form is that of the standard library.\<close>

lemma normalizeMAC_parsed:
  "net_ParseMAC (strings_ToLower (strings_TrimSpace value)) = Some mac \<Longrightarrow> normalizeMAC value = HardwareAddr_String mac"
proof -
  assume p: "net_ParseMAC (strings_ToLower (strings_TrimSpace value)) = Some mac"
  then have "strings_ToLower (strings_TrimSpace value) \<noteq> []" by (auto simp: net_ParseMAC_def)
  then show ?thesis using p by (simp add: normalizeMAC_def)
qed

section \<open>Which entry counts\<close>

lemma enrich_append:
  "enrich_entries (as @ bs) info =
     (case enrich_entries as info of Some m \<Rightarrow> Some m | None \<Rightarrow> enrich_entries bs info)"
  by (induction as) (auto split: option.splits)

text \<open>
  An enricher as the program has it: built from the configuration, then refreshed any number of
  times, with whatever virsh prints each time.
\<close>

inductive enricher_reach :: "identity_world \<Rightarrow> cliConfigIdentity \<Rightarrow> identityEnricher \<Rightarrow> bool" for w config where
  new: "newIdentityEnricher w config = Inr (Some e) \<Longrightarrow> enricher_reach w config e"
| refresh: "enricher_reach w config e \<Longrightarrow> enricher_reach w config (refreshLibvirtInventory p e)"

lemma enricher_entries:
  "enricher_reach w config e \<Longrightarrow> \<exists>dyn. en_entries e = en_staticEntries e @ map compileIdentityEntry dyn"
proof (induction rule: enricher_reach.induct)
  case (new e)
  then have "en_entries e = en_staticEntries e @ map compileIdentityEntry []"
    by (auto simp: newIdentityEnricher_def Let_def split: sum.splits if_splits)
  then show ?case by blast
next
  case (refresh e p)
  then show ?case
    by (auto simp: refreshLibvirtInventory_def mergeIdentityEntries_def split: sum.splits)
qed

lemma refresh_static [simp]: "en_staticEntries (refreshLibvirtInventory p e) = en_staticEntries e"
  by (simp add: refreshLibvirtInventory_def split: sum.splits)

text \<open>
  C37. However often the virtual machines are listed anew, and whatever virsh prints, a stream
  that an entry of the configuration matches keeps the metadata of that entry.
\<close>

theorem static_identity_stays:
  assumes "enricher_reach w config e" "enrich_entries (en_staticEntries e) info = Some m"
  shows "Enrich (Some (refreshLibvirtInventory p e)) info = Some m"
proof -
  obtain dyn where "en_entries (refreshLibvirtInventory p e)
      = en_staticEntries (refreshLibvirtInventory p e) @ map compileIdentityEntry dyn"
    using enricher_entries [OF enricher_reach.refresh [OF assms(1)]] by blast
  then show ?thesis using assms(2) by (simp add: Enrich_def enrich_append)
qed

section \<open>What the metadata says\<close>

lemma labels_elsewhere:
  assumes "\<not> strings_HasPrefix key ''vm.label.''"
  shows "map_of (fold (\<lambda>(k, v) m. if strings_TrimSpace k = [] then m else AList.update (''vm.label.'' @ k) v m) ls m) key = map_of m key"
proof (induction ls arbitrary: m)
  case (Cons l ls)
  obtain k v where l: "l = (k, v)" by fastforce
  have "''vm.label.'' @ k \<noteq> key" using assms by (auto simp: HasPrefix_conv)
  then show ?case using Cons by (simp add: l update_conv')
qed simp

text \<open>The lookups of optional fields, one at a time.\<close>

lemma map_of_put:
  "map_of (put_if c k x m) key = (if c \<and> key = k then Some x else map_of m key)"
  "map_of (put_mac c x s m) key =
     (if key = ''vm.mac'' then (if c then Some x else (case s of Some y \<Rightarrow> Some y | None \<Rightarrow> map_of m key)) else map_of m key)"
  by (auto simp: put_if_def put_mac_def update_conv' split: option.split)

lemma metadata_fields:
  "meta_get (Some (entry_Metadata e source v)) ''vm.id'' = (if ie_ID (ci_Entry e) = [] then None else Some (ie_ID (ci_Entry e)))"
  "meta_get (Some (entry_Metadata e source v)) ''identity.match'' = Some source"
  "meta_get (Some (entry_Metadata e source v)) ''vm.mac'' =
     (if strings_HasPrefix source ''l2.'' \<and> v \<noteq> [] then Some v else singleSetValue (ci_MACs e))"
  unfolding meta_get_def entry_Metadata_def Let_def
  by (simp_all add: labels_elsewhere strings_HasPrefix_def [of _ "''vm.label.''"] map_of_put split: option.split)

lemma makeStringSet_nonempty: "v \<in> set (makeStringSet vs) \<Longrightarrow> v \<noteq> []"
  by (auto simp: makeStringSet_def)

text \<open>A match by hardware address names an address of the frame that the entry lists.\<close>

lemma entry_Match_mac:
  assumes "entry_Match (compileIdentityEntry entry) info = Some (source, v)" "strings_HasPrefix source ''l2.''"
  shows "v \<noteq> [] \<and> (v = normalizeMAC (meta_string (si_Meta info) ''l2.src'') \<or> v = normalizeMAC (meta_string (si_Meta info) ''l2.dst''))"
  using assms
  by (auto simp: entry_Match_def compileIdentityEntry_def Let_def strings_HasPrefix_def split: if_splits prod.splits
      dest: makeStringSet_nonempty)

lemma matched_mac_metadata:
  assumes "enrich_entries (map compileIdentityEntry entries) info = Some m"
    and "meta_get (Some m) ''identity.match'' = Some source" "source \<in> {''l2.src'', ''l2.dst''}"
  shows "\<exists>mac. meta_get (Some m) ''vm.mac'' = Some mac \<and> mac \<noteq> [] \<and> normalizeMAC mac = mac
     \<and> (mac = normalizeMAC (meta_string (si_Meta info) ''l2.src'') \<or> mac = normalizeMAC (meta_string (si_Meta info) ''l2.dst''))"
proof -
  have "\<exists>entry src v. entry_Match (compileIdentityEntry entry) info = Some (src, v) \<and> m = entry_Metadata (compileIdentityEntry entry) src v"
    using assms(1) by (induction entries) (auto split: option.splits)
  then obtain entry src v where em: "entry_Match (compileIdentityEntry entry) info = Some (src, v)"
    and m: "m = entry_Metadata (compileIdentityEntry entry) src v" by blast
  have "meta_get (Some m) ''identity.match'' = Some src" by (simp add: m metadata_fields)
  then have src: "strings_HasPrefix src ''l2.''" using assms(2,3) by (auto simp: strings_HasPrefix_def)
  note v = entry_Match_mac [OF em src]
  then have "normalizeMAC v = v" using normalizeMAC_idem' by metis
  then show ?thesis using v src by (auto simp: m metadata_fields)
qed

lemma normalizeMAC_idem: "normalizeMAC (normalizeMAC v) = normalizeMAC v"
  by (rule normalizeMAC_idem')

section \<open>Instances\<close>

definition vm_entry :: "string \<Rightarrow> string \<Rightarrow> identityEntry" where
  "vm_entry name mac = \<lparr>ie_ID = name, ie_Name = name, ie_Tenant = [], ie_MACs = [mac], ie_IPs = [],
     ie_Interfaces = [], ie_VLANs = [], ie_Labels = [], ie_Source = []\<rparr>"

definition vm_frame :: StreamInfo where
  "vm_frame = \<lparr>si_ID = 1, si_Protocol = ProtocolTCP, si_SrcIP = [192, 168, 0, 1], si_DstIP = [192, 168, 0, 2],
     si_SrcPort = 1, si_DstPort = 2, si_Meta = Some [(''l2.dst'', ''52:54:00:AA:BB:CC'')], si_Props = Map.empty\<rparr>"

definition vm_config :: cliConfigIdentity where
  "vm_config = \<lparr>cid_Inventory = [], cid_Entries = [vm_entry ''vm-1'' ''5254.00aa.bbcc''], cid_LibvirtEnabled = True, cid_LibvirtURI = []\<rparr>"

definition no_files :: identity_world where
  "no_files = \<lparr>iw_ReadFile = (\<lambda>f. Inl ''no such file''), iw_yaml_inventory = (\<lambda>b. Inr None), iw_yaml_entries = (\<lambda>b. Inr [])\<rparr>"

definition vm_meta :: "(string \<times> string) list" where
  "vm_meta = the (enrich_entries (map compileIdentityEntry [vm_entry ''vm-1'' ''5254.00aa.bbcc'']) vm_frame)"

lemma vm_enriched:
  "enrich_entries (map compileIdentityEntry [vm_entry ''vm-1'' ''5254.00aa.bbcc'']) vm_frame = Some vm_meta"
proof -
  have "enrich_entries (map compileIdentityEntry [vm_entry ''vm-1'' ''5254.00aa.bbcc'']) vm_frame \<noteq> None" by code_simp
  then show ?thesis by (simp add: vm_meta_def)
qed

theorem matched_mac_metadata_witness:
  "\<exists>mac. meta_get (Some vm_meta) ''vm.mac'' = Some mac \<and> normalizeMAC mac = mac"
proof -
  have "meta_get (Some vm_meta) ''identity.match'' = Some ''l2.dst''" by code_simp
  then show ?thesis using matched_mac_metadata [OF vm_enriched] by blast
qed

theorem static_identity_stays_witness:
  "\<exists>e. newIdentityEnricher no_files vm_config = Inr (Some e)
     \<and> (\<exists>m. Enrich (Some (refreshLibvirtInventory \<lparr>lp_uri = [], lp_runCommand = (\<lambda>c as. ([], None)), lp_xml = (\<lambda>b. Inl [])\<rparr> e)) vm_frame = Some m)"
proof -
  obtain e where e: "newIdentityEnricher no_files vm_config = Inr (Some e)"
    by (auto simp: newIdentityEnricher_def vm_config_def Let_def)
  moreover have "en_staticEntries e = map compileIdentityEntry [vm_entry ''vm-1'' ''5254.00aa.bbcc''\<lparr>ie_Source := ''inventory''\<rparr>]"
    using e by (auto simp: newIdentityEnricher_def vm_config_def vm_entry_def Let_def)
  moreover have "enrich_entries (map compileIdentityEntry [vm_entry ''vm-1'' ''5254.00aa.bbcc''\<lparr>ie_Source := ''inventory''\<rparr>]) vm_frame \<noteq> None"
    by code_simp
  ultimately show ?thesis
    using static_identity_stays [OF enricher_reach.new [OF e]] by fastforce
qed

end
