(* ===== verification/AFPacket.thy ===== *)
theory AFPacket
  imports Identity
begin

text \<open>
  \<open>io/afpacket.go\<close>: the ring of blocks that the kernel fills with frames, the walk over the frames
  of a block, and the configuration of the ring. The layout of a frame header is the kernel's, so
  reading one is a parameter (\<open>ta_read\<close> of the \<open>ta_hdr_size\<close> bytes at the offset); a block header
  is a record of its fields. The callback says for each frame whether to go on. Reading a slice
  out of bounds is \<open>None\<close>. System calls, sockets and the decoding of a frame are left out. Go's
  \<open>int\<close> has 64 bits; where a product can leave them it is wrapped by \<open>int64\<close>.
\<close>

definition int64 :: "int \<Rightarrow> int" where
  "int64 x = (x + 2 ^ 63) mod 2 ^ 64 - 2 ^ 63"

section \<open>Configuration\<close>

record AFPacketIOConfig =
  af_Interface :: string
  af_FrameSize :: int
  af_BlockSize :: int
  af_NumBlocks :: int
  af_PollTimeout :: int
  af_Ring :: bool
  af_FanoutGroup :: "u16 option"
  af_FanoutType :: string

text \<open>Go's division truncates towards zero.\<close>

definition go_quot :: "int \<Rightarrow> int \<Rightarrow> int" where
  "go_quot x d = (if x < 0 then - (- x div d) else x div d)"

definition or_default :: "int \<Rightarrow> int \<Rightarrow> int" where
  "or_default x d = (if x \<le> 0 then d else x)"

definition NormalizeAFPacketIOConfig :: "AFPacketIOConfig \<Rightarrow> AFPacketIOConfig" where
  "NormalizeAFPacketIOConfig c =
     (if af_Ring c then
        c\<lparr>af_FrameSize := or_default (af_FrameSize c) 2048,
          af_BlockSize := or_default (af_BlockSize c) 4194304,
          af_NumBlocks := or_default (af_NumBlocks c) 64,
          af_PollTimeout := or_default (af_PollTimeout c) 50000000\<rparr>
      else
        c\<lparr>af_FrameSize := or_default (af_FrameSize c) 65536,
          af_BlockSize := or_default (af_BlockSize c) 1048576,
          af_NumBlocks := or_default (af_NumBlocks c) 64,
          af_PollTimeout := or_default (af_PollTimeout c) 500000000\<rparr>)"

datatype ring_error =
    NotPositive
  | BlockNotPages int
  | FrameNotAligned int
  | FrameTooSmall int
  | BlockNotFrames int
  | SizeLimit
  | FrameCountLimit

definition tpacketAlign :: "int \<Rightarrow> int" where
  "tpacketAlign v = (v + 15) - (v + 15) mod 16"

definition uint32_max :: int where
  "uint32_max = 4294967295"

definition validateAFPacketRingConfig :: "int \<Rightarrow> int \<Rightarrow> AFPacketIOConfig \<Rightarrow> ring_error option" where
  "validateAFPacketRingConfig pageSize hdrSize c =
     (if af_BlockSize c \<le> 0 \<or> af_FrameSize c \<le> 0 \<or> af_NumBlocks c \<le> 0 then Some NotPositive
      else if af_BlockSize c mod pageSize \<noteq> 0 then Some (BlockNotPages (af_BlockSize c))
      else if af_FrameSize c mod 16 \<noteq> 0 then Some (FrameNotAligned (af_FrameSize c))
      else if af_FrameSize c < tpacketAlign hdrSize then Some (FrameTooSmall (af_FrameSize c))
      else if af_BlockSize c mod af_FrameSize c \<noteq> 0 then Some (BlockNotFrames (af_BlockSize c))
      else if uint32_max < af_NumBlocks c \<or> uint32_max < af_BlockSize c \<or> uint32_max < af_FrameSize c then Some SizeLimit
      else
        (let frameNr = (af_NumBlocks c * (af_BlockSize c div af_FrameSize c)) mod 2 ^ 64 in
         if frameNr = 0 \<or> uint32_max < frameNr then Some FrameCountLimit else None))"

datatype ring_warning =
    FewFrames int
  | BigFrame int
  | SmallRing int
  | LongTimeout int
  | ShortTimeout int

record AFPacketRingConfigAdvice =
  ad_Config :: AFPacketIOConfig
  ad_FramesPerBlock :: int
  ad_FrameCount :: int
  ad_TotalBytes :: int
  ad_RetireBlockTimeout :: int
  ad_Warnings :: "ring_warning list"

definition AFPacketRingConfigAdviceFor :: "int \<Rightarrow> int \<Rightarrow> AFPacketIOConfig \<Rightarrow> ring_error + AFPacketRingConfigAdvice" where
  "AFPacketRingConfigAdviceFor pageSize hdrSize config =
     (let c = NormalizeAFPacketIOConfig (config\<lparr>af_Ring := True\<rparr>) in
      case validateAFPacketRingConfig pageSize hdrSize c of
        Some err \<Rightarrow> Inl err
      | None \<Rightarrow>
          (let framesPerBlock = af_BlockSize c div af_FrameSize c;
               frameCount = int64 (af_NumBlocks c * framesPerBlock);
               totalBytes = int64 (af_BlockSize c * af_NumBlocks c) in
           Inr \<lparr>ad_Config = c, ad_FramesPerBlock = framesPerBlock, ad_FrameCount = frameCount,
                ad_TotalBytes = totalBytes, ad_RetireBlockTimeout = af_PollTimeout c,
                ad_Warnings =
                  (if framesPerBlock < 64 then [FewFrames framesPerBlock] else [])
                  @ (if 4096 < af_FrameSize c then [BigFrame (af_FrameSize c)] else [])
                  @ (if totalBytes < 134217728 then [SmallRing (go_quot totalBytes 1048576)] else [])
                  @ (if 100000000 < af_PollTimeout c then [LongTimeout (af_PollTimeout c)] else [])
                  @ (if af_PollTimeout c < 1000000 then [ShortTimeout (af_PollTimeout c)] else [])\<rparr>))"

text \<open>What the kernel is asked for: the conversions to \<open>uint32\<close> written out.\<close>

record TpacketReq3 =
  tr_Block_size :: u32
  tr_Block_nr :: u32
  tr_Frame_size :: u32
  tr_Frame_nr :: u32
  tr_Retire_blk_tov :: u32

definition ring_request :: "AFPacketIOConfig \<Rightarrow> TpacketReq3" where
  "ring_request c =
     (let frameNr = int64 (af_NumBlocks c * (af_BlockSize c div af_FrameSize c));
          tov = word_of_int (go_quot (af_PollTimeout c) 1000000) in
      \<lparr>tr_Block_size = word_of_int (af_BlockSize c), tr_Block_nr = word_of_int (af_NumBlocks c),
       tr_Frame_size = word_of_int (af_FrameSize c), tr_Frame_nr = word_of_int frameNr,
       tr_Retire_blk_tov = (if tov = 0 then 500 else tov)\<rparr>)"

definition newRing :: "int \<Rightarrow> int \<Rightarrow> AFPacketIOConfig \<Rightarrow> ring_error + TpacketReq3" where
  "newRing pageSize hdrSize c =
     (case validateAFPacketRingConfig pageSize hdrSize c of
        Some err \<Rightarrow> Inl err
      | None \<Rightarrow> Inr (ring_request c))"

definition htons :: "int \<Rightarrow> int" where
  "htons i = (push_bit 8 i AND 0xff00) OR (drop_bit 8 i AND 0x00ff)"

text \<open>The fan-out modes by their number in the kernel's interface: hash 0, load balancing 1, cpu 2, rollover 3, random 4, queue mapping 5.\<close>

definition afpacketFanoutType :: "string \<Rightarrow> int option" where
  "afpacketFanoutType v =
     (let s = strings_ToLower (strings_TrimSpace v) in
      if s \<in> set [[], ''hash''] then Some 0
      else if s \<in> set [''lb'', ''loadbalance'', ''load-balance''] then Some 1
      else if s = ''cpu'' then Some 2
      else if s = ''rollover'' then Some 3
      else if s \<in> set [''rnd'', ''random''] then Some 4
      else if s \<in> set [''qm'', ''queue-mapping''] then Some 5
      else None)"

section \<open>The frames of a block\<close>

record Tpacket3Hdr =
  th_Next_offset :: u32
  th_Sec :: u32
  th_Nsec :: u32
  th_Snaplen :: u32
  th_Mac :: u16

record tpacket_abi =
  ta_hdr_size :: nat
  ta_read :: "bytes \<Rightarrow> Tpacket3Hdr"

record frame =
  fr_data :: bytes
  fr_sec :: u32
  fr_nsec :: u32

record ring_block =
  rb_status :: u32
  rb_num_pkts :: u32
  rb_offset_to_first :: u32
  rb_bytes :: bytes

text \<open>
  The loop of \<open>processBlock\<close>: how many frames are left, the offset, the frames delivered so far and
  the read errors. The result says whether to go on.
\<close>

fun block_loop ::
    "tpacket_abi \<Rightarrow> (frame \<Rightarrow> bool) \<Rightarrow> bytes \<Rightarrow> nat \<Rightarrow> nat \<Rightarrow> frame list \<Rightarrow> nat \<Rightarrow> (bool \<times> frame list \<times> nat) go" where
  "block_loop abi cb block 0 offset fs errs = Some (True, fs, errs)"
| "block_loop abi cb block (Suc n) offset fs errs =
     (if offset = 0 \<or> length block < offset + ta_hdr_size abi then Some (True, fs, Suc errs)
      else
        do { raw \<leftarrow> go_slice offset (offset + ta_hdr_size abi) block;
             let hdr = ta_read abi raw;
                 packetStart = offset + unat (th_Mac hdr);
                 packetEnd = packetStart + unat (th_Snaplen hdr) in
             if length block < packetEnd then Some (True, fs, Suc errs)
             else
               do { data \<leftarrow> go_slice packetStart packetEnd block;
                    let f = \<lparr>fr_data = data, fr_sec = th_Sec hdr, fr_nsec = th_Nsec hdr\<rparr> in
                    if \<not> cb f then Some (False, fs @ [f], errs)
                    else if th_Next_offset hdr = 0 then Some (True, fs @ [f], errs)
                    else block_loop abi cb block n (offset + unat (th_Next_offset hdr)) (fs @ [f]) errs } })"

definition processBlock :: "tpacket_abi \<Rightarrow> (frame \<Rightarrow> bool) \<Rightarrow> ring_block \<Rightarrow> (bool \<times> frame list \<times> nat) go" where
  "processBlock abi cb b = block_loop abi cb (rb_bytes b) (unat (rb_num_pkts b)) (unat (rb_offset_to_first b)) [] 0"

section \<open>The ring\<close>

record afPacketRingBackend =
  rg_blocks :: "ring_block list"
  rg_losingBlocks :: u64
  rg_readErrors :: u64

definition TP_STATUS_KERNEL :: u32 where "TP_STATUS_KERNEL = 0"
definition TP_STATUS_USER :: u32 where "TP_STATUS_USER = 1"
definition TP_STATUS_LOSING :: u32 where "TP_STATUS_LOSING = 4"

definition ready :: "ring_block \<Rightarrow> bool" where
  "ready b \<longleftrightarrow> rb_status b AND TP_STATUS_USER \<noteq> 0"

text \<open>
  \<open>processAvailableBlocks\<close> from its \<open>i\<close>-th turn on, with \<open>k\<close> turns left: the index of the block that
  comes next moves on inside the loop. It returns whether a block was processed, whether to go on,
  the index, the ring and the frames delivered.
\<close>

fun avail_loop ::
    "tpacket_abi \<Rightarrow> (frame \<Rightarrow> bool) \<Rightarrow> nat \<Rightarrow> nat \<Rightarrow> bool \<Rightarrow> nat \<Rightarrow> afPacketRingBackend \<Rightarrow> frame list \<Rightarrow>
     (bool \<times> bool \<times> nat \<times> afPacketRingBackend \<times> frame list) go" where
  "avail_loop abi cb 0 i processed blockIndex r fs = Some (processed, True, blockIndex, r, fs)"
| "avail_loop abi cb (Suc k) i processed blockIndex r fs =
     (let numBlocks = length (rg_blocks r); idx = (blockIndex + i) mod numBlocks in
      do { b \<leftarrow> go_at (rg_blocks r) idx;
           if \<not> ready b then avail_loop abi cb k (Suc i) processed blockIndex r fs
           else
             do { (keep, fs', errs) \<leftarrow> processBlock abi cb b;
                  let r = r\<lparr>rg_losingBlocks := rg_losingBlocks r + (if rb_status b AND TP_STATUS_LOSING \<noteq> 0 then 1 else 0),
                            rg_readErrors := rg_readErrors r + word_of_nat errs,
                            rg_blocks := (rg_blocks r)[idx := b\<lparr>rb_status := TP_STATUS_KERNEL\<rparr>]\<rparr> in
                  if \<not> keep then Some (True, False, blockIndex, r, fs @ fs')
                  else avail_loop abi cb k (Suc i) True ((idx + 1) mod numBlocks) r (fs @ fs') } })"

definition processAvailableBlocks ::
    "tpacket_abi \<Rightarrow> (frame \<Rightarrow> bool) \<Rightarrow> nat \<Rightarrow> afPacketRingBackend \<Rightarrow> (bool \<times> bool \<times> nat \<times> afPacketRingBackend \<times> frame list) go" where
  "processAvailableBlocks abi cb blockIndex r = avail_loop abi cb (length (rg_blocks r)) 0 False blockIndex r []"

section \<open>Counters\<close>

record PacketIOStats =
  st_Packets :: u64
  st_Drops :: u64
  st_ReadErrors :: u64
  st_RingLosingBlocks :: u64

text \<open>The socket's counters are reset when they are read, so they are added up.\<close>

record afKernelCounters =
  kc_packets :: u64
  kc_drops :: u64

definition ring_Stats :: "u32 \<times> u32 \<Rightarrow> afKernelCounters \<Rightarrow> afPacketRingBackend \<Rightarrow> PacketIOStats \<times> afKernelCounters" where
  "ring_Stats stats c r =
     (let packets = ucast (fst stats); drops = ucast (snd stats);
          c = (if 0 < packets then c\<lparr>kc_packets := kc_packets c + packets\<rparr> else c);
          c = (if 0 < drops then c\<lparr>kc_drops := kc_drops c + drops\<rparr> else c) in
      (\<lparr>st_Packets = kc_packets c, st_Drops = kc_drops c, st_ReadErrors = rg_readErrors r,
        st_RingLosingBlocks = rg_losingBlocks r\<rparr>, c))"

definition raw_Stats :: "u32 \<times> u32 \<Rightarrow> afKernelCounters \<Rightarrow> u64 \<Rightarrow> PacketIOStats \<times> afKernelCounters" where
  "raw_Stats stats c readErrors =
     (let packets = ucast (fst stats); drops = ucast (snd stats);
          c = (if 0 < packets then c\<lparr>kc_packets := kc_packets c + packets\<rparr> else c);
          c = (if 0 < drops then c\<lparr>kc_drops := kc_drops c + drops\<rparr> else c) in
      (\<lparr>st_Packets = kc_packets c, st_Drops = kc_drops c, st_ReadErrors = readErrors, st_RingLosingBlocks = 0\<rparr>, c))"

section \<open>The reader of the ring\<close>

text \<open>
  A turn of the reader: what the kernel has done to the ring since the last one, and what the poll
  returns if it comes to that (an error that is to be ignored is \<open>PollIgnored\<close>; an interrupted poll is
  made again). The turns end when the program does.
\<close>

datatype poll_result = PollReady | PollIgnored | PollError string

record ring_turn =
  rt_kernel :: "ring_block list \<Rightarrow> ring_block list"
  rt_poll :: poll_result

fun ring_Register ::
    "tpacket_abi \<Rightarrow> (frame \<Rightarrow> bool) \<Rightarrow> (string \<Rightarrow> bool) \<Rightarrow> ring_turn list \<Rightarrow> nat \<Rightarrow> afPacketRingBackend \<Rightarrow> frame list \<Rightarrow>
     (nat \<times> afPacketRingBackend \<times> frame list) go" where
  "ring_Register abi cb cb_err [] blockIndex r fs = Some (blockIndex, r, fs)"
| "ring_Register abi cb cb_err (t # ts) blockIndex r fs =
     (case processAvailableBlocks abi cb blockIndex (r\<lparr>rg_blocks := rt_kernel t (rg_blocks r)\<rparr>) of
        None \<Rightarrow> None
      | Some (processed, keepGoing, blockIndex, r, fs') \<Rightarrow>
          if \<not> keepGoing then Some (blockIndex, r, fs @ fs')
          else if processed then ring_Register abi cb cb_err ts blockIndex r (fs @ fs')
          else
            (case rt_poll t of
               PollError e \<Rightarrow>
                 (let r = r\<lparr>rg_readErrors := rg_readErrors r + 1\<rparr> in
                  if cb_err e then ring_Register abi cb cb_err ts blockIndex r (fs @ fs') else Some (blockIndex, r, fs @ fs'))
             | _ \<Rightarrow> ring_Register abi cb cb_err ts blockIndex r (fs @ fs')))"

section \<open>The request is what was configured\<close>

lemma uint_word_of_int_small: "0 \<le> x \<Longrightarrow> x \<le> uint32_max \<Longrightarrow> uint (word_of_int x :: u32) = x"
  by (simp add: uint_word_of_int uint32_max_def)

lemma retire_timeout:
  "uint (if (word_of_int ms :: u32) = 0 then 500 else word_of_int ms :: u32) = (if ms mod 2 ^ 32 = 0 then 500 else ms mod 2 ^ 32)"
proof -
  define w where "w = (word_of_int ms :: u32)"
  have u: "uint w = ms mod 2 ^ 32" unfolding w_def by (simp add: uint_word_of_int)
  have "w = 0 \<longleftrightarrow> uint w = 0" by (simp add: uint_0_iff)
  then have "uint (if w = 0 then 500 else w) = (if uint w = 0 then 500 else uint w)" by simp
  then show ?thesis unfolding u by (simp only: w_def)
qed

text \<open>
  C40. If the configuration of a ring is accepted, the sizes and counts sent to the kernel are the
  configured ones without wrap-around, and the frames fill the blocks exactly. The timeout for a
  block, which is not checked, is the configured one in milliseconds modulo 2 to the 32, or 500 if
  that is zero.
\<close>

theorem ring_request_exact:
  assumes "newRing pageSize hdrSize c = Inr req"
  shows "uint (tr_Block_size req) = af_BlockSize c \<and> uint (tr_Block_nr req) = af_NumBlocks c
     \<and> uint (tr_Frame_size req) = af_FrameSize c
     \<and> uint (tr_Frame_nr req) * uint (tr_Frame_size req) = uint (tr_Block_nr req) * uint (tr_Block_size req)
     \<and> (let ms = go_quot (af_PollTimeout c) 1000000 in
        uint (tr_Retire_blk_tov req) = (if ms mod 2 ^ 32 = 0 then 500 else ms mod 2 ^ 32))"
proof -
  let ?fpb = "af_BlockSize c div af_FrameSize c"
  have v: "validateAFPacketRingConfig pageSize hdrSize c = None" and req: "req = ring_request c"
    using assms by (auto simp: newRing_def split: option.splits)
  have pos: "0 < af_BlockSize c" "0 < af_FrameSize c" "0 < af_NumBlocks c"
    and dvd: "af_BlockSize c mod af_FrameSize c = 0"
    and max: "af_NumBlocks c \<le> uint32_max" "af_BlockSize c \<le> uint32_max" "af_FrameSize c \<le> uint32_max"
    and nr: "(af_NumBlocks c * ?fpb) mod 2 ^ 64 \<le> uint32_max"
    using v by (auto simp: validateAFPacketRingConfig_def Let_def split: if_splits)
  have fpb: "0 \<le> ?fpb" "?fpb \<le> uint32_max"
    using pos max(2) zdiv_mono2 [of "af_BlockSize c" 1 "af_FrameSize c"] by (auto simp: pos_imp_zdiv_nonneg_iff)
  have "af_NumBlocks c * ?fpb \<le> uint32_max * uint32_max"
    using fpb max(1) pos by (intro mult_mono) auto
  then have "af_NumBlocks c * ?fpb < 2 ^ 64" by (simp add: uint32_max_def)
  then have "(af_NumBlocks c * ?fpb) mod 2 ^ 64 = af_NumBlocks c * ?fpb"
    using fpb(1) pos(3) by (intro mod_pos_pos_trivial) auto
  with nr have nr': "af_NumBlocks c * ?fpb \<le> uint32_max" by simp
  have "0 \<le> af_NumBlocks c * ?fpb" using fpb(1) pos(3) by simp
  then have "int64 (af_NumBlocks c * ?fpb) = af_NumBlocks c * ?fpb"
    using nr' by (simp add: int64_def uint32_max_def)
  then have "uint (tr_Frame_nr req) = af_NumBlocks c * ?fpb"
    using nr' \<open>0 \<le> af_NumBlocks c * ?fpb\<close> by (simp add: req ring_request_def Let_def uint_word_of_int_small del: of_int_mult)
  moreover have "uint (tr_Block_size req) = af_BlockSize c" "uint (tr_Block_nr req) = af_NumBlocks c" "uint (tr_Frame_size req) = af_FrameSize c"
    using pos max by (simp_all add: req ring_request_def Let_def uint_word_of_int_small)
  moreover have "?fpb * af_FrameSize c = af_BlockSize c" using dvd by (simp add: div_mult_mod_eq [of "af_BlockSize c" "af_FrameSize c"] mod_0_imp_dvd)
  moreover have "tr_Retire_blk_tov req = (if (word_of_int ms :: u32) = 0 then 500 else word_of_int ms)"
    if "ms = go_quot (af_PollTimeout c) 1000000" for ms
    by (simp only: req ring_request_def Let_def that TpacketReq3.simps)
  ultimately show ?thesis by (simp only: retire_timeout Let_def mult.assoc simp_thms)
qed

text \<open>The number of bytes of the whole ring is not checked, and can leave Go's \<open>int\<close>.\<close>

lemma ring_bytes_wrap:
  "\<exists>c advice. AFPacketRingConfigAdviceFor 4096 48 c = Inr advice \<and> ad_TotalBytes advice < 0"
proof -
  let ?c = "\<lparr>af_Interface = ''eth0'', af_FrameSize = 4294963200, af_BlockSize = 4294963200, af_NumBlocks = 4294967295,
     af_PollTimeout = 0, af_Ring = True, af_FanoutGroup = None, af_FanoutType = []\<rparr>"
  obtain advice where "AFPacketRingConfigAdviceFor 4096 48 ?c = Inr advice" "ad_TotalBytes advice < 0"
    by (simp add: AFPacketRingConfigAdviceFor_def NormalizeAFPacketIOConfig_def or_default_def
      validateAFPacketRingConfig_def tpacketAlign_def uint32_max_def int64_def Let_def)
  then show ?thesis by blast
qed

section \<open>The walk over a block stays inside it\<close>

definition part_of :: "bytes \<Rightarrow> bytes \<Rightarrow> bool" where
  "part_of d block \<longleftrightarrow> (\<exists>pre post. block = pre @ d @ post)"

lemma go_slice_part: "go_slice lo hi xs = Some d \<Longrightarrow> part_of d xs"
proof -
  assume "go_slice lo hi xs = Some d"
  then have "d = take (hi - lo) (drop lo xs)" by (auto simp: go_slice_def split: if_splits)
  then have "xs = take lo xs @ d @ drop (hi - lo) (drop lo xs)" by (metis append_take_drop_id)
  then show ?thesis unfolding part_of_def by blast
qed

lemma block_loop_ok:
  assumes "\<forall>f \<in> set fs. part_of (fr_data f) block"
  shows "\<exists>keep fs' errs'. block_loop abi cb block n offset fs errs = Some (keep, fs', errs')
     \<and> length fs' \<le> length fs + n \<and> errs' \<le> Suc errs \<and> (\<forall>f \<in> set fs'. part_of (fr_data f) block)
     \<and> ((\<forall>f. cb f) \<longrightarrow> keep)"
  using assms
proof (induction n arbitrary: offset fs)
  case 0
  then show ?case by auto
next
  case (Suc n)
  show ?case
  proof (cases "offset = 0 \<or> length block < offset + ta_hdr_size abi")
    case True
    then show ?thesis using Suc.prems by auto
  next
    case False
    then obtain raw where raw: "go_slice offset (offset + ta_hdr_size abi) block = Some raw"
      by (simp add: go_slice_def)
    let ?hdr = "ta_read abi raw"
    let ?s = "offset + unat (th_Mac ?hdr)"
    let ?e = "?s + unat (th_Snaplen ?hdr)"
    show ?thesis
    proof (cases "length block < ?e")
      case True
      then show ?thesis using False raw Suc.prems by (auto simp: Let_def)
    next
      case inside: False
      then obtain d where d: "go_slice ?s ?e block = Some d" by (simp add: go_slice_def)
      let ?f = "\<lparr>fr_data = d, fr_sec = th_Sec ?hdr, fr_nsec = th_Nsec ?hdr\<rparr>"
      have parts: "\<forall>f \<in> set (fs @ [?f]). part_of (fr_data f) block"
        using Suc.prems go_slice_part [OF d] by auto
      have step: "block_loop abi cb block (Suc n) offset fs errs =
          (if \<not> cb ?f then Some (False, fs @ [?f], errs)
           else if th_Next_offset ?hdr = 0 then Some (True, fs @ [?f], errs)
           else block_loop abi cb block n (offset + unat (th_Next_offset ?hdr)) (fs @ [?f]) errs)"
        using False raw inside d by (simp add: Let_def)
      show ?thesis
        using Suc.IH [OF parts, of "offset + unat (th_Next_offset ?hdr)"] parts unfolding step
        by (cases "cb ?f"; cases "th_Next_offset ?hdr = 0") auto
    qed
  qed
qed

lemma processBlock_bounds:
  "\<exists>keep fs errs. processBlock abi cb b = Some (keep, fs, errs)
     \<and> length fs \<le> unat (rb_num_pkts b) \<and> errs \<le> 1 \<and> (\<forall>f \<in> set fs. part_of (fr_data f) (rb_bytes b))"
  using block_loop_ok [of "[]" "rb_bytes b" abi cb "unat (rb_num_pkts b)" "unat (rb_offset_to_first b)" 0]
  by (auto simp: processBlock_def)

section \<open>Progress over the ring\<close>

definition ready_count :: "ring_block list \<Rightarrow> nat" where
  "ready_count bs = length (filter ready bs)"

lemma not_ready_released [simp]: "\<not> ready (b\<lparr>rb_status := TP_STATUS_KERNEL\<rparr>)"
  by (simp add: ready_def TP_STATUS_KERNEL_def)

lemma ready_count_release:
  "i < length bs \<Longrightarrow> ready (bs ! i) \<Longrightarrow> \<not> ready b \<Longrightarrow> ready_count (bs[i := b]) < ready_count bs"
  unfolding ready_count_def
proof (induction bs arbitrary: i)
  case (Cons a bs)
  then show ?case by (cases i) auto
qed simp

lemma avail_loop_progress:
  assumes "\<forall>f. cb f" "rg_blocks r \<noteq> []"
  shows "\<exists>p bi r' fs'. avail_loop abi cb k i processed blockIndex r fs = Some (p, True, bi, r', fs')
     \<and> length (rg_blocks r') = length (rg_blocks r)
     \<and> ready_count (rg_blocks r') \<le> ready_count (rg_blocks r)
     \<and> (processed \<longrightarrow> p)
     \<and> ((\<exists>j < k. ready (rg_blocks r ! ((blockIndex + i + j) mod length (rg_blocks r))))
          \<longrightarrow> p \<and> ready_count (rg_blocks r') < ready_count (rg_blocks r))"
  using assms(2)
proof (induction k arbitrary: i processed blockIndex r fs)
  case (Suc k)
  let ?n = "length (rg_blocks r)"
  let ?idx = "(blockIndex + i) mod ?n"
  have idx: "?idx < ?n" using Suc.prems by simp
  let ?b = "rg_blocks r ! ?idx"
  show ?case
  proof (cases "ready ?b")
    case False
    have split: "(\<exists>j < Suc k. ready (rg_blocks r ! ((blockIndex + i + j) mod ?n))) \<longleftrightarrow>
        (\<exists>j < k. ready (rg_blocks r ! ((blockIndex + Suc i + j) mod ?n)))"
    proof
      assume "\<exists>j < Suc k. ready (rg_blocks r ! ((blockIndex + i + j) mod ?n))"
      then obtain j where "j < Suc k" "ready (rg_blocks r ! ((blockIndex + i + j) mod ?n))" by blast
      moreover from this False have "j \<noteq> 0" by (metis add_0_right)
      ultimately show "\<exists>j < k. ready (rg_blocks r ! ((blockIndex + Suc i + j) mod ?n))"
        by (intro exI [of _ "j - 1"]) auto
    next
      assume "\<exists>j < k. ready (rg_blocks r ! ((blockIndex + Suc i + j) mod ?n))"
      then show "\<exists>j < Suc k. ready (rg_blocks r ! ((blockIndex + i + j) mod ?n))"
        by (metis Suc_less_eq add_Suc_right add_Suc)
    qed
    show ?thesis
      using Suc.IH [OF Suc.prems, of "Suc i" processed blockIndex fs] False idx
      unfolding split by (simp add: Let_def go_at_def)
  next
    case True
    obtain fs' errs where pb: "processBlock abi cb ?b = Some (True, fs', errs)"
      using block_loop_ok [of "[]" "rb_bytes ?b" abi cb "unat (rb_num_pkts ?b)" "unat (rb_offset_to_first ?b)" 0] assms(1)
      by (auto simp: processBlock_def)
    let ?r = "r\<lparr>rg_losingBlocks := rg_losingBlocks r + (if rb_status ?b AND TP_STATUS_LOSING \<noteq> 0 then 1 else 0),
                rg_readErrors := rg_readErrors r + word_of_nat errs,
                rg_blocks := (rg_blocks r)[?idx := ?b\<lparr>rb_status := TP_STATUS_KERNEL\<rparr>]\<rparr>"
    have less: "ready_count (rg_blocks ?r) < ready_count (rg_blocks r)"
      using ready_count_release [OF idx True not_ready_released] by simp
    have step: "avail_loop abi cb (Suc k) i processed blockIndex r fs = avail_loop abi cb k (Suc i) True ((?idx + 1) mod ?n) ?r (fs @ fs')"
      using True idx pb by (simp add: Let_def go_at_def)
    have "rg_blocks ?r \<noteq> []" using Suc.prems by simp
    from Suc.IH [OF this, of "Suc i" True "(?idx + 1) mod ?n" "fs @ fs'"] less
    show ?thesis unfolding step by fastforce
  qed
qed simp

text \<open>The passes of the reader while the kernel fills no block.\<close>

fun passes :: "tpacket_abi \<Rightarrow> (frame \<Rightarrow> bool) \<Rightarrow> nat \<Rightarrow> nat \<Rightarrow> afPacketRingBackend \<Rightarrow> (nat \<times> afPacketRingBackend) go" where
  "passes abi cb 0 blockIndex r = Some (blockIndex, r)"
| "passes abi cb (Suc n) blockIndex r =
     (case processAvailableBlocks abi cb blockIndex r of
        None \<Rightarrow> None
      | Some (processed, keep, bi, r', fs) \<Rightarrow> passes abi cb n bi r')"

lemma pass_progress:
  assumes "\<forall>f. cb f" "rg_blocks r \<noteq> []"
  shows "\<exists>p bi r' fs. processAvailableBlocks abi cb blockIndex r = Some (p, True, bi, r', fs)
     \<and> length (rg_blocks r') = length (rg_blocks r)
     \<and> (ready_count (rg_blocks r') = 0 \<or> ready_count (rg_blocks r') < ready_count (rg_blocks r))"
proof -
  let ?n = "length (rg_blocks r)"
  obtain p bi r' fs where a: "processAvailableBlocks abi cb blockIndex r = Some (p, True, bi, r', fs)"
    "length (rg_blocks r') = ?n" "ready_count (rg_blocks r') \<le> ready_count (rg_blocks r)"
    "(\<exists>j < ?n. ready (rg_blocks r ! ((blockIndex + j) mod ?n))) \<longrightarrow> ready_count (rg_blocks r') < ready_count (rg_blocks r)"
    using avail_loop_progress [OF assms, of abi ?n 0 False blockIndex "[]"] by (auto simp: processAvailableBlocks_def)
  have "\<exists>j < ?n. ready (rg_blocks r ! ((blockIndex + j) mod ?n))" if "ready_count (rg_blocks r) \<noteq> 0"
  proof -
    have "\<exists>b \<in> set (rg_blocks r). ready b"
    proof (rule ccontr)
      assume "\<not> (\<exists>b \<in> set (rg_blocks r). ready b)"
      then have "filter ready (rg_blocks r) = []" by (simp add: filter_empty_conv)
      then show False using that by (simp add: ready_count_def)
    qed
    then obtain m where m: "m < ?n" "ready (rg_blocks r ! m)" by (auto simp: in_set_conv_nth)
    let ?j = "(m + (?n - blockIndex mod ?n)) mod ?n"
    have n: "0 < ?n" using m(1) by linarith
    then have lt: "blockIndex mod ?n < ?n" by simp
    have "(blockIndex + ?j) mod ?n = (blockIndex mod ?n + (m + (?n - blockIndex mod ?n))) mod ?n"
      by (simp add: mod_simps)
    also have "\<dots> = (m + ?n) mod ?n" using lt by simp
    also have "\<dots> = m" using m(1) by simp
    finally have "ready (rg_blocks r ! ((blockIndex + ?j) mod ?n))" using m(2) by simp
    moreover have "?j < ?n" using n by (rule mod_less_divisor)
    ultimately show ?thesis by blast
  qed
  then show ?thesis using a by fastforce
qed

text \<open>
  C27. While the kernel fills no more blocks and the callback goes on, as many passes over the
  ring as it has blocks leave no block unread, wherever the reader starts, and no pass panics
  whatever the blocks hold.
\<close>

theorem ring_drains:
  assumes "\<forall>f. cb f" "rg_blocks r \<noteq> []"
  shows "\<exists>bi r'. passes abi cb (length (rg_blocks r)) blockIndex r = Some (bi, r') \<and> (\<forall>b \<in> set (rg_blocks r'). \<not> ready b)"
proof -
  have "\<exists>bi r'. passes abi cb n blockIndex r = Some (bi, r') \<and> ready_count (rg_blocks r') = 0"
    if "rg_blocks r \<noteq> []" "ready_count (rg_blocks r) \<le> n" for n blockIndex r
    using that
  proof (induction n arbitrary: blockIndex r)
    case (Suc n)
    obtain p bi r' fs where s: "processAvailableBlocks abi cb blockIndex r = Some (p, True, bi, r', fs)"
      "length (rg_blocks r') = length (rg_blocks r)"
      "ready_count (rg_blocks r') = 0 \<or> ready_count (rg_blocks r') < ready_count (rg_blocks r)"
      using pass_progress [OF assms(1) Suc.prems(1)] by blast
    have "rg_blocks r' \<noteq> []" using s(2) Suc.prems(1) by auto
    moreover have "ready_count (rg_blocks r') \<le> n" using s(3) Suc.prems(2) by linarith
    ultimately show ?case using Suc.IH by (simp add: s(1))
  qed simp
  moreover have "ready_count (rg_blocks r) \<le> length (rg_blocks r)" by (simp add: ready_count_def)
  ultimately obtain bi r' where "passes abi cb (length (rg_blocks r)) blockIndex r = Some (bi, r')" "ready_count (rg_blocks r') = 0"
    using assms(2) by blast
  then show ?thesis by (auto simp: ready_count_def filter_empty_conv)
qed

text \<open>The reader goes on, whatever the kernel and the polls do, as long as the callbacks want more.\<close>

lemma ring_reader_goes_on:
  assumes "\<forall>f. cb f" "\<forall>e. cb_err e" "rg_blocks r \<noteq> []"
    and "\<forall>t \<in> set ts. \<forall>bs. length (rt_kernel t bs) = length bs"
  shows "\<exists>bi r' fs'. ring_Register abi cb cb_err ts blockIndex r fs = Some (bi, r', fs')
     \<and> length (rg_blocks r') = length (rg_blocks r)"
  using assms(3,4)
proof (induction ts arbitrary: blockIndex r fs)
  case (Cons t ts)
  let ?r = "r\<lparr>rg_blocks := rt_kernel t (rg_blocks r)\<rparr>"
  have len: "length (rg_blocks ?r) = length (rg_blocks r)" using Cons.prems(2) by simp
  with Cons.prems(1) have "rg_blocks ?r \<noteq> []" by force
  from pass_progress [OF assms(1) this] obtain p bi r' fs' where
    s: "processAvailableBlocks abi cb blockIndex ?r = Some (p, True, bi, r', fs')" "length (rg_blocks r') = length (rg_blocks r)"
    using len by metis
  have ih: "\<exists>bi' r3 fs3. ring_Register abi cb cb_err ts bi r2 (fs @ fs') = Some (bi', r3, fs3) \<and> length (rg_blocks r3) = length (rg_blocks r)"
    if "rg_blocks r2 = rg_blocks r'" for r2
    using Cons.IH [of r2 bi "fs @ fs'"] that s(2) Cons.prems by fastforce
  have "cb_err e" for e using assms(2) by blast
  then have "ring_Register abi cb cb_err (t # ts) blockIndex r fs = ring_Register abi cb cb_err ts bi r' (fs @ fs')
      \<or> ring_Register abi cb cb_err (t # ts) blockIndex r fs
         = ring_Register abi cb cb_err ts bi (r'\<lparr>rg_readErrors := rg_readErrors r' + 1\<rparr>) (fs @ fs')"
    by (cases p; cases "rt_poll t") (simp_all add: s(1) Let_def)
  then show ?case using ih [of r'] ih [of "r'\<lparr>rg_readErrors := rg_readErrors r' + 1\<rparr>"] by (elim disjE) simp_all
qed simp

lemma ring_request_exact_witness:
  "uint (tr_Block_size (ring_request (NormalizeAFPacketIOConfig (AFPacketIOConfig.make ''eth0'' 0 0 0 0 True None [])))) = 4194304
   \<and> uint (tr_Retire_blk_tov (ring_request (NormalizeAFPacketIOConfig (AFPacketIOConfig.make ''eth0'' 0 0 0 0 True None [])))) = 50"
proof -
  let ?c = "NormalizeAFPacketIOConfig (AFPacketIOConfig.make ''eth0'' 0 0 0 0 True None [])"
  have "newRing 4096 48 ?c = Inr (ring_request ?c)"
    by (simp add: newRing_def NormalizeAFPacketIOConfig_def AFPacketIOConfig.make_def or_default_def
      validateAFPacketRingConfig_def tpacketAlign_def uint32_max_def Let_def)
  note r = ring_request_exact [OF this]
  have "af_BlockSize ?c = 4194304" "go_quot (af_PollTimeout ?c) 1000000 = 50"
    by (simp_all add: NormalizeAFPacketIOConfig_def AFPacketIOConfig.make_def or_default_def go_quot_def)
  then show ?thesis using r unfolding Let_def by simp
qed

section \<open>The order of the blocks\<close>

text \<open>A ring of four ready blocks of one frame each, the frame being the number of the block.\<close>

definition one_frame_abi :: tpacket_abi where
  "one_frame_abi = \<lparr>ta_hdr_size = 1, ta_read = (\<lambda>_. \<lparr>th_Next_offset = 0, th_Sec = 0, th_Nsec = 0, th_Snaplen = 1, th_Mac = 0\<rparr>)\<rparr>"

definition four_blocks :: afPacketRingBackend where
  "four_blocks = \<lparr>rg_blocks = List.map (\<lambda>x. \<lparr>rb_status = TP_STATUS_USER, rb_num_pkts = 1, rb_offset_to_first = 1, rb_bytes = [0, x]\<rparr>) [0, 1, 2, 3],
     rg_losingBlocks = 0, rg_readErrors = 0\<rparr>"

lemma blocks_out_of_order:
  "map_option (\<lambda>(processed, keep, bi, r, fs). (List.map fr_data fs, List.map ready (rg_blocks r)))
     (processAvailableBlocks one_frame_abi (\<lambda>_. True) 0 four_blocks) = Some ([[0], [2], [1]], [False, False, False, True])"
  by code_simp

lemma ring_drains_witness:
  "\<exists>bi r'. passes one_frame_abi (\<lambda>_. True) (length (rg_blocks four_blocks)) 0 four_blocks = Some (bi, r') \<and> (\<forall>b \<in> set (rg_blocks r'). \<not> ready b)"
  by (rule ring_drains) (simp_all add: four_blocks_def)

end
