(* ===== verification/AFPacketOpen.thy ===== *)
theory AFPacketOpen
  imports AFPacket
begin

text \<open>
  Opening the AF_PACKET socket (\<open>NewAFPacketPacketIO\<close> and what it calls in \<open>io/afpacket.go\<close>): the
  system calls in order, and what is undone when one of them fails. \<open>sys\<close> is the error a call
  returns, if any. The calls whose error the code ignores are made all the same.
\<close>

datatype sys_call =
    SysSocket int
  | SysPacketVersion
  | SysRxRing TpacketReq3
  | SysMmap int
  | SysBind int int
  | SysFanout int
  | SysRcvBuf int
  | SysRcvTimeout int
  | SysMunmap
  | SysClose

type_synonym sys_result = "sys_call list \<times> string option"

text \<open>One call after the others, then the rest if there was no error.\<close>

definition sys_then :: "(sys_call \<Rightarrow> string option) \<Rightarrow> sys_call \<Rightarrow> sys_result \<Rightarrow> sys_result" where
  "sys_then sys c k = (case sys c of Some err \<Rightarrow> ([c], Some err) | None \<Rightarrow> (c # fst k, snd k))"

definition afpacketOpenSocket :: "(sys_call \<Rightarrow> string option) \<Rightarrow> AFPacketIOConfig \<Rightarrow> sys_result" where
  "afpacketOpenSocket sys config =
     sys_then sys (SysSocket (htons 3))
       (if af_Ring config then
          (case sys SysPacketVersion of
             Some err \<Rightarrow> ([SysPacketVersion, SysClose], Some err)
           | None \<Rightarrow> ([SysPacketVersion], None))
        else ([], None))"

definition afpacketBindAndConfigureSocket :: "(sys_call \<Rightarrow> string option) \<Rightarrow> AFPacketIOConfig \<Rightarrow> int \<Rightarrow> sys_result" where
  "afpacketBindAndConfigureSocket sys config ifindex =
     (let options =
        (if \<not> af_Ring config \<and> 0 < af_BlockSize config \<and> 0 < af_NumBlocks config
         then [SysRcvBuf (int64 (af_BlockSize config * af_NumBlocks config))] else [])
        @ (if \<not> af_Ring config \<and> 0 < af_PollTimeout config then [SysRcvTimeout (af_PollTimeout config)] else []) in
      sys_then sys (SysBind (htons 3) ifindex)
        (case af_FanoutGroup config of
           None \<Rightarrow> (options, None)
         | Some fanoutGroup \<Rightarrow>
             (case afpacketFanoutType (af_FanoutType config) of
                None \<Rightarrow> ([], Some ''unsupported fanout type'')
              | Some fanoutType \<Rightarrow> sys_then sys (SysFanout (uint fanoutGroup OR push_bit 16 fanoutType)) (options, None))))"

definition newAFPacketRingBackend :: "(sys_call \<Rightarrow> string option) \<Rightarrow> int \<Rightarrow> int \<Rightarrow> AFPacketIOConfig \<Rightarrow> sys_result" where
  "newAFPacketRingBackend sys pageSize hdrSize config =
     (case newRing pageSize hdrSize config of
        Inl _ \<Rightarrow> ([], Some ''invalid ring'')
      | Inr req \<Rightarrow>
          sys_then sys (SysRxRing req) (sys_then sys (SysMmap (int64 (af_BlockSize config * af_NumBlocks config))) ([], None)))"

definition ring_Close :: "bool \<Rightarrow> sys_call list" where
  "ring_Close mapped = (if mapped then [SysMunmap] else []) @ [SysClose]"

definition raw_Close :: "sys_call list" where
  "raw_Close = [SysClose]"

definition NewAFPacketPacketIO ::
    "(sys_call \<Rightarrow> string option) \<Rightarrow> (string \<Rightarrow> string + int) \<Rightarrow> int \<Rightarrow> int \<Rightarrow> AFPacketIOConfig \<Rightarrow> sys_result" where
  "NewAFPacketPacketIO sys interfaceByName pageSize hdrSize config =
     (if af_Interface config = [] then ([], Some ''interface is required'')
      else
        (let config = NormalizeAFPacketIOConfig config in
         case interfaceByName (af_Interface config) of
           Inl err \<Rightarrow> ([], Some err)
         | Inr ifindex \<Rightarrow>
             (case afpacketOpenSocket sys config of
                (calls, Some err) \<Rightarrow> (calls, Some err)
              | (calls, None) \<Rightarrow>
                  if af_Ring config then
                    (case newAFPacketRingBackend sys pageSize hdrSize config of
                       (ring_calls, Some err) \<Rightarrow> (calls @ ring_calls @ [SysClose], Some err)
                     | (ring_calls, None) \<Rightarrow>
                         (case afpacketBindAndConfigureSocket sys config ifindex of
                            (bind_calls, Some err) \<Rightarrow> (calls @ ring_calls @ bind_calls @ ring_Close True, Some err)
                          | (bind_calls, None) \<Rightarrow> (calls @ ring_calls @ bind_calls, None)))
                  else
                    (case afpacketBindAndConfigureSocket sys config ifindex of
                       (bind_calls, Some err) \<Rightarrow> (calls @ bind_calls @ [SysClose], Some err)
                     | (bind_calls, None) \<Rightarrow> (calls @ bind_calls, None)))))"

section \<open>Nothing is left open\<close>

text \<open>How many sockets, and how many mappings, a list of calls leaves open.\<close>

definition open_sockets :: "(sys_call \<Rightarrow> string option) \<Rightarrow> sys_call list \<Rightarrow> int" where
  "open_sockets sys calls =
     int (length (filter (\<lambda>c. (\<exists>p. c = SysSocket p) \<and> sys c = None) calls)) - int (count_list calls SysClose)"

definition open_maps :: "(sys_call \<Rightarrow> string option) \<Rightarrow> sys_call list \<Rightarrow> int" where
  "open_maps sys calls =
     int (length (filter (\<lambda>c. (\<exists>n. c = SysMmap n) \<and> sys c = None) calls)) - int (count_list calls SysMunmap)"

lemma open_append [simp]:
  "open_sockets sys (a @ b) = open_sockets sys a + open_sockets sys b" "open_maps sys (a @ b) = open_maps sys a + open_maps sys b"
  by (simp_all add: open_sockets_def open_maps_def)

lemma open_Nil [simp]: "open_sockets sys [] = 0" "open_maps sys [] = 0"
  by (simp_all add: open_sockets_def open_maps_def)

lemma open_Cons [simp]:
  "open_sockets sys (c # calls) = open_sockets sys calls
     + (case c of SysSocket p \<Rightarrow> if sys c = None then 1 else 0 | SysClose \<Rightarrow> - 1 | _ \<Rightarrow> 0)"
  "open_maps sys (c # calls) = open_maps sys calls
     + (case c of SysMmap n \<Rightarrow> if sys c = None then 1 else 0 | SysMunmap \<Rightarrow> - 1 | _ \<Rightarrow> 0)"
  by (cases c; simp add: open_sockets_def open_maps_def)+

lemma open_socket_calls:
  "open_sockets sys (fst (afpacketOpenSocket sys config)) = (if snd (afpacketOpenSocket sys config) = None then 1 else 0)"
  "open_maps sys (fst (afpacketOpenSocket sys config)) = 0"
  by (auto simp: afpacketOpenSocket_def sys_then_def split: option.split)

lemma open_bind_calls:
  "open_sockets sys (fst (afpacketBindAndConfigureSocket sys config i)) = 0"
  "open_maps sys (fst (afpacketBindAndConfigureSocket sys config i)) = 0"
  by (auto simp: afpacketBindAndConfigureSocket_def sys_then_def Let_def split: option.split)

lemma open_ring_calls:
  "open_sockets sys (fst (newAFPacketRingBackend sys ps hs config)) = 0"
  "open_maps sys (fst (newAFPacketRingBackend sys ps hs config)) = (if snd (newAFPacketRingBackend sys ps hs config) = None then 1 else 0)"
  by (auto simp: newAFPacketRingBackend_def sys_then_def split: option.split sum.split)

text \<open>
  Opening fails without leaving a socket or a mapping behind; when it succeeds there is one socket,
  and one mapping exactly for a ring.
\<close>

lemma afpacket_open_balanced:
  assumes "NewAFPacketPacketIO sys byname ps hs config = (calls, err)"
  shows "open_sockets sys calls = (if err = None then 1 else 0)
     \<and> open_maps sys calls = (if err = None \<and> af_Ring config then 1 else 0)"
proof -
  have ring: "af_Ring (NormalizeAFPacketIOConfig config) = af_Ring config"
    by (simp add: NormalizeAFPacketIOConfig_def)
  let ?c = "NormalizeAFPacketIOConfig config"
  obtain oc oe where o: "afpacketOpenSocket sys ?c = (oc, oe)" by fastforce
  obtain rc re where r: "newAFPacketRingBackend sys ps hs ?c = (rc, re)" by fastforce
  have "open_sockets sys oc = (if oe = None then 1 else 0)" "open_maps sys oc = 0"
    using open_socket_calls [of sys ?c] by (simp_all add: o)
  moreover have "open_sockets sys rc = 0" "open_maps sys rc = (if re = None then 1 else 0)"
    using open_ring_calls [of sys ps hs ?c] by (simp_all add: r)
  moreover have "open_sockets sys bc = 0" "open_maps sys bc = 0"
    if "afpacketBindAndConfigureSocket sys ?c i = (bc, be)" for i bc be
    using open_bind_calls [of sys ?c i] by (simp_all add: that)
  ultimately show ?thesis
    using assms
    by (auto simp: NewAFPacketPacketIO_def Let_def ring o r ring_Close_def split: if_splits sum.splits option.splits prod.splits)
qed

end
