(* ===== verification/PacketHelpers.thy ===== *)
theory PacketHelpers
  imports EngineBase GoAddr "HOL-Library.List_Lexorder"
begin

text \<open>
  \<open>io/packet_helpers.go\<close>, the delivery of frames in \<open>io/afpacket.go\<close> and the replay of \<open>io/pcap.go\<close>:
  the IP packet of a frame, the id of the stream it belongs to, and its metadata. A decoded packet is
  the record of the layers that gopacket finds in it; decoding is a parameter.
\<close>

section \<open>Packets\<close>

record network_layer =
  nw_type :: string
  nw_src :: string
  nw_dst :: string
  nw_contents :: bytes
  nw_payload :: bytes

record transport_layer =
  tp_type :: string
  tp_src :: string
  tp_dst :: string

record gopacket =
  gp_ipv4 :: "(bytes \<times> bytes) option"
  gp_ipv6 :: "(bytes \<times> bytes) option"
  gp_network :: "network_layer option"
  gp_transport :: "transport_layer option"
  gp_ethernet :: "(bytes \<times> bytes \<times> string) option"
  gp_dot1q :: "(int \<times> int) option"

definition layerBytes :: "bytes \<Rightarrow> bytes \<Rightarrow> bytes" where
  "layerBytes contents payload = (if contents = [] then [] else contents @ payload)"

definition packetIPPayload :: "gopacket \<Rightarrow> bytes" where
  "packetIPPayload packet =
     (case gp_ipv4 packet of
        Some (contents, payload) \<Rightarrow> layerBytes contents payload
      | None \<Rightarrow>
          (case gp_ipv6 packet of
             Some (contents, payload) \<Rightarrow> layerBytes contents payload
           | None \<Rightarrow>
               (case gp_network packet of
                  Some nw \<Rightarrow> layerBytes (nw_contents nw) (nw_payload nw)
                | None \<Rightarrow> [])))"

section \<open>The id of a stream\<close>

text \<open>\<open>crc32.ChecksumIEEE\<close>, bit by bit.\<close>

fun crc_bits :: "nat \<Rightarrow> u32 \<Rightarrow> u32" where
  "crc_bits 0 c = c"
| "crc_bits (Suc n) c = crc_bits n (if c AND 1 = 1 then drop_bit 1 c XOR 0xEDB88320 else drop_bit 1 c)"

definition crc32_ChecksumIEEE :: "bytes \<Rightarrow> u32" where
  "crc32_ChecksumIEEE bs = NOT (foldl (\<lambda>c b. crc_bits 8 (c XOR ucast b)) (NOT 0) bs)"

text \<open>\<open>sort.Strings\<close> orders strings by their bytes.\<close>

definition sort_Strings :: "string list \<Rightarrow> string list" where
  "sort_Strings ss = sort_key go_bytes ss"

definition stream_key :: "gopacket \<Rightarrow> network_layer \<Rightarrow> string" where
  "stream_key packet nw =
     (let (proto, srcEndpoint, dstEndpoint) =
        (case gp_transport packet of
           Some tp \<Rightarrow> (tp_type tp, nw_src nw @ '':'' @ tp_src tp, nw_dst nw @ '':'' @ tp_dst tp)
         | None \<Rightarrow> (nw_type nw, nw_src nw, nw_dst nw)) in
      proto @ ''|'' @ strings_Join (sort_Strings [srcEndpoint, dstEndpoint]) ''|'')"

definition packetStreamID :: "gopacket \<Rightarrow> u32" where
  "packetStreamID packet =
     (case gp_network packet of
        None \<Rightarrow> 0
      | Some nw \<Rightarrow> crc32_ChecksumIEEE (go_bytes (stream_key packet nw)))"

section \<open>Metadata\<close>

definition packetMetadata :: "gopacket \<Rightarrow> metadata" where
  "packetMetadata packet =
     (let m = (case gp_ethernet packet of
                 Some (src, dst, ty) \<Rightarrow> [(''l2.src'', HardwareAddr_String src), (''l2.dst'', HardwareAddr_String dst), (''l2.type'', ty)]
               | None \<Rightarrow> [])
            @ (case gp_dot1q packet of
                 Some (vlan, prio) \<Rightarrow> [(''vlan.id'', strconv_Itoa vlan), (''vlan.priority'', strconv_Itoa prio)]
               | None \<Rightarrow> []) in
      if length m = 0 then None else Some m)"

definition set_meta :: "string \<Rightarrow> string \<Rightarrow> metadata \<Rightarrow> metadata" where
  "set_meta k v m = Some (AList.update k v (case m of None \<Rightarrow> [] | Some m \<Rightarrow> m))"

definition afpacket_metadata :: "string \<Rightarrow> gopacket \<Rightarrow> metadata" where
  "afpacket_metadata iface packet =
     set_meta ''capture.interface'' iface (set_meta ''capture.io'' ''afpacket'' (packetMetadata packet))"

definition pcap_metadata :: "gopacket \<Rightarrow> metadata" where
  "pcap_metadata packet = set_meta ''capture.io'' ''pcap'' (packetMetadata packet)"

section \<open>Delivery\<close>

record capturedPacket =
  cp_streamID :: u32
  cp_timestamp :: int
  cp_data :: bytes
  cp_metadata :: metadata

text \<open>What the callback is given, if anything; a frame without an IP packet is passed over.\<close>

definition ethernet_packet :: "(bytes \<Rightarrow> gopacket) \<Rightarrow> string \<Rightarrow> bytes \<Rightarrow> int \<Rightarrow> capturedPacket option" where
  "ethernet_packet decode iface data timestamp =
     (let packet = decode data; payload = packetIPPayload packet in
      if payload = [] then None
      else Some \<lparr>cp_streamID = packetStreamID packet, cp_timestamp = timestamp, cp_data = payload,
                 cp_metadata = afpacket_metadata iface packet\<rparr>)"

definition deliverEthernetPacket ::
    "(bytes \<Rightarrow> gopacket) \<Rightarrow> string \<Rightarrow> (capturedPacket \<Rightarrow> bool) \<Rightarrow> bytes \<Rightarrow> int \<Rightarrow> bool" where
  "deliverEthernetPacket decode iface cb data timestamp =
     (case ethernet_packet decode iface data timestamp of None \<Rightarrow> True | Some p \<Rightarrow> cb p)"

text \<open>
  The raw socket: what reads return, in order, until the callback gives up; the packets delivered
  and the errors counted. An error that is passed over is one the system says to try again.
\<close>

datatype read_result = ReadIgnored | ReadError string | ReadData bytes int

fun raw_Register ::
    "(bytes \<Rightarrow> gopacket) \<Rightarrow> string \<Rightarrow> (capturedPacket \<Rightarrow> bool) \<Rightarrow> (string \<Rightarrow> bool) \<Rightarrow> read_result list \<Rightarrow>
     capturedPacket list \<times> u64" where
  "raw_Register decode iface cb cb_err [] = ([], 0)"
| "raw_Register decode iface cb cb_err (ReadIgnored # rs) = raw_Register decode iface cb cb_err rs"
| "raw_Register decode iface cb cb_err (ReadError e # rs) =
     (if cb_err e then (let (ps, n) = raw_Register decode iface cb cb_err rs in (ps, n + 1)) else ([], 1))"
| "raw_Register decode iface cb cb_err (ReadData data now # rs) =
     (if data = [] then raw_Register decode iface cb cb_err rs
      else
        (let out = (case ethernet_packet decode iface data now of None \<Rightarrow> [] | Some p \<Rightarrow> [p]) in
         if deliverEthernetPacket decode iface cb data now
         then (let (ps, n) = raw_Register decode iface cb cb_err rs in (out @ ps, n))
         else (out, 0)))"

text \<open>
  The replay of a capture file: each packet with the time of the capture and the time it is read at,
  in nanoseconds. The first packet fixes the offset; a later one is held until its time.
\<close>

definition pcap_wait :: "bool \<Rightarrow> int \<Rightarrow> int \<Rightarrow> int option \<Rightarrow> int \<times> int option" where
  "pcap_wait realtime now ts timeOffset =
     (if \<not> realtime then (0, timeOffset)
      else
        (case timeOffset of
           None \<Rightarrow> (0, Some (now - ts))
         | Some offset \<Rightarrow> (ts + offset - now, timeOffset)))"

definition pcap_packet :: "gopacket \<Rightarrow> int \<Rightarrow> capturedPacket option" where
  "pcap_packet packet ts =
     (let payload = packetIPPayload packet in
      if payload = [] then None
      else Some \<lparr>cp_streamID = packetStreamID packet, cp_timestamp = ts, cp_data = payload, cp_metadata = pcap_metadata packet\<rparr>)"

fun pcap_Register :: "bool \<Rightarrow> (gopacket \<times> int \<times> int) list \<Rightarrow> int option \<Rightarrow> (int \<times> capturedPacket) list" where
  "pcap_Register realtime [] off = []"
| "pcap_Register realtime ((packet, ts, now) # rest) off =
     (let (sleep, off) = pcap_wait realtime now ts off;
          delivered = now + max 0 sleep in
      (case pcap_packet packet ts of None \<Rightarrow> [] | Some p \<Rightarrow> [(delivered, p)]) @ pcap_Register realtime rest off)"

section \<open>Both directions of a stream\<close>

definition reverse_packet :: "gopacket \<Rightarrow> gopacket" where
  "reverse_packet p = p\<lparr>gp_network := map_option (\<lambda>nw. nw\<lparr>nw_src := nw_dst nw, nw_dst := nw_src nw\<rparr>) (gp_network p),
     gp_transport := map_option (\<lambda>tp. tp\<lparr>tp_src := tp_dst tp, tp_dst := tp_src tp\<rparr>) (gp_transport p)\<rparr>"

lemma sort_Strings_swap: "sort_Strings [b, a] = sort_Strings [a, b]"
proof -
  have "a = b" if "\<not> go_bytes a < go_bytes b" "\<not> go_bytes b < go_bytes a"
  proof -
    have "go_bytes a = go_bytes b" using that by (metis linorder_less_linear)
    then show ?thesis by (metis go_string_bytes)
  qed
  then show ?thesis by (auto simp: sort_Strings_def not_le)
qed

lemma packetStreamID_reverse: "packetStreamID (reverse_packet p) = packetStreamID p"
  by (auto simp: packetStreamID_def reverse_packet_def stream_key_def Let_def sort_Strings_swap split: option.split)

lemma meta_get_set: "meta_get (set_meta k v m) k' = (if k' = k then Some v else meta_get m k')"
  by (cases m) (simp_all add: set_meta_def meta_get_def update_conv')

end
