(* ===== verification/Ruleset.thy ===== *)
theory Ruleset
  imports EngineBase GoAddr
begin

text \<open>
  \<open>ruleset/expr.go\<close>: rules, what compiling them checks, and matching a stream against them. The
  expression language of expr-lang is a parameter: \<open>nodes\<close> parses an expression and gives the nodes of
  its tree in the order a visitor sees them, \<open>gen\<close> compiles the tree with the nodes the patcher
  changed, and \<open>run\<close> is \<open>vm.Run\<close>. Loading the geo data is \<open>load\<close>. Analyzers and modifiers are the
  lists the program passes in. A map that the code ranges over is a list in some order.
\<close>

section \<open>Rules\<close>

record ModifierEntry =
  me_Name :: string
  me_Args :: PropMap

record ExprRule =
  er_Name :: string
  er_Action :: string
  er_Log :: bool
  er_Severity :: string
  er_Modifier :: ModifierEntry
  er_Expr :: string

record 'p compiledExprRule =
  cr_Name :: string
  cr_Action :: "Action option"
  cr_Log :: bool
  cr_Severity :: string
  cr_ModInstance :: "modInstance option"
  cr_Program :: 'p

record ('p, 'an) exprRuleset =
  xr_Rules :: "'p compiledExprRule list"
  xr_Ans :: "'an list"

definition exprRuleset_Analyzers :: "('p, 'an) exprRuleset \<Rightarrow> StreamInfo \<Rightarrow> 'an list" where
  "exprRuleset_Analyzers r info = xr_Ans r"

section \<open>Matching\<close>

text \<open>The values of the environment of an expression, by their dynamic type.\<close>

datatype env_val =
    EnvInt int
  | EnvString string
  | EnvStrings "(string \<times> string) list"
  | EnvPorts "(string \<times> u16) list"
  | EnvProps PropMap

type_synonym expr_env = "string \<Rightarrow> env_val option"

definition isBuiltInAnalyzer :: "string \<Rightarrow> bool" where
  "isBuiltInAnalyzer name \<longleftrightarrow> name \<in> set [''id'', ''proto'', ''ip'', ''port'', ''meta'']"

definition streamInfoToExprEnv :: "StreamInfo \<Rightarrow> expr_env" where
  "streamInfoToExprEnv info =
     (let meta = (case si_Meta info of None \<Rightarrow> [] | Some m \<Rightarrow> m);
          m = [''id'' \<mapsto> EnvInt (si_ID info),
               ''proto'' \<mapsto> EnvString (Protocol_String (si_Protocol info)),
               ''ip'' \<mapsto> EnvStrings [(''src'', net_IP_String (si_SrcIP info)), (''dst'', net_IP_String (si_DstIP info))],
               ''port'' \<mapsto> EnvPorts [(''src'', si_SrcPort info), (''dst'', si_DstPort info)],
               ''meta'' \<mapsto> EnvStrings meta] in
      (\<lambda>an. case si_Props info an of
              Some props \<Rightarrow> if props = Map.empty then m an else Some (EnvProps props)
            | None \<Rightarrow> m an))"

datatype rule_event =
    RuleLog string string
  | RuleMatchError string string

fun match_rules ::
    "('p \<Rightarrow> expr_env \<Rightarrow> string + pval option) \<Rightarrow> expr_env \<Rightarrow> 'p compiledExprRule list \<Rightarrow> MatchResult \<times> rule_event list" where
  "match_rules run env [] = (\<lparr>mr_Action = ActionMaybe, mr_ModInstance = None\<rparr>, [])"
| "match_rules run env (rule # rules) =
     (case run (cr_Program rule) env of
        Inl err \<Rightarrow> (let (res, log) = match_rules run env rules in (res, RuleMatchError (cr_Name rule) err # log))
      | Inr v \<Rightarrow>
          if v = Some (PBool True) then
            (let log = (if cr_Log rule then [RuleLog (cr_Name rule) (cr_Severity rule)] else []) in
             case cr_Action rule of
               Some a \<Rightarrow> (\<lparr>mr_Action = a, mr_ModInstance = cr_ModInstance rule\<rparr>, log)
             | None \<Rightarrow> (let (res, log') = match_rules run env rules in (res, log @ log')))
          else match_rules run env rules)"

definition exprRuleset_Match ::
    "('p \<Rightarrow> expr_env \<Rightarrow> string + pval option) \<Rightarrow> ('p, 'an) exprRuleset \<Rightarrow> StreamInfo \<Rightarrow> MatchResult \<times> rule_event list" where
  "exprRuleset_Match run r info = match_rules run (streamInfoToExprEnv info) (xr_Rules r)"

text \<open>The ruleset as the engine uses it; what it logs goes to the logger of the management code.\<close>

definition exprRuleset_Ruleset ::
    "('p \<Rightarrow> expr_env \<Rightarrow> string + pval option) \<Rightarrow> ('p, 'an) exprRuleset \<Rightarrow> 'an Ruleset" where
  "exprRuleset_Ruleset run r = \<lparr>rs_Analyzers = exprRuleset_Analyzers r, rs_Match = (\<lambda>info. fst (exprRuleset_Match run r info))\<rparr>"

text \<open>
  The specification: a rule fires when its expression is true; the first that fires and has an action
  decides; what is logged is what the rules up to that one say, in order.
\<close>

definition fires :: "('p \<Rightarrow> expr_env \<Rightarrow> string + pval option) \<Rightarrow> expr_env \<Rightarrow> 'p compiledExprRule \<Rightarrow> bool" where
  "fires run env r \<longleftrightarrow> run (cr_Program r) env = Inr (Some (PBool True))"

definition decides :: "('p \<Rightarrow> expr_env \<Rightarrow> string + pval option) \<Rightarrow> expr_env \<Rightarrow> 'p compiledExprRule \<Rightarrow> bool" where
  "decides run env r \<longleftrightarrow> fires run env r \<and> cr_Action r \<noteq> None"

definition logged :: "('p \<Rightarrow> expr_env \<Rightarrow> string + pval option) \<Rightarrow> expr_env \<Rightarrow> 'p compiledExprRule \<Rightarrow> rule_event list" where
  "logged run env r =
     (case run (cr_Program r) env of
        Inl err \<Rightarrow> [RuleMatchError (cr_Name r) err]
      | Inr v \<Rightarrow> if v = Some (PBool True) \<and> cr_Log r then [RuleLog (cr_Name r) (cr_Severity r)] else [])"

fun upto_first :: "('a \<Rightarrow> bool) \<Rightarrow> 'a list \<Rightarrow> 'a list" where
  "upto_first P [] = []"
| "upto_first P (x # xs) = (if P x then [x] else x # upto_first P xs)"

text \<open>
  C6. Matching a stream against a ruleset gives the action and the modifier of the first rule
  whose expression is true and that has an action, and maybe if there is none; what is logged is
  what the rules up to that one say, in order: an error of a rule is logged and the rule skipped,
  a rule that only logs does not stop the search.
\<close>

theorem match_first_rule:
  "exprRuleset_Match run r info =
     (case find (decides run (streamInfoToExprEnv info)) (xr_Rules r) of
        None \<Rightarrow> \<lparr>mr_Action = ActionMaybe, mr_ModInstance = None\<rparr>
      | Some rule \<Rightarrow> \<lparr>mr_Action = the (cr_Action rule), mr_ModInstance = cr_ModInstance rule\<rparr>,
      concat (map (logged run (streamInfoToExprEnv info))
        (upto_first (decides run (streamInfoToExprEnv info)) (xr_Rules r))))"
proof -
  have "match_rules run env rules =
     (case find (decides run env) rules of
        None \<Rightarrow> \<lparr>mr_Action = ActionMaybe, mr_ModInstance = None\<rparr>
      | Some rule \<Rightarrow> \<lparr>mr_Action = the (cr_Action rule), mr_ModInstance = cr_ModInstance rule\<rparr>,
      concat (map (logged run env) (upto_first (decides run env) rules)))" for env rules
  proof (induction rules)
    case (Cons rule rules)
    show ?case
    proof (cases "run (cr_Program rule) env")
      case (Inl err)
      then show ?thesis
        using Cons.IH by (simp add: decides_def fires_def logged_def)
    next
      case (Inr v)
      then show ?thesis
        using Cons.IH by (cases "cr_Action rule") (simp_all add: decides_def fires_def logged_def Let_def)
    qed
  qed simp
  then show ?thesis by (simp add: exprRuleset_Match_def)
qed

section \<open>Fingerprints and domain keywords\<close>

record FingerprintEntry =
  fe_Hash :: string
  fe_Name :: string
  fe_Severity :: string
  fe_Tags :: "string list"

record FingerprintSet =
  fs_Files :: "string list"
  fs_Suspicious :: "FingerprintEntry list"

record FingerprintConfig =
  fc_JA3 :: FingerprintSet
  fc_JA4 :: FingerprintSet
  fc_QUICJA3 :: FingerprintSet
  fc_QUICJA4 :: FingerprintSet

definition normalizeFingerprintHash :: "string \<Rightarrow> string" where
  "normalizeFingerprintHash hash = strings_ToLower (strings_TrimSpace hash)"

fun normalizeFingerprintHashValue :: "pval option \<Rightarrow> string" where
  "normalizeFingerprintHashValue (Some (PStr hash)) = normalizeFingerprintHash hash"
| "normalizeFingerprintHashValue _ = []"

definition fingerprintEntriesToMap :: "FingerprintEntry list \<Rightarrow> string \<Rightarrow> FingerprintEntry option" where
  "fingerprintEntriesToMap entries =
     fold (\<lambda>entry m. let hash = normalizeFingerprintHash (fe_Hash entry) in
             if hash = [] then m else m(hash \<mapsto> entry\<lparr>fe_Hash := hash\<rparr>)) entries Map.empty"

type_synonym fingerprint_map = "string \<Rightarrow> FingerprintEntry option"

record fingerprintMatchers =
  fm_ja3 :: fingerprint_map
  fm_ja4 :: fingerprint_map
  fm_quicJA3 :: fingerprint_map
  fm_quicJA4 :: fingerprint_map

definition newFingerprintMatchers :: "FingerprintConfig \<Rightarrow> fingerprintMatchers" where
  "newFingerprintMatchers config =
     \<lparr>fm_ja3 = fingerprintEntriesToMap (fs_Suspicious (fc_JA3 config)),
      fm_ja4 = fingerprintEntriesToMap (fs_Suspicious (fc_JA4 config)),
      fm_quicJA3 = fingerprintEntriesToMap (fs_Suspicious (fc_QUICJA3 config)),
      fm_quicJA4 = fingerprintEntriesToMap (fs_Suspicious (fc_QUICJA4 config))\<rparr>"

definition matchJA3 :: "fingerprintMatchers \<Rightarrow> pval option \<Rightarrow> bool" where
  "matchJA3 m hash \<longleftrightarrow> fm_ja3 m (normalizeFingerprintHashValue hash) \<noteq> None"

definition matchJA4 :: "fingerprintMatchers \<Rightarrow> pval option \<Rightarrow> bool" where
  "matchJA4 m hash \<longleftrightarrow> fm_ja4 m (normalizeFingerprintHashValue hash) \<noteq> None"

definition matchQUICJA3 :: "fingerprintMatchers \<Rightarrow> pval option \<Rightarrow> bool" where
  "matchQUICJA3 m hash \<longleftrightarrow> fm_quicJA3 m (normalizeFingerprintHashValue hash) \<noteq> None"

definition matchQUICJA4 :: "fingerprintMatchers \<Rightarrow> pval option \<Rightarrow> bool" where
  "matchQUICJA4 m hash \<longleftrightarrow> fm_quicJA4 m (normalizeFingerprintHashValue hash) \<noteq> None"

definition normalizeDomainKeywordName :: "string \<Rightarrow> string" where
  "normalizeDomainKeywordName value = strings_ToLower (strings_TrimSpace value)"

definition normalizeDomainKeyword :: "string \<Rightarrow> string" where
  "normalizeDomainKeyword value = strings_Trim (strings_ToLower (strings_TrimSpace value)) CHR ''.''"

fun add_keywords :: "string \<Rightarrow> string list \<Rightarrow> (string \<Rightarrow> string list) \<Rightarrow> string \<Rightarrow> string list" where
  "add_keywords name [] m = m"
| "add_keywords name (keyword # ks) m =
     (let keyword = normalizeDomainKeyword keyword in
      add_keywords name ks (if keyword = [] then m else m(name := m name @ [keyword])))"

fun keyword_matchers :: "(string \<times> string list) list \<Rightarrow> (string \<Rightarrow> string list) \<Rightarrow> string \<Rightarrow> string list" where
  "keyword_matchers [] m = m"
| "keyword_matchers ((name, ks) # config) m =
     (let name = normalizeDomainKeywordName name in
      keyword_matchers config (if name = [] then m else add_keywords name ks m))"

definition newDomainKeywordMatchers :: "(string \<times> string list) list \<Rightarrow> string \<Rightarrow> string list" where
  "newDomainKeywordMatchers config = keyword_matchers config (\<lambda>_. [])"

fun domainKeywordMatchers_match :: "(string \<Rightarrow> string list) \<Rightarrow> pval option \<Rightarrow> pval option \<Rightarrow> bool" where
  "domainKeywordMatchers_match m (Some (PStr valueString)) (Some (PStr listString)) =
     (let valueString = normalizeDomainKeyword valueString in
      if valueString = [] then False
      else list_ex (\<lambda>keyword. strings_Contains valueString keyword) (m (normalizeDomainKeywordName listString)))"
| "domainKeywordMatchers_match m _ _ = False"

lemma fingerprintEntriesToMap_iff:
  "fingerprintEntriesToMap entries h \<noteq> None \<longleftrightarrow>
     h \<noteq> [] \<and> h \<in> set (map (\<lambda>e. normalizeFingerprintHash (fe_Hash e)) entries)"
proof -
  have "fold (\<lambda>entry m. let hash = normalizeFingerprintHash (fe_Hash entry) in
             if hash = [] then m else m(hash \<mapsto> entry\<lparr>fe_Hash := hash\<rparr>)) entries m0 h \<noteq> None \<longleftrightarrow>
     m0 h \<noteq> None \<or> (h \<noteq> [] \<and> h \<in> set (map (\<lambda>e. normalizeFingerprintHash (fe_Hash e)) entries))" for m0
    by (induction entries arbitrary: m0) (auto simp: Let_def)
  from this [of Map.empty] show ?thesis by (simp add: fingerprintEntriesToMap_def)
qed

lemma add_keywords_conv:
  "add_keywords name ks m = m(name := m name @ filter (\<lambda>k. k \<noteq> []) (map normalizeDomainKeyword ks))"
  by (induction ks arbitrary: m) (auto simp: Let_def fun_eq_iff)

lemma keyword_matchers_conv:
  "keyword_matchers config m0 name = m0 name @
     (if name = [] then [] else
        concat (map (\<lambda>(n, ks). if normalizeDomainKeywordName n = name
                       then filter (\<lambda>k. k \<noteq> []) (map normalizeDomainKeyword ks) else []) config))"
  by (induction config m0 rule: keyword_matchers.induct) (auto simp: add_keywords_conv Let_def)

lemma newDomainKeywordMatchers_conv:
  "newDomainKeywordMatchers config name =
     (if name = [] then [] else
        concat (map (\<lambda>(n, ks). if normalizeDomainKeywordName n = name
                       then filter (\<lambda>k. k \<noteq> []) (map normalizeDomainKeyword ks) else []) config))"
  by (simp add: newDomainKeywordMatchers_def keyword_matchers_conv)

text \<open>A domain is matched iff it holds, anywhere, a keyword listed under a name that is the same but for case and blanks.\<close>

lemma domain_keyword_matches:
  "domainKeywordMatchers_match (newDomainKeywordMatchers config) (Some (PStr v)) (Some (PStr l)) \<longleftrightarrow>
     normalizeDomainKeyword v \<noteq> [] \<and> normalizeDomainKeywordName l \<noteq> []
     \<and> (\<exists>n ks k. (n, ks) \<in> set config \<and> k \<in> set ks
          \<and> normalizeDomainKeywordName n = normalizeDomainKeywordName l
          \<and> normalizeDomainKeyword k \<noteq> []
          \<and> strings_Contains (normalizeDomainKeyword v) (normalizeDomainKeyword k))"
  by (auto simp: newDomainKeywordMatchers_conv Let_def list_ex_iff split: if_splits) blast+

end
