(* ===== verification/RuleCompile.thy ===== *)
theory RuleCompile
  imports Ruleset
begin

text \<open>
  \<open>CompileExprRules\<close> of \<open>ruleset/expr.go\<close>. The nodes of an expression are those its visitors look at:
  declared variables, identifiers and calls. The identifiers a rule uses are gone through in the order
  of their first occurrence, where the code ranges over a map.
\<close>

datatype ast_arg =
    StringNode string
  | CIDRConstant IPNet
  | ResolverConstant "string option"
  | OtherArg

datatype ast_node =
    VariableDeclaratorNode string
  | IdentifierNode string
  | CallNode "string option" "ast_arg list"
  | OtherNode

section \<open>Visitor and patcher\<close>

record idVisitor =
  iv_Variables :: "string list"
  iv_Identifiers :: "string list"

fun idVisitor_Visit :: "ast_node \<Rightarrow> idVisitor \<Rightarrow> idVisitor" where
  "idVisitor_Visit (VariableDeclaratorNode name) v = v\<lparr>iv_Variables := List.insert name (iv_Variables v)\<rparr>"
| "idVisitor_Visit (IdentifierNode name) v = v\<lparr>iv_Identifiers := List.insert name (iv_Identifiers v)\<rparr>"
| "idVisitor_Visit _ v = v"

text \<open>The patch functions: an error or the new arguments. That of \<open>cidr\<close> takes the second argument for granted.\<close>

definition patch_cidr :: "ast_arg list \<Rightarrow> (string + ast_arg list) go" where
  "patch_cidr args =
     (if length args < 2 then None
      else
        (case args ! 1 of
           StringNode s \<Rightarrow>
             (case net_ParseCIDR s of
                None \<Rightarrow> Some (Inl ''invalid CIDR address'')
              | Some n \<Rightarrow> Some (Inr (args[1 := CIDRConstant n])))
         | _ \<Rightarrow> Some (Inl ''cidr: invalid argument type'')))"

definition patch_lookup :: "ast_arg list \<Rightarrow> string + ast_arg list" where
  "patch_lookup args =
     (if 1 < length args then
        (case args ! 1 of
           StringNode s \<Rightarrow> Inr (args[1 := ResolverConstant (Some s)])
         | _ \<Rightarrow> Inl ''lookup: invalid argument type'')
      else Inr (args @ [ResolverConstant None]))"

definition functionMap_names :: "string list" where
  "functionMap_names =
     [''geoip'', ''geosite'', ''cidr'', ''lookup'', ''suspicious_ja3'', ''suspicious_quic_ja3'',
      ''suspicious_ja4'', ''suspicious_quic_ja4'', ''domain_keyword'']"

text \<open>The patcher keeps the last error; a call it cannot patch stays as it is.\<close>

fun idPatcher_Visit :: "ast_node \<Rightarrow> string option \<Rightarrow> (ast_node \<times> string option) go" where
  "idPatcher_Visit (CallNode (Some callee) args) err =
     (if callee = ''cidr'' then
        map_option (\<lambda>r. case r of Inl e \<Rightarrow> (CallNode (Some callee) args, Some e)
                                | Inr args' \<Rightarrow> (CallNode (Some callee) args', err)) (patch_cidr args)
      else if callee = ''lookup'' then
        Some (case patch_lookup args of Inl e \<Rightarrow> (CallNode (Some callee) args, Some e)
                                      | Inr args' \<Rightarrow> (CallNode (Some callee) args', err))
      else Some (CallNode (Some callee) args, err))"
| "idPatcher_Visit node err = Some (node, err)"

fun patch_nodes :: "ast_node list \<Rightarrow> string option \<Rightarrow> (ast_node list \<times> string option) go" where
  "patch_nodes [] err = Some ([], err)"
| "patch_nodes (n # ns) err =
     (case idPatcher_Visit n err of
        None \<Rightarrow> None
      | Some (n', err) \<Rightarrow> map_option (\<lambda>(ns', err). (n' # ns', err)) (patch_nodes ns err))"

section \<open>Compiling\<close>

datatype compile_error =
    NoActionOrLog string
  | InvalidSeverity string
  | InvalidAction string string
  | InvalidExpression string string
  | FailedToPatch string string
  | FailedToInitialize string string string
  | UnknownIdentifier string string
  | UnknownModifier string string
  | FailedModifier string string

record modifier_api =
  md_Name :: string
  md_New :: "PropMap \<Rightarrow> string + modInstance"

text \<open>\<open>builtins\<close> are the functions of the expression language itself.\<close>

record ('p, 'an) compile_env =
  ce_nodes :: "string \<Rightarrow> string + ast_node list"
  ce_gen :: "string \<Rightarrow> ast_node list \<Rightarrow> string + 'p"
  ce_builtins :: "string list"
  ce_load :: "string \<Rightarrow> string option"
  ce_name :: "'an \<Rightarrow> string"

definition severities :: "string list" where
  "severities = [''debug'', ''info'', ''low'', ''medium'', ''high'', ''critical'']"

definition normalizeSeverity :: "string \<Rightarrow> string option" where
  "normalizeSeverity severity =
     (let severity = strings_ToLower (strings_TrimSpace severity) in
      if severity = [] then Some ''info''
      else if severity \<in> set severities then Some severity
      else None)"

definition actionStringToAction :: "string \<Rightarrow> Action option" where
  "actionStringToAction action =
     (let action = strings_ToLower action in
      if action = ''allow'' then Some ActionAllow
      else if action = ''block'' then Some ActionBlock
      else if action = ''drop'' then Some ActionDrop
      else if action = ''modify'' then Some ActionModify
      else None)"

text \<open>The last of several entries with the same name wins.\<close>

definition analyzersToMap :: "('an \<Rightarrow> string) \<Rightarrow> 'an list \<Rightarrow> string \<Rightarrow> 'an option" where
  "analyzersToMap name ans = fold (\<lambda>a m. m(name a \<mapsto> a)) ans Map.empty"

definition modifiersToMap :: "modifier_api list \<Rightarrow> string \<Rightarrow> modifier_api option" where
  "modifiersToMap mods = fold (\<lambda>a m. m(md_Name a \<mapsto> a)) mods Map.empty"

definition initFunc :: "('p, 'an) compile_env \<Rightarrow> string \<Rightarrow> string option" where
  "initFunc env name = (if name = ''geoip'' \<or> name = ''geosite'' then ce_load env name else None)"

text \<open>The loop over the identifiers of a rule: the analyzers they stand for are collected by name.\<close>

fun resolve_identifiers ::
    "('p, 'an) compile_env \<Rightarrow> (string \<Rightarrow> 'an option) \<Rightarrow> string \<Rightarrow> string list \<Rightarrow> string list \<Rightarrow>
     (string \<times> 'an) list \<Rightarrow> compile_error + (string \<times> 'an) list" where
  "resolve_identifiers env fullAnMap rule vars [] dep = Inr dep"
| "resolve_identifiers env fullAnMap rule vars (name # names) dep =
     (if isBuiltInAnalyzer name \<or> name \<in> set vars \<or> name \<in> set (ce_builtins env) then
        resolve_identifiers env fullAnMap rule vars names dep
      else if name \<in> set functionMap_names then
        (case initFunc env name of
           Some err \<Rightarrow> Inl (FailedToInitialize rule name err)
         | None \<Rightarrow> resolve_identifiers env fullAnMap rule vars names dep)
      else
        (case fullAnMap name of
           Some a \<Rightarrow> resolve_identifiers env fullAnMap rule vars names (AList.update name a dep)
         | None \<Rightarrow> Inl (UnknownIdentifier rule name)))"

definition compile_rule ::
    "('p, 'an) compile_env \<Rightarrow> (string \<Rightarrow> 'an option) \<Rightarrow> (string \<Rightarrow> modifier_api option) \<Rightarrow> ExprRule \<Rightarrow>
     (string \<times> 'an) list \<Rightarrow> (compile_error + 'p compiledExprRule \<times> (string \<times> 'an) list) go" where
  "compile_rule env fullAnMap fullModMap rule dep =
     (let name = er_Name rule in
      if er_Action rule = [] \<and> \<not> er_Log rule then Some (Inl (NoActionOrLog name)) else
      (case normalizeSeverity (er_Severity rule) of
         None \<Rightarrow> Some (Inl (InvalidSeverity name))
       | Some severity \<Rightarrow>
      if er_Action rule \<noteq> [] \<and> actionStringToAction (er_Action rule) = None
      then Some (Inl (InvalidAction name (er_Action rule))) else
      (let action = (if er_Action rule = [] then None else actionStringToAction (er_Action rule)) in
      (case ce_nodes env (er_Expr rule) of
         Inl err \<Rightarrow> Some (Inl (InvalidExpression name err))
       | Inr nodes \<Rightarrow>
      (let visitor = fold idVisitor_Visit nodes \<lparr>iv_Variables = [], iv_Identifiers = []\<rparr> in
      (case patch_nodes nodes None of
         None \<Rightarrow> None
       | Some (patched, patchErr) \<Rightarrow>
      (case ce_gen env (er_Expr rule) patched of
         Inl err \<Rightarrow> Some (Inl (InvalidExpression name err))
       | Inr program \<Rightarrow>
      (case patchErr of
         Some err \<Rightarrow> Some (Inl (FailedToPatch name err))
       | None \<Rightarrow>
      (case resolve_identifiers env fullAnMap name (iv_Variables visitor) (rev (iv_Identifiers visitor)) dep of
         Inl err \<Rightarrow> Some (Inl err)
       | Inr dep \<Rightarrow>
      (let cr = \<lparr>cr_Name = name, cr_Action = action, cr_Log = er_Log rule, cr_Severity = severity,
                 cr_ModInstance = None, cr_Program = program\<rparr> in
       if action = Some ActionModify then
         (case fullModMap (me_Name (er_Modifier rule)) of
            None \<Rightarrow> Some (Inl (UnknownModifier name (me_Name (er_Modifier rule))))
          | Some m \<Rightarrow>
              (case md_New m (me_Args (er_Modifier rule)) of
                 Inl err \<Rightarrow> Some (Inl (FailedModifier name err))
               | Inr modInst \<Rightarrow> Some (Inr (cr\<lparr>cr_ModInstance := Some modInst\<rparr>, dep))))
       else Some (Inr (cr, dep))))))))))))"

fun compile_rules ::
    "('p, 'an) compile_env \<Rightarrow> (string \<Rightarrow> 'an option) \<Rightarrow> (string \<Rightarrow> modifier_api option) \<Rightarrow> ExprRule list \<Rightarrow>
     (string \<times> 'an) list \<Rightarrow> (compile_error + 'p compiledExprRule list \<times> (string \<times> 'an) list) go" where
  "compile_rules env fullAnMap fullModMap [] dep = Some (Inr ([], dep))"
| "compile_rules env fullAnMap fullModMap (rule # rules) dep =
     (case compile_rule env fullAnMap fullModMap rule dep of
        None \<Rightarrow> None
      | Some (Inl err) \<Rightarrow> Some (Inl err)
      | Some (Inr (cr, dep)) \<Rightarrow>
          (case compile_rules env fullAnMap fullModMap rules dep of
             None \<Rightarrow> None
           | Some (Inl err) \<Rightarrow> Some (Inl err)
           | Some (Inr (crs, dep)) \<Rightarrow> Some (Inr (cr # crs, dep))))"

definition CompileExprRules ::
    "('p, 'an) compile_env \<Rightarrow> ExprRule list \<Rightarrow> 'an list \<Rightarrow> modifier_api list \<Rightarrow>
     (compile_error + ('p, 'an) exprRuleset) go" where
  "CompileExprRules env rules ans mods =
     (case compile_rules env (analyzersToMap (ce_name env) ans) (modifiersToMap mods) rules [] of
        None \<Rightarrow> None
      | Some (Inl err) \<Rightarrow> Some (Inl err)
      | Some (Inr (compiled, dep)) \<Rightarrow> Some (Inr \<lparr>xr_Rules = compiled, xr_Ans = map snd dep\<rparr>))"

section \<open>What a compiled ruleset is\<close>

text \<open>The analyzers a rule refers to: its identifiers that are nothing else.\<close>

definition rule_identifiers :: "ast_node list \<Rightarrow> string set" where
  "rule_identifiers nodes =
     {name. IdentifierNode name \<in> set nodes} - {name. VariableDeclaratorNode name \<in> set nodes}"

definition other_name :: "('p, 'an) compile_env \<Rightarrow> string \<Rightarrow> bool" where
  "other_name env name \<longleftrightarrow> isBuiltInAnalyzer name \<or> name \<in> set (ce_builtins env) \<or> name \<in> set functionMap_names"

definition rule_ok :: "ExprRule \<Rightarrow> 'p compiledExprRule \<Rightarrow> bool" where
  "rule_ok r c \<longleftrightarrow> cr_Name c = er_Name r \<and> cr_Log c = er_Log r
     \<and> (cr_Action c \<noteq> None \<or> cr_Log c) \<and> cr_Action c \<noteq> Some ActionMaybe
     \<and> cr_Severity c \<in> set severities
     \<and> (cr_ModInstance c \<noteq> None \<longleftrightarrow> cr_Action c = Some ActionModify)"

definition rule_needs :: "('p, 'an) compile_env \<Rightarrow> ExprRule \<Rightarrow> string set \<Rightarrow> bool" where
  "rule_needs env r names \<longleftrightarrow>
     (\<exists>nodes. ce_nodes env (er_Expr r) = Inr nodes \<and> rule_identifiers nodes \<subseteq> {n. other_name env n} \<union> names)"

lemma visit_all:
  "set (iv_Variables (fold idVisitor_Visit nodes v)) = set (iv_Variables v) \<union> {n. VariableDeclaratorNode n \<in> set nodes}"
  "set (iv_Identifiers (fold idVisitor_Visit nodes v)) = set (iv_Identifiers v) \<union> {n. IdentifierNode n \<in> set nodes}"
proof (induction nodes arbitrary: v)
  case (Cons node nodes)
  { case 1 show ?case using Cons by (cases node) auto }
  { case 2 show ?case using Cons by (cases node) auto }
qed simp_all

lemma analyzersToMap_Some: "analyzersToMap name ans k = Some a \<Longrightarrow> a \<in> set ans \<and> name a = k"
proof -
  have "fold (\<lambda>a m. m(name a \<mapsto> a)) ans m0 k = Some a \<Longrightarrow> m0 k = Some a \<or> a \<in> set ans \<and> name a = k" for m0
  proof (induction ans arbitrary: m0)
    case (Cons b ans)
    from Cons.IH [of "m0(name b \<mapsto> b)"] Cons.prems show ?case by (auto split: if_splits)
  qed simp
  from this [of Map.empty] show "analyzersToMap name ans k = Some a \<Longrightarrow> a \<in> set ans \<and> name a = k"
    by (simp add: analyzersToMap_def)
qed

definition dep_ok :: "(string \<Rightarrow> 'an option) \<Rightarrow> (string \<times> 'an) list \<Rightarrow> bool" where
  "dep_ok fullAnMap dep \<longleftrightarrow> distinct (map fst dep) \<and> (\<forall>k a. map_of dep k = Some a \<longrightarrow> fullAnMap k = Some a)"

lemma resolve_ok:
  assumes "resolve_identifiers env fullAnMap rule vars names dep = Inr dep'" "dep_ok fullAnMap dep"
  shows "dep_ok fullAnMap dep' \<and> dom (map_of dep) \<subseteq> dom (map_of dep')
     \<and> set names - set vars \<subseteq> {n. other_name env n} \<union> dom (map_of dep')"
  using assms
proof (induction names arbitrary: dep)
  case (Cons name names)
  show ?case
  proof (cases "isBuiltInAnalyzer name \<or> name \<in> set vars \<or> name \<in> set (ce_builtins env)")
    case True
    then show ?thesis using Cons by (auto simp: other_name_def)
  next
    case notbuiltin: False
    show ?thesis
    proof (cases "name \<in> set functionMap_names")
      case True
      then show ?thesis using Cons notbuiltin by (auto simp: other_name_def split: option.splits)
    next
      case False
      then obtain a where a: "fullAnMap name = Some a"
        and r: "resolve_identifiers env fullAnMap rule vars names (AList.update name a dep) = Inr dep'"
        using Cons.prems(1) notbuiltin by (auto split: option.splits)
      have "dep_ok fullAnMap (AList.update name a dep)"
        using Cons.prems(2) a by (auto simp: dep_ok_def distinct_update update_conv')
      moreover have "dom (map_of (AList.update name a dep)) = insert name (dom (map_of dep))"
        by (simp add: update_conv')
      ultimately have "dep_ok fullAnMap dep'" "insert name (dom (map_of dep)) \<subseteq> dom (map_of dep')"
        "set names - set vars \<subseteq> {n. other_name env n} \<union> dom (map_of dep')"
        using Cons.IH [OF r] by simp_all
      then show ?thesis by (simp del: fun_upd_apply) blast
    qed
  qed
qed simp

lemma rule_compiled:
  assumes "compile_rule env fullAnMap fullModMap rule dep = Some (Inr (cr, dep'))" "dep_ok fullAnMap dep"
  shows "rule_ok rule cr" and "dep_ok fullAnMap dep'" and "dom (map_of dep) \<subseteq> dom (map_of dep')"
    and "rule_needs env rule (dom (map_of dep'))"
proof -
  obtain severity where sev: "normalizeSeverity (er_Severity rule) = Some severity"
    using assms(1) by (auto simp: compile_rule_def Let_def split: if_splits option.splits)
  then have "severity \<in> set severities"
    by (auto simp: normalizeSeverity_def severities_def Let_def split: if_splits)
  moreover have act: "er_Action rule \<noteq> [] \<or> er_Log rule"
    "er_Action rule \<noteq> [] \<longrightarrow> actionStringToAction (er_Action rule) \<noteq> None"
    using assms(1) sev by (auto simp: compile_rule_def Let_def split: if_splits)
  moreover have "actionStringToAction (er_Action rule) \<noteq> Some ActionMaybe"
    by (simp add: actionStringToAction_def Let_def)
  moreover obtain nodes where nodes: "ce_nodes env (er_Expr rule) = Inr nodes"
    using assms(1) sev act by (auto simp: compile_rule_def Let_def split: sum.splits if_splits)
  moreover obtain patched program where patched: "patch_nodes nodes None = Some (patched, None)"
    and prog: "ce_gen env (er_Expr rule) patched = Inr program"
    using assms(1) sev act nodes
    by (auto simp: compile_rule_def Let_def split: sum.splits option.splits if_splits)
  let ?v = "fold idVisitor_Visit nodes \<lparr>iv_Variables = [], iv_Identifiers = []\<rparr>"
  obtain dep1 where dep1: "resolve_identifiers env fullAnMap (er_Name rule) (iv_Variables ?v) (rev (iv_Identifiers ?v)) dep = Inr dep1"
    using assms(1) sev act nodes patched prog
    by (auto simp: compile_rule_def Let_def split: sum.splits option.splits if_splits)
  have fin: "dep1 = dep' \<and> cr_Name cr = er_Name rule \<and> cr_Log cr = er_Log rule \<and> cr_Severity cr = severity
     \<and> cr_Action cr = (if er_Action rule = [] then None else actionStringToAction (er_Action rule))
     \<and> (cr_ModInstance cr \<noteq> None \<longleftrightarrow> cr_Action cr = Some ActionModify)"
    using assms(1) sev act nodes patched prog dep1
    by (auto simp: compile_rule_def Let_def split: sum.splits option.splits if_splits)
  ultimately show "rule_ok rule cr"
    by (auto simp: rule_ok_def)
  from resolve_ok [OF dep1 assms(2)] fin show "dep_ok fullAnMap dep'" "dom (map_of dep) \<subseteq> dom (map_of dep')"
    "rule_needs env rule (dom (map_of dep'))"
    using nodes by (auto simp: rule_needs_def rule_identifiers_def visit_all)
qed

lemma rules_compiled:
  assumes "compile_rules env fullAnMap fullModMap rules dep = Some (Inr (crs, dep'))" "dep_ok fullAnMap dep"
  shows "list_all2 rule_ok rules crs \<and> dep_ok fullAnMap dep' \<and> dom (map_of dep) \<subseteq> dom (map_of dep')
     \<and> (\<forall>rule \<in> set rules. rule_needs env rule (dom (map_of dep')))"
  using assms
proof (induction rules arbitrary: crs dep)
  case (Cons rule rules)
  obtain cr dep1 where one: "compile_rule env fullAnMap fullModMap rule dep = Some (Inr (cr, dep1))"
    using Cons.prems(1) by (auto split: option.splits sum.splits)
  then obtain crs' where rest: "compile_rules env fullAnMap fullModMap rules dep1 = Some (Inr (crs', dep'))" "crs = cr # crs'"
    using Cons.prems(1) by (auto split: option.splits sum.splits)
  note r = rule_compiled [OF one Cons.prems(2)]
  have "rule_needs env rule (dom (map_of dep'))"
    using Cons.IH [OF rest(1) r(2)] r(4) unfolding rule_needs_def by blast
  moreover have "dom (map_of dep) \<subseteq> dom (map_of dep')"
    using Cons.IH [OF rest(1) r(2)] r(3) by (meson order_trans)
  ultimately show ?case
    using Cons.IH [OF rest(1) r(2)] r(1) rest(2) by simp
qed simp

text \<open>
  C7. A ruleset that compiles is well formed: it has a compiled rule for every rule, in order,
  with an action other than maybe or a log flag, one of the six severities and a modifier exactly
  if the action is modify; its analyzers are among those passed in, no two of one name, and every
  identifier of a rule that is no built-in name, function or variable is the name of one of them.
\<close>

theorem compiled_ruleset_ok':
  assumes "CompileExprRules env rules ans mods = Some (Inr rs)"
  shows "list_all2 rule_ok rules (xr_Rules rs)
     \<and> set (xr_Ans rs) \<subseteq> set ans \<and> distinct (map (ce_name env) (xr_Ans rs))
     \<and> (\<forall>rule \<in> set rules. rule_needs env rule (ce_name env ` set (xr_Ans rs)))"
proof -
  let ?m = "analyzersToMap (ce_name env) ans"
  obtain compiled dep where c: "compile_rules env ?m (modifiersToMap mods) rules [] = Some (Inr (compiled, dep))"
    and rs: "rs = \<lparr>xr_Rules = compiled, xr_Ans = map snd dep\<rparr>"
    using assms by (auto simp: CompileExprRules_def split: option.splits sum.splits)
  from rules_compiled [OF c] have r: "list_all2 rule_ok rules compiled" "dep_ok ?m dep"
    "\<forall>rule \<in> set rules. rule_needs env rule (dom (map_of dep))"
    by (auto simp: dep_ok_def)
  have ans: "snd p \<in> set ans \<and> ce_name env (snd p) = fst p" if "p \<in> set dep" for p
  proof -
    have "map_of dep (fst p) = Some (snd p)"
      using r(2) that by (simp add: dep_ok_def)
    then have "?m (fst p) = Some (snd p)" using r(2) by (simp add: dep_ok_def)
    then show ?thesis by (rule analyzersToMap_Some)
  qed
  then have names: "map (ce_name env) (map snd dep) = map fst dep"
    by simp
  then have "dom (map_of dep) = ce_name env ` set (map snd dep)"
    by (metis dom_map_of_conv_image_fst list.set_map)
  moreover have "distinct (map (ce_name env) (map snd dep))"
    unfolding names using r(2) by (simp add: dep_ok_def)
  ultimately show ?thesis
    using r ans by (auto simp: rs)
qed

text \<open>
  C6. A ruleset that compiles is well formed: it has a compiled rule for every rule, in order,
  with an action other than maybe or a log flag, one of the six severities and a modifier exactly
  if the action is modify; its analyzers are among those passed in, no two of one name, and every
  identifier of a rule that is no built-in name, function or variable is the name of one of them.
\<close>

theorem compiled_ruleset_ok:
  assumes "CompileExprRules env rules ans mods = Some (Inr rs)"
  shows "list_all2 rule_ok rules (xr_Rules rs)
     \<and> set (xr_Ans rs) \<subseteq> set ans \<and> distinct (map (ce_name env) (xr_Ans rs))
     \<and> (\<forall>rule \<in> set rules. rule_needs env rule (ce_name env ` set (xr_Ans rs)))"
  by (rule compiled_ruleset_ok' [OF assms])

section \<open>A call that breaks the patcher\<close>

lemma patch_nodes_panics:
  "CallNode (Some ''cidr'') args \<in> set nodes \<Longrightarrow> length args < 2 \<Longrightarrow> patch_nodes nodes err = None"
proof (induction nodes arbitrary: err)
  case (Cons n nodes)
  then show ?case
    by (cases "idPatcher_Visit n err") (auto simp: patch_cidr_def)
qed simp

lemma cidr_arity_panics:
  assumes "er_Action rule \<noteq> [] \<or> er_Log rule" "normalizeSeverity (er_Severity rule) \<noteq> None"
    and "er_Action rule = [] \<or> actionStringToAction (er_Action rule) \<noteq> None"
    and "ce_nodes env (er_Expr rule) = Inr nodes" "CallNode (Some ''cidr'') args \<in> set nodes" "length args < 2"
  shows "CompileExprRules env (rule # rules) ans mods = None"
proof -
  have "compile_rule env fa fm rule dep = None" for fa fm dep
    using assms patch_nodes_panics [OF assms(5,6)] by (auto simp: compile_rule_def)
  then show ?thesis by (simp add: CompileExprRules_def)
qed

section \<open>Instances\<close>

definition demo_env :: "(unit, string) compile_env" where
  "demo_env = \<lparr>ce_nodes = (\<lambda>e. if e = ''cidr(ip.src)'' then Inr [CallNode (Some ''cidr'') [OtherArg], IdentifierNode ''cidr'', IdentifierNode ''ip'']
       else Inr [IdentifierNode ''tls'', IdentifierNode ''ip'']),
     ce_gen = (\<lambda>e nodes. Inr ()), ce_builtins = [''len''], ce_load = (\<lambda>name. None), ce_name = (\<lambda>a. a)\<rparr>"

definition demo_rule :: "string \<Rightarrow> ExprRule" where
  "demo_rule e = \<lparr>er_Name = ''r'', er_Action = ''Block'', er_Log = True, er_Severity = '' High'',
     er_Modifier = \<lparr>me_Name = [], me_Args = Map.empty\<rparr>, er_Expr = e\<rparr>"

lemma demo_strings:
  "normalizeSeverity '' High'' = Some ''high''"
  "actionStringToAction ''Block'' = Some ActionBlock"
  by code_simp+

lemma demo_compiled:
  "CompileExprRules demo_env [demo_rule ''tls.sni == 1''] [''http'', ''tls''] [] =
     Some (Inr \<lparr>xr_Rules = [\<lparr>cr_Name = ''r'', cr_Action = Some ActionBlock, cr_Log = True, cr_Severity = ''high'',
                             cr_ModInstance = None, cr_Program = ()\<rparr>], xr_Ans = [''tls'']\<rparr>)"
  by (simp add: CompileExprRules_def compile_rule_def demo_env_def demo_rule_def demo_strings Let_def
    isBuiltInAnalyzer_def functionMap_names_def analyzersToMap_def)

theorem compiled_ruleset_ok_witness:
  "rule_needs demo_env (demo_rule ''tls.sni == 1'') (ce_name demo_env ` set [''tls''])"
  using compiled_ruleset_ok [OF demo_compiled] by simp

theorem cidr_arity_panics_witness:
  "CompileExprRules demo_env [demo_rule ''cidr(ip.src)''] [''http'', ''tls''] [] = None"
proof (rule cidr_arity_panics)
  show "normalizeSeverity (er_Severity (demo_rule ''cidr(ip.src)'')) \<noteq> None" by code_simp
  show "er_Action (demo_rule ''cidr(ip.src)'') = [] \<or> actionStringToAction (er_Action (demo_rule ''cidr(ip.src)'')) \<noteq> None"
    by code_simp
  show "ce_nodes demo_env (er_Expr (demo_rule ''cidr(ip.src)'')) =
      Inr [CallNode (Some ''cidr'') [OtherArg], IdentifierNode ''cidr'', IdentifierNode ''ip'']"
    by code_simp
  show "length [OtherArg] < 2" by simp
qed (simp_all add: demo_rule_def)

end
