(* ===== verification/Geo.thy ===== *)
theory Geo
  imports GoAddr "HOL-Library.List_Lexorder" "HOL-Library.Multiset"
begin

text \<open>
  \<open>ruleset/builtins\<close>: matching an address against the networks of a country and a domain name against
  a list of domains (\<open>geo/matchers_v2geo.go\<close>), the matchers kept for later calls
  (\<open>geo/geo_matcher.go\<close>), the loader (\<open>geo/geo_loader.go\<close>, \<open>geo/v2geo/load.go\<close>) and \<open>cidr.go\<close>.
  Files, downloads and the protobuf decoder are the record \<open>geo_world\<close>; the regular expressions of
  the standard library are the parameter \<open>regexp_Compile\<close>, which gives what a pattern matches.
  The order of lists of bytes is that of \<open>bytes.Compare\<close>.
\<close>

section \<open>CIDR\<close>

definition MatchCIDR :: "string \<Rightarrow> IPNet \<Rightarrow> bool" where
  "MatchCIDR ip cidr = (let ipAddr = net_ParseIP ip in if ipAddr = [] then False else IPNet_Contains cidr ipAddr)"

definition CompileCIDR :: "string \<Rightarrow> IPNet option" where
  "CompileCIDR cidr = net_ParseCIDR cidr"

section \<open>The data\<close>

record v2_CIDR =
  cidr_Ip :: bytes
  cidr_Prefix :: u32

record v2_GeoIP =
  gi_CountryCode :: string
  gi_Cidr :: "v2_CIDR list"
  gi_InverseMatch :: bool

datatype v2_DomainType = Domain_Plain | Domain_Regex | Domain_RootDomain | Domain_Full | Domain_Other int

record v2_Domain =
  dom_Type :: v2_DomainType
  dom_Value :: string
  dom_Attribute :: "string list"

record v2_GeoSite =
  gs_CountryCode :: string
  gs_Domain :: "v2_Domain list"

record HostInfo =
  hi_Name :: string
  hi_IPv4 :: bytes
  hi_IPv6 :: bytes

definition HostInfo_String :: "HostInfo \<Rightarrow> string" where
  "HostInfo_String h = hi_Name h @ ''|'' @ net_IP_String (hi_IPv4 h) @ ''|'' @ net_IP_String (hi_IPv6 h)"

section \<open>Addresses\<close>

record geoipMatcher =
  gm_N4 :: "IPNet list"
  gm_N6 :: "IPNet list"
  gm_Inverse :: bool

text \<open>The binary search of \<open>matchIP\<close>: \<open>None\<close> would be an index out of range.\<close>

function geo_search :: "IPNet list \<Rightarrow> bytes \<Rightarrow> int \<Rightarrow> int \<Rightarrow> bool go" where
  "geo_search n ip left right =
     (if left \<le> right then
        (let mid = (left + right) div 2 in
         case (if mid < 0 then None else go_at n (nat mid)) of
           None \<Rightarrow> None
         | Some e \<Rightarrow>
             if IPNet_Contains e ip then Some True
             else if net_IP e < ip then geo_search n ip (mid + 1) right
             else geo_search n ip left (mid - 1))
      else Some False)"
  by pat_completeness auto
termination by (relation "measure (\<lambda>(n, ip, left, right). nat (right - left + 1))") auto

declare geo_search.simps [simp del]

definition geoip_matchIP :: "geoipMatcher \<Rightarrow> bytes \<Rightarrow> bool go" where
  "geoip_matchIP m ip =
     (let ip4 = IP_To4 ip in
      if ip4 \<noteq> [] then geo_search (gm_N4 m) ip4 0 (int (length (gm_N4 m)) - 1)
      else geo_search (gm_N6 m) ip 0 (int (length (gm_N6 m)) - 1))"

definition geoip_Match :: "geoipMatcher \<Rightarrow> HostInfo \<Rightarrow> bool go" where
  "geoip_Match m host =
     do { a \<leftarrow> (if hi_IPv4 host \<noteq> [] then geoip_matchIP m (hi_IPv4 host) else Some False);
          if a then Some (\<not> gm_Inverse m)
          else do { b \<leftarrow> (if hi_IPv6 host \<noteq> [] then geoip_matchIP m (hi_IPv6 host) else Some False);
                    Some (if b then \<not> gm_Inverse m else gm_Inverse m) } }"

definition cidr_net :: "v2_CIDR \<Rightarrow> IPNet" where
  "cidr_net c = \<lparr>net_IP = cidr_Ip c, net_Mask = CIDRMask (unat (cidr_Prefix c)) (if length (cidr_Ip c) = 4 then 32 else 128)\<rparr>"

fun cidr_nets :: "v2_CIDR list \<Rightarrow> (IPNet list \<times> IPNet list) option" where
  "cidr_nets [] = Some ([], [])"
| "cidr_nets (c # cs) =
     (if length (cidr_Ip c) = 4 then map_option (\<lambda>(n4, n6). (cidr_net c # n4, n6)) (cidr_nets cs)
      else if length (cidr_Ip c) = 16 then map_option (\<lambda>(n4, n6). (n4, cidr_net c # n6)) (cidr_nets cs)
      else None)"

text \<open>The order of networks with the same address, which \<open>sort.Slice\<close> leaves open, is that of the list here.\<close>

definition newGeoIPMatcher :: "v2_GeoIP \<Rightarrow> geoipMatcher option" where
  "newGeoIPMatcher list =
     (case cidr_nets (gi_Cidr list) of
        None \<Rightarrow> None
      | Some (n4, n6) \<Rightarrow>
          Some \<lparr>gm_N4 = sort_key net_IP n4, gm_N6 = sort_key net_IP n6, gm_Inverse = gi_InverseMatch list\<rparr>)"

section \<open>Names\<close>

datatype geositeDomainType = geositeDomainPlain | geositeDomainRegex | geositeDomainRoot | geositeDomainFull

type_synonym regexp = "string \<Rightarrow> bool"

record geositeDomain =
  gd_Type :: geositeDomainType
  gd_Value :: string
  gd_Regex :: "regexp option"
  gd_Attrs :: "string list"

record geositeMatcher =
  gsm_Domains :: "geositeDomain list"
  gsm_Attrs :: "string list"

definition geosite_matchDomain :: "geositeMatcher \<Rightarrow> geositeDomain \<Rightarrow> HostInfo \<Rightarrow> bool" where
  "geosite_matchDomain m domain host =
     (if gsm_Attrs m \<noteq> [] \<and> (gd_Attrs domain = [] \<or> \<not> list_all (\<lambda>attr. attr \<in> set (gd_Attrs domain)) (gsm_Attrs m))
      then False
      else
        (case gd_Type domain of
           geositeDomainPlain \<Rightarrow> strings_Contains (hi_Name host) (gd_Value domain)
         | geositeDomainRegex \<Rightarrow> (case gd_Regex domain of None \<Rightarrow> False | Some r \<Rightarrow> r (hi_Name host))
         | geositeDomainFull \<Rightarrow> hi_Name host = gd_Value domain
         | geositeDomainRoot \<Rightarrow>
             hi_Name host = gd_Value domain \<or> strings_HasSuffix (hi_Name host) (CHR ''.'' # gd_Value domain)))"

definition geosite_Match :: "geositeMatcher \<Rightarrow> HostInfo \<Rightarrow> bool" where
  "geosite_Match m host = list_ex (\<lambda>domain. geosite_matchDomain m domain host) (gsm_Domains m)"

definition domainAttributeToMap :: "string list \<Rightarrow> string list" where
  "domainAttributeToMap attrs = remdups attrs"

fun geosite_domain :: "(string \<Rightarrow> regexp option) \<Rightarrow> v2_Domain \<Rightarrow> geositeDomain option" where
  "geosite_domain regexp_Compile d =
     (let mk = (\<lambda>ty v r. Some \<lparr>gd_Type = ty, gd_Value = v, gd_Regex = r, gd_Attrs = domainAttributeToMap (dom_Attribute d)\<rparr>) in
      case dom_Type d of
        Domain_Plain \<Rightarrow> mk geositeDomainPlain (dom_Value d) None
      | Domain_Regex \<Rightarrow>
          (case regexp_Compile (dom_Value d) of
             None \<Rightarrow> None
           | Some r \<Rightarrow> mk geositeDomainRegex [] (Some r))
      | Domain_Full \<Rightarrow> mk geositeDomainFull (dom_Value d) None
      | Domain_RootDomain \<Rightarrow> mk geositeDomainRoot (dom_Value d) None
      | Domain_Other n \<Rightarrow> None)"

definition newGeositeMatcher :: "(string \<Rightarrow> regexp option) \<Rightarrow> v2_GeoSite \<Rightarrow> string list \<Rightarrow> geositeMatcher option" where
  "newGeositeMatcher regexp_Compile list attrs =
     map_option (\<lambda>ds. \<lparr>gsm_Domains = ds, gsm_Attrs = attrs\<rparr>)
       (those (map (geosite_domain regexp_Compile) (gs_Domain list)))"

definition parseGeoSiteName :: "string \<Rightarrow> string \<times> string list" where
  "parseGeoSiteName s =
     (let parts = strings_Split s ''@'' in (strings_TrimSpace (hd parts), map strings_TrimSpace (tl parts)))"

section \<open>The loader\<close>

type_synonym geoip_map = "string \<Rightarrow> v2_GeoIP option"
type_synonym geosite_map = "string \<Rightarrow> v2_GeoSite option"

text \<open>The files: the age is that of the last change in nanoseconds, a failed download gives its error.\<close>

datatype stat_result = StatNotExist | StatError | StatAge int

record geo_world =
  gw_Stat :: "string \<Rightarrow> stat_result"
  gw_Get :: "string \<Rightarrow> string \<Rightarrow> string option"
  gw_ReadFile :: "string \<Rightarrow> string + bytes"
  gw_UnmarshalIP :: "bytes \<Rightarrow> string + v2_GeoIP list"
  gw_UnmarshalSite :: "bytes \<Rightarrow> string + v2_GeoSite list"

definition v2geo_LoadGeoIP :: "geo_world \<Rightarrow> string \<Rightarrow> string + geoip_map" where
  "v2geo_LoadGeoIP w filename =
     (case gw_ReadFile w filename of
        Inl err \<Rightarrow> Inl err
      | Inr bs \<Rightarrow>
          (case gw_UnmarshalIP w bs of
             Inl err \<Rightarrow> Inl err
           | Inr entries \<Rightarrow> Inr (fold (\<lambda>e m. m(strings_ToLower (gi_CountryCode e) \<mapsto> e)) entries Map.empty)))"

definition v2geo_LoadGeoSite :: "geo_world \<Rightarrow> string \<Rightarrow> string + geosite_map" where
  "v2geo_LoadGeoSite w filename =
     (case gw_ReadFile w filename of
        Inl err \<Rightarrow> Inl err
      | Inr bs \<Rightarrow>
          (case gw_UnmarshalSite w bs of
             Inl err \<Rightarrow> Inl err
           | Inr entries \<Rightarrow> Inr (fold (\<lambda>e m. m(strings_ToLower (gs_CountryCode e) \<mapsto> e)) entries Map.empty)))"

record V2GeoLoader =
  gl_GeoIPFilename :: string
  gl_GeoSiteFilename :: string
  gl_UpdateInterval :: int
  gl_geoipMap :: "geoip_map option"
  gl_geositeMap :: "geosite_map option"

definition NewDefaultGeoLoader :: "string \<Rightarrow> string \<Rightarrow> V2GeoLoader" where
  "NewDefaultGeoLoader geoSiteFilename geoIpFilename =
     \<lparr>gl_GeoIPFilename = geoIpFilename, gl_GeoSiteFilename = geoSiteFilename, gl_UpdateInterval = 0,
      gl_geoipMap = None, gl_geositeMap = None\<rparr>"

definition geoDefaultUpdateInterval :: int where
  "geoDefaultUpdateInterval = 7 * 24 * 3600 * 1000000000"

definition shouldDownload :: "geo_world \<Rightarrow> V2GeoLoader \<Rightarrow> string \<Rightarrow> bool go" where
  "shouldDownload w l filename =
     (case gw_Stat w filename of
        StatNotExist \<Rightarrow> Some True
      | StatError \<Rightarrow> None
      | StatAge dt \<Rightarrow> Some (if gl_UpdateInterval l = 0 then geoDefaultUpdateInterval < dt else gl_UpdateInterval l < dt))"

definition geo_fetch :: "geo_world \<Rightarrow> V2GeoLoader \<Rightarrow> string \<Rightarrow> string \<Rightarrow> string \<Rightarrow> (string + string) go" where
  "geo_fetch w l configured default_name url =
     (if configured = [] then
        do { dl \<leftarrow> shouldDownload w l default_name;
             Some (case (if dl then gw_Get w default_name url else None) of
                     Some err \<Rightarrow> Inl err
                   | None \<Rightarrow> Inr default_name) }
      else Some (Inr configured))"

definition LoadGeoIP :: "geo_world \<Rightarrow> V2GeoLoader \<Rightarrow> ((string + geoip_map) \<times> V2GeoLoader) go" where
  "LoadGeoIP w l =
     (case gl_geoipMap l of
        Some m \<Rightarrow> Some (Inr m, l)
      | None \<Rightarrow>
          do { f \<leftarrow> geo_fetch w l (gl_GeoIPFilename l) ''geoip.dat''
                 ''https://cdn.jsdelivr.net/gh/Loyalsoldier/v2ray-rules-dat@release/geoip.dat'';
               Some (case f of
                       Inl err \<Rightarrow> (Inl err, l)
                     | Inr filename \<Rightarrow>
                         (case v2geo_LoadGeoIP w filename of
                            Inl err \<Rightarrow> (Inl err, l)
                          | Inr m \<Rightarrow> (Inr m, l\<lparr>gl_geoipMap := Some m\<rparr>))) })"

definition LoadGeoSite :: "geo_world \<Rightarrow> V2GeoLoader \<Rightarrow> ((string + geosite_map) \<times> V2GeoLoader) go" where
  "LoadGeoSite w l =
     (case gl_geositeMap l of
        Some m \<Rightarrow> Some (Inr m, l)
      | None \<Rightarrow>
          do { f \<leftarrow> geo_fetch w l (gl_GeoSiteFilename l) ''geosite.dat''
                 ''https://cdn.jsdelivr.net/gh/Loyalsoldier/v2ray-rules-dat@release/geosite.dat'';
               Some (case f of
                       Inl err \<Rightarrow> (Inl err, l)
                     | Inr filename \<Rightarrow>
                         (case v2geo_LoadGeoSite w filename of
                            Inl err \<Rightarrow> (Inl err, l)
                          | Inr m \<Rightarrow> (Inr m, l\<lparr>gl_geositeMap := Some m\<rparr>))) })"

section \<open>The matchers kept between calls\<close>

record GeoMatcher =
  ge_loader :: V2GeoLoader
  ge_site :: "string \<Rightarrow> geositeMatcher option"
  ge_ip :: "string \<Rightarrow> geoipMatcher option"

definition NewGeoMatcher :: "string \<Rightarrow> string \<Rightarrow> GeoMatcher" where
  "NewGeoMatcher geoSiteFilename geoIpFilename =
     \<lparr>ge_loader = NewDefaultGeoLoader geoSiteFilename geoIpFilename, ge_site = Map.empty, ge_ip = Map.empty\<rparr>"

definition match_address :: "geoipMatcher \<Rightarrow> string \<Rightarrow> bool go" where
  "match_address matcher ip =
     (let parseIp = net_ParseIP ip in
      if parseIp = [] then Some False
      else if IP_To4 parseIp \<noteq> [] then
        geoip_Match matcher \<lparr>hi_Name = [], hi_IPv4 = IP_To4 parseIp, hi_IPv6 = []\<rparr>
      else if IP_To16 parseIp \<noteq> [] then
        geoip_Match matcher \<lparr>hi_Name = [], hi_IPv4 = [], hi_IPv6 = IP_To16 parseIp\<rparr>
      else Some False)"

text \<open>A matcher is looked up under the condition as it is written and kept under its lower case.\<close>

definition MatchGeoIp :: "geo_world \<Rightarrow> GeoMatcher \<Rightarrow> string \<Rightarrow> string \<Rightarrow> (bool \<times> GeoMatcher) go" where
  "MatchGeoIp w g ip condition =
     (case ge_ip g condition of
        Some matcher \<Rightarrow> map_option (\<lambda>b. (b, g)) (match_address matcher ip)
      | None \<Rightarrow>
          (let country = strings_ToLower condition in
           if country = [] then Some (False, g)
           else
             do { (res, l) \<leftarrow> LoadGeoIP w (ge_loader g);
                  let g = g\<lparr>ge_loader := l\<rparr> in
                  case res of
                    Inl err \<Rightarrow> Some (False, g)
                  | Inr gMap \<Rightarrow>
                      (case gMap country of
                         None \<Rightarrow> Some (False, g)
                       | Some list \<Rightarrow>
                           (case newGeoIPMatcher list of
                              None \<Rightarrow> Some (False, g)
                            | Some matcher \<Rightarrow>
                                map_option (\<lambda>b. (b, g\<lparr>ge_ip := (ge_ip g)(country \<mapsto> matcher)\<rparr>))
                                  (match_address matcher ip))) }))"

definition MatchGeoSite ::
    "(string \<Rightarrow> regexp option) \<Rightarrow> geo_world \<Rightarrow> GeoMatcher \<Rightarrow> string \<Rightarrow> string \<Rightarrow> (bool \<times> GeoMatcher) go" where
  "MatchGeoSite regexp_Compile w g site condition =
     (let host = \<lparr>hi_Name = site, hi_IPv4 = [], hi_IPv6 = []\<rparr> in
      case ge_site g condition of
        Some matcher \<Rightarrow> Some (geosite_Match matcher host, g)
      | None \<Rightarrow>
          (let condition = strings_ToLower condition; (name, attrs) = parseGeoSiteName condition in
           if name = [] then Some (False, g)
           else
             do { (res, l) \<leftarrow> LoadGeoSite w (ge_loader g);
                  let g = g\<lparr>ge_loader := l\<rparr> in
                  case res of
                    Inl err \<Rightarrow> Some (False, g)
                  | Inr gMap \<Rightarrow>
                      (case gMap name of
                         None \<Rightarrow> Some (False, g)
                       | Some list \<Rightarrow>
                           (case newGeositeMatcher regexp_Compile list attrs of
                              None \<Rightarrow> Some (False, g)
                            | Some matcher \<Rightarrow>
                                Some (geosite_Match matcher host, g\<lparr>ge_site := (ge_site g)(condition \<mapsto> matcher)\<rparr>))) }))"

definition GeoMatcher_LoadGeoSite :: "geo_world \<Rightarrow> GeoMatcher \<Rightarrow> (string option \<times> GeoMatcher) go" where
  "GeoMatcher_LoadGeoSite w g =
     map_option (\<lambda>(res, l). (case res of Inl err \<Rightarrow> Some err | Inr _ \<Rightarrow> None, g\<lparr>ge_loader := l\<rparr>)) (LoadGeoSite w (ge_loader g))"

definition GeoMatcher_LoadGeoIP :: "geo_world \<Rightarrow> GeoMatcher \<Rightarrow> (string option \<times> GeoMatcher) go" where
  "GeoMatcher_LoadGeoIP w g =
     map_option (\<lambda>(res, l). (case res of Inl err \<Rightarrow> Some err | Inr _ \<Rightarrow> None, g\<lparr>ge_loader := l\<rparr>)) (LoadGeoIP w (ge_loader g))"

section \<open>Networks as intervals\<close>

lemma IP_To4_idem [simp]: "IP_To4 (IP_To4 ip) = IP_To4 ip"
  by (auto simp: IP_To4_def)

text \<open>
  A network that is given by its own address and a prefix length; \<open>ip\<close> is an address as
  \<open>matchIP\<close> compares it: 4 bytes, or 16 that do not map an IPv4 address.
\<close>

definition good_net :: "nat \<Rightarrow> IPNet \<Rightarrow> bool" where
  "good_net len n \<longleftrightarrow> length (net_IP n) = len \<and> (\<exists>p \<le> 8 * len. net_Mask n = CIDRMask p (8 * len))
     \<and> and_bytes (net_IP n) (net_Mask n) = net_IP n \<and> (len = 16 \<longrightarrow> IP_To4 (net_IP n) = [])"

definition good_ip :: "nat \<Rightarrow> bytes \<Rightarrow> bool" where
  "good_ip len ip \<longleftrightarrow> length ip = len \<and> (len = 16 \<longrightarrow> IP_To4 ip = [])"

lemma and_mask_byte: "(x :: byte) AND mask_byte p = push_bit (8 - p) (drop_bit (8 - p) x)"
proof (cases "8 \<le> p")
  case True
  then have "mask_byte p = - 1" by (simp add: mask_byte_def)
  then show ?thesis using True by simp
next
  case False
  then have "8 - (8 - p) = p" by simp
  then show ?thesis
    using False by (auto simp: mask_byte_def bit_eq_iff bit_simps)
qed

lemma and_mask_byte_mono: "(x :: byte) \<le> y \<Longrightarrow> x AND mask_byte p \<le> y AND mask_byte p"
proof -
  have conv: "unat (push_bit k (drop_bit k (z :: byte))) = unat z div 2 ^ k * 2 ^ k" for k z
  proof -
    have "unat z div 2 ^ k * 2 ^ k \<le> unat z" by simp
    also have "\<dots> < 256" using unsigned_less [of z, where 'a = nat] by simp
    finally have "take_bit 8 (unat z div 2 ^ k * 2 ^ k) = unat z div 2 ^ k * 2 ^ k"
      by (simp add: take_bit_eq_mod)
    then show ?thesis
      using take_bit_nat_eq_self [of "unat z" 8] unsigned_less [of z, where 'a = nat]
      by (simp only: unsigned_push_bit_eq unsigned_drop_bit_eq) (simp add: drop_bit_eq_div push_bit_eq_mult)
  qed
  assume "x \<le> y"
  then show ?thesis
    by (simp add: and_mask_byte word_le_nat_alt conv div_le_mono)
qed

definition prefix_bytes :: "nat \<Rightarrow> nat \<Rightarrow> bytes" where
  "prefix_bytes p len = map (\<lambda>i. mask_byte (p - 8 * i)) [0..<len]"

lemma prefix_bytes_Suc: "prefix_bytes p (Suc len) = mask_byte p # prefix_bytes (p - 8) len"
  by (simp add: prefix_bytes_def upt_conv_Cons map_Suc_upt [symmetric] del: upt_Suc)

lemma length_prefix_bytes [simp]: "length (prefix_bytes p len) = len"
  by (simp add: prefix_bytes_def)

lemma and_bytes_Cons [simp]: "and_bytes (x # xs) (m # ms) = (x AND m) # and_bytes xs ms"
  by (simp add: and_bytes_def)

lemma and_bytes_zero: "and_bytes xs (prefix_bytes 0 (length xs)) = replicate (length xs) 0"
proof (induction xs)
  case (Cons x xs)
  then show ?case by (simp add: prefix_bytes_Suc mask_byte_def)
qed (simp add: and_bytes_def)

lemma and_bytes_mono:
  "length xs = len \<Longrightarrow> length ys = len \<Longrightarrow> xs \<le> ys \<Longrightarrow>
     and_bytes xs (prefix_bytes p len) \<le> and_bytes ys (prefix_bytes p len)"
proof (induction len arbitrary: xs ys p)
  case (Suc len)
  then obtain x xs' y ys' where s: "xs = x # xs'" "ys = y # ys'" "length xs' = len" "length ys' = len"
    by (metis length_Suc_conv)
  then have le: "x < y \<or> x = y \<and> xs' \<le> ys'" using Suc.prems by (auto simp: Cons_le_Cons)
  show ?case
  proof (cases "8 \<le> p")
    case True
    then have "mask_byte p = - 1" by (simp add: mask_byte_def)
    then show ?thesis
      using le Suc.IH [OF s(3,4)] by (auto simp: s prefix_bytes_Suc Cons_le_Cons)
  next
    case False
    then have "prefix_bytes (p - 8) len = prefix_bytes 0 len" by simp
    moreover have "x AND mask_byte p \<le> y AND mask_byte p"
      using le by (intro and_mask_byte_mono) auto
    ultimately show ?thesis
      using and_bytes_zero [of xs'] and_bytes_zero [of ys'] s
      by (auto simp: prefix_bytes_Suc Cons_le_Cons)
  qed
qed (simp add: and_bytes_def prefix_bytes_def)

lemma and_bytes_le: "length xs = length ms \<Longrightarrow> and_bytes xs ms \<le> xs"
proof (induction xs ms rule: list_induct2)
  case (Cons x xs m ms)
  have "x AND m \<le> x" by (rule word_and_le2)
  with Cons show ?case by (auto simp: Cons_le_Cons)
qed (simp add: and_bytes_def)

lemma CIDRMask_prefix_bytes: "len = 4 \<or> len = 16 \<Longrightarrow> p \<le> 8 * len \<Longrightarrow> CIDRMask p (8 * len) = prefix_bytes p len"
  by (auto simp: CIDRMask_def prefix_bytes_def)

lemma good_net_number:
  assumes "good_net len n" "len = 4 \<or> len = 16"
  shows "networkNumberAndMask n = Some (net_IP n, net_Mask n)"
proof -
  obtain p where "p \<le> 8 * len" "net_Mask n = CIDRMask p (8 * len)" using assms(1) by (auto simp: good_net_def)
  then have len: "length (net_IP n) = len" "length (net_Mask n) = len"
    using CIDRMask_prefix_bytes [OF assms(2), of p] assms(1) by (simp_all add: good_net_def)
  show ?thesis
  proof (cases "len = 4")
    case True
    then have "IP_To4 (net_IP n) = net_IP n" "net_IP n \<noteq> []" using len by (auto simp: IP_To4_def)
    then show ?thesis using True len by (simp add: networkNumberAndMask_def)
  next
    case False
    then have "len = 16" "IP_To4 (net_IP n) = []" using assms by (simp_all add: good_net_def)
    then show ?thesis using len by (simp add: networkNumberAndMask_def)
  qed
qed

lemma good_net_Contains:
  assumes "good_net len n" "good_ip len ip" "len = 4 \<or> len = 16"
  obtains p where "net_Mask n = prefix_bytes p len"
    and "\<And>a. good_ip len a \<Longrightarrow> IPNet_Contains n a \<longleftrightarrow> and_bytes a (prefix_bytes p len) = net_IP n"
    and "and_bytes (net_IP n) (prefix_bytes p len) = net_IP n" "length (net_IP n) = len"
proof -
  from assms obtain p where p: "p \<le> 8 * len" "net_Mask n = CIDRMask p (8 * len)" by (auto simp: good_net_def)
  moreover from this assms(3) have m: "net_Mask n = prefix_bytes p len"
    by (simp add: CIDRMask_prefix_bytes)
  moreover have "IPNet_Contains n a \<longleftrightarrow> and_bytes a (prefix_bytes p len) = net_IP n" if "good_ip len a" for a
  proof -
    have canon: "(if IP_To4 x = [] then x else IP_To4 x) = x" if "good_ip len x" for x
      using that assms(3) by (auto simp: good_ip_def IP_To4_def)
    have "networkNumberAndMask n = Some (net_IP n, net_Mask n)"
      by (rule good_net_number [OF assms(1,3)])
    then show ?thesis
      using that assms(1) m canon [of a] by (auto simp: IPNet_Contains_def good_net_def good_ip_def)
  qed
  moreover have "and_bytes (net_IP n) (net_Mask n) = net_IP n" "length (net_IP n) = len"
    using assms(1) by (simp_all add: good_net_def)
  ultimately show ?thesis
    using that [of p] by simp
qed

lemma Contains_self:
  assumes "good_net len n" "len = 4 \<or> len = 16"
  shows "IPNet_Contains n (net_IP n)"
proof -
  have "good_ip len (net_IP n)" using assms by (simp add: good_net_def good_ip_def)
  then show ?thesis using good_net_Contains [OF assms(1) _ assms(2)] by metis
qed

lemma Contains_ge:
  assumes "good_net len n" "good_ip len ip" "len = 4 \<or> len = 16" "IPNet_Contains n ip"
  shows "net_IP n \<le> ip"
proof -
  obtain p where "and_bytes ip (prefix_bytes p len) = net_IP n"
    using good_net_Contains [OF assms(1-3)] assms(2,4) by metis
  moreover have "length ip = len" using assms(2) by (simp add: good_ip_def)
  ultimately show ?thesis using and_bytes_le [of ip "prefix_bytes p len"] by simp
qed

lemma Contains_between:
  assumes "good_net len n" "good_ip len ip" "good_ip len b" "len = 4 \<or> len = 16" "IPNet_Contains n ip"
    and "net_IP n \<le> b" "b \<le> ip"
  shows "IPNet_Contains n b"
proof -
  obtain p where p: "\<And>a. good_ip len a \<Longrightarrow> IPNet_Contains n a \<longleftrightarrow> and_bytes a (prefix_bytes p len) = net_IP n"
    "and_bytes (net_IP n) (prefix_bytes p len) = net_IP n" "length (net_IP n) = len"
    using good_net_Contains [OF assms(1,2,4)] by metis
  have "length b = len" "length ip = len" using assms(2,3) by (auto simp: good_ip_def)
  then have "net_IP n \<le> and_bytes b (prefix_bytes p len)" "and_bytes b (prefix_bytes p len) \<le> and_bytes ip (prefix_bytes p len)"
    using and_bytes_mono [of "net_IP n" len b p] and_bytes_mono [of b len ip p] p(2,3) assms(6,7) by simp_all
  then show ?thesis using p(1) assms(2,3,5) by force
qed

section \<open>The binary search finds what a linear one does\<close>

definition separate :: "nat \<Rightarrow> IPNet list \<Rightarrow> bool" where
  "separate len ns \<longleftrightarrow> (\<forall>n \<in> set ns. good_net len n) \<and> distinct ns
     \<and> (\<forall>n \<in> set ns. \<forall>n' \<in> set ns. n \<noteq> n' \<longrightarrow> \<not> IPNet_Contains n (net_IP n'))"

lemma geo_search_range:
  assumes "0 \<le> left" "right < int (length ns)"
    and "\<And>i j. i < length ns \<Longrightarrow> j < length ns \<Longrightarrow> IPNet_Contains (ns ! j) ip \<Longrightarrow> \<not> IPNet_Contains (ns ! i) ip \<Longrightarrow>
           net_IP (ns ! i) < ip \<longleftrightarrow> i < j"
    and "\<And>i. i < length ns \<Longrightarrow> IPNet_Contains (ns ! i) ip \<Longrightarrow> left \<le> int i \<and> int i \<le> right"
  shows "geo_search ns ip left right = Some (\<exists>n \<in> set ns. IPNet_Contains n ip)"
  using assms
proof (induction ns ip left right rule: geo_search.induct)
  case (1 ns ip left right)
  show ?case
  proof (cases "left \<le> right")
    case False
    then have "\<not> (\<exists>n \<in> set ns. IPNet_Contains n ip)"
      using 1(6) by (auto simp: in_set_conv_nth) (meson False order_trans)
    then show ?thesis using False by (subst geo_search.simps) simp
  next
    case True
    define mid where "mid = (left + right) div 2"
    have mid: "left \<le> mid" "mid \<le> right" "nat mid < length ns" "0 \<le> mid"
      using True 1(3,4) by (auto simp: mid_def)
    have step: "geo_search ns ip left right =
       (if IPNet_Contains (ns ! nat mid) ip then Some True
        else if net_IP (ns ! nat mid) < ip then geo_search ns ip (mid + 1) right
        else geo_search ns ip left (mid - 1))"
      using True mid by (subst geo_search.simps) (simp add: mid_def [symmetric] go_at_def)
    show ?thesis
    proof (cases "IPNet_Contains (ns ! nat mid) ip")
      case c: True
      then show ?thesis using mid step nth_mem by auto
    next
      case c: False
      have cmp: "net_IP (ns ! nat mid) < ip \<longleftrightarrow> nat mid < j" if "j < length ns" "IPNet_Contains (ns ! j) ip" for j
        using 1(5) [OF mid(3) that(1,2) c] .
      show ?thesis
      proof (cases "net_IP (ns ! nat mid) < ip")
        case lt: True
        have "geo_search ns ip (mid + 1) right = Some (\<exists>n \<in> set ns. IPNet_Contains n ip)"
        proof (rule 1(1) [OF True mid_def, of "ns ! nat mid"])
          fix i assume "i < length ns" "IPNet_Contains (ns ! i) ip"
          then show "mid + 1 \<le> int i \<and> int i \<le> right" using cmp lt 1(6) by fastforce
        qed (use mid c lt 1(4,5) in \<open>auto simp: go_at_def\<close>)
        then show ?thesis using c lt step by simp
      next
        case ge: False
        have "geo_search ns ip left (mid - 1) = Some (\<exists>n \<in> set ns. IPNet_Contains n ip)"
        proof (rule 1(2) [OF True mid_def, of "ns ! nat mid"])
          fix i assume i: "i < length ns" "IPNet_Contains (ns ! i) ip"
          then have "i \<noteq> nat mid" "\<not> nat mid < i" using cmp ge c by auto
          then show "left \<le> int i \<and> int i \<le> mid - 1" using 1(6) [OF i] by linarith
        qed (use mid c ge 1(3,4,5) in \<open>auto simp: go_at_def\<close>)
        then show ?thesis using c ge step by simp
      qed
    qed
  qed
qed

lemma geo_search_separate:
  assumes "separate len ns" "sorted (map net_IP ns)" "good_ip len ip" "len = 4 \<or> len = 16"
  shows "geo_search ns ip 0 (int (length ns) - 1) = Some (\<exists>n \<in> set ns. IPNet_Contains n ip)"
proof (rule geo_search_range)
  fix i j
  assume i: "i < length ns" and j: "j < length ns" and cj: "IPNet_Contains (ns ! j) ip" and ci: "\<not> IPNet_Contains (ns ! i) ip"
  let ?a = "net_IP (ns ! i)" and ?b = "net_IP (ns ! j)"
  have good: "good_net len (ns ! i)" "good_net len (ns ! j)" using assms(1) i j by (simp_all add: separate_def)
  have "ns ! i \<noteq> ns ! j" "i \<noteq> j" using ci cj by auto
  then have apart: "\<not> IPNet_Contains (ns ! j) ?a"
    using assms(1) i j by (simp add: separate_def)
  have b: "?b \<le> ip" using Contains_ge [OF good(2) assms(3,4) cj] .
  have a: "good_ip len ?a" using good(1) by (simp add: good_net_def good_ip_def)
  show "?a < ip \<longleftrightarrow> i < j"
  proof (cases "i < j")
    case True
    then have "?a \<le> ?b" using sorted_nth_mono [OF assms(2), of i j] j by simp
    moreover have "?a \<noteq> ip"
    proof
      assume "?a = ip"
      then show False using Contains_self [OF good(1) assms(4)] ci by simp
    qed
    ultimately show ?thesis using True b by (metis order_le_less order_trans)
  next
    case False
    then have "?b \<le> ?a" using sorted_nth_mono [OF assms(2), of j i] i by simp
    then have "\<not> ?a \<le> ip"
      using Contains_between [OF good(2) assms(3) a assms(4) cj] apart by blast
    then show ?thesis using False by auto
  qed
qed auto

lemma cidr_nets_filter:
  assumes "\<forall>c \<in> set cs. length (cidr_Ip c) \<in> {4, 16}"
  shows "cidr_nets cs = Some (filter (\<lambda>n. length (net_IP n) = 4) (map cidr_net cs),
                              filter (\<lambda>n. length (net_IP n) = 16) (map cidr_net cs))"
  using assms by (induction cs) (auto simp: cidr_net_def)

lemma separate_sort: "separate len (sort_key net_IP ns) \<longleftrightarrow> separate len ns"
  by (simp add: separate_def)

text \<open>
  C23. When the networks of a country's list are well formed (no host bits set, a prefix mask,
  none a v4 address written in 16 bytes) and none contains another, the binary search over the
  sorted networks finds an address exactly if some network of the list contains it, for IPv4 and
  IPv6 addresses.
\<close>

theorem geoip_match_linear:
  assumes "\<forall>c \<in> set (gi_Cidr list). length (cidr_Ip c) \<in> {4, 16}"
    and "separate 4 (filter (\<lambda>n. length (net_IP n) = 4) (map cidr_net (gi_Cidr list)))"
    and "separate 16 (filter (\<lambda>n. length (net_IP n) = 16) (map cidr_net (gi_Cidr list)))"
    and "length ip = 4 \<or> length ip = 16"
  shows "\<exists>m. newGeoIPMatcher list = Some m
     \<and> geoip_matchIP m ip = Some (\<exists>c \<in> set (gi_Cidr list). IPNet_Contains (cidr_net c) ip)"
proof -
  let ?n4 = "filter (\<lambda>n. length (net_IP n) = 4) (map cidr_net (gi_Cidr list))"
  let ?n6 = "filter (\<lambda>n. length (net_IP n) = 16) (map cidr_net (gi_Cidr list))"
  let ?m = "\<lparr>gm_N4 = sort_key net_IP ?n4, gm_N6 = sort_key net_IP ?n6, gm_Inverse = gi_InverseMatch list\<rparr>"
  have new: "newGeoIPMatcher list = Some ?m"
    using cidr_nets_filter [OF assms(1)] by (simp add: newGeoIPMatcher_def)
  have nets: "n \<in> set ?n4 \<or> n \<in> set ?n6" if "c \<in> set (gi_Cidr list)" "n = cidr_net c" for c n
    using assms(1) that by (auto simp: cidr_net_def)
  have len: "length (net_IP n) = (if IP_To4 ip \<noteq> [] then 4 else 16)" if "n \<in> set ?n4 \<union> set ?n6" "IPNet_Contains n ip" for n
  proof -
    have "good_net 4 n \<or> good_net 16 n" using that(1) assms(2,3) by (auto simp: separate_def)
    then have "networkNumberAndMask n = Some (net_IP n, net_Mask n)" using good_net_number by blast
    moreover have "length (if IP_To4 ip = [] then ip else IP_To4 ip) = (if IP_To4 ip \<noteq> [] then 4 else 16)"
      using assms(4) by (auto simp: IP_To4_def)
    ultimately show ?thesis
      using that(2) by (auto simp: IPNet_Contains_def Let_def)
  qed
  have found: "(\<exists>n \<in> set (if IP_To4 ip \<noteq> [] then ?n4 else ?n6). IPNet_Contains n ip)
      \<longleftrightarrow> (\<exists>c \<in> set (gi_Cidr list). IPNet_Contains (cidr_net c) ip)" (is "?l \<longleftrightarrow> ?r")
  proof
    assume ?l
    then show ?r by (auto split: if_splits)
  next
    assume ?r
    then obtain c where c: "c \<in> set (gi_Cidr list)" "IPNet_Contains (cidr_net c) ip" by blast
    then have "length (net_IP (cidr_net c)) = (if IP_To4 ip \<noteq> [] then 4 else 16)"
      using len [of "cidr_net c"] nets [OF c(1) refl] by simp
    then have "cidr_net c \<in> set (if IP_To4 ip \<noteq> [] then ?n4 else ?n6)" using c(1) by (cases "IP_To4 ip = []") simp_all
    then show ?l using c(2) by blast
  qed
  show ?thesis
  proof (cases "IP_To4 ip = []")
    case False
    have "good_ip 4 (IP_To4 ip)" using False assms(4) by (auto simp: good_ip_def IP_To4_def)
    then have "geo_search (sort_key net_IP ?n4) (IP_To4 ip) 0 (int (length (sort_key net_IP ?n4)) - 1)
        = Some (\<exists>n \<in> set ?n4. IPNet_Contains n (IP_To4 ip))"
      using assms(2) by (subst geo_search_separate [of 4]) (simp_all add: separate_sort)
    moreover have "IPNet_Contains n (IP_To4 ip) = IPNet_Contains n ip" for n
      using False by (simp add: IPNet_Contains_def)
    ultimately show ?thesis
      using new False found by (simp add: geoip_matchIP_def)
  next
    case True
    have "good_ip 16 ip" using True assms(4) by (auto simp: good_ip_def IP_To4_def split: if_splits)
    then have "geo_search (sort_key net_IP ?n6) ip 0 (int (length (sort_key net_IP ?n6)) - 1)
        = Some (\<exists>n \<in> set ?n6. IPNet_Contains n ip)"
      using assms(3) by (subst geo_search_separate [of 16]) (simp_all add: separate_sort)
    then show ?thesis
      using new True found by (simp add: geoip_matchIP_def)
  qed
qed

definition v4cidr :: "byte \<Rightarrow> byte \<Rightarrow> u32 \<Rightarrow> v2_CIDR" where
  "v4cidr a b p = \<lparr>cidr_Ip = [a, b, 0, 0], cidr_Prefix = p\<rparr>"

definition nested_geoip :: v2_GeoIP where
  "nested_geoip = \<lparr>gi_CountryCode = ''XX'', gi_Cidr = [v4cidr 10 1 16, v4cidr 10 0 8, v4cidr 10 2 16], gi_InverseMatch = False\<rparr>"



text \<open>
  C36.
\<close>



lemma demo_nets:
  "separate 4 (filter (\<lambda>n. length (net_IP n) = 4) (map cidr_net [v4cidr 10 0 8, v4cidr 172 16 12]))"
  "separate 16 (filter (\<lambda>n. length (net_IP n) = 16) (map cidr_net [v4cidr 10 0 8, v4cidr 172 16 12]))"
proof -
  let ?a = "cidr_net (v4cidr 10 0 8)" and ?b = "cidr_net (v4cidr 172 16 12)"
  have "and_bytes (net_IP ?a) (net_Mask ?a) = net_IP ?a" "and_bytes (net_IP ?b) (net_Mask ?b) = net_IP ?b"
    "net_Mask ?a = CIDRMask 8 32" "net_Mask ?b = CIDRMask 12 32"
    by code_simp+
  then have "good_net 4 ?a" "good_net 4 ?b"
    unfolding good_net_def
    by (auto simp: cidr_net_def v4cidr_def intro: exI [of _ "8 :: nat"] exI [of _ "12 :: nat"])
  moreover have "\<not> IPNet_Contains ?a (net_IP ?b)" "\<not> IPNet_Contains ?b (net_IP ?a)" "?a \<noteq> ?b"
    by code_simp+
  moreover have "length (net_IP ?a) = 4" "length (net_IP ?b) = 4"
    by (simp_all add: cidr_net_def v4cidr_def)
  ultimately show "separate 4 (filter (\<lambda>n. length (net_IP n) = 4) (map cidr_net [v4cidr 10 0 8, v4cidr 172 16 12]))"
    "separate 16 (filter (\<lambda>n. length (net_IP n) = 16) (map cidr_net [v4cidr 10 0 8, v4cidr 172 16 12]))"
    by (auto simp: separate_def)
qed

theorem geoip_match_linear_witness:
  "\<exists>m. newGeoIPMatcher \<lparr>gi_CountryCode = ''XX'', gi_Cidr = [v4cidr 10 0 8, v4cidr 172 16 12], gi_InverseMatch = False\<rparr> = Some m
     \<and> geoip_matchIP m [172, 31, 0, 1] = Some True"
proof -
  have "IPNet_Contains (cidr_net (v4cidr 172 16 12)) [172, 31, 0, 1]" by code_simp
  then show ?thesis
    using geoip_match_linear [of "\<lparr>gi_CountryCode = ''XX'', gi_Cidr = [v4cidr 10 0 8, v4cidr 172 16 12], gi_InverseMatch = False\<rparr>" "[172, 31, 0, 1]"]
      demo_nets by (simp add: v4cidr_def)
qed

section \<open>What a list of domains matches\<close>

fun domain_matches :: "(string \<Rightarrow> regexp option) \<Rightarrow> v2_Domain \<Rightarrow> string \<Rightarrow> bool" where
  "domain_matches regexp_Compile d name =
     (case dom_Type d of
        Domain_Plain \<Rightarrow> strings_Contains name (dom_Value d)
      | Domain_Regex \<Rightarrow> (case regexp_Compile (dom_Value d) of None \<Rightarrow> False | Some r \<Rightarrow> r name)
      | Domain_Full \<Rightarrow> name = dom_Value d
      | Domain_RootDomain \<Rightarrow> (\<exists>sub. name = sub @ dom_Value d \<and> (sub = [] \<or> last sub = CHR ''.''))
      | Domain_Other n \<Rightarrow> False)"

lemma root_domain_conv:
  "(\<exists>sub. name = sub @ v \<and> (sub = [] \<or> last sub = c)) \<longleftrightarrow> name = v \<or> strings_HasSuffix name (c # v)"
proof
  assume "\<exists>sub. name = sub @ v \<and> (sub = [] \<or> last sub = c)"
  then obtain sub where "name = sub @ v" "sub = [] \<or> last sub = c" by blast
  then show "name = v \<or> strings_HasSuffix name (c # v)"
    by (cases sub rule: rev_cases) (auto simp: HasSuffix_conv)
next
  assume "name = v \<or> strings_HasSuffix name (c # v)"
  then show "\<exists>sub. name = sub @ v \<and> (sub = [] \<or> last sub = c)"
  proof
    assume "strings_HasSuffix name (c # v)"
    then obtain r where "name = (r @ [c]) @ v" by (auto simp: HasSuffix_conv)
    then show ?thesis by (metis last_snoc)
  qed simp
qed

lemma geosite_domain_matches:
  assumes "geosite_domain regexp_Compile d = Some gd"
  shows "geosite_matchDomain \<lparr>gsm_Domains = ds, gsm_Attrs = attrs\<rparr> gd host \<longleftrightarrow>
     set attrs \<subseteq> set (dom_Attribute d) \<and> domain_matches regexp_Compile d (hi_Name host)"
proof -
  have attrs: "set (gd_Attrs gd) = set (dom_Attribute d)"
    using assms by (auto simp: Let_def domainAttributeToMap_def split: v2_DomainType.splits option.splits)
  then have "(attrs \<noteq> [] \<and> (gd_Attrs gd = [] \<or> \<not> list_all (\<lambda>attr. attr \<in> set (gd_Attrs gd)) attrs))
      \<longleftrightarrow> \<not> set attrs \<subseteq> set (dom_Attribute d)"
    by (cases attrs) (auto simp: list_all_iff)
  moreover have "(case gd_Type gd of
           geositeDomainPlain \<Rightarrow> strings_Contains (hi_Name host) (gd_Value gd)
         | geositeDomainRegex \<Rightarrow> (case gd_Regex gd of None \<Rightarrow> False | Some r \<Rightarrow> r (hi_Name host))
         | geositeDomainFull \<Rightarrow> hi_Name host = gd_Value gd
         | geositeDomainRoot \<Rightarrow>
             hi_Name host = gd_Value gd \<or> strings_HasSuffix (hi_Name host) (CHR ''.'' # gd_Value gd))
      \<longleftrightarrow> domain_matches regexp_Compile d (hi_Name host)"
    using assms by (auto simp: Let_def root_domain_conv split: v2_DomainType.splits option.splits)
  ultimately show ?thesis
    by (simp add: geosite_matchDomain_def)
qed

lemma those_Some: "those xs = Some ys \<longleftrightarrow> xs = map Some ys"
  by (induction xs arbitrary: ys) (auto split: option.splits)

lemma geosite_domains_match:
  "map (geosite_domain regexp_Compile) doms = map Some ds \<Longrightarrow>
     list_ex (\<lambda>gd. geosite_matchDomain \<lparr>gsm_Domains = ds', gsm_Attrs = attrs\<rparr> gd host) ds \<longleftrightarrow>
     (\<exists>d \<in> set doms. set attrs \<subseteq> set (dom_Attribute d) \<and> domain_matches regexp_Compile d (hi_Name host))"
proof (induction doms arbitrary: ds)
  case (Cons d doms)
  then obtain gd gds where "ds = gd # gds" "geosite_domain regexp_Compile d = Some gd"
    "map (geosite_domain regexp_Compile) doms = map Some gds"
    by (cases ds) (auto simp del: geosite_domain.simps)
  then show ?case
    using Cons.IH geosite_domain_matches by (simp del: geosite_domain.simps domain_matches.simps)
qed simp

lemma geosite_match_spec:
  assumes "newGeositeMatcher regexp_Compile list attrs = Some m"
  shows "geosite_Match m host \<longleftrightarrow>
     (\<exists>d \<in> set (gs_Domain list). set attrs \<subseteq> set (dom_Attribute d) \<and> domain_matches regexp_Compile d (hi_Name host))"
proof -
  obtain ds where ds: "map (geosite_domain regexp_Compile) (gs_Domain list) = map Some ds"
    and m: "m = \<lparr>gsm_Domains = ds, gsm_Attrs = attrs\<rparr>"
    using assms by (auto simp: newGeositeMatcher_def those_Some simp del: geosite_domain.simps)
  have "list_ex (\<lambda>gd. geosite_matchDomain m gd host) ds \<longleftrightarrow>
      (\<exists>d \<in> set (gs_Domain list). set attrs \<subseteq> set (dom_Attribute d) \<and> domain_matches regexp_Compile d (hi_Name host))"
    unfolding m by (rule geosite_domains_match [OF ds])
  then show ?thesis by (simp add: geosite_Match_def m)
qed

section \<open>The loader and the matchers that are kept\<close>

text \<open>
  What a loader promises its clients: data that was loaded stays, and a call that fails leaves the
  loader as it was. A cache is right if each matcher in it is what building it now would give.
\<close>

definition cache_ok :: "'g option \<Rightarrow> ('g \<Rightarrow> string \<Rightarrow> 'm option) \<Rightarrow> (string \<Rightarrow> 'm option) \<Rightarrow> bool" where
  "cache_ok gmap build cache \<longleftrightarrow> (\<forall>c m. cache c = Some m \<longrightarrow> (\<exists>g. gmap = Some g \<and> build g c = Some m))"

locale geo_loader =
  fixes load :: "'w \<Rightarrow> 'l \<Rightarrow> ((string + 'g) \<times> 'l) go" and loaded :: "'l \<Rightarrow> 'g option"
  assumes kept: "loaded l = Some g \<Longrightarrow> load w l = Some (Inr g, l)"
    and fresh: "load w l = Some (Inr g, l') \<Longrightarrow> loaded l' = Some g"
    and failed: "load w l = Some (Inl err, l') \<Longrightarrow> l' = l"
begin

lemma load_keeps: "load w l = Some (r, l') \<Longrightarrow> loaded l = Some g \<Longrightarrow> r = Inr g \<and> loaded l' = Some g"
  using kept [of l g w] by auto

lemma failed_none: "load w l = Some (Inl err, l') \<Longrightarrow> loaded l' = None"
  using failed kept by (metis Inl_Inr_False Pair_inject not_Some_eq option.inject)

lemma cache_kept: "load w l = Some (r, l') \<Longrightarrow> cache_ok (loaded l) build c \<Longrightarrow> cache_ok (loaded l') build c"
  using load_keeps unfolding cache_ok_def by blast

lemma cache_hit: "cache_ok (loaded l) build c \<Longrightarrow> c k = Some m \<Longrightarrow> \<exists>g. loaded l = Some g \<and> build g k = Some m"
  by (simp add: cache_ok_def)

lemma cache_add:
  "cache_ok (loaded l) build c \<Longrightarrow> loaded l = Some g \<Longrightarrow> build g k = Some m \<Longrightarrow> cache_ok (loaded l) build (c(k \<mapsto> m))"
  by (simp add: cache_ok_def)

end

interpretation ip_loader: geo_loader LoadGeoIP gl_geoipMap
  by unfold_locales (auto simp: LoadGeoIP_def split: option.splits sum.splits Option.bind_splits)

interpretation site_loader: geo_loader LoadGeoSite gl_geositeMap
  by unfold_locales (auto simp: LoadGeoSite_def split: option.splits sum.splits Option.bind_splits)

lemma loaders_apart:
  "LoadGeoIP w l = Some (r, l') \<Longrightarrow> gl_geositeMap l' = gl_geositeMap l"
  "LoadGeoSite w l = Some (s, l') \<Longrightarrow> gl_geoipMap l' = gl_geoipMap l"
  by (auto simp: LoadGeoIP_def LoadGeoSite_def split: option.splits sum.splits Option.bind_splits)

lemma Load_returns:
  assumes "\<forall>f. gw_Stat w f \<noteq> StatError"
  shows "LoadGeoIP w l \<noteq> None" "LoadGeoSite w l \<noteq> None"
  using assms
  by (auto simp: LoadGeoIP_def LoadGeoSite_def geo_fetch_def shouldDownload_def split: option.splits stat_result.splits Option.bind_splits)

text \<open>The matcher for a condition, built anew.\<close>

definition geoip_build :: "geoip_map \<Rightarrow> string \<Rightarrow> geoipMatcher option" where
  "geoip_build gMap condition =
     (let country = strings_ToLower condition in
      if country = [] then None else Option.bind (gMap country) newGeoIPMatcher)"

definition geosite_build :: "(string \<Rightarrow> regexp option) \<Rightarrow> geosite_map \<Rightarrow> string \<Rightarrow> geositeMatcher option" where
  "geosite_build regexp_Compile gMap condition =
     (let (name, attrs) = parseGeoSiteName (strings_ToLower condition) in
      if name = [] then None else Option.bind (gMap name) (\<lambda>list. newGeositeMatcher regexp_Compile list attrs))"

definition geo_ok :: "(string \<Rightarrow> regexp option) \<Rightarrow> GeoMatcher \<Rightarrow> bool" where
  "geo_ok regexp_Compile g \<longleftrightarrow>
     cache_ok (gl_geoipMap (ge_loader g)) geoip_build (ge_ip g)
     \<and> cache_ok (gl_geositeMap (ge_loader g)) (geosite_build regexp_Compile) (ge_site g)"

inductive geo_reach :: "(string \<Rightarrow> regexp option) \<Rightarrow> GeoMatcher \<Rightarrow> bool" for regexp_Compile where
  new: "geo_reach regexp_Compile (NewGeoMatcher site ip)"
| match_ip: "geo_reach regexp_Compile g \<Longrightarrow> MatchGeoIp w g a c = Some (b, g') \<Longrightarrow> geo_reach regexp_Compile g'"
| match_site: "geo_reach regexp_Compile g \<Longrightarrow> MatchGeoSite regexp_Compile w g s c = Some (b, g') \<Longrightarrow> geo_reach regexp_Compile g'"
| load_ip: "geo_reach regexp_Compile g \<Longrightarrow> GeoMatcher_LoadGeoIP w g = Some (r, g') \<Longrightarrow> geo_reach regexp_Compile g'"
| load_site: "geo_reach regexp_Compile g \<Longrightarrow> GeoMatcher_LoadGeoSite w g = Some (r, g') \<Longrightarrow> geo_reach regexp_Compile g'"

definition geoip_answer :: "geoip_map option \<Rightarrow> string \<Rightarrow> string \<Rightarrow> bool go" where
  "geoip_answer gMap ip condition =
     (case Option.bind gMap (\<lambda>g. geoip_build g condition) of
        None \<Rightarrow> Some False
      | Some m \<Rightarrow> match_address m ip)"

definition geosite_answer :: "(string \<Rightarrow> regexp option) \<Rightarrow> geosite_map option \<Rightarrow> string \<Rightarrow> string \<Rightarrow> bool" where
  "geosite_answer regexp_Compile gMap site condition =
     (case Option.bind gMap (\<lambda>g. geosite_build regexp_Compile g condition) of
        None \<Rightarrow> False
      | Some m \<Rightarrow> geosite_Match m \<lparr>hi_Name = site, hi_IPv4 = [], hi_IPv6 = []\<rparr>)"

lemma MatchGeoIp_step:
  assumes "MatchGeoIp w g ip c = Some (b, g')" "geo_ok regexp_Compile g"
  shows "geo_ok regexp_Compile g' \<and> Some b = geoip_answer (gl_geoipMap (ge_loader g')) ip c"
proof (cases "ge_ip g c")
  case (Some m)
  then obtain gm where "gl_geoipMap (ge_loader g) = Some gm" "geoip_build gm c = Some m"
    using assms(2) ip_loader.cache_hit unfolding geo_ok_def by metis
  then show ?thesis
    using assms Some by (auto simp: MatchGeoIp_def geoip_answer_def)
next
  case None
  show ?thesis
  proof (cases "strings_ToLower c = []")
    case True
    then show ?thesis
      using None assms
      by (auto simp: MatchGeoIp_def geoip_answer_def geoip_build_def split: option.splits bind_splits)
  next
    case False
    then obtain res l where l: "LoadGeoIP w (ge_loader g) = Some (res, l)"
      using None assms(1) by (cases "LoadGeoIP w (ge_loader g)") (auto simp: MatchGeoIp_def)
    have ok: "geo_ok regexp_Compile (g\<lparr>ge_loader := l\<rparr>)"
      using assms(2) ip_loader.cache_kept [OF l, of geoip_build "ge_ip g"] loaders_apart(1) [OF l] by (simp add: geo_ok_def)
    show ?thesis
    proof (cases res)
      case (Inl err)
      then show ?thesis
        using None False l ok assms(1) ip_loader.failed_none
        by (auto simp: MatchGeoIp_def geoip_answer_def)
    next
      case (Inr gm)
      have gm: "gl_geoipMap l = Some gm" using ip_loader.fresh l Inr by metis
      show ?thesis
      proof (cases "geoip_build gm c")
        case None
        then show ?thesis
          using \<open>ge_ip g c = None\<close> False l ok assms(1) Inr gm
          by (auto simp: MatchGeoIp_def geoip_answer_def geoip_build_def split: option.splits Option.bind_splits)
      next
        case (Some m)
        then have b: "Some b = match_address m ip" and g': "g' = g\<lparr>ge_loader := l, ge_ip := (ge_ip g)(strings_ToLower c \<mapsto> m)\<rparr>"
          using \<open>ge_ip g c = None\<close> False l assms(1) Inr
          by (auto simp: MatchGeoIp_def geoip_build_def split: option.splits Option.bind_splits)
        have "geoip_build gm (strings_ToLower c) = Some m" using Some by (simp add: geoip_build_def)
        then have "geo_ok regexp_Compile g'"
          using ok gm ip_loader.cache_add [of l geoip_build "ge_ip g" gm "strings_ToLower c" m] by (simp add: g' geo_ok_def)
        then show ?thesis using b Some gm by (simp add: g' geoip_answer_def)
      qed
    qed
  qed
qed

lemma MatchGeoSite_step:
  assumes "MatchGeoSite regexp_Compile w g s c = Some (b, g')" "geo_ok regexp_Compile g"
  shows "geo_ok regexp_Compile g' \<and> b = geosite_answer regexp_Compile (gl_geositeMap (ge_loader g')) s c"
proof (cases "ge_site g c")
  case (Some m)
  then obtain gm where "gl_geositeMap (ge_loader g) = Some gm" "geosite_build regexp_Compile gm c = Some m"
    using assms(2) site_loader.cache_hit unfolding geo_ok_def by metis
  then show ?thesis
    using assms Some by (auto simp: MatchGeoSite_def geosite_answer_def)
next
  case None
  obtain name attrs where p: "parseGeoSiteName (strings_ToLower c) = (name, attrs)" by fastforce
  show ?thesis
  proof (cases "name = []")
    case True
    then show ?thesis
      using None assms p
      by (auto simp: MatchGeoSite_def geosite_answer_def geosite_build_def split: option.splits bind_splits)
  next
    case False
    then obtain res l where l: "LoadGeoSite w (ge_loader g) = Some (res, l)"
      using None assms(1) p by (cases "LoadGeoSite w (ge_loader g)") (auto simp: MatchGeoSite_def)
    have ok: "geo_ok regexp_Compile (g\<lparr>ge_loader := l\<rparr>)"
      using assms(2) site_loader.cache_kept [OF l, of "geosite_build regexp_Compile" "ge_site g"] loaders_apart(2) [OF l] by (simp add: geo_ok_def)
    show ?thesis
    proof (cases res)
      case (Inl err)
      then show ?thesis
        using None False l p ok assms(1) site_loader.failed_none
        by (auto simp: MatchGeoSite_def geosite_answer_def)
    next
      case (Inr gm)
      have gm: "gl_geositeMap l = Some gm" using site_loader.fresh l Inr by metis
      show ?thesis
      proof (cases "geosite_build regexp_Compile gm c")
        case None
        then have "Option.bind (gm name) (\<lambda>list. newGeositeMatcher regexp_Compile list attrs) = None"
          using p False by (simp add: geosite_build_def)
        then have "b = False" "g' = g\<lparr>ge_loader := l\<rparr>"
          using \<open>ge_site g c = None\<close> False l p assms(1) Inr
          by (auto simp: MatchGeoSite_def Let_def split: option.splits)
        then show ?thesis
          using ok gm None by (simp add: geosite_answer_def)
      next
        case (Some m)
        then have b: "b = geosite_Match m \<lparr>hi_Name = s, hi_IPv4 = [], hi_IPv6 = []\<rparr>"
          and g': "g' = g\<lparr>ge_loader := l, ge_site := (ge_site g)(strings_ToLower c \<mapsto> m)\<rparr>"
          using \<open>ge_site g c = None\<close> False l p assms(1) Inr
          by (auto simp: MatchGeoSite_def geosite_build_def Let_def split: option.splits Option.bind_splits)
        have "geosite_build regexp_Compile gm (strings_ToLower c) = Some m" using Some by (simp add: geosite_build_def)
        then have "geo_ok regexp_Compile g'"
          using ok gm site_loader.cache_add [of l "geosite_build regexp_Compile" "ge_site g" gm "strings_ToLower c" m]
          by (simp add: g' geo_ok_def)
        then show ?thesis using b Some gm by (simp add: g' geosite_answer_def)
      qed
    qed
  qed
qed

lemma geo_reach_ok: "geo_reach regexp_Compile g \<Longrightarrow> geo_ok regexp_Compile g"
proof (induction rule: geo_reach.induct)
  case (new site ip)
  show ?case by (simp add: geo_ok_def NewGeoMatcher_def cache_ok_def)
next
  case (match_ip g w a c b g')
  then show ?case using MatchGeoIp_step by blast
next
  case (match_site g w s c b g')
  then show ?case using MatchGeoSite_step by blast
next
  case (load_ip g w r g')
  then obtain s l where l: "LoadGeoIP w (ge_loader g) = Some (s, l)" and g': "g' = g\<lparr>ge_loader := l\<rparr>"
    by (auto simp: GeoMatcher_LoadGeoIP_def)
  show ?case
    using load_ip(3) ip_loader.cache_kept [OF l, of geoip_build "ge_ip g"] loaders_apart(1) [OF l] by (simp add: geo_ok_def g')
next
  case (load_site g w r g')
  then obtain s l where l: "LoadGeoSite w (ge_loader g) = Some (s, l)" and g': "g' = g\<lparr>ge_loader := l\<rparr>"
    by (auto simp: GeoMatcher_LoadGeoSite_def)
  show ?case
    using load_site(3) site_loader.cache_kept [OF l, of "geosite_build regexp_Compile" "ge_site g"] loaders_apart(2) [OF l]
    by (simp add: geo_ok_def g')
qed

lemma geo_search_returns:
  "0 \<le> left \<Longrightarrow> right < int (length ns) \<Longrightarrow> geo_search ns ip left right \<noteq> None"
proof (induction ns ip left right rule: geo_search.induct)
  case (1 ns ip left right)
  define mid where "mid = (left + right) div 2"
  show ?case
  proof (cases "left \<le> right")
    case True
    have mid: "left \<le> mid" "mid \<le> right" "nat mid < length ns" "0 \<le> mid"
      using True 1(3,4) by (auto simp: mid_def)
    have r: "geo_search ns ip (mid + 1) right \<noteq> None"
      if "\<not> IPNet_Contains (ns ! nat mid) ip" "net_IP (ns ! nat mid) < ip"
      by (rule 1(1) [OF True mid_def, of "ns ! nat mid"]) (use mid that 1(4) in \<open>auto simp: go_at_def\<close>)
    have l: "geo_search ns ip left (mid - 1) \<noteq> None"
      if "\<not> IPNet_Contains (ns ! nat mid) ip" "\<not> net_IP (ns ! nat mid) < ip"
      by (rule 1(2) [OF True mid_def, of "ns ! nat mid"]) (use mid that 1(3) in \<open>auto simp: go_at_def\<close>)
    show ?thesis
      using True mid r l by (subst geo_search.simps) (simp add: mid_def [symmetric] go_at_def del: not_None_eq)
  qed (subst geo_search.simps, simp)
qed

lemma geoip_matchIP_returns: "geoip_matchIP m ip \<noteq> None"
  using geo_search_returns by (simp add: geoip_matchIP_def Let_def)

lemma match_address_returns: "match_address m ip \<noteq> None"
proof -
  have "geoip_Match m host \<noteq> None" for host
    using geoip_matchIP_returns [of m "hi_IPv4 host"] geoip_matchIP_returns [of m "hi_IPv6 host"]
    by (auto simp: geoip_Match_def)
  then show ?thesis by (simp add: match_address_def Let_def del: not_None_eq)
qed

text \<open>
  C24. After any calls, the matchers kept between calls never change an answer: a call answers
  what a matcher newly built from the loaded data would answer, and it does not panic as long as
  the data files can be looked at.
\<close>

theorem geo_answers:
  assumes "geo_reach regexp_Compile g" "\<forall>f. gw_Stat w f \<noteq> StatError"
  shows "(\<exists>b g'. MatchGeoIp w g ip c = Some (b, g') \<and> Some b = geoip_answer (gl_geoipMap (ge_loader g')) ip c)
     \<and> (\<exists>b g'. MatchGeoSite regexp_Compile w g site c = Some (b, g')
           \<and> b = geosite_answer regexp_Compile (gl_geositeMap (ge_loader g')) site c)"
proof -
  note ok = geo_reach_ok [OF assms(1)]
  have "MatchGeoIp w g ip c \<noteq> None" "MatchGeoSite regexp_Compile w g site c \<noteq> None"
    using Load_returns [OF assms(2), of "ge_loader g"] match_address_returns
    by (auto simp: MatchGeoIp_def MatchGeoSite_def Let_def split: option.splits prod.splits sum.splits)
  then show ?thesis
    using MatchGeoIp_step [OF _ ok] MatchGeoSite_step [OF _ ok] by fastforce
qed

section \<open>Instances\<close>

definition demo_regexp :: "string \<Rightarrow> regexp option" where
  "demo_regexp p = Some (\<lambda>s. s = p)"

definition demo_site :: v2_GeoSite where
  "demo_site = \<lparr>gs_CountryCode = ''XX'', gs_Domain =
     [\<lparr>dom_Type = Domain_RootDomain, dom_Value = ''a.b'', dom_Attribute = [''ads'']\<rparr>,
      \<lparr>dom_Type = Domain_Full, dom_Value = ''c.d'', dom_Attribute = []\<rparr>]\<rparr>"

definition demo_world :: geo_world where
  "demo_world = \<lparr>gw_Stat = (\<lambda>f. StatNotExist), gw_Get = (\<lambda>f u. None), gw_ReadFile = (\<lambda>f. Inr []),
     gw_UnmarshalIP = (\<lambda>b. Inr [nested_geoip]), gw_UnmarshalSite = (\<lambda>b. Inr [demo_site])\<rparr>"

theorem geosite_match_spec_witness:
  "\<exists>m. newGeositeMatcher demo_regexp demo_site [''ads''] = Some m
     \<and> geosite_Match m \<lparr>hi_Name = ''x.a.b'', hi_IPv4 = [], hi_IPv6 = []\<rparr>
     \<and> \<not> geosite_Match m \<lparr>hi_Name = ''c.d'', hi_IPv4 = [], hi_IPv6 = []\<rparr>"
proof -
  obtain m where m: "newGeositeMatcher demo_regexp demo_site [''ads''] = Some m"
    by (auto simp: newGeositeMatcher_def demo_site_def demo_regexp_def)
  have "domain_matches demo_regexp \<lparr>dom_Type = Domain_RootDomain, dom_Value = ''a.b'', dom_Attribute = [''ads'']\<rparr> ''x.a.b''"
    by (auto intro: exI [of _ "''x.''"])
  moreover have "\<not> domain_matches demo_regexp \<lparr>dom_Type = Domain_RootDomain, dom_Value = ''a.b'', dom_Attribute = [''ads'']\<rparr> ''c.d''"
    by (simp add: root_domain_conv strings_HasSuffix_def)
  ultimately show ?thesis
    using m geosite_match_spec [OF m] by (auto simp: demo_site_def simp del: domain_matches.simps)
qed

theorem geo_answers_witness:
  "(\<exists>b g'. MatchGeoIp demo_world (NewGeoMatcher [] []) ''10.1.2.3'' ''xx'' = Some (b, g')
       \<and> Some b = geoip_answer (gl_geoipMap (ge_loader g')) ''10.1.2.3'' ''xx'')
     \<and> (\<exists>b g'. MatchGeoSite demo_regexp demo_world (NewGeoMatcher [] []) ''c.d'' ''xx'' = Some (b, g')
       \<and> b = geosite_answer demo_regexp (gl_geositeMap (ge_loader g')) ''c.d'' ''xx'')"
  by (rule geo_answers [OF geo_reach.new]) (simp add: demo_world_def)

end
