(* ===== verification/RuleFuncs.thy ===== *)
theory RuleFuncs
  imports RuleCompile Geo
begin

text \<open>
  The functions of a rule (\<open>buildFunctionMap\<close> in \<open>ruleset/expr.go\<close>) on the arguments that the
  expression passes: values of the stream's properties and the constants the patcher put in. The
  matchers are built once for a ruleset; the geo matcher keeps its state. Looking a name up is
  the parameter \<open>lookup\<close> of the server, if one is given, and the name.
\<close>

datatype fn_arg = ArgAny "pval option" | ArgNet IPNet | ArgResolver "string option"

datatype fn_result = ResBool bool | ResHosts "string + string list"

record BuiltinConfig =
  bc_Fingerprints :: FingerprintConfig
  bc_DomainKeywords :: "(string \<times> string list) list"
  bc_Lookup :: "string option \<Rightarrow> string \<Rightarrow> string + string list"
  bc_Regexp :: "string \<Rightarrow> regexp option"

fun arg_string :: "fn_arg \<Rightarrow> string go" where
  "arg_string (ArgAny (Some (PStr s))) = Some s"
| "arg_string _ = None"

fun arg_any :: "fn_arg \<Rightarrow> pval option go" where
  "arg_any (ArgAny v) = Some v"
| "arg_any _ = None"

text \<open>A missing argument or one of another type panics.\<close>

definition call_geo :: "(GeoMatcher \<Rightarrow> string \<Rightarrow> string \<Rightarrow> (bool \<times> GeoMatcher) go) \<Rightarrow> fn_arg list \<Rightarrow> GeoMatcher \<Rightarrow> (fn_result \<times> GeoMatcher) go" where
  "call_geo f params g =
     do { a \<leftarrow> go_at params 0; x \<leftarrow> arg_string a; b \<leftarrow> go_at params 1; y \<leftarrow> arg_string b;
          (r, g') \<leftarrow> f g x y; Some (ResBool r, g') }"

definition call_hash :: "(pval option \<Rightarrow> bool) \<Rightarrow> fn_arg list \<Rightarrow> GeoMatcher \<Rightarrow> (fn_result \<times> GeoMatcher) go" where
  "call_hash f params g = do { a \<leftarrow> go_at params 0; x \<leftarrow> arg_any a; Some (ResBool (f x), g) }"

definition call_cidr :: "fn_arg list \<Rightarrow> GeoMatcher \<Rightarrow> (fn_result \<times> GeoMatcher) go" where
  "call_cidr params g =
     do { a \<leftarrow> go_at params 0; x \<leftarrow> arg_string a; b \<leftarrow> go_at params 1;
          n \<leftarrow> (case b of ArgNet n \<Rightarrow> Some n | _ \<Rightarrow> None); Some (ResBool (MatchCIDR x n), g) }"

definition call_lookup :: "(string option \<Rightarrow> string \<Rightarrow> string + string list) \<Rightarrow> fn_arg list \<Rightarrow> GeoMatcher \<Rightarrow> (fn_result \<times> GeoMatcher) go" where
  "call_lookup lookup params g =
     do { b \<leftarrow> go_at params 1; srv \<leftarrow> (case b of ArgResolver s \<Rightarrow> Some s | _ \<Rightarrow> None);
          a \<leftarrow> go_at params 0; x \<leftarrow> arg_string a; Some (ResHosts (lookup srv x), g) }"

definition call_keyword :: "(string \<Rightarrow> string list) \<Rightarrow> fn_arg list \<Rightarrow> GeoMatcher \<Rightarrow> (fn_result \<times> GeoMatcher) go" where
  "call_keyword m params g =
     do { a \<leftarrow> go_at params 0; x \<leftarrow> arg_any a; b \<leftarrow> go_at params 1; y \<leftarrow> arg_any b;
          Some (ResBool (domainKeywordMatchers_match m x y), g) }"

definition buildFunctionMap ::
    "BuiltinConfig \<Rightarrow> geo_world \<Rightarrow> string \<Rightarrow> (fn_arg list \<Rightarrow> GeoMatcher \<Rightarrow> (fn_result \<times> GeoMatcher) go) option" where
  "buildFunctionMap config w =
     (let fingerprints = newFingerprintMatchers (bc_Fingerprints config);
          domainKeywords = newDomainKeywordMatchers (bc_DomainKeywords config) in
      [''geoip'' \<mapsto> call_geo (MatchGeoIp w),
       ''geosite'' \<mapsto> call_geo (MatchGeoSite (bc_Regexp config) w),
       ''cidr'' \<mapsto> call_cidr,
       ''lookup'' \<mapsto> call_lookup (bc_Lookup config),
       ''suspicious_ja3'' \<mapsto> call_hash (matchJA3 fingerprints),
       ''suspicious_quic_ja3'' \<mapsto> call_hash (matchQUICJA3 fingerprints),
       ''suspicious_ja4'' \<mapsto> call_hash (matchJA4 fingerprints),
       ''suspicious_quic_ja4'' \<mapsto> call_hash (matchQUICJA4 fingerprints),
       ''domain_keyword'' \<mapsto> call_keyword domainKeywords])"

lemma functions_named: "dom (buildFunctionMap config w) = set functionMap_names"
  by (auto simp: buildFunctionMap_def functionMap_names_def Let_def)

text \<open>The list of a fingerprint function, and that calls of it answer whether the hash is listed.\<close>

fun suspicious_list :: "FingerprintConfig \<Rightarrow> string \<Rightarrow> FingerprintEntry list" where
  "suspicious_list c name =
     (if name = ''suspicious_ja3'' then fs_Suspicious (fc_JA3 c)
      else if name = ''suspicious_quic_ja3'' then fs_Suspicious (fc_QUICJA3 c)
      else if name = ''suspicious_ja4'' then fs_Suspicious (fc_JA4 c)
      else fs_Suspicious (fc_QUICJA4 c))"

lemma suspicious_call:
  assumes "name \<in> {''suspicious_ja3'', ''suspicious_quic_ja3'', ''suspicious_ja4'', ''suspicious_quic_ja4''}"
  shows "\<exists>f. buildFunctionMap config w name = Some f
     \<and> f [ArgAny (Some (PStr h))] g =
         Some (ResBool (normalizeFingerprintHash h \<noteq> [] \<and>
           (\<exists>e \<in> set (suspicious_list (bc_Fingerprints config) name). normalizeFingerprintHash (fe_Hash e) = normalizeFingerprintHash h)), g)"
proof -
  have "fingerprintEntriesToMap es (normalizeFingerprintHash h) \<noteq> None \<longleftrightarrow>
      normalizeFingerprintHash h \<noteq> [] \<and> (\<exists>e \<in> set es. normalizeFingerprintHash (fe_Hash e) = normalizeFingerprintHash h)" for es
    unfolding fingerprintEntriesToMap_iff by force
  then show ?thesis
    using assms
    by (auto simp: buildFunctionMap_def Let_def call_hash_def go_at_def newFingerprintMatchers_def
      matchJA3_def matchQUICJA3_def matchJA4_def matchQUICJA4_def simp del: not_None_eq)
qed

theorem suspicious_call_witness:
  "\<exists>f. buildFunctionMap \<lparr>bc_Fingerprints = \<lparr>fc_JA3 = \<lparr>fs_Files = [], fs_Suspicious = [\<lparr>fe_Hash = ''AB'', fe_Name = [], fe_Severity = [], fe_Tags = []\<rparr>]\<rparr>,
           fc_JA4 = \<lparr>fs_Files = [], fs_Suspicious = []\<rparr>, fc_QUICJA3 = \<lparr>fs_Files = [], fs_Suspicious = []\<rparr>,
           fc_QUICJA4 = \<lparr>fs_Files = [], fs_Suspicious = []\<rparr>\<rparr>,
         bc_DomainKeywords = [], bc_Lookup = (\<lambda>s n. Inl []), bc_Regexp = demo_regexp\<rparr> demo_world ''suspicious_ja3'' = Some f
     \<and> f [ArgAny (Some (PStr ''ab ''))] (NewGeoMatcher [] []) = Some (ResBool True, NewGeoMatcher [] [])"
proof -
  have "normalizeFingerprintHash ''ab '' = ''ab''" "normalizeFingerprintHash ''AB'' = ''ab''" by code_simp+
  then show ?thesis
    using suspicious_call [of "''suspicious_ja3''" _ _ "''ab ''"] by fastforce
qed

end
