(* ===== verification/Allowlist.thy ===== *)
theory Allowlist
  imports Identity
begin

text \<open>
  The event that a rule logs (\<open>cmd/alert.go\<close>) and the list of machines, addresses, rules and domains
  whose events are suppressed (\<open>cmd/allowlist.go\<close>). A time is a number of nanoseconds. The properties
  of a stream hold no value of type \<open>[]interface{}\<close>, so that branch of \<open>addQuestionDomains\<close> is left out.
\<close>

section \<open>Events\<close>

record riskHit =
  rh_Time :: int
  rh_Rule :: string
  rh_Severity :: string
  rh_ID :: int
  rh_Weight :: int

record riskDetail =
  rd_Key :: string
  rd_KeyType :: string
  rd_Score :: int
  rd_WindowSeconds :: int
  rd_AlertThreshold :: int
  rd_ResponseThreshold :: int
  rd_Hits :: "riskHit list"

record alertEvent =
  ev_Type :: string
  ev_Time :: int
  ev_Rule :: string
  ev_Severity :: string
  ev_ID :: int
  ev_Proto :: string
  ev_Src :: string
  ev_Dst :: string
  ev_IP :: "(string \<times> string) list"
  ev_Port :: "(string \<times> u16) list"
  ev_Meta :: metadata
  ev_Props :: CombinedPropMap
  ev_Risk :: "riskDetail option"
  ev_Suppressed :: bool
  ev_SuppressionReason :: string
  ev_SuppressionValue :: string

text \<open>\<open>net.JoinHostPort\<close> with a decimal port.\<close>

definition JoinHostPort :: "string \<Rightarrow> u16 \<Rightarrow> string" where
  "JoinHostPort host port =
     (if CHR '':'' \<in> set host \<or> CHR ''%'' \<in> set host
      then ''['' @ host @ '']:'' @ strconv_Itoa (uint port)
      else host @ '':'' @ strconv_Itoa (uint port))"

definition SrcString :: "StreamInfo \<Rightarrow> string" where
  "SrcString i = JoinHostPort (net_IP_String (si_SrcIP i)) (si_SrcPort i)"

definition DstString :: "StreamInfo \<Rightarrow> string" where
  "DstString i = JoinHostPort (net_IP_String (si_DstIP i)) (si_DstPort i)"

definition newAlertEvent :: "int \<Rightarrow> StreamInfo \<Rightarrow> string \<Rightarrow> string \<Rightarrow> alertEvent" where
  "newAlertEvent now info name severity =
     \<lparr>ev_Type = [], ev_Time = now, ev_Rule = name, ev_Severity = severity, ev_ID = si_ID info,
      ev_Proto = Protocol_String (si_Protocol info), ev_Src = SrcString info, ev_Dst = DstString info,
      ev_IP = [(''src'', net_IP_String (si_SrcIP info)), (''dst'', net_IP_String (si_DstIP info))],
      ev_Port = [(''src'', si_SrcPort info), (''dst'', si_DstPort info)],
      ev_Meta = si_Meta info, ev_Props = si_Props info, ev_Risk = None,
      ev_Suppressed = False, ev_SuppressionReason = [], ev_SuppressionValue = []\<rparr>"

definition event_ip :: "alertEvent \<Rightarrow> string \<Rightarrow> string" where
  "event_ip e k = (case map_of (ev_IP e) k of None \<Rightarrow> [] | Some v \<Rightarrow> v)"

section \<open>The printed form of a network\<close>

fun ones_of :: "nat \<Rightarrow> byte \<Rightarrow> nat option" where
  "ones_of 0 b = (if b = 0 then Some 0 else None)"
| "ones_of (Suc n) b =
     (if bit b 7 then map_option Suc (ones_of n (push_bit 1 b)) else if b = 0 then Some 0 else None)"

fun simpleMaskLength :: "bytes \<Rightarrow> nat option" where
  "simpleMaskLength [] = Some 0"
| "simpleMaskLength (b # bs) =
     (if b = 0xff then map_option (\<lambda>n. n + 8) (simpleMaskLength bs)
      else if list_all (\<lambda>x. x = 0) bs then ones_of 8 b else None)"

definition IPNet_String :: "IPNet \<Rightarrow> string" where
  "IPNet_String n =
     (case networkNumberAndMask n of
        None \<Rightarrow> ''<nil>''
      | Some (nn, m) \<Rightarrow>
          (case simpleMaskLength m of
             None \<Rightarrow> net_IP_String nn @ ''/'' @ hex_EncodeToString m
           | Some l \<Rightarrow> net_IP_String nn @ ''/'' @ strconv_Itoa (int l)))"

section \<open>The allowlist\<close>

record cliConfigAllowlist =
  ca_Enabled :: bool
  ca_VMIDs :: "string list"
  ca_VMNames :: "string list"
  ca_MACs :: "string list"
  ca_IPs :: "string list"
  ca_CIDRs :: "string list"
  ca_Rules :: "string list"
  ca_Domains :: "string list"
  ca_LogSuppressed :: "bool option"
  ca_WebhookSuppressed :: bool

record allowlist =
  al_vmIDs :: "string list"
  al_vmNames :: "string list"
  al_macs :: "string list"
  al_ips :: "string list"
  al_cidrs :: "IPNet list"
  al_rules :: "string list"
  al_domains :: "string list"
  al_logSuppressed :: bool
  al_webhookSuppressed :: bool

datatype allowlist_error = InvalidMAC string | InvalidIPCIDR string | InvalidIP string | InvalidCIDR string

definition normalizeDomain :: "string \<Rightarrow> string" where
  "normalizeDomain value =
     strings_TrimPrefix (strings_TrimSuffix (strings_ToLower (strings_TrimSpace value)) ''.'') ''*.''"

fun allow_macs :: "string list \<Rightarrow> string list \<Rightarrow> allowlist_error + string list" where
  "allow_macs [] macs = Inr macs"
| "allow_macs (raw # raws) macs =
     (if strings_TrimSpace raw = [] then allow_macs raws macs
      else
        (let mac = normalizeMAC raw in
         case net_ParseMAC mac of
           None \<Rightarrow> Inl (InvalidMAC raw)
         | Some _ \<Rightarrow> allow_macs raws (List.insert mac macs)))"

fun allow_ips :: "string list \<Rightarrow> string list \<times> IPNet list \<Rightarrow> allowlist_error + string list \<times> IPNet list" where
  "allow_ips [] acc = Inr acc"
| "allow_ips (raw # raws) (ips, cidrs) =
     (let raw = strings_TrimSpace raw in
      if raw = [] then allow_ips raws (ips, cidrs)
      else if strings_Contains raw ''/'' then
        (case net_ParseCIDR raw of
           Some n \<Rightarrow> allow_ips raws (ips, cidrs @ [n])
         | None \<Rightarrow> Inl (InvalidIPCIDR raw))
      else if net_ParseIP raw = [] then Inl (InvalidIP raw)
      else allow_ips raws (List.insert (net_IP_String (net_ParseIP raw)) ips, cidrs))"

fun allow_cidrs :: "string list \<Rightarrow> IPNet list \<Rightarrow> allowlist_error + IPNet list" where
  "allow_cidrs [] cidrs = Inr cidrs"
| "allow_cidrs (raw # raws) cidrs =
     (let raw = strings_TrimSpace raw in
      if raw = [] then allow_cidrs raws cidrs
      else (case net_ParseCIDR raw of
              None \<Rightarrow> Inl (InvalidCIDR raw)
            | Some n \<Rightarrow> allow_cidrs raws (cidrs @ [n])))"

definition newAllowlist :: "cliConfigAllowlist \<Rightarrow> allowlist_error + allowlist option" where
  "newAllowlist config =
     (if \<not> ca_Enabled config then Inr None
      else
        (case allow_macs (ca_MACs config) [] of
           Inl err \<Rightarrow> Inl err
         | Inr macs \<Rightarrow>
        (case allow_ips (ca_IPs config) ([], []) of
           Inl err \<Rightarrow> Inl err
         | Inr (ips, cidrs) \<Rightarrow>
        (case allow_cidrs (ca_CIDRs config) cidrs of
           Inl err \<Rightarrow> Inl err
         | Inr cidrs \<Rightarrow>
             Inr (Some
               \<lparr>al_vmIDs = makeStringSet (ca_VMIDs config), al_vmNames = makeStringSet (ca_VMNames config),
                al_macs = macs, al_ips = ips, al_cidrs = cidrs, al_rules = makeStringSet (ca_Rules config),
                al_domains = remdups (filter (\<lambda>d. d \<noteq> []) (map normalizeDomain (ca_Domains config))),
                al_logSuppressed = (case ca_LogSuppressed config of None \<Rightarrow> True | Some b \<Rightarrow> b),
                al_webhookSuppressed = ca_WebhookSuppressed config\<rparr>)))))"

definition allowlist_LogSuppressed :: "allowlist option \<Rightarrow> bool" where
  "allowlist_LogSuppressed a = (case a of None \<Rightarrow> False | Some a \<Rightarrow> al_logSuppressed a)"

definition allowlist_WebhookSuppressed :: "allowlist option \<Rightarrow> bool" where
  "allowlist_WebhookSuppressed a = (case a of None \<Rightarrow> False | Some a \<Rightarrow> al_webhookSuppressed a)"

definition matchDomain :: "allowlist \<Rightarrow> string \<Rightarrow> string" where
  "matchDomain a domain =
     (let domain = normalizeDomain domain in
      if domain = [] then []
      else if domain \<in> set (al_domains a) then domain
      else (case find (\<lambda>allowed. strings_HasSuffix domain (CHR ''.'' # allowed)) (al_domains a) of
              Some allowed \<Rightarrow> allowed
            | None \<Rightarrow> []))"

definition eventIPs :: "alertEvent \<Rightarrow> bytes list" where
  "eventIPs e =
     filter (\<lambda>ip. ip \<noteq> [])
       (map net_ParseIP [event_ip e ''src'', event_ip e ''dst'', meta_string (ev_Meta e) ''vm.ip''])"

definition addDomain :: "pval option \<Rightarrow> string list" where
  "addDomain v =
     (case v of
        Some (PStr domain) \<Rightarrow> (if normalizeDomain domain \<noteq> [] then [normalizeDomain domain] else [])
      | _ \<Rightarrow> [])"

definition addQuestionDomains :: "pval option \<Rightarrow> string list" where
  "addQuestionDomains v =
     (case v of
        Some (PMaps questions) \<Rightarrow> concat (map (\<lambda>q. addDomain (q ''name'')) questions)
      | _ \<Rightarrow> [])"

definition eventDomains :: "alertEvent \<Rightarrow> string list" where
  "eventDomains e =
     (let props = ev_Props e in
      addDomain (CombinedPropMap_Get props ''tls'' ''req.sni'')
      @ addDomain (CombinedPropMap_Get props ''quic'' ''req.sni'')
      @ addQuestionDomains (CombinedPropMap_Get props ''dns'' ''questions'')
      @ addQuestionDomains (CombinedPropMap_Get props ''dns'' ''req.questions''))"

fun match_ips :: "allowlist \<Rightarrow> bytes list \<Rightarrow> (string \<times> string) option" where
  "match_ips a [] = None"
| "match_ips a (ip # ips) =
     (if net_IP_String ip \<in> set (al_ips a) then Some (''ip'', net_IP_String ip)
      else case find (\<lambda>n. IPNet_Contains n ip) (al_cidrs a) of
             Some n \<Rightarrow> Some (''cidr'', IPNet_String n)
           | None \<Rightarrow> match_ips a ips)"

fun match_domains :: "allowlist \<Rightarrow> string list \<Rightarrow> (string \<times> string) option" where
  "match_domains a [] = None"
| "match_domains a (d # ds) =
     (if matchDomain a d \<noteq> [] then Some (''domain'', matchDomain a d) else match_domains a ds)"

fun match_macs :: "allowlist \<Rightarrow> metadata \<Rightarrow> string list \<Rightarrow> (string \<times> string) option" where
  "match_macs a meta [] = None"
| "match_macs a meta (field # ks) =
     (let v = normalizeMAC (meta_string meta field) in
      if v \<noteq> [] \<and> v \<in> set (al_macs a) then Some (field, v) else match_macs a meta ks)"

text \<open>The reason and the value of a match.\<close>

definition allowlist_Match :: "allowlist option \<Rightarrow> alertEvent \<Rightarrow> (string \<times> string) option" where
  "allowlist_Match al event =
     (case al of
        None \<Rightarrow> None
      | Some a \<Rightarrow>
          (let id = meta_string (ev_Meta event) ''vm.id''; name = meta_string (ev_Meta event) ''vm.name'' in
           if id \<noteq> [] \<and> id \<in> set (al_vmIDs a) then Some (''vm.id'', id)
           else if name \<noteq> [] \<and> name \<in> set (al_vmNames a) then Some (''vm.name'', name)
           else
             (case match_macs a (ev_Meta event) [''vm.mac'', ''l2.src'', ''l2.dst''] of
                Some m \<Rightarrow> Some m
              | None \<Rightarrow>
             (case match_ips a (eventIPs event) of
                Some m \<Rightarrow> Some m
              | None \<Rightarrow>
                  if ev_Rule event \<in> set (al_rules a) then Some (''rule'', ev_Rule event)
                  else match_domains a (eventDomains event)))))"

section \<open>What it suppresses\<close>

lemma allow_macs_set:
  "allow_macs raws acc = Inr macs \<Longrightarrow>
     set macs = set acc \<union> {normalizeMAC raw | raw. raw \<in> set raws \<and> strings_TrimSpace raw \<noteq> []}"
  by (induction raws acc rule: allow_macs.induct) (auto simp: Let_def split: if_splits option.splits)

lemma allow_ips_set:
  "allow_ips raws acc = Inr (ips, cidrs) \<Longrightarrow>
     set ips = set (fst acc) \<union> {net_IP_String (net_ParseIP (strings_TrimSpace raw)) | raw.
        raw \<in> set raws \<and> strings_TrimSpace raw \<noteq> [] \<and> \<not> strings_Contains (strings_TrimSpace raw) ''/''}
     \<and> set cidrs = set (snd acc) \<union> {n. \<exists>raw \<in> set raws. strings_TrimSpace raw \<noteq> []
        \<and> strings_Contains (strings_TrimSpace raw) ''/'' \<and> net_ParseCIDR (strings_TrimSpace raw) = Some n}"
  by (induction raws acc rule: allow_ips.induct) (auto simp: Let_def split: if_splits option.splits)

lemma allow_cidrs_set:
  "allow_cidrs raws acc = Inr cidrs \<Longrightarrow>
     set cidrs = set acc \<union> {n. \<exists>raw \<in> set raws. strings_TrimSpace raw \<noteq> [] \<and> net_ParseCIDR (strings_TrimSpace raw) = Some n}"
  by (induction raws acc rule: allow_cidrs.induct) (auto simp: Let_def split: if_splits option.splits)

lemma match_macs_iff:
  "match_macs a meta ks \<noteq> None \<longleftrightarrow>
     (\<exists>k \<in> set ks. normalizeMAC (meta_string meta k) \<noteq> [] \<and> normalizeMAC (meta_string meta k) \<in> set (al_macs a))"
  by (induction ks) (auto simp: Let_def)

lemma match_ips_iff:
  "match_ips a ips \<noteq> None \<longleftrightarrow>
     (\<exists>ip \<in> set ips. net_IP_String ip \<in> set (al_ips a) \<or> (\<exists>n \<in> set (al_cidrs a). IPNet_Contains n ip))"
proof (induction ips)
  case (Cons ip ips)
  have "find (\<lambda>n. IPNet_Contains n ip) (al_cidrs a) = None \<longleftrightarrow> \<not> (\<exists>n \<in> set (al_cidrs a). IPNet_Contains n ip)"
    by (auto simp: find_None_iff)
  then show ?case using Cons.IH by (auto split: option.splits)
qed simp

definition domain_under :: "string \<Rightarrow> string \<Rightarrow> bool" where
  "domain_under d allowed \<longleftrightarrow> d = allowed \<or> strings_HasSuffix d (CHR ''.'' # allowed)"

lemma matchDomain_iff:
  assumes "[] \<notin> set (al_domains a)"
  shows "matchDomain a d \<noteq> [] \<longleftrightarrow> normalizeDomain d \<noteq> [] \<and> (\<exists>x \<in> set (al_domains a). domain_under (normalizeDomain d) x)"
proof -
  have "(\<exists>x \<in> set (al_domains a). strings_HasSuffix (normalizeDomain d) (CHR ''.'' # x)) \<longleftrightarrow>
      find (\<lambda>x. strings_HasSuffix (normalizeDomain d) (CHR ''.'' # x)) (al_domains a) \<noteq> None"
    by (auto simp: find_None_iff)
  moreover have "x \<noteq> []" if "find (\<lambda>x. strings_HasSuffix (normalizeDomain d) (CHR ''.'' # x)) (al_domains a) = Some x" for x
    using that assms by (metis find_Some_iff nth_mem)
  ultimately show ?thesis
    by (auto simp: matchDomain_def Let_def domain_under_def split: option.split)
qed

lemma match_domains_iff: "match_domains a ds \<noteq> None \<longleftrightarrow> (\<exists>d \<in> set ds. matchDomain a d \<noteq> [])"
  by (induction ds) auto

text \<open>The entries of the configuration that an event falls under, written down one by one.\<close>

definition covered :: "cliConfigAllowlist \<Rightarrow> alertEvent \<Rightarrow> bool" where
  "covered c e \<longleftrightarrow>
     (\<exists>raw \<in> set (ca_VMIDs c). strings_TrimSpace raw \<noteq> [] \<and> meta_string (ev_Meta e) ''vm.id'' = strings_TrimSpace raw)
   \<or> (\<exists>raw \<in> set (ca_VMNames c). strings_TrimSpace raw \<noteq> [] \<and> meta_string (ev_Meta e) ''vm.name'' = strings_TrimSpace raw)
   \<or> (\<exists>raw \<in> set (ca_MACs c). \<exists>k \<in> {''vm.mac'', ''l2.src'', ''l2.dst''}. strings_TrimSpace raw \<noteq> []
        \<and> normalizeMAC (meta_string (ev_Meta e) k) = normalizeMAC raw)
   \<or> (\<exists>raw \<in> set (ca_IPs c). \<exists>ip \<in> set (eventIPs e). strings_TrimSpace raw \<noteq> []
        \<and> (if strings_Contains (strings_TrimSpace raw) ''/''
           then \<exists>n. net_ParseCIDR (strings_TrimSpace raw) = Some n \<and> IPNet_Contains n ip
           else net_IP_String ip = net_IP_String (net_ParseIP (strings_TrimSpace raw))))
   \<or> (\<exists>raw \<in> set (ca_CIDRs c). \<exists>ip \<in> set (eventIPs e). strings_TrimSpace raw \<noteq> []
        \<and> (\<exists>n. net_ParseCIDR (strings_TrimSpace raw) = Some n \<and> IPNet_Contains n ip))
   \<or> (\<exists>raw \<in> set (ca_Rules c). strings_TrimSpace raw \<noteq> [] \<and> ev_Rule e = strings_TrimSpace raw)
   \<or> (\<exists>raw \<in> set (ca_Domains c). \<exists>d \<in> set (eventDomains e). normalizeDomain raw \<noteq> [] \<and> normalizeDomain d \<noteq> []
        \<and> domain_under (normalizeDomain d) (normalizeDomain raw))"

lemma normalizeMAC_nonempty: "strings_TrimSpace raw \<noteq> [] \<Longrightarrow> normalizeMAC raw \<noteq> []"
proof (cases raw rule: normalizeMAC_cases)
  case 1
  then show "strings_TrimSpace raw \<noteq> [] \<Longrightarrow> normalizeMAC raw \<noteq> []" by simp
next
  case (2 hw)
  then show "normalizeMAC raw \<noteq> []" using length_HardwareAddr_String [of hw] by (cases hw) auto
next
  case 3
  then show "strings_TrimSpace raw \<noteq> [] \<Longrightarrow> normalizeMAC raw \<noteq> []" by simp
qed

text \<open>
  C16. An allowlist built from a configuration matches an event exactly if the configuration
  covers it: by the machine's id or name, one of its hardware addresses in any notation, one of
  its IP addresses or networks, the rule, or a domain name at or below a listed one.
\<close>

theorem allowlist_covers':
  assumes "newAllowlist config = Inr (Some a)"
  shows "allowlist_Match (Some a) event \<noteq> None \<longleftrightarrow> covered config event"
proof -
  obtain macs ips cidrs0 cidrs where l: "allow_macs (ca_MACs config) [] = Inr macs"
      "allow_ips (ca_IPs config) ([], []) = Inr (ips, cidrs0)" "allow_cidrs (ca_CIDRs config) cidrs0 = Inr cidrs"
    and a: "al_vmIDs a = makeStringSet (ca_VMIDs config)" "al_vmNames a = makeStringSet (ca_VMNames config)"
      "al_macs a = macs" "al_ips a = ips" "al_cidrs a = cidrs" "al_rules a = makeStringSet (ca_Rules config)"
      "al_domains a = remdups (filter (\<lambda>d. d \<noteq> []) (map normalizeDomain (ca_Domains config)))"
    using assms by (auto simp: newAllowlist_def split: if_splits sum.splits prod.splits)
  note sets = allow_macs_set [OF l(1)] allow_ips_set [OF l(2)] allow_cidrs_set [OF l(3)]
  have id: "(let id = meta_string (ev_Meta event) ''vm.id'' in id \<noteq> [] \<and> id \<in> set (al_vmIDs a)) \<longleftrightarrow>
      (\<exists>raw \<in> set (ca_VMIDs config). strings_TrimSpace raw \<noteq> [] \<and> meta_string (ev_Meta event) ''vm.id'' = strings_TrimSpace raw)"
    by (auto simp: a makeStringSet_def Let_def)
  have name: "(let n = meta_string (ev_Meta event) ''vm.name'' in n \<noteq> [] \<and> n \<in> set (al_vmNames a)) \<longleftrightarrow>
      (\<exists>raw \<in> set (ca_VMNames config). strings_TrimSpace raw \<noteq> [] \<and> meta_string (ev_Meta event) ''vm.name'' = strings_TrimSpace raw)"
    by (auto simp: a makeStringSet_def Let_def)
  have macs: "match_macs a (ev_Meta event) [''vm.mac'', ''l2.src'', ''l2.dst''] \<noteq> None \<longleftrightarrow>
      (\<exists>raw \<in> set (ca_MACs config). \<exists>k \<in> {''vm.mac'', ''l2.src'', ''l2.dst''}. strings_TrimSpace raw \<noteq> []
        \<and> normalizeMAC (meta_string (ev_Meta event) k) = normalizeMAC raw)"
    unfolding match_macs_iff a sets using normalizeMAC_nonempty by fastforce
  have ips: "match_ips a (eventIPs event) \<noteq> None \<longleftrightarrow>
      (\<exists>raw \<in> set (ca_IPs config). \<exists>ip \<in> set (eventIPs event). strings_TrimSpace raw \<noteq> []
        \<and> (if strings_Contains (strings_TrimSpace raw) ''/''
           then \<exists>n. net_ParseCIDR (strings_TrimSpace raw) = Some n \<and> IPNet_Contains n ip
           else net_IP_String ip = net_IP_String (net_ParseIP (strings_TrimSpace raw))))
    \<or> (\<exists>raw \<in> set (ca_CIDRs config). \<exists>ip \<in> set (eventIPs event). strings_TrimSpace raw \<noteq> []
        \<and> (\<exists>n. net_ParseCIDR (strings_TrimSpace raw) = Some n \<and> IPNet_Contains n ip))"
    unfolding match_ips_iff a using sets(2,3) by (auto split: if_splits) blast+
  have rules: "ev_Rule event \<in> set (al_rules a) \<longleftrightarrow>
      (\<exists>raw \<in> set (ca_Rules config). strings_TrimSpace raw \<noteq> [] \<and> ev_Rule event = strings_TrimSpace raw)"
    by (auto simp: a makeStringSet_def Let_def)
  have "[] \<notin> set (al_domains a)" by (auto simp: a)
  then have domains: "match_domains a (eventDomains event) \<noteq> None \<longleftrightarrow>
      (\<exists>raw \<in> set (ca_Domains config). \<exists>d \<in> set (eventDomains event). normalizeDomain raw \<noteq> [] \<and> normalizeDomain d \<noteq> []
        \<and> domain_under (normalizeDomain d) (normalizeDomain raw))"
    unfolding match_domains_iff by (auto simp: matchDomain_iff a)
  have "allowlist_Match (Some a) event \<noteq> None \<longleftrightarrow>
      (let id = meta_string (ev_Meta event) ''vm.id'' in id \<noteq> [] \<and> id \<in> set (al_vmIDs a))
    \<or> (let n = meta_string (ev_Meta event) ''vm.name'' in n \<noteq> [] \<and> n \<in> set (al_vmNames a))
    \<or> match_macs a (ev_Meta event) [''vm.mac'', ''l2.src'', ''l2.dst''] \<noteq> None
    \<or> match_ips a (eventIPs event) \<noteq> None \<or> ev_Rule event \<in> set (al_rules a)
    \<or> match_domains a (eventDomains event) \<noteq> None"
    by (simp add: allowlist_Match_def Let_def split: option.split)
  then show ?thesis
    unfolding id name macs ips rules domains covered_def by (simp only: disj_assoc)
qed

theorem allowlist_covers:
  assumes "newAllowlist config = Inr (Some a)"
  shows "allowlist_Match (Some a) event \<noteq> None \<longleftrightarrow> covered config event"
  by (rule allowlist_covers' [OF assms])

section \<open>Instance\<close>

definition quiet_config :: cliConfigAllowlist where
  "quiet_config = \<lparr>ca_Enabled = True, ca_VMIDs = [], ca_VMNames = [], ca_MACs = [''52-54-00-aa-bb-cc''], ca_IPs = [], ca_CIDRs = [],
     ca_Rules = [], ca_Domains = [''*.Example.org''], ca_LogSuppressed = None, ca_WebhookSuppressed = False\<rparr>"

definition quiet_list :: allowlist where
  "quiet_list = (case newAllowlist quiet_config of Inr (Some a) \<Rightarrow> a | _ \<Rightarrow> undefined)"

definition sni_event :: "string \<Rightarrow> alertEvent" where
  "sni_event sni = newAlertEvent 0 \<lparr>si_ID = 1, si_Protocol = ProtocolTCP, si_SrcIP = [10, 0, 0, 1], si_DstIP = [10, 0, 0, 2],
     si_SrcPort = 1000, si_DstPort = 443, si_Meta = None,
     si_Props = [''tls'' \<mapsto> [''req'' \<mapsto> PMap [''sni'' \<mapsto> PStr sni]]]\<rparr> ''r'' ''high''"

lemma quiet_list: "newAllowlist quiet_config = Inr (Some quiet_list)"
proof -
  have "(case newAllowlist quiet_config of Inr (Some a) \<Rightarrow> True | _ \<Rightarrow> False)" by code_simp
  then show ?thesis by (auto simp: quiet_list_def split: sum.splits option.splits)
qed

theorem allowlist_covers_witness:
  "covered quiet_config (sni_event ''www.EXAMPLE.org.'')"
proof -
  have "allowlist_Match (Some quiet_list) (sni_event ''www.EXAMPLE.org.'') \<noteq> None" by code_simp
  then show ?thesis using allowlist_covers [OF quiet_list] by blast
qed

end
