(* ===== verification/Risk.thy ===== *)
theory Risk
  imports Allowlist
begin

text \<open>
  \<open>cmd/risk.go\<close>: weighted hits are summed per machine over a sliding window; crossing a threshold
  sends an alert or asks for quarantine. A nil aggregator is \<open>None\<close>. The buckets are a list of pairs;
  what \<open>Add\<close> calls on the other components is the list of effects it returns, in order. The clock is
  read once per call and given as an argument. Scores are far from the end of Go's \<open>int\<close>.
\<close>

record cliConfigRisk =
  crk_Enabled :: bool
  crk_Window :: int
  crk_AlertThreshold :: int
  crk_ResponseThreshold :: int
  crk_Weights :: "(string \<times> int) list option"

record riskBucket =
  bk_Key :: string
  bk_KeyType :: string
  bk_Hits :: "riskHit list"
  bk_Score :: int
  bk_AlertSent :: bool
  bk_ResponseSent :: bool

record riskAggregator =
  ra_window :: int
  ra_alertThreshold :: int
  ra_responseThreshold :: int
  ra_weights :: "(string \<times> int) list option"
  ra_alert :: bool
  ra_response :: bool
  ra_metrics :: bool
  ra_buckets :: "(string \<times> riskBucket) list"

datatype risk_effect = IncRiskEvent string | EmitAlert alertEvent | Quarantine alertEvent

definition defaultRiskWindow :: int where
  "defaultRiskWindow = 10 * 60 * 1000000000"

definition newRiskAggregator :: "cliConfigRisk \<Rightarrow> bool \<Rightarrow> bool \<Rightarrow> string + riskAggregator option" where
  "newRiskAggregator config alert response =
     (if \<not> crk_Enabled config then Inr None
      else if crk_AlertThreshold config \<le> 0 \<and> crk_ResponseThreshold config \<le> 0 then
        Inl ''risk.thresholds.alert or risk.thresholds.response is required when risk.enabled is true''
      else
        Inr (Some \<lparr>ra_window = (if crk_Window config \<le> 0 then defaultRiskWindow else crk_Window config),
                   ra_alertThreshold = crk_AlertThreshold config, ra_responseThreshold = crk_ResponseThreshold config,
                   ra_weights = crk_Weights config, ra_alert = alert, ra_response = response, ra_metrics = False,
                   ra_buckets = []\<rparr>))"

definition ruleWeight :: "riskAggregator \<Rightarrow> string \<Rightarrow> int" where
  "ruleWeight r rule =
     (case ra_weights r of
        None \<Rightarrow> 1
      | Some ws \<Rightarrow> (case map_of ws rule of Some w \<Rightarrow> w | None \<Rightarrow> 1))"

definition riskAggregationKey :: "alertEvent \<Rightarrow> string \<times> string" where
  "riskAggregationKey event =
     (let vm_id = meta_string (ev_Meta event) ''vm.id'';
          mac = normalizeMAC (meta_string (ev_Meta event) ''vm.mac'');
          src = event_ip event ''src'' in
      if vm_id \<noteq> [] then (''vm.id'', vm_id)
      else if mac \<noteq> [] then (''vm.mac'', mac)
      else if src \<noteq> [] \<and> src \<noteq> ''<nil>'' then (''ip.src'', src)
      else ([], []))"

definition durationSeconds :: "int \<Rightarrow> int" where
  "durationSeconds d =
     (if d \<le> 0 then 0
      else (let seconds = d div 1000000000 in if seconds \<le> 0 then 1 else seconds))"

definition newRiskEvent :: "alertEvent \<Rightarrow> riskBucket \<Rightarrow> int \<Rightarrow> int \<Rightarrow> int \<Rightarrow> alertEvent" where
  "newRiskEvent base bucket window alertThreshold responseThreshold =
     (let score = bk_Score bucket;
          severity = (if 0 < responseThreshold \<and> responseThreshold \<le> score then ''high'' else ''medium'');
          meta = (case ev_Meta base of None \<Rightarrow> [] | Some m \<Rightarrow> m);
          meta = AList.update ''risk.key'' (bk_Key bucket) meta;
          meta = AList.update ''risk.key_type'' (bk_KeyType bucket) meta;
          meta = AList.update ''risk.score'' (strconv_Itoa score) meta in
      base\<lparr>ev_Type := ''risk'', ev_Rule := ''risk'', ev_Severity := severity,
           ev_Risk := Some \<lparr>rd_Key = bk_Key bucket, rd_KeyType = bk_KeyType bucket, rd_Score = score,
                           rd_WindowSeconds = durationSeconds window, rd_AlertThreshold = alertThreshold,
                           rd_ResponseThreshold = responseThreshold, rd_Hits = bk_Hits bucket\<rparr>,
           ev_Meta := Some meta\<rparr>)"

definition bucketID :: "string \<times> string \<Rightarrow> string" where
  "bucketID k = fst k @ [CHR 0x00] @ snd k"

definition get_bucket :: "riskAggregator \<Rightarrow> string \<times> string \<Rightarrow> riskBucket" where
  "get_bucket r k =
     (case map_of (ra_buckets r) (bucketID k) of
        Some b \<Rightarrow> b
      | None \<Rightarrow> \<lparr>bk_Key = snd k, bk_KeyType = fst k, bk_Hits = [], bk_Score = 0, bk_AlertSent = False, bk_ResponseSent = False\<rparr>)"

definition prune :: "int \<Rightarrow> int \<Rightarrow> riskBucket \<Rightarrow> riskBucket" where
  "prune window now b =
     (let kept = filter (\<lambda>h. \<not> rh_Time h < now - window) (bk_Hits b) in
      b\<lparr>bk_Hits := kept, bk_Score := sum_list (map rh_Weight kept)\<rparr>)"

text \<open>The bucket after a hit, and whether the thresholds for an alert and for quarantine were crossed.\<close>

definition hit_bucket :: "riskAggregator \<Rightarrow> riskHit \<Rightarrow> riskBucket \<Rightarrow> riskBucket \<times> bool \<times> bool" where
  "hit_bucket r hit b =
     (let thA = ra_alertThreshold r; thR = ra_responseThreshold r;
          b = prune (ra_window r) (rh_Time hit) b;
          b = (if 0 < thA \<and> bk_Score b < thA then b\<lparr>bk_AlertSent := False\<rparr> else b);
          b = (if 0 < thR \<and> bk_Score b < thR then b\<lparr>bk_ResponseSent := False\<rparr> else b);
          b = b\<lparr>bk_Hits := bk_Hits b @ [hit], bk_Score := bk_Score b + rh_Weight hit\<rparr>;
          alertCrossed = (0 < thA \<and> thA \<le> bk_Score b \<and> \<not> bk_AlertSent b);
          responseCrossed = (0 < thR \<and> thR \<le> bk_Score b \<and> \<not> bk_ResponseSent b);
          b = (if alertCrossed then b\<lparr>bk_AlertSent := True\<rparr> else b);
          b = (if responseCrossed then b\<lparr>bk_ResponseSent := True\<rparr> else b) in
      (b, alertCrossed, responseCrossed))"

definition risk_Add :: "riskAggregator option \<Rightarrow> int \<Rightarrow> alertEvent \<Rightarrow> risk_effect list \<times> riskAggregator option" where
  "risk_Add ro now event =
     (case ro of
        None \<Rightarrow> ([], None)
      | Some r \<Rightarrow>
          (let key = riskAggregationKey event; weight = ruleWeight r (ev_Rule event) in
           if snd key = [] then ([], Some r)
           else if weight \<le> 0 then ([], Some r)
           else
             (let event = event\<lparr>ev_Time := now\<rparr>;
                  hit = \<lparr>rh_Time = now, rh_Rule = ev_Rule event, rh_Severity = ev_Severity event,
                         rh_ID = ev_ID event, rh_Weight = weight\<rparr>;
                  (b, alertCrossed, responseCrossed) = hit_bucket r hit (get_bucket r key);
                  riskEvent = newRiskEvent event b (ra_window r) (ra_alertThreshold r) (ra_responseThreshold r) in
              ((if (alertCrossed \<or> responseCrossed) \<and> ra_metrics r then [IncRiskEvent (ev_Severity riskEvent)] else [])
               @ (if alertCrossed \<and> ra_alert r then [EmitAlert riskEvent] else [])
               @ (if responseCrossed \<and> ra_response r then [Quarantine riskEvent] else []),
               Some (r\<lparr>ra_buckets := AList.update (bucketID key) b (ra_buckets r)\<rparr>)))))"

definition risk_BucketCount :: "riskAggregator option \<Rightarrow> int \<Rightarrow> nat \<times> riskAggregator option" where
  "risk_BucketCount ro now =
     (case ro of
        None \<Rightarrow> (0, None)
      | Some r \<Rightarrow>
          (let bs = filter (\<lambda>(id, b). bk_Hits b \<noteq> []) (map (\<lambda>(id, b). (id, prune (ra_window r) now b)) (ra_buckets r)) in
           (length bs, Some (r\<lparr>ra_buckets := bs\<rparr>))))"

section \<open>The specification: a history of hits\<close>

text \<open>
  Every hit that counted, with the bucket it counted for, in order and never forgotten; the score
  of a bucket is the weight of its hits that lie in the window. A run of the aggregator with its
  history and the time of its last call; the clock does not go backwards.
\<close>

type_synonym history = "(string \<times> riskHit) list"

definition hits_of :: "history \<Rightarrow> string \<Rightarrow> riskHit list" where
  "hits_of hist bid = map snd (filter (\<lambda>p. fst p = bid) hist)"

definition window_hits :: "int \<Rightarrow> int \<Rightarrow> riskHit list \<Rightarrow> riskHit list" where
  "window_hits window now hs = filter (\<lambda>h. \<not> rh_Time h < now - window) hs"

definition weight_of :: "riskHit list \<Rightarrow> int" where
  "weight_of hs = sum_list (map rh_Weight hs)"

fun add_history :: "riskAggregator \<Rightarrow> int \<Rightarrow> alertEvent \<Rightarrow> history" where
  "add_history r now event =
     (let key = riskAggregationKey event; weight = ruleWeight r (ev_Rule event) in
      if snd key = [] \<or> weight \<le> 0 then []
      else [(bucketID key, \<lparr>rh_Time = now, rh_Rule = ev_Rule event, rh_Severity = ev_Severity event,
                            rh_ID = ev_ID event, rh_Weight = weight\<rparr>)])"

inductive risk_run :: "history \<Rightarrow> int \<Rightarrow> riskAggregator \<Rightarrow> bool" where
  start: "newRiskAggregator config alert response = Inr (Some r) \<Longrightarrow> risk_run [] t (r\<lparr>ra_metrics := m\<rparr>)"
| add: "risk_run hist t r \<Longrightarrow> t \<le> now \<Longrightarrow> risk_Add (Some r) now event = (es, Some r') \<Longrightarrow>
     risk_run (hist @ add_history r now event) now r'"
| count: "risk_run hist t r \<Longrightarrow> t \<le> now \<Longrightarrow> risk_BucketCount (Some r) now = (n, Some r') \<Longrightarrow> risk_run hist now r'"

section \<open>The buckets refine the history\<close>

definition bucket_ok :: "riskAggregator \<Rightarrow> riskBucket \<Rightarrow> bool" where
  "bucket_ok r b \<longleftrightarrow> bk_Score b = weight_of (bk_Hits b) \<and> (\<forall>h \<in> set (bk_Hits b). 0 < rh_Weight h)
     \<and> (0 < ra_alertThreshold r \<and> ra_alertThreshold r \<le> bk_Score b \<longrightarrow> bk_AlertSent b)
     \<and> (0 < ra_responseThreshold r \<and> ra_responseThreshold r \<le> bk_Score b \<longrightarrow> bk_ResponseSent b)"

definition bucket_hits :: "riskAggregator \<Rightarrow> string \<Rightarrow> riskHit list" where
  "bucket_hits r bid = (case map_of (ra_buckets r) bid of None \<Rightarrow> [] | Some b \<Rightarrow> bk_Hits b)"

definition risk_inv :: "history \<Rightarrow> int \<Rightarrow> riskAggregator \<Rightarrow> bool" where
  "risk_inv hist t r \<longleftrightarrow> distinct (map fst (ra_buckets r))
     \<and> (\<forall>bid b. map_of (ra_buckets r) bid = Some b \<longrightarrow> bucket_ok r b)
     \<and> (\<forall>now bid. t \<le> now \<longrightarrow> window_hits (ra_window r) now (bucket_hits r bid) = window_hits (ra_window r) now (hits_of hist bid))"

lemma window_hits_later [simp]: "t \<le> now \<Longrightarrow> window_hits w now (window_hits w t hs) = window_hits w now hs"
  by (induction hs) (auto simp: window_hits_def)

lemma window_hits_append [simp]: "window_hits w now (a @ b) = window_hits w now a @ window_hits w now b"
  by (simp add: window_hits_def)

lemma weight_of_window: "\<forall>h \<in> set hs. 0 < rh_Weight h \<Longrightarrow> weight_of (window_hits w now hs) \<le> weight_of hs"
  by (induction hs) (auto simp: weight_of_def window_hits_def)

lemma prune_conv: "prune w now b = b\<lparr>bk_Hits := window_hits w now (bk_Hits b), bk_Score := weight_of (window_hits w now (bk_Hits b))\<rparr>"
  by (simp add: prune_def window_hits_def weight_of_def Let_def)

lemma hit_bucket_conv:
  fixes r hit b
  defines "hs \<equiv> window_hits (ra_window r) (rh_Time hit) (bk_Hits b)"
  defines "a \<equiv> bk_AlertSent b \<and> \<not> (0 < ra_alertThreshold r \<and> weight_of hs < ra_alertThreshold r)"
    and "q \<equiv> bk_ResponseSent b \<and> \<not> (0 < ra_responseThreshold r \<and> weight_of hs < ra_responseThreshold r)"
  defines "ac \<equiv> 0 < ra_alertThreshold r \<and> ra_alertThreshold r \<le> weight_of hs + rh_Weight hit \<and> \<not> a"
    and "rc \<equiv> 0 < ra_responseThreshold r \<and> ra_responseThreshold r \<le> weight_of hs + rh_Weight hit \<and> \<not> q"
  shows "hit_bucket r hit b =
     (b\<lparr>bk_Hits := hs @ [hit], bk_Score := weight_of hs + rh_Weight hit,
        bk_AlertSent := a \<or> ac, bk_ResponseSent := q \<or> rc\<rparr>, ac, rc)"
proof -
  have upd: "(if c then x\<lparr>bk_AlertSent := v\<rparr> else x) = x\<lparr>bk_AlertSent := (if c then v else bk_AlertSent x)\<rparr>"
    "(if c then x\<lparr>bk_ResponseSent := v\<rparr> else x) = x\<lparr>bk_ResponseSent := (if c then v else bk_ResponseSent x)\<rparr>"
    for c v and x :: riskBucket by simp_all
  show ?thesis
    unfolding hit_bucket_def Let_def upd prune_conv
    by (auto simp: hs_def [symmetric] a_def q_def ac_def rc_def)
qed

lemma hit_bucket_ok:
  assumes "bucket_ok r b" "0 < rh_Weight hit" "hit_bucket r hit b = (b', ac, rc)"
  defines "s \<equiv> weight_of (window_hits (ra_window r) (rh_Time hit) (bk_Hits b))"
  shows "bucket_ok r b'" and "bk_Hits b' = window_hits (ra_window r) (rh_Time hit) (bk_Hits b) @ [hit]"
    and "bk_Score b' = s + rh_Weight hit"
    and "ac \<longleftrightarrow> 0 < ra_alertThreshold r \<and> s < ra_alertThreshold r \<and> ra_alertThreshold r \<le> s + rh_Weight hit"
    and "rc \<longleftrightarrow> 0 < ra_responseThreshold r \<and> s < ra_responseThreshold r \<and> ra_responseThreshold r \<le> s + rh_Weight hit"
proof -
  have "s \<le> bk_Score b"
    using assms(1) weight_of_window unfolding bucket_ok_def s_def by metis
  then have sent: "0 < ra_alertThreshold r \<and> ra_alertThreshold r \<le> s \<longrightarrow> bk_AlertSent b"
    "0 < ra_responseThreshold r \<and> ra_responseThreshold r \<le> s \<longrightarrow> bk_ResponseSent b"
    using assms(1) by (auto simp: bucket_ok_def)
  define hs where "hs = window_hits (ra_window r) (rh_Time hit) (bk_Hits b)"
  note hb = assms(3) [unfolded hit_bucket_conv, folded hs_def]
  have s: "s = weight_of hs" by (simp add: s_def hs_def)
  show hits: "bk_Hits b' = window_hits (ra_window r) (rh_Time hit) (bk_Hits b) @ [hit]"
    using hb by (auto simp: hs_def)
  show score: "bk_Score b' = s + rh_Weight hit"
    using hb by (auto simp: s)
  show "ac \<longleftrightarrow> 0 < ra_alertThreshold r \<and> s < ra_alertThreshold r \<and> ra_alertThreshold r \<le> s + rh_Weight hit"
    "rc \<longleftrightarrow> 0 < ra_responseThreshold r \<and> s < ra_responseThreshold r \<and> ra_responseThreshold r \<le> s + rh_Weight hit"
    using hb sent by (auto simp: s)
  have "0 < ra_alertThreshold r \<and> ra_alertThreshold r \<le> bk_Score b' \<longrightarrow> bk_AlertSent b'"
    "0 < ra_responseThreshold r \<and> ra_responseThreshold r \<le> bk_Score b' \<longrightarrow> bk_ResponseSent b'"
    using hb by auto
  moreover have "\<forall>h \<in> set (bk_Hits b'). 0 < rh_Weight h"
    using assms(1,2) by (auto simp: hits bucket_ok_def window_hits_def)
  ultimately show "bucket_ok r b'"
    by (simp add: bucket_ok_def score) (simp add: hits weight_of_def s_def)
qed

lemma get_bucket_hits: "bk_Hits (get_bucket r k) = bucket_hits r (bucketID k)"
  by (simp add: get_bucket_def bucket_hits_def split: option.split)

lemma get_bucket_ok: "risk_inv hist t r \<Longrightarrow> bucket_ok r (get_bucket r k)"
  by (auto simp: risk_inv_def get_bucket_def bucket_ok_def weight_of_def split: option.split)

lemma map_of_filter_map:
  "distinct (map fst bs) \<Longrightarrow>
     map_of (filter (\<lambda>(bid, b). P b) (map (\<lambda>(bid, b). (bid, f b)) bs)) bid =
       (case map_of bs bid of None \<Rightarrow> None | Some b \<Rightarrow> if P (f b) then Some (f b) else None)"
proof (induction bs)
  case (Cons p bs)
  then have "bid = fst p \<Longrightarrow> map_of bs bid = None" by (auto simp: map_of_eq_None_iff)
  then show ?case using Cons by (cases p) (auto split: option.split)
qed simp

lemma risk_inv_count:
  assumes "risk_inv hist t r" "t \<le> now" "risk_BucketCount (Some r) now = (n, Some r')"
  shows "risk_inv hist now r'"
proof -
  define bs where "bs = filter (\<lambda>(bid, b). bk_Hits b \<noteq> []) (map (\<lambda>(bid, b). (bid, prune (ra_window r) now b)) (ra_buckets r))"
  have d: "distinct (map fst (ra_buckets r))" using assms(1) by (simp add: risk_inv_def)
  have r': "r' = r\<lparr>ra_buckets := bs\<rparr>" using assms(3) by (simp add: risk_BucketCount_def Let_def bs_def)
  have "map fst (map (\<lambda>(bid, b). (bid, prune (ra_window r) now b)) (ra_buckets r)) = map fst (ra_buckets r)"
    by (simp add: case_prod_unfold)
  then have dist: "distinct (map fst bs)" using d unfolding bs_def by (metis distinct_map_filter)
  have lookup: "map_of bs bid = (case map_of (ra_buckets r) bid of None \<Rightarrow> None
      | Some b \<Rightarrow> if bk_Hits (prune (ra_window r) now b) \<noteq> [] then Some (prune (ra_window r) now b) else None)" for bid
    unfolding bs_def by (rule map_of_filter_map [OF d])
  have hits: "bucket_hits r' bid = window_hits (ra_window r) now (bucket_hits r bid)" for bid
    unfolding bucket_hits_def r' by (simp add: lookup prune_conv window_hits_def split: option.split)
  have "bucket_ok r' b" if b: "map_of bs bid = Some b" for bid b
  proof -
    obtain c where c: "map_of (ra_buckets r) bid = Some c" "b = prune (ra_window r) now c"
      using b by (auto simp: lookup split: option.splits if_splits)
    then have ok: "bucket_ok r c" using assms(1) by (auto simp: risk_inv_def)
    then have "weight_of (window_hits (ra_window r) now (bk_Hits c)) \<le> bk_Score c"
      using weight_of_window unfolding bucket_ok_def by metis
    then show ?thesis using ok unfolding bucket_ok_def r' c(2) prune_conv by (auto simp: window_hits_def)
  qed
  then show ?thesis
    using assms(1,2) dist hits unfolding risk_inv_def by (simp add: r')
qed

lemma risk_Add_step:
  assumes "risk_inv hist t r" "t \<le> now" "risk_Add (Some r) now event = (es, Some r')"
  shows "risk_inv (hist @ add_history r now event) now r'"
proof (cases "snd (riskAggregationKey event) = [] \<or> ruleWeight r (ev_Rule event) \<le> 0")
  case True
  then have "r' = r" "add_history r now event = []"
    using assms(3) by (auto simp: risk_Add_def Let_def split: if_splits)
  then show ?thesis using assms(1,2) by (auto simp: risk_inv_def)
next
  case False
  let ?k = "riskAggregationKey event"
  let ?hit = "\<lparr>rh_Time = now, rh_Rule = ev_Rule event, rh_Severity = ev_Severity event, rh_ID = ev_ID event,
               rh_Weight = ruleWeight r (ev_Rule event)\<rparr>"
  obtain b ac rc where hb: "hit_bucket r ?hit (get_bucket r ?k) = (b, ac, rc)" by (metis prod_cases3)
  have r': "r' = r\<lparr>ra_buckets := AList.update (bucketID ?k) b (ra_buckets r)\<rparr>"
    using assms(3) False hb by (simp add: risk_Add_def Let_def)
  have hist: "add_history r now event = [(bucketID ?k, ?hit)]" using False by (simp add: Let_def)
  have w: "0 < rh_Weight ?hit" using False by simp
  note ok = hit_bucket_ok [OF get_bucket_ok [OF assms(1), of ?k] w hb]
  have "distinct (map fst (ra_buckets r'))" using assms(1) by (simp add: r' risk_inv_def distinct_update)
  moreover have "bucket_ok r' c" if "map_of (ra_buckets r') bid = Some c" for bid c
    using that ok(1) assms(1) by (auto simp: r' risk_inv_def update_conv' bucket_ok_def split: if_splits)
  moreover have "window_hits (ra_window r) now' (bucket_hits r' bid) = window_hits (ra_window r) now' (hits_of (hist @ [(bucketID ?k, ?hit)]) bid)"
    if "now \<le> now'" for now' bid
  proof (cases "bid = bucketID ?k")
    case True
    have "window_hits (ra_window r) now' (bucket_hits r bid) = window_hits (ra_window r) now' (hits_of hist bid)"
      using assms(1,2) that by (simp add: risk_inv_def)
    moreover have "bucket_hits r' bid = bk_Hits b" by (simp add: bucket_hits_def r' True update_conv')
    ultimately show ?thesis
      using ok(2) that True by (simp add: get_bucket_hits hits_of_def)
  next
    case no: False
    then have "bucket_hits r' bid = bucket_hits r bid" by (simp add: bucket_hits_def r' update_conv')
    then show ?thesis using assms(1,2) that no by (simp add: risk_inv_def hits_of_def)
  qed
  ultimately show ?thesis unfolding risk_inv_def hist by (simp add: r')
qed

lemma risk_run_inv: "risk_run hist t r \<Longrightarrow> risk_inv hist t r"
proof (induction rule: risk_run.induct)
  case (start config alert response r t m)
  then show ?case
    by (auto simp: newRiskAggregator_def risk_inv_def bucket_hits_def hits_of_def split: if_splits)
next
  case (add hist t r now event es r')
  then show ?case using risk_Add_step by blast
next
  case (count hist t r now n r')
  then show ?case using risk_inv_count by blast
qed

text \<open>
  C15. The buckets implement the history: an event raises an alert, or a quarantine, exactly if
  the weights of the hits of its key within the window were below the threshold before it and
  reach it with it, and the event that is sent carries just these hits and their sum.
\<close>

theorem risk_threshold_crossing:
  assumes "risk_run hist t r" "t \<le> now" "risk_Add (Some r) now event = (es, Some r')"
    and "add_history r now event = [(bid, hit)]"
  defines "recent \<equiv> window_hits (ra_window r) now (hits_of hist bid)"
  shows "((\<exists>e. EmitAlert e \<in> set es) \<longleftrightarrow> ra_alert r \<and> 0 < ra_alertThreshold r
             \<and> weight_of recent < ra_alertThreshold r \<and> ra_alertThreshold r \<le> weight_of (recent @ [hit]))
     \<and> ((\<exists>e. Quarantine e \<in> set es) \<longleftrightarrow> ra_response r \<and> 0 < ra_responseThreshold r
             \<and> weight_of recent < ra_responseThreshold r \<and> ra_responseThreshold r \<le> weight_of (recent @ [hit]))
     \<and> (\<forall>e. EmitAlert e \<in> set es \<or> Quarantine e \<in> set es \<longrightarrow>
             (\<exists>d. ev_Risk e = Some d \<and> rd_Score d = weight_of (recent @ [hit]) \<and> rd_Hits d = recent @ [hit]))"
proof -
  have inv: "risk_inv hist t r" by (rule risk_run_inv [OF assms(1)])
  let ?k = "riskAggregationKey event"
  have False': "\<not> (snd ?k = [] \<or> ruleWeight r (ev_Rule event) \<le> 0)" and bid: "bid = bucketID ?k"
    and hit: "hit = \<lparr>rh_Time = now, rh_Rule = ev_Rule event, rh_Severity = ev_Severity event, rh_ID = ev_ID event,
               rh_Weight = ruleWeight r (ev_Rule event)\<rparr>"
    using assms(4) by (auto simp: Let_def split: if_splits)
  obtain b ac rc where hb: "hit_bucket r hit (get_bucket r ?k) = (b, ac, rc)" by (metis prod_cases3)
  have w: "0 < rh_Weight hit" using False' by (simp add: hit)
  note ok = hit_bucket_ok [OF get_bucket_ok [OF inv, of ?k] w hb]
  have recent: "window_hits (ra_window r) (rh_Time hit) (bk_Hits (get_bucket r ?k)) = recent"
    using inv assms(2) by (simp add: recent_def risk_inv_def get_bucket_hits bid hit)
  have s: "weight_of (recent @ [hit]) = weight_of recent + rh_Weight hit" by (simp add: weight_of_def)
  define re where "re = newRiskEvent (event\<lparr>ev_Time := now\<rparr>) b (ra_window r) (ra_alertThreshold r) (ra_responseThreshold r)"
  have es: "es = (if (ac \<or> rc) \<and> ra_metrics r then [IncRiskEvent (ev_Severity re)] else [])
               @ (if ac \<and> ra_alert r then [EmitAlert re] else [])
               @ (if rc \<and> ra_response r then [Quarantine re] else [])"
    using assms(3) False' hb unfolding re_def by (auto simp: risk_Add_def Let_def hit split del: if_split)
  have "ev_Risk re = Some d \<longrightarrow> rd_Score d = bk_Score b \<and> rd_Hits d = bk_Hits b" for d
    by (auto simp: re_def newRiskEvent_def Let_def)
  moreover have "ev_Risk re \<noteq> None" by (simp add: re_def newRiskEvent_def Let_def)
  ultimately have d: "\<exists>d. ev_Risk re = Some d \<and> rd_Score d = weight_of (recent @ [hit]) \<and> rd_Hits d = recent @ [hit]"
    using ok(2,3) recent s by auto
  show ?thesis
    using ok(4,5) d unfolding es recent s by (auto split: if_splits)
qed

text \<open>What the gauge of the metrics counts.\<close>

lemma length_filter_buckets:
  "distinct (map fst bs) \<Longrightarrow>
     length (filter (\<lambda>(bid, b). P b) (map (\<lambda>(bid, b). (bid, f b)) bs))
       = card {bid. \<exists>b. map_of bs bid = Some b \<and> P (f b)}"
proof -
  let ?l = "filter (\<lambda>(bid, b). P b) (map (\<lambda>(bid, b). (bid, f b)) bs)"
  assume d: "distinct (map fst bs)"
  have "map fst (map (\<lambda>(bid, b). (bid, f b)) bs) = map fst bs" by (simp add: case_prod_unfold)
  then have dl: "distinct (map fst ?l)" using d by (metis distinct_map_filter)
  have "{bid. \<exists>b. map_of bs bid = Some b \<and> P (f b)} = dom (map_of ?l)"
    by (auto simp: map_of_filter_map [OF d] split: option.splits if_splits)
  also have "card \<dots> = length ?l"
    using dl by (metis distinct_card dom_map_of_conv_image_fst length_map list.set_map)
  finally show ?thesis by simp
qed

lemma bucket_count_active:
  assumes "risk_run hist t r" "t \<le> now"
  shows "fst (risk_BucketCount (Some r) now) = card {bid. window_hits (ra_window r) now (hits_of hist bid) \<noteq> []}"
proof -
  have inv: "risk_inv hist t r" by (rule risk_run_inv [OF assms(1)])
  then have "window_hits (ra_window r) now (hits_of hist bid) \<noteq> [] \<longleftrightarrow>
      (\<exists>b. map_of (ra_buckets r) bid = Some b \<and> bk_Hits (prune (ra_window r) now b) \<noteq> [])" for bid
  proof -
    have "window_hits (ra_window r) now (hits_of hist bid) = window_hits (ra_window r) now (bucket_hits r bid)"
      using inv assms(2) by (simp add: risk_inv_def)
    then show ?thesis
      by (simp only: bucket_hits_def) (cases "map_of (ra_buckets r) bid", simp_all add: prune_conv window_hits_def)
  qed
  then show ?thesis
    using inv length_filter_buckets [of "ra_buckets r" "\<lambda>b. bk_Hits b \<noteq> []" "prune (ra_window r) now"]
    by (simp add: risk_BucketCount_def Let_def risk_inv_def)
qed

section \<open>Instance\<close>

definition demo_risk :: riskAggregator where
  "demo_risk = \<lparr>ra_window = 100, ra_alertThreshold = 2, ra_responseThreshold = 3, ra_weights = Some [(''r'', 2)],
     ra_alert = True, ra_response = True, ra_metrics = False, ra_buckets = []\<rparr>"

lemma demo_risk_run: "risk_run [] 0 demo_risk"
proof -
  have "newRiskAggregator \<lparr>crk_Enabled = True, crk_Window = 100, crk_AlertThreshold = 2, crk_ResponseThreshold = 3,
      crk_Weights = Some [(''r'', 2)]\<rparr> True True = Inr (Some demo_risk)"
    by (simp add: newRiskAggregator_def demo_risk_def)
  from risk_run.start [OF this, of 0 False] show ?thesis by (simp add: demo_risk_def)
qed

theorem risk_threshold_crossing_witness:
  "\<exists>es r' e. risk_Add (Some demo_risk) 5 (sni_event ''a'') = (es, Some r') \<and> EmitAlert e \<in> set es \<and> (\<forall>e. Quarantine e \<notin> set es)"
proof -
  obtain es r' where add: "risk_Add (Some demo_risk) 5 (sni_event ''a'') = (es, Some r')"
    by (cases "risk_Add (Some demo_risk) 5 (sni_event ''a'')")
      (auto simp: risk_Add_def Let_def demo_risk_def split: prod.splits if_splits)
  have key: "snd (riskAggregationKey (sni_event ''a'')) = ''10.0.0.1''" by code_simp
  have "ev_Rule (sni_event ''a'') = ''r''" by (simp add: sni_event_def newAlertEvent_def)
  then obtain bid hit where h: "add_history demo_risk 5 (sni_event ''a'') = [(bid, hit)]" "rh_Weight hit = 2"
    by (simp add: key Let_def ruleWeight_def demo_risk_def)
  show ?thesis
    using risk_threshold_crossing [OF demo_risk_run _ add h(1)] add h(2)
    by (auto simp: demo_risk_def hits_of_def window_hits_def weight_of_def)
qed

theorem bucket_count_active_witness: "fst (risk_BucketCount (Some demo_risk) 5) = 0"
  using bucket_count_active [OF demo_risk_run, of 5] by (simp add: hits_of_def window_hits_def)

end
