(* ===== verification/Response.thy ===== *)
theory Response
  imports Risk
begin

text \<open>
  \<open>cmd/response.go\<close>, \<open>cmd/ovs_quarantine.go\<close> and the queue of \<open>cmd/alert.go\<close>: quarantine of a machine
  by drop flows of Open vSwitch, the commands that undo it, and the events that wait to be sent.
  A queue is a list with a capacity and the goroutine that empties it is a step on its first
  element. The command runner is a parameter, the clock an argument; a command that was run is an
  effect. Stopping a queue, the timeout of a command and the HTTP request of an alert are left out.
\<close>

section \<open>Configuration\<close>

record cliConfigOVSResponse =
  co_Enabled :: bool
  co_Bridge :: string
  co_Rules :: "string list"
  co_MinSeverity :: string
  co_Ofctl :: string
  co_OpenFlow :: string
  co_Priority :: int
  co_Cookie :: string
  co_DeleteOnStart :: bool
  co_HardTimeout :: int
  co_IdleTimeout :: int
  co_Cooldown :: int
  co_QueueSize :: int
  co_CommandTimeout :: int
  co_RequireIdentity :: "bool option"

record ovsResponseSink =
  os_config :: cliConfigOVSResponse
  os_rules :: "string list"
  os_minSeverity :: int
  os_events :: "alertEvent list"
  os_last :: "string \<Rightarrow> int option"

datatype response_effect =
    RunCommand string "string list"
  | IncResponseApplied string
  | IncResponseFailed string

definition severityRank :: "string \<Rightarrow> int" where
  "severityRank severity =
     (let s = strings_ToLower (strings_TrimSpace severity) in
      if s = ''debug'' then 1
      else if s = ''info'' then 2
      else if s = ''low'' then 3
      else if s = ''medium'' then 4
      else if s = ''high'' then 5
      else if s = ''critical'' then 6
      else 0)"

section \<open>Commands\<close>

definition ovs_args :: "string \<Rightarrow> string list \<Rightarrow> string list" where
  "ovs_args openFlow args = (if openFlow \<noteq> [] then [''-O'', openFlow] else []) @ args"

definition ovsCommand :: "commandRunner \<Rightarrow> string \<Rightarrow> string \<Rightarrow> string list \<Rightarrow> string + bytes" where
  "ovsCommand runCommand ofctl openFlow args =
     (let fullArgs = ovs_args openFlow args; (output, err) = runCommand ofctl fullArgs in
      case err of
        Some err \<Rightarrow>
          Inl (ofctl @ '' '' @ strings_Join fullArgs '' '' @ '': '' @ err @ '': '' @ strings_TrimSpace (go_string output))
      | None \<Rightarrow> Inr output)"

definition command_of :: "cliConfigOVSResponse \<Rightarrow> string list \<Rightarrow> response_effect" where
  "command_of c args = RunCommand (co_Ofctl c) (ovs_args (co_OpenFlow c) args)"

definition addFlow_args :: "cliConfigOVSResponse \<Rightarrow> string \<Rightarrow> string list" where
  "addFlow_args c flow = [''add-flow'', co_Bridge c, flow]"

definition deleteCookieFlows_args :: "cliConfigOVSResponse \<Rightarrow> string list" where
  "deleteCookieFlows_args c = [''del-flows'', co_Bridge c, ''cookie='' @ co_Cookie c @ ''/-1'']"

definition dropFlow_parts :: "cliConfigOVSResponse \<Rightarrow> string \<Rightarrow> string \<Rightarrow> string list" where
  "dropFlow_parts c field mac =
     [''cookie='' @ co_Cookie c, ''priority='' @ strconv_Itoa (co_Priority c)]
     @ (if 0 < durationSeconds (co_HardTimeout c) then [''hard_timeout='' @ strconv_Itoa (durationSeconds (co_HardTimeout c))] else [])
     @ (if 0 < durationSeconds (co_IdleTimeout c) then [''idle_timeout='' @ strconv_Itoa (durationSeconds (co_IdleTimeout c))] else [])
     @ [field @ ''='' @ mac, ''actions=drop'']"

definition dropFlow :: "cliConfigOVSResponse \<Rightarrow> string \<Rightarrow> string \<Rightarrow> string" where
  "dropFlow c field mac = strings_Join (dropFlow_parts c field mac) '',''"

section \<open>The sink\<close>

definition default_config :: "cliConfigOVSResponse \<Rightarrow> cliConfigOVSResponse" where
  "default_config c =
     c\<lparr>co_Ofctl := (if co_Ofctl c = [] then ''ovs-ofctl'' else co_Ofctl c),
       co_Priority := (if co_Priority c \<le> 0 then 50000 else co_Priority c),
       co_Cookie := (if co_Cookie c = [] then ''0x4f474657'' else co_Cookie c),
       co_HardTimeout := (if co_HardTimeout c \<le> 0 then 30 * 60 * 1000000000 else co_HardTimeout c),
       co_Cooldown := (if co_Cooldown c \<le> 0 then 5 * 60 * 1000000000 else co_Cooldown c),
       co_QueueSize := (if co_QueueSize c \<le> 0 then 256 else co_QueueSize c),
       co_CommandTimeout := (if co_CommandTimeout c \<le> 0 then 3 * 1000000000 else co_CommandTimeout c)\<rparr>"

definition newResponseSink :: "cliConfigOVSResponse \<Rightarrow> string + (ovsResponseSink \<times> response_effect list) option" where
  "newResponseSink c =
     (let minSeverity = severityRank (co_MinSeverity c) in
      if \<not> co_Enabled c then Inr None
      else if co_Bridge c = [] then Inl ''response.ovs.bridge is required''
      else if co_MinSeverity c \<noteq> [] \<and> minSeverity = 0 then Inl ''response.ovs.minSeverity is invalid''
      else if co_Rules c = [] \<and> minSeverity = 0 then Inl ''response.ovs.rules or response.ovs.minSeverity is required''
      else
        (let ovsConfig = default_config c in
         Inr (Some (\<lparr>os_config = ovsConfig, os_rules = makeStringSet (co_Rules ovsConfig), os_minSeverity = minSeverity,
                     os_events = [], os_last = Map.empty\<rparr>,
                    if co_DeleteOnStart ovsConfig then [command_of ovsConfig (deleteCookieFlows_args ovsConfig)] else []))))"

definition shouldHandle :: "ovsResponseSink \<Rightarrow> alertEvent \<Rightarrow> bool" where
  "shouldHandle s event =
     (if ev_Rule event \<in> set (os_rules s) then True
      else if 0 < os_minSeverity s \<and> os_minSeverity s \<le> severityRank (ev_Severity event) then True
      else False)"

definition response_enqueue :: "ovsResponseSink \<Rightarrow> alertEvent \<Rightarrow> ovsResponseSink" where
  "response_enqueue s event =
     (if int (length (os_events s)) < co_QueueSize (os_config s) then s\<lparr>os_events := os_events s @ [event]\<rparr> else s)"

definition response_Emit :: "ovsResponseSink \<Rightarrow> alertEvent \<Rightarrow> ovsResponseSink" where
  "response_Emit s event = (if \<not> shouldHandle s event then s else response_enqueue s event)"

definition response_Quarantine :: "ovsResponseSink \<Rightarrow> alertEvent \<Rightarrow> ovsResponseSink" where
  "response_Quarantine s event = response_enqueue s event"

definition responseMAC :: "cliConfigOVSResponse \<Rightarrow> alertEvent \<Rightarrow> string + string" where
  "responseMAC c event =
     (let mac = normalizeMAC (meta_string (ev_Meta event) ''vm.mac'');
          requireIdentity = (case co_RequireIdentity c of None \<Rightarrow> True | Some b \<Rightarrow> b);
          mac = (if mac = [] \<and> \<not> requireIdentity then
                   (let mac = normalizeMAC (meta_string (ev_Meta event) ''l2.src'') in
                    if mac = [] then normalizeMAC (meta_string (ev_Meta event) ''l2.dst'') else mac)
                 else mac) in
      if mac = [] then Inl ''no vm.mac metadata on response event''
      else (case net_ParseMAC mac of
              None \<Rightarrow> Inl ''invalid response mac''
            | Some _ \<Rightarrow> Inr mac))"

text \<open>The flows of a machine, one after the other; the first that fails ends it.\<close>

fun add_flows :: "commandRunner \<Rightarrow> cliConfigOVSResponse \<Rightarrow> string \<Rightarrow> string list \<Rightarrow> string option \<times> response_effect list" where
  "add_flows run c mac [] = (None, [])"
| "add_flows run c mac (field # rest) =
     (let args = addFlow_args c (dropFlow c field mac) in
      case ovsCommand run (co_Ofctl c) (co_OpenFlow c) args of
        Inl err \<Rightarrow> (Some err, [command_of c args])
      | Inr _ \<Rightarrow> (let (err, es) = add_flows run c mac rest in (err, command_of c args # es)))"

definition response_handle ::
    "commandRunner \<Rightarrow> int \<Rightarrow> ovsResponseSink \<Rightarrow> alertEvent \<Rightarrow> string option \<times> response_effect list \<times> ovsResponseSink" where
  "response_handle run now s event =
     (case responseMAC (os_config s) event of
        Inl err \<Rightarrow> (Some err, [], s)
      | Inr mac \<Rightarrow>
          (if (case os_last s mac of None \<Rightarrow> False | Some prev \<Rightarrow> now - prev < co_Cooldown (os_config s)) then (None, [], s)
           else
             (let s = s\<lparr>os_last := (os_last s)(mac \<mapsto> now)\<rparr>;
                  (err, es) = add_flows run (os_config s) mac [''dl_src'', ''dl_dst''] in
              (err, (if err = None then es @ [IncResponseApplied ''ovs''] else es), s))))"

text \<open>One turn of the goroutine.\<close>

definition response_step :: "commandRunner \<Rightarrow> int \<Rightarrow> ovsResponseSink \<Rightarrow> response_effect list \<times> ovsResponseSink" where
  "response_step run now s =
     (case os_events s of
        [] \<Rightarrow> ([], s)
      | event # rest \<Rightarrow>
          (let (err, es, s) = response_handle run now (s\<lparr>os_events := rest\<rparr>) event in
           (if err = None then es else es @ [IncResponseFailed ''ovs''], s)))"

section \<open>The commands that undo a quarantine\<close>

record ovsQuarantineOptions =
  oq_bridge :: string
  oq_cookie :: string
  oq_mac :: string
  oq_ofctl :: string
  oq_openFlow :: string

definition cookieMatch :: "ovsQuarantineOptions \<Rightarrow> string" where
  "cookieMatch q = ''cookie='' @ oq_cookie q @ ''/-1''"

definition quarantine_command :: "ovsQuarantineOptions \<Rightarrow> string list \<Rightarrow> response_effect" where
  "quarantine_command q args = RunCommand (oq_ofctl q) (ovs_args (oq_openFlow q) args)"

definition quarantine_list :: "commandRunner \<Rightarrow> ovsQuarantineOptions \<Rightarrow> (string + string) \<times> response_effect list" where
  "quarantine_list run q =
     (let args = [''dump-flows'', oq_bridge q, cookieMatch q] in
      (case ovsCommand run (oq_ofctl q) (oq_openFlow q) args of
         Inl err \<Rightarrow> Inl err
       | Inr output \<Rightarrow>
           (let t = strings_TrimSpace (go_string output) in
            Inr (if t = [] then ''No OpenGFW quarantine flows on '' @ oq_bridge q @ '' for cookie '' @ oq_cookie q @ ''.'' @ [CHR 0x0A]
                 else ''OpenGFW quarantine flows on '' @ oq_bridge q @ '' for cookie '' @ oq_cookie q @ '':'' @ [CHR 0x0A] @ t @ [CHR 0x0A])),
       [quarantine_command q args]))"

fun release_flows ::
    "commandRunner \<Rightarrow> ovsQuarantineOptions \<Rightarrow> string \<Rightarrow> string list \<Rightarrow> string option \<times> response_effect list" where
  "release_flows run q mac [] = (None, [])"
| "release_flows run q mac (field # rest) =
     (let args = [''del-flows'', oq_bridge q, cookieMatch q @ '','' @ field @ ''='' @ mac] in
      case ovsCommand run (oq_ofctl q) (oq_openFlow q) args of
        Inl err \<Rightarrow> (Some err, [quarantine_command q args])
      | Inr _ \<Rightarrow> (let (err, es) = release_flows run q mac rest in (err, quarantine_command q args # es)))"

definition quarantine_release :: "commandRunner \<Rightarrow> ovsQuarantineOptions \<Rightarrow> (string + string) \<times> response_effect list" where
  "quarantine_release run q =
     (let mac = normalizeMAC (oq_mac q) in
      case net_ParseMAC mac of
        None \<Rightarrow> (Inl ''invalid mac'', [])
      | Some _ \<Rightarrow>
          (let (err, es) = release_flows run q mac [''dl_src'', ''dl_dst''] in
           (case err of
              Some e \<Rightarrow> Inl e
            | None \<Rightarrow> Inr (''Released OpenGFW quarantine flows for '' @ mac @ '' on '' @ oq_bridge q @ ''.'' @ [CHR 0x0A]), es)))"

definition quarantine_clear :: "commandRunner \<Rightarrow> ovsQuarantineOptions \<Rightarrow> (string + string) \<times> response_effect list" where
  "quarantine_clear run q =
     (let args = [''del-flows'', oq_bridge q, cookieMatch q] in
      (case ovsCommand run (oq_ofctl q) (oq_openFlow q) args of
         Inl err \<Rightarrow> Inl err
       | Inr _ \<Rightarrow> Inr (''Cleared OpenGFW quarantine flows on '' @ oq_bridge q @ '' for cookie '' @ oq_cookie q @ ''.'' @ [CHR 0x0A]),
       [quarantine_command q args]))"

section \<open>Which machine is cut off\<close>

lemma parsed_normalMAC:
  assumes "net_ParseMAC (normalizeMAC v) = Some m"
  obtains hw where "length hw \<in> {6, 8, 20}" "normalizeMAC v = HardwareAddr_String hw"
proof (cases v rule: normalizeMAC_cases)
  case 1
  then show ?thesis using assms by (simp add: net_ParseMAC_def)
next
  case (2 hw)
  then show ?thesis using that by blast
next
  case 3
  then show ?thesis using assms by simp
qed

lemma responseMAC_normal:
  assumes "responseMAC c event = Inr mac"
  obtains k hw where "k \<in> {''vm.mac'', ''l2.src'', ''l2.dst''}" "mac = normalizeMAC (meta_string (ev_Meta event) k)"
    "length hw \<in> {6, 8, 20}" "mac = HardwareAddr_String hw" "net_ParseMAC mac = Some hw"
proof -
  have "\<exists>k \<in> {''vm.mac'', ''l2.src'', ''l2.dst''}. mac = normalizeMAC (meta_string (ev_Meta event) k)"
    using assms by (auto simp: responseMAC_def Let_def split: if_splits option.splits)
  then obtain k where k: "k \<in> {''vm.mac'', ''l2.src'', ''l2.dst''}" "mac = normalizeMAC (meta_string (ev_Meta event) k)" by blast
  moreover obtain m where "net_ParseMAC mac = Some m"
    using assms by (auto simp: responseMAC_def Let_def split: if_splits option.splits)
  ultimately obtain hw where hw: "length hw \<in> {6, 8, 20}" "mac = HardwareAddr_String hw"
    using parsed_normalMAC by metis
  then have "net_ParseMAC mac = Some hw" using ParseMAC_String by simp
  then show ?thesis using that k hw by blast
qed

lemma ascii_letter_no_comma: "list_all (\<lambda>c. token_char c \<and> ascii_lower c = c \<and> c \<noteq> CHR '','') (HardwareAddr_String hw)"
proof -
  have "list_all (\<lambda>c. c \<noteq> CHR '','') (strings_Join (map hex_pair hw) '':'')"
  proof (induction hw)
    case (Cons b hw)
    have "hex_digit d \<noteq> CHR '',''" if "d < 16" for d
    proof
      assume "hex_digit d = CHR '',''"
      then have "(of_char (hex_digit d) :: nat) = of_char CHR '',''" by simp
      then show False using that by (auto simp: hex_digit_def of_char_of split: if_splits)
    qed
    then show ?case using Cons unat_div_16 [of b] by (cases hw) (auto simp: hex_pair_def)
  qed simp
  then show ?thesis
    using HardwareAddr_chars [of hw] by (simp add: HardwareAddr_String_def list_all_iff)
qed

lemma digits10_no_comma: "CHR '','' \<notin> set (digits10 n)"
proof (induction n rule: digits10.induct)
  case (1 n)
  have "CHR '','' \<noteq> digit_char d" if "d < 10" for d
  proof
    assume "CHR '','' = digit_char d"
    then have "digit_char d = CHR '',''" by simp
    then have "(of_char (digit_char d) :: nat) = of_char CHR '',''" by simp
    then show False using that by (simp add: digit_char_def of_char_of)
  qed
  then show ?case using 1 by (subst digits10.simps) auto
qed

lemma Itoa_no_comma: "CHR '','' \<notin> set (strconv_Itoa i)"
  using digits10_no_comma by (simp add: strconv_Itoa_def)

text \<open>
  C39. What a packet says about hardware addresses cannot add anything to the flow that is
  installed: read back at its commas, the flow has just the fields meant, the address among them
  being a hardware address of the event in its normal form.
\<close>

theorem dropFlow_fields:
  assumes "responseMAC c event = Inr mac" "CHR '','' \<notin> set (co_Cookie c)" "field \<in> {''dl_src'', ''dl_dst''}"
  shows "strings_Split (dropFlow c field mac) '','' = dropFlow_parts c field mac
     \<and> (\<exists>hw k. net_ParseMAC mac = Some hw \<and> k \<in> {''vm.mac'', ''l2.src'', ''l2.dst''}
           \<and> mac = normalizeMAC (meta_string (ev_Meta event) k))"
proof -
  obtain k hw where m: "k \<in> {''vm.mac'', ''l2.src'', ''l2.dst''}" "mac = normalizeMAC (meta_string (ev_Meta event) k)"
    "mac = HardwareAddr_String hw" "net_ParseMAC mac = Some hw"
    by (rule responseMAC_normal [OF assms(1)])
  have "CHR '','' \<notin> set mac" using ascii_letter_no_comma [of hw] by (auto simp: m(3) list_all_iff)
  then have "\<forall>s \<in> set (dropFlow_parts c field mac). CHR '','' \<notin> set s"
    using assms(2,3) Itoa_no_comma by (auto simp: dropFlow_parts_def)
  moreover have "dropFlow_parts c field mac \<noteq> []" by (simp add: dropFlow_parts_def)
  ultimately have "strings_Split (dropFlow c field mac) '','' = dropFlow_parts c field mac"
    unfolding dropFlow_def by (intro strings_Split_Join)
  then show ?thesis using m by blast
qed

section \<open>Rate and failure\<close>

text \<open>A failed command is not tried again until the cooldown is over, and nobody is told.\<close>

text \<open>
  C38. When a command that should install a flow fails, the next event for the same machine within
  the cooldown installs nothing and reports no error, although the machine is not quarantined.
\<close>

theorem failed_quarantine_not_retried:
  assumes "response_handle run now s event = (Some err, es, s')" "responseMAC (os_config s) event = Inr mac"
    and "responseMAC (os_config s) event' = Inr mac" "now' - now < co_Cooldown (os_config s)"
  shows "response_handle run' now' s' event' = (None, [], s')"
proof -
  have s': "s' = s\<lparr>os_last := (os_last s)(mac \<mapsto> now)\<rparr>"
    using assms(1,2) by (auto simp: response_handle_def Let_def split: if_splits prod.splits)
  then show ?thesis
    using assms(3,4) by (simp add: response_handle_def)
qed

text \<open>
  The sink over time: events arrive and are handled in any order, with any outcome of the commands.
  The trace lists the attempts, the time and the machine of each.
\<close>

definition attempts :: "commandRunner \<Rightarrow> int \<Rightarrow> ovsResponseSink \<Rightarrow> (int \<times> string) list" where
  "attempts run now s =
     (case os_events s of
        [] \<Rightarrow> []
      | event # rest \<Rightarrow>
          (case responseMAC (os_config s) event of
             Inl _ \<Rightarrow> []
           | Inr mac \<Rightarrow> if fst (snd (response_handle run now s event)) = [] then [] else [(now, mac)]))"

inductive response_run :: "cliConfigOVSResponse \<Rightarrow> (int \<times> string) list \<Rightarrow> int \<Rightarrow> ovsResponseSink \<Rightarrow> bool" for c where
  start: "newResponseSink c = Inr (Some (s, es)) \<Longrightarrow> response_run c [] t s"
| emit: "response_run c tr t s \<Longrightarrow> response_run c tr t (response_Emit s event)"
| quarantine: "response_run c tr t s \<Longrightarrow> response_run c tr t (response_Quarantine s event)"
| handle: "response_run c tr t s \<Longrightarrow> t \<le> now \<Longrightarrow> response_step run now s = (es, s') \<Longrightarrow>
     response_run c (tr @ attempts run now s) now s'"

definition spaced :: "int \<Rightarrow> (int \<times> string) list \<Rightarrow> bool" where
  "spaced cooldown = sorted_wrt (\<lambda>a b. snd a = snd b \<longrightarrow> cooldown \<le> fst b - fst a)"

definition response_inv :: "cliConfigOVSResponse \<Rightarrow> (int \<times> string) list \<Rightarrow> ovsResponseSink \<Rightarrow> bool" where
  "response_inv c tr s \<longleftrightarrow> os_config s = default_config c
     \<and> int (length (os_events s)) \<le> co_QueueSize (os_config s)
     \<and> spaced (co_Cooldown (os_config s)) tr
     \<and> (\<forall>a \<in> set tr. \<exists>last_time. os_last s (snd a) = Some last_time \<and> fst a \<le> last_time)"

lemma enqueue_inv: "response_inv c tr s \<Longrightarrow> response_inv c tr (response_enqueue s event)"
  by (auto simp: response_inv_def response_enqueue_def)

lemma handle_cases:
  assumes "response_handle run now s event = (err, es, s')"
  obtains e where "responseMAC (os_config s) event = Inl e" "es = []" "s' = s"
  | mac where "responseMAC (os_config s) event = Inr mac" "es = []" "s' = s"
  | mac where "responseMAC (os_config s) event = Inr mac" "es \<noteq> []" "s' = s\<lparr>os_last := (os_last s)(mac \<mapsto> now)\<rparr>"
      "\<forall>prev. os_last s mac = Some prev \<longrightarrow> co_Cooldown (os_config s) \<le> now - prev"
proof -
  have "snd (add_flows run c mac [''dl_src'', ''dl_dst'']) \<noteq> []" for c mac
    by (auto simp: Let_def split: sum.splits prod.splits)
  then show ?thesis
    using assms that
    by (auto simp: response_handle_def Let_def not_less split: sum.splits prod.splits if_splits option.splits)
qed

lemma response_run_inv: "response_run c tr t s \<Longrightarrow> response_inv c tr s \<and> (\<forall>mac x. os_last s mac = Some x \<longrightarrow> x \<le> t)"
proof (induction rule: response_run.induct)
  case (start s es t)
  then have "os_config s = default_config c" "os_events s = []" "os_last s = Map.empty"
    by (auto simp: newResponseSink_def Let_def split: if_splits)
  moreover have "0 \<le> co_QueueSize (default_config c)" by (simp add: default_config_def)
  ultimately show ?case by (simp add: response_inv_def spaced_def)
next
  case (emit tr t s event)
  then show ?case using enqueue_inv by (auto simp: response_Emit_def response_enqueue_def)
next
  case (quarantine tr t s event)
  then show ?case using enqueue_inv by (auto simp: response_Quarantine_def response_enqueue_def)
next
  case (handle tr t s now run es s')
  show ?case
  proof (cases "os_events s")
    case Nil
    then have "s' = s" "attempts run now s = []" using handle.hyps by (auto simp: response_step_def attempts_def)
    then show ?thesis using handle by force
  next
    case (Cons event rest)
    let ?s = "s\<lparr>os_events := rest\<rparr>"
    obtain err es0 where h: "response_handle run now ?s event = (err, es0, s')"
      using handle.hyps(3) Cons by (auto simp: response_step_def Let_def split: prod.splits)
    have es0: "fst (snd (response_handle run now s event)) = es0"
    proof -
      have "fst (snd (response_handle run now ?s event)) = fst (snd (response_handle run now s event))"
        by (simp add: response_handle_def Let_def split: sum.split prod.split option.split)
      then show ?thesis using h by simp
    qed
    have inv: "response_inv c tr ?s" using handle.IH Cons by (auto simp: response_inv_def)
    from h show ?thesis
    proof (cases rule: handle_cases)
      case (1 e)
      then have "attempts run now s = []" by (simp add: attempts_def Cons)
      then show ?thesis using inv 1 handle by force
    next
      case (2 mac)
      then have "attempts run now s = []" by (simp add: attempts_def Cons es0)
      then show ?thesis using inv 2 handle by force
    next
      case (3 mac)
      then have tr: "attempts run now s = [(now, mac)]" by (simp add: attempts_def Cons es0)
      have "spaced (co_Cooldown (os_config s)) (tr @ [(now, mac)])"
        using inv 3(4) by (fastforce simp: response_inv_def spaced_def sorted_wrt_append)
      moreover have "\<forall>a \<in> set (tr @ [(now, mac)]). \<exists>x. os_last s' (snd a) = Some x \<and> fst a \<le> x"
        using inv handle by (fastforce simp: response_inv_def 3(3))
      ultimately show ?thesis using inv handle tr by (force simp: response_inv_def 3(3))
    qed
  qed
qed

text \<open>
  C17. Over any sequence of events and any outcome of the commands, two attempts to quarantine the
  same machine are at least the cooldown apart, and the queue never holds more events than
  configured.
\<close>

theorem quarantine_attempts_spaced:
  assumes "response_run c tr t s"
  shows "spaced (co_Cooldown (default_config c)) tr \<and> int (length (os_events s)) \<le> co_QueueSize (default_config c)"
  using response_run_inv [OF assms] by (auto simp: response_inv_def)

section \<open>Installing and releasing\<close>

text \<open>The release command names the flows that the response installed, however the address is written.\<close>

lemma release_names_installed_flows:
  assumes "responseMAC (os_config s) event = Inr mac" "os_last s mac = None" "normalizeMAC (oq_mac q) = mac"
    and "\<And>name args. snd (run name args) = None"
  shows "fst (snd (response_handle run now s event)) =
       map (\<lambda>f. command_of (os_config s) [''add-flow'', co_Bridge (os_config s), dropFlow (os_config s) f mac]) [''dl_src'', ''dl_dst'']
       @ [IncResponseApplied ''ovs'']
     \<and> snd (quarantine_release run q) =
       map (\<lambda>f. quarantine_command q [''del-flows'', oq_bridge q, cookieMatch q @ '','' @ f @ ''='' @ mac]) [''dl_src'', ''dl_dst'']"
proof -
  have ok: "\<exists>out. ovsCommand run ofctl of_version args = Inr out" for ofctl of_version args
    using assms(4) [of ofctl "ovs_args of_version args"]
    by (cases "run ofctl (ovs_args of_version args)") (simp add: ovsCommand_def Let_def)
  have add: "add_flows run c mac fs = (None, map (\<lambda>f. command_of c (addFlow_args c (dropFlow c f mac))) fs)" for c fs
  proof (induction fs)
    case (Cons f fs)
    obtain out where "ovsCommand run (co_Ofctl c) (co_OpenFlow c) (addFlow_args c (dropFlow c f mac)) = Inr out" using ok by blast
    with Cons show ?case by (simp add: Let_def)
  qed simp
  have del: "release_flows run q mac fs =
      (None, map (\<lambda>f. quarantine_command q [''del-flows'', oq_bridge q, cookieMatch q @ '','' @ f @ ''='' @ mac]) fs)" for fs
  proof (induction fs)
    case (Cons f fs)
    obtain out where "ovsCommand run (oq_ofctl q) (oq_openFlow q)
        [''del-flows'', oq_bridge q, cookieMatch q @ '','' @ f @ ''='' @ mac] = Inr out" using ok by blast
    with Cons show ?case by (simp add: Let_def)
  qed simp
  obtain hw where "net_ParseMAC mac = Some hw" using responseMAC_normal [OF assms(1)] by metis
  then show ?thesis
    using assms(1,2,3) add del
    by (simp add: response_handle_def quarantine_release_def addFlow_args_def Let_def del: list.map add_flows.simps release_flows.simps)
qed

section \<open>Instances\<close>

definition demo_ovs :: cliConfigOVSResponse where
  "demo_ovs = \<lparr>co_Enabled = True, co_Bridge = ''br0'', co_Rules = [''r''], co_MinSeverity = [], co_Ofctl = [], co_OpenFlow = [],
     co_Priority = 0, co_Cookie = [], co_DeleteOnStart = False, co_HardTimeout = 0, co_IdleTimeout = 0, co_Cooldown = 0,
     co_QueueSize = 0, co_CommandTimeout = 0, co_RequireIdentity = None\<rparr>"

definition demo_sink :: ovsResponseSink where
  "demo_sink = \<lparr>os_config = default_config demo_ovs, os_rules = [''r''], os_minSeverity = 0, os_events = [], os_last = Map.empty\<rparr>"

definition vm_event :: alertEvent where
  "vm_event = (sni_event ''a'')\<lparr>ev_Meta := Some [(''vm.mac'', ''52:54:00:AA:BB:CC'')]\<rparr>"

definition no_ovs :: commandRunner where
  "no_ovs = (\<lambda>name args. ([], Some ''exit status 1''))"

definition fine_ovs :: commandRunner where
  "fine_ovs = (\<lambda>name args. ([], None))"

lemma demo_sink_new: "newResponseSink demo_ovs = Inr (Some (demo_sink, []))"
proof -
  have "severityRank [] = 0" "makeStringSet [''r''] = [''r'']" by code_simp+
  then show ?thesis
    by (simp add: newResponseSink_def demo_ovs_def demo_sink_def default_config_def Let_def)
qed

lemma vm_event_mac: "responseMAC (os_config demo_sink) vm_event = Inr ''52:54:00:aa:bb:cc''"
  by code_simp

theorem dropFlow_fields_witness:
  "strings_Split (dropFlow (os_config demo_sink) ''dl_src'' ''52:54:00:aa:bb:cc'') '',''
     = dropFlow_parts (os_config demo_sink) ''dl_src'' ''52:54:00:aa:bb:cc''"
  using dropFlow_fields [OF vm_event_mac, of "''dl_src''"] by (simp add: demo_sink_def default_config_def demo_ovs_def)

theorem failed_quarantine_not_retried_witness:
  "\<exists>err es s'. response_handle no_ovs 0 demo_sink vm_event = (Some err, es, s')
     \<and> response_handle fine_ovs 299999999999 s' vm_event = (None, [], s')"
proof -
  have "fst (response_handle no_ovs 0 demo_sink vm_event) \<noteq> None"
    by (simp add: response_handle_def vm_event_mac Let_def)
      (simp add: demo_sink_def no_ovs_def ovsCommand_def Let_def)
  then obtain err es s' where h: "response_handle no_ovs 0 demo_sink vm_event = (Some err, es, s')"
    by (cases "response_handle no_ovs 0 demo_sink vm_event") auto
  have "co_Cooldown (os_config demo_sink) = 300000000000"
    by (simp add: demo_sink_def default_config_def demo_ovs_def)
  then show ?thesis
    using h failed_quarantine_not_retried [OF h vm_event_mac vm_event_mac, of 299999999999 fine_ovs] by simp
qed

theorem quarantine_attempts_spaced_witness:
  "spaced (co_Cooldown (default_config demo_ovs)) (attempts fine_ovs 7 (response_Emit demo_sink vm_event))"
proof -
  obtain es s' where "response_step fine_ovs 7 (response_Emit demo_sink vm_event) = (es, s')" by fastforce
  from response_run.handle [OF response_run.emit [OF response_run.start [OF demo_sink_new, of 0]] _ this]
  have "response_run demo_ovs ([] @ attempts fine_ovs 7 (response_Emit demo_sink vm_event)) 7 s'" by simp
  from quarantine_attempts_spaced [OF this] show ?thesis by simp
qed

theorem release_names_installed_flows_witness:
  "snd (quarantine_release fine_ovs \<lparr>oq_bridge = ''br0'', oq_cookie = ''0x1'', oq_mac = ''5254.00AA.BBCC'', oq_ofctl = ''ovs-ofctl'', oq_openFlow = []\<rparr>)
     = map (\<lambda>f. quarantine_command \<lparr>oq_bridge = ''br0'', oq_cookie = ''0x1'', oq_mac = ''5254.00AA.BBCC'', oq_ofctl = ''ovs-ofctl'', oq_openFlow = []\<rparr>
         [''del-flows'', ''br0'', ''cookie=0x1/-1,'' @ f @ ''=52:54:00:aa:bb:cc'']) [''dl_src'', ''dl_dst'']"
proof -
  let ?q = "\<lparr>oq_bridge = ''br0'', oq_cookie = ''0x1'', oq_mac = ''5254.00AA.BBCC'', oq_ofctl = ''ovs-ofctl'', oq_openFlow = []\<rparr>"
  have "normalizeMAC (oq_mac ?q) = ''52:54:00:aa:bb:cc''" by code_simp
  from release_names_installed_flows [OF vm_event_mac _ this, of fine_ovs 0]
  show ?thesis by (simp add: demo_sink_def fine_ovs_def cookieMatch_def)
qed

end
