(* ===== verification/RuleLogger.thy ===== *)
theory RuleLogger
  imports Response Ruleset
begin

text \<open>
  \<open>rulesetLogger\<close> of \<open>cmd/root.go\<close>: what a rule that logs sets in motion. An event on the allowlist is
  flagged and goes no further than the alert queue; any other is queued for the webhook, counted by
  the risk aggregator and offered to the response. The aggregator's own alerts and quarantines reach
  the same queues. Also the webhook sink of \<open>cmd/alert.go\<close>, with the HTTP client as a parameter. Counters are effects.
\<close>

record cliConfigAlert =
  cal_WebhookURL :: string
  cal_QueueSize :: int
  cal_Timeout :: int
  cal_Headers :: "(string \<times> string) list"

record webhookAlertSink =
  wa_url :: string
  wa_headers :: "(string \<times> string) list"
  wa_timeout :: int
  wa_QueueSize :: int
  wa_events :: "alertEvent list"

datatype metric_effect =
    MRuleHit string string
  | MAlertDropped
  | MAllowlistSuppressed string
  | MRiskEvent string

definition defaultAlertTimeout :: int where "defaultAlertTimeout = 3 * 1000000000"

definition newAlertSink :: "cliConfigAlert \<Rightarrow> webhookAlertSink option" where
  "newAlertSink config =
     (if cal_WebhookURL config = [] then None
      else Some \<lparr>wa_url = cal_WebhookURL config, wa_headers = cal_Headers config,
                 wa_timeout = (if cal_Timeout config \<le> 0 then defaultAlertTimeout else cal_Timeout config),
                 wa_QueueSize = (if cal_QueueSize config \<le> 0 then 1024 else cal_QueueSize config), wa_events = []\<rparr>)"

definition alert_Emit :: "webhookAlertSink \<Rightarrow> alertEvent \<Rightarrow> metric_effect list \<times> webhookAlertSink" where
  "alert_Emit s event =
     (if int (length (wa_events s)) < wa_QueueSize s then ([], s\<lparr>wa_events := wa_events s @ [event]\<rparr>)
      else ([MAlertDropped], s))"

text \<open>
  What the sink does with an event of its queue. Turning the event into JSON, making a request and
  sending it are the parameters; a request has the header for JSON and those of the configuration.
\<close>

record http_request =
  hr_URL :: string
  hr_Header :: "(string \<times> string) list"
  hr_Body :: bytes
  hr_Timeout :: int

record alert_http =
  ah_Marshal :: "alertEvent \<Rightarrow> string + bytes"
  ah_URLError :: "string \<Rightarrow> string option"
  ah_Do :: "http_request \<Rightarrow> string + int"

datatype alert_log = SendFailed string string | StatusNotOk int string

text \<open>
  \<open>Header.Set\<close> of \<open>net/http\<close>: a name that is a token is written with a capital at the start and after
  each hyphen, any other is left as it is.
\<close>

definition header_char :: "char \<Rightarrow> bool" where
  "header_char c \<longleftrightarrow>
     (let n = (of_char c :: nat) in (48 \<le> n \<and> n \<le> 57) \<or> (65 \<le> n \<and> n \<le> 90) \<or> (97 \<le> n \<and> n \<le> 122))
   \<or> c \<in> set ''!#$%&*+-.^_|~'' \<or> c = CHR 0x27 \<or> c = CHR 0x60"

definition ascii_upper :: "char \<Rightarrow> char" where
  "ascii_upper c = (let n = (of_char c :: nat) in if 97 \<le> n \<and> n \<le> 122 then char_of (n - 32) else c)"

fun capitals :: "bool \<Rightarrow> string \<Rightarrow> string" where
  "capitals up [] = []"
| "capitals up (c # cs) = (if up then ascii_upper c else ascii_lower c) # capitals (c = CHR ''-'') cs"

definition CanonicalHeaderKey :: "string \<Rightarrow> string" where
  "CanonicalHeaderKey s = (if list_all header_char s then capitals True s else s)"

definition Header_Set :: "string \<Rightarrow> string \<Rightarrow> (string \<times> string) list \<Rightarrow> (string \<times> string) list" where
  "Header_Set k v h = AList.update (CanonicalHeaderKey k) v h"

definition alert_request :: "webhookAlertSink \<Rightarrow> bytes \<Rightarrow> http_request" where
  "alert_request s body =
     \<lparr>hr_URL = wa_url s, hr_Header = fold (\<lambda>(k, v). Header_Set k v) (wa_headers s) (Header_Set ''Content-Type'' ''application/json'' []),
      hr_Body = body, hr_Timeout = wa_timeout s\<rparr>"

lemma json_header:
  assumes "list_all (\<lambda>h. CanonicalHeaderKey (fst h) \<noteq> ''Content-Type'') (wa_headers s)"
  shows "map_of (hr_Header (alert_request s body)) ''Content-Type'' = Some ''application/json''"
proof -
  have "CanonicalHeaderKey ''Content-Type'' = ''Content-Type''" by code_simp
  then have first: "map_of (Header_Set ''Content-Type'' ''application/json'' []) ''Content-Type'' = Some ''application/json''"
    by (simp add: Header_Set_def)
  have "map_of (fold (\<lambda>(k, v). Header_Set k v) hs h) ''Content-Type'' = map_of h ''Content-Type''"
    if "list_all (\<lambda>h. CanonicalHeaderKey (fst h) \<noteq> ''Content-Type'') hs" for hs and h :: "(string \<times> string) list"
    using that by (induction hs arbitrary: h) (auto simp: Header_Set_def update_conv')
  from this [OF assms] first show ?thesis by (simp add: alert_request_def)
qed

text \<open>The error, or the warning of a status.\<close>

definition alert_post :: "alert_http \<Rightarrow> webhookAlertSink \<Rightarrow> alertEvent \<Rightarrow> string + alert_log list" where
  "alert_post h s event =
     (case ah_Marshal h event of
        Inl err \<Rightarrow> Inl err
      | Inr body \<Rightarrow>
          (case ah_URLError h (wa_url s) of
             Some err \<Rightarrow> Inl err
           | None \<Rightarrow>
               (case ah_Do h (alert_request s body) of
                  Inl err \<Rightarrow> Inl err
                | Inr status \<Rightarrow> Inr (if status < 200 \<or> 300 \<le> status then [StatusNotOk status (ev_Rule event)] else []))))"

text \<open>One turn of \<open>run\<close>: the oldest event is taken, whatever becomes of it.\<close>

fun alert_run_step :: "alert_http \<Rightarrow> webhookAlertSink \<Rightarrow> alert_log list \<times> webhookAlertSink" where
  "alert_run_step h s =
     (case wa_events s of
        [] \<Rightarrow> ([], s)
      | event # events \<Rightarrow>
          (case alert_post h s event of Inl err \<Rightarrow> [SendFailed (ev_Rule event) err] | Inr logs \<Rightarrow> logs, s\<lparr>wa_events := events\<rparr>))"

record rulesetLogger =
  rl_Alert :: "webhookAlertSink option"
  rl_Risk :: "riskAggregator option"
  rl_Response :: "ovsResponseSink option"
  rl_Allowlist :: "allowlist option"

definition logger_alert :: "alertEvent \<Rightarrow> rulesetLogger \<Rightarrow> metric_effect list \<times> rulesetLogger" where
  "logger_alert event l =
     (case rl_Alert l of
        None \<Rightarrow> ([], l)
      | Some s \<Rightarrow> (let (ms, s) = alert_Emit s event in (ms, l\<lparr>rl_Alert := Some s\<rparr>)))"

text \<open>The calls that the aggregator makes on the sinks it was given.\<close>

fun risk_calls :: "risk_effect list \<Rightarrow> rulesetLogger \<Rightarrow> metric_effect list \<times> rulesetLogger" where
  "risk_calls [] l = ([], l)"
| "risk_calls (IncRiskEvent severity # es) l = (let (ms, l) = risk_calls es l in (MRiskEvent severity # ms, l))"
| "risk_calls (EmitAlert event # es) l =
     (let (ms, l) = logger_alert event l; (ms', l) = risk_calls es l in (ms @ ms', l))"
| "risk_calls (Quarantine event # es) l =
     risk_calls es (l\<lparr>rl_Response := map_option (\<lambda>s. response_Quarantine s event) (rl_Response l)\<rparr>)"

definition logger_risk :: "int \<Rightarrow> alertEvent \<Rightarrow> rulesetLogger \<Rightarrow> metric_effect list \<times> rulesetLogger" where
  "logger_risk now event l =
     (let (es, risk) = risk_Add (rl_Risk l) now event in risk_calls es (l\<lparr>rl_Risk := risk\<rparr>))"

definition logger_response :: "alertEvent \<Rightarrow> rulesetLogger \<Rightarrow> rulesetLogger" where
  "logger_response event l = l\<lparr>rl_Response := map_option (\<lambda>s. response_Emit s event) (rl_Response l)\<rparr>"

definition rulesetLogger_Log ::
    "int \<Rightarrow> StreamInfo \<Rightarrow> string \<Rightarrow> string \<Rightarrow> rulesetLogger \<Rightarrow> metric_effect list \<times> rulesetLogger" where
  "rulesetLogger_Log now info name severity l =
     (let event = newAlertEvent now info name severity; m0 = [MRuleHit name severity] in
      case allowlist_Match (rl_Allowlist l) event of
        Some (reason, v) \<Rightarrow>
          (let event = event\<lparr>ev_Suppressed := True, ev_SuppressionReason := reason, ev_SuppressionValue := v\<rparr>;
               (ms, l) = (if allowlist_WebhookSuppressed (rl_Allowlist l) then logger_alert event l else ([], l)) in
           (m0 @ [MAllowlistSuppressed reason] @ ms, l))
      | None \<Rightarrow>
          (let (ms, l) = logger_alert event l;
               (ms', l) = logger_risk now event l in
           (m0 @ ms @ ms', logger_response event l)))"

text \<open>What a match of a stream logs, rule by rule; the errors of rules only reach the log file.\<close>

fun log_rules :: "int \<Rightarrow> StreamInfo \<Rightarrow> rule_event list \<Rightarrow> rulesetLogger \<Rightarrow> metric_effect list \<times> rulesetLogger" where
  "log_rules now info [] l = ([], l)"
| "log_rules now info (RuleLog name severity # es) l =
     (let (ms, l) = rulesetLogger_Log now info name severity l; (ms', l) = log_rules now info es l in (ms @ ms', l))"
| "log_rules now info (RuleMatchError name err # es) l = log_rules now info es l"

section \<open>Suppression\<close>

lemma logger_alert_other [simp]:
  "rl_Risk (snd (logger_alert event l)) = rl_Risk l" "rl_Response (snd (logger_alert event l)) = rl_Response l"
  "rl_Allowlist (snd (logger_alert event l)) = rl_Allowlist l"
  by (simp_all add: logger_alert_def case_prod_unfold Let_def split: option.split)

lemma Log_suppressed:
  assumes "allowlist_Match (rl_Allowlist l) (newAlertEvent now info name severity) \<noteq> None"
  shows "rl_Risk (snd (rulesetLogger_Log now info name severity l)) = rl_Risk l"
    and "rl_Response (snd (rulesetLogger_Log now info name severity l)) = rl_Response l"
    and "rl_Allowlist (snd (rulesetLogger_Log now info name severity l)) = rl_Allowlist l"
  using assms by (auto simp: rulesetLogger_Log_def Let_def case_prod_unfold)

text \<open>
  A stream whose events the allowlist covers, whatever the rule, raises no score and quarantines
  nobody, whatever rules the stream matches.
\<close>

lemma log_rules_suppressed:
  assumes "\<And>name severity. allowlist_Match (rl_Allowlist l) (newAlertEvent now info name severity) \<noteq> None"
  shows "rl_Risk (snd (log_rules now info es l)) = rl_Risk l \<and> rl_Response (snd (log_rules now info es l)) = rl_Response l"
  using assms
proof (induction now info es l rule: log_rules.induct)
  case (2 now info name severity es l)
  obtain ms l' where l: "rulesetLogger_Log now info name severity l = (ms, l')" by fastforce
  note s = Log_suppressed [OF 2(2), of name severity, unfolded l snd_conv]
  have "\<And>name severity. allowlist_Match (rl_Allowlist l') (newAlertEvent now info name severity) \<noteq> None"
    using 2(2) s(3) by simp
  then show ?case using 2(1) [OF l [symmetric] refl] s by (simp add: l case_prod_unfold Let_def)
qed simp_all

text \<open>
  C18. A stream that the allowlist covers whatever rule it matches raises no score and sends
  nothing to the response, with any ruleset and any logs.
\<close>

theorem allowlisted_stream_untouched:
  assumes "newAllowlist config = Inr (Some a)" "rl_Allowlist l = Some a"
    and "\<And>name severity. covered config (newAlertEvent now info name severity)"
  shows "rl_Risk (snd (log_rules now info (snd (exprRuleset_Match run rs info)) l)) = rl_Risk l
     \<and> rl_Response (snd (log_rules now info (snd (exprRuleset_Match run rs info)) l)) = rl_Response l"
proof (rule log_rules_suppressed)
  show "allowlist_Match (rl_Allowlist l) (newAlertEvent now info name severity) \<noteq> None" for name severity
    unfolding assms(2) allowlist_covers' [OF assms(1)] by (rule assms(3))
qed

section \<open>Instance\<close>

definition quiet_stream :: StreamInfo where
  "quiet_stream = \<lparr>si_ID = 1, si_Protocol = ProtocolTCP, si_SrcIP = [10, 0, 0, 1], si_DstIP = [10, 0, 0, 2],
     si_SrcPort = 1000, si_DstPort = 443, si_Meta = None,
     si_Props = [''tls'' \<mapsto> [''req'' \<mapsto> PMap [''sni'' \<mapsto> PStr ''www.example.org'']]]\<rparr>"

definition quiet_rules :: "(unit, string) exprRuleset" where
  "quiet_rules = \<lparr>xr_Rules = [\<lparr>cr_Name = ''r'', cr_Action = Some ActionBlock, cr_Log = True, cr_Severity = ''high'',
     cr_ModInstance = None, cr_Program = ()\<rparr>], xr_Ans = []\<rparr>"

definition quiet_logger :: rulesetLogger where
  "quiet_logger = \<lparr>rl_Alert = None, rl_Risk = Some demo_risk, rl_Response = Some demo_sink, rl_Allowlist = Some quiet_list\<rparr>"

theorem allowlisted_stream_untouched_witness:
  "rl_Response (snd (log_rules 0 quiet_stream (snd (exprRuleset_Match (\<lambda>p env. Inr (Some (PBool True))) quiet_rules quiet_stream)) quiet_logger))
     = Some demo_sink"
proof -
  have "covered quiet_config (newAlertEvent 0 quiet_stream name severity)" for name severity
  proof -
    have "eventDomains (newAlertEvent 0 quiet_stream name severity) = eventDomains (newAlertEvent 0 quiet_stream [] [])"
      by (simp add: eventDomains_def newAlertEvent_def)
    moreover have "''www.example.org'' \<in> set (eventDomains (newAlertEvent 0 quiet_stream [] []))" by code_simp
    moreover have "''*.Example.org'' \<in> set (ca_Domains quiet_config)" by (simp add: quiet_config_def)
    moreover have "normalizeDomain ''*.Example.org'' \<noteq> []" "normalizeDomain ''www.example.org'' \<noteq> []"
      "domain_under (normalizeDomain ''www.example.org'') (normalizeDomain ''*.Example.org'')"
      by code_simp+
    ultimately show ?thesis unfolding covered_def by metis
  qed
  then show ?thesis
    using allowlisted_stream_untouched [OF quiet_list, where l = quiet_logger and now = 0 and info = quiet_stream
        and run = "\<lambda>p env. Inr (Some (PBool True))" and rs = quiet_rules]
    by (simp add: quiet_logger_def)
qed

end
