(* ===== verification/Metrics.thy ===== *)
theory Metrics
  imports RuleLogger AFPacket GoFloat "HOL-Library.List_Lexorder"
begin

text \<open>
  \<open>cmd/metrics.go\<close>: the counters, the page they are shown on, and the monitor of packets that the
  kernel dropped. Counters are 64-bit and wrap around. Two parameters stand for the standard
  library: \<open>strconv.Quote\<close> with \<open>strconv.Unquote\<close>, by which two labels make one key, and the
  \<open>%.9g\<close> of a number. The HTTP server and the ticker are not modelled.
\<close>

section \<open>Labelled counters\<close>

type_synonym labeledCounters = "(string \<times> u64) list"

definition counter_value :: "labeledCounters \<Rightarrow> string \<Rightarrow> u64" where
  "counter_value c k = (case map_of c k of None \<Rightarrow> 0 | Some v \<Rightarrow> v)"

definition labeledCounters1_Add :: "labeledCounters \<Rightarrow> string \<Rightarrow> u64 \<Rightarrow> labeledCounters" where
  "labeledCounters1_Add c label delta = AList.update label (counter_value c label + delta) c"

record metricSample =
  ms_Labels :: "string list"
  ms_Value :: u64

definition labeledCounters1_Samples :: "labeledCounters \<Rightarrow> metricSample list" where
  "labeledCounters1_Samples c =
     sort_key (\<lambda>s. go_bytes (ms_Labels s ! 0)) (map (\<lambda>(k, v). \<lparr>ms_Labels = [k], ms_Value = v\<rparr>) c)"

record quoting =
  qt_Quote :: "string \<Rightarrow> string"
  qt_Unquote :: "string \<Rightarrow> string option"

definition metricKey :: "quoting \<Rightarrow> string list \<Rightarrow> string" where
  "metricKey q labels = strings_Join (map (qt_Quote q) labels) [CHR 0xFF]"

definition splitMetricKey :: "quoting \<Rightarrow> string \<Rightarrow> string list" where
  "splitMetricKey q key =
     map (\<lambda>part. case qt_Unquote q part of None \<Rightarrow> part | Some label \<Rightarrow> label) (strings_Split key [CHR 0xFF])"

definition labeledCounters2_Add :: "quoting \<Rightarrow> labeledCounters \<Rightarrow> string \<Rightarrow> string \<Rightarrow> u64 \<Rightarrow> labeledCounters" where
  "labeledCounters2_Add q c label1 label2 delta =
     (let key = metricKey q [label1, label2] in AList.update key (counter_value c key + delta) c)"

definition labeledCounters2_Samples :: "quoting \<Rightarrow> labeledCounters \<Rightarrow> metricSample list" where
  "labeledCounters2_Samples q c =
     sort_key (\<lambda>s. [go_bytes (ms_Labels s ! 0), go_bytes (ms_Labels s ! 1)])
       (map (\<lambda>(k, v). \<lparr>ms_Labels = splitMetricKey q k, ms_Value = v\<rparr>) c)"

section \<open>The collector\<close>

record metricsCollector =
  mc_alertDropped :: u64
  mc_packetIO :: bool
  mc_risk :: bool
  mc_ruleHits :: labeledCounters
  mc_allowlistSuppressed :: labeledCounters
  mc_responseApplied :: labeledCounters
  mc_responseFailed :: labeledCounters
  mc_streamsTotal :: labeledCounters
  mc_riskEvents :: labeledCounters

definition new_collector :: metricsCollector where
  "new_collector = \<lparr>mc_alertDropped = 0, mc_packetIO = False, mc_risk = False, mc_ruleHits = [], mc_allowlistSuppressed = [],
     mc_responseApplied = [], mc_responseFailed = [], mc_streamsTotal = [], mc_riskEvents = []\<rparr>"

definition IncRuleHit :: "quoting \<Rightarrow> string \<Rightarrow> string \<Rightarrow> metricsCollector option \<Rightarrow> metricsCollector option" where
  "IncRuleHit q rule severity = map_option (\<lambda>m. m\<lparr>mc_ruleHits := labeledCounters2_Add q (mc_ruleHits m) rule severity 1\<rparr>)"

definition IncAlertDropped :: "metricsCollector option \<Rightarrow> metricsCollector option" where
  "IncAlertDropped = map_option (\<lambda>m. m\<lparr>mc_alertDropped := mc_alertDropped m + 1\<rparr>)"

definition IncAllowlistSuppressed :: "string \<Rightarrow> metricsCollector option \<Rightarrow> metricsCollector option" where
  "IncAllowlistSuppressed reason =
     map_option (\<lambda>m. m\<lparr>mc_allowlistSuppressed := labeledCounters1_Add (mc_allowlistSuppressed m) reason 1\<rparr>)"

definition metrics_IncResponseApplied :: "string \<Rightarrow> metricsCollector option \<Rightarrow> metricsCollector option" where
  "metrics_IncResponseApplied ty =
     map_option (\<lambda>m. m\<lparr>mc_responseApplied := labeledCounters1_Add (mc_responseApplied m) ty 1\<rparr>)"

definition metrics_IncResponseFailed :: "string \<Rightarrow> metricsCollector option \<Rightarrow> metricsCollector option" where
  "metrics_IncResponseFailed ty =
     map_option (\<lambda>m. m\<lparr>mc_responseFailed := labeledCounters1_Add (mc_responseFailed m) ty 1\<rparr>)"

definition IncStream :: "string \<Rightarrow> metricsCollector option \<Rightarrow> metricsCollector option" where
  "IncStream proto = map_option (\<lambda>m. m\<lparr>mc_streamsTotal := labeledCounters1_Add (mc_streamsTotal m) proto 1\<rparr>)"

definition metrics_IncRiskEvent :: "string \<Rightarrow> metricsCollector option \<Rightarrow> metricsCollector option" where
  "metrics_IncRiskEvent severity =
     map_option (\<lambda>m. m\<lparr>mc_riskEvents := labeledCounters1_Add (mc_riskEvents m) severity 1\<rparr>)"

definition SetPacketIO :: "bool \<Rightarrow> metricsCollector option \<Rightarrow> metricsCollector option" where
  "SetPacketIO has_stats = map_option (\<lambda>m. if has_stats then m\<lparr>mc_packetIO := True\<rparr> else m)"

definition SetRiskAggregator :: "riskAggregator option \<Rightarrow> metricsCollector option \<Rightarrow> metricsCollector option" where
  "SetRiskAggregator risk = map_option (\<lambda>m. m\<lparr>mc_risk := (risk \<noteq> None)\<rparr>)"

text \<open>What the logger of the rules counts.\<close>

fun count_effects :: "quoting \<Rightarrow> metric_effect list \<Rightarrow> metricsCollector option \<Rightarrow> metricsCollector option" where
  "count_effects q [] m = m"
| "count_effects q (MRuleHit rule severity # es) m = count_effects q es (IncRuleHit q rule severity m)"
| "count_effects q (MAlertDropped # es) m = count_effects q es (IncAlertDropped m)"
| "count_effects q (MAllowlistSuppressed reason # es) m = count_effects q es (IncAllowlistSuppressed reason m)"
| "count_effects q (MRiskEvent severity # es) m = count_effects q es (metrics_IncRiskEvent severity m)"

section \<open>The page\<close>

text \<open>\<open>strings.ReplaceAll\<close> of one character.\<close>

definition replace_char :: "char \<Rightarrow> string \<Rightarrow> string \<Rightarrow> string" where
  "replace_char old new s = concat (map (\<lambda>c. if c = old then new else [c]) s)"

definition escapePromLabel :: "string \<Rightarrow> string" where
  "escapePromLabel v =
     (let v = replace_char (CHR 0x5C) [CHR 0x5C, CHR 0x5C] v;
          v = replace_char (CHR 0x0A) [CHR 0x5C, CHR ''n''] v in
      replace_char (CHR 0x22) [CHR 0x5C, CHR 0x22] v)"

definition newline :: string where "newline = [CHR 0x0A]"
definition dquote :: string where "dquote = [CHR 0x22]"

definition fmt_u64 :: "u64 \<Rightarrow> string" where
  "fmt_u64 v = strconv_Itoa (uint v)"

definition writeMetricHelpType :: "string \<Rightarrow> string \<Rightarrow> string \<Rightarrow> string" where
  "writeMetricHelpType name help ty =
     ''# HELP '' @ name @ '' '' @ help @ newline @ ''# TYPE '' @ name @ '' '' @ ty @ newline"

definition writeMetricHelp :: "string \<Rightarrow> string \<Rightarrow> string" where
  "writeMetricHelp name help = writeMetricHelpType name help ''counter''"

definition prom_label :: "string \<Rightarrow> string \<Rightarrow> string" where
  "prom_label key v = key @ ''='' @ dquote @ escapePromLabel v @ dquote"

definition sample_line :: "string \<Rightarrow> string list \<Rightarrow> metricSample \<Rightarrow> string" where
  "sample_line name keys s =
     name @ ''{'' @ strings_Join (map2 prom_label keys (ms_Labels s)) '','' @ ''} '' @ fmt_u64 (ms_Value s) @ newline"

definition value_line :: "string \<Rightarrow> u64 \<Rightarrow> string" where
  "value_line name v = name @ '' '' @ fmt_u64 v @ newline"

definition counter_part :: "string \<Rightarrow> string \<Rightarrow> u64 \<Rightarrow> string" where
  "counter_part name help v = writeMetricHelp name help @ value_line name v"

definition labeled_part :: "string \<Rightarrow> string \<Rightarrow> string list \<Rightarrow> metricSample list \<Rightarrow> string" where
  "labeled_part name help keys samples = writeMetricHelp name help @ concat (map (sample_line name keys) samples)"

definition PacketIODropRate :: "u64 \<Rightarrow> u64 \<Rightarrow> rat" where
  "PacketIODropRate packets drops =
     (let total = packets + drops in if total = 0 then 0 else fdiv 53 (uint drops) (uint total))"

definition gauge_part :: "string \<Rightarrow> string \<Rightarrow> string \<Rightarrow> string" where
  "gauge_part name help v = writeMetricHelpType name help ''gauge'' @ name @ '' '' @ v @ newline"

definition zero_stats :: PacketIOStats where
  "zero_stats = \<lparr>st_Packets = 0, st_Drops = 0, st_ReadErrors = 0, st_RingLosingBlocks = 0\<rparr>"

text \<open>\<open>reading\<close> is what the packet source reports when it is asked.\<close>

definition metrics_packetIOStats :: "metricsCollector option \<Rightarrow> PacketIOStats \<Rightarrow> PacketIOStats" where
  "metrics_packetIOStats m reading = (case m of None \<Rightarrow> zero_stats | Some m \<Rightarrow> if mc_packetIO m then reading else zero_stats)"

definition riskBucketCount :: "metricsCollector option \<Rightarrow> riskAggregator option \<Rightarrow> int \<Rightarrow> nat \<times> riskAggregator option" where
  "riskBucketCount m risk now =
     (case m of None \<Rightarrow> (0, risk) | Some m \<Rightarrow> if mc_risk m then risk_BucketCount risk now else (0, risk))"

definition Render :: "quoting \<Rightarrow> (rat \<Rightarrow> string) \<Rightarrow> PacketIOStats \<Rightarrow> nat \<Rightarrow> metricsCollector option \<Rightarrow> string" where
  "Render q fmt_g9 reading buckets mo =
     (case mo of
        None \<Rightarrow> []
      | Some m \<Rightarrow>
          (let st = metrics_packetIOStats mo reading; rate = fmt_g9 (PacketIODropRate (st_Packets st) (st_Drops st)) in
           labeled_part ''opengfw_rule_hits_total'' ''Total ruleset log hits by rule and severity.''
             [''rule'', ''severity''] (labeledCounters2_Samples q (mc_ruleHits m))
         @ counter_part ''opengfw_alert_dropped_total'' ''Total alert events dropped before delivery.'' (mc_alertDropped m)
         @ labeled_part ''opengfw_allowlist_suppressed_total'' ''Total rule hits suppressed by allowlist reason.''
             [''reason''] (labeledCounters1_Samples (mc_allowlistSuppressed m))
         @ labeled_part ''opengfw_response_applied_total'' ''Total response actions successfully applied by type.''
             [''type''] (labeledCounters1_Samples (mc_responseApplied m))
         @ labeled_part ''opengfw_response_failed_total'' ''Total response actions that failed by type.''
             [''type''] (labeledCounters1_Samples (mc_responseFailed m))
         @ labeled_part ''opengfw_streams_total'' ''Total streams observed by protocol.''
             [''proto''] (labeledCounters1_Samples (mc_streamsTotal m))
         @ counter_part ''opengfw_packet_kernel_packets_total'' ''Total packets reported by packet IO kernel statistics.'' (st_Packets st)
         @ counter_part ''opengfw_packet_kernel_drops_total'' ''Total packets dropped according to packet IO kernel statistics.'' (st_Drops st)
         @ gauge_part ''opengfw_packet_kernel_drop_rate''
             ''Cumulative packet IO kernel drop ratio, drops divided by packets plus drops.'' rate
         @ counter_part ''opengfw_packet_read_errors_total'' ''Total non-timeout packet IO read errors.'' (st_ReadErrors st)
         @ counter_part ''opengfw_packet_ring_losing_blocks_total'' ''Total TPACKET_V3 blocks observed with TP_STATUS_LOSING.''
             (st_RingLosingBlocks st)
         @ counter_part ''opengfw_packetio_packets_total''
             ''Total packets observed by packet IO implementations that expose kernel statistics.'' (st_Packets st)
         @ counter_part ''opengfw_packetio_drops_total''
             ''Total packets dropped by packet IO implementations that expose kernel statistics.'' (st_Drops st)
         @ gauge_part ''opengfw_packetio_drop_rate'' ''Cumulative packet IO drop ratio alias for existing dashboards.'' rate
         @ counter_part ''opengfw_packetio_read_errors_total'' ''Total non-timeout packet IO read errors.'' (st_ReadErrors st)
         @ counter_part ''opengfw_packetio_ring_losing_blocks_total''
             ''Total TPACKET_V3 TP_STATUS_LOSING block observations alias for existing dashboards.'' (st_RingLosingBlocks st)
         @ gauge_part ''opengfw_risk_buckets'' ''Current number of active risk aggregation buckets.'' (strconv_Itoa (int buckets))
         @ labeled_part ''opengfw_risk_events_total'' ''Total aggregated risk events by severity.''
             [''severity''] (labeledCounters1_Samples (mc_riskEvents m))))"

text \<open>The status, the content type and the body.\<close>

definition handleHTTP :: "string \<Rightarrow> string \<Rightarrow> int \<times> string \<times> string" where
  "handleHTTP method page =
     (if method \<noteq> ''GET'' \<and> method \<noteq> ''HEAD'' then (405, [], [])
      else if method = ''HEAD'' then (200, ''text/plain; version=0.0.4; charset=utf-8'', [])
      else (200, ''text/plain; version=0.0.4; charset=utf-8'', page))"

section \<open>The endpoint and the monitor\<close>

record cliConfigMetrics =
  cm_Enabled :: bool
  cm_Listen :: string
  cm_Path :: string
  cm_PacketStatsInterval :: int
  cm_PacketDropWarnRate :: "rat option"

text \<open>Where the endpoint listens and under which path; \<open>listen\<close> is the error of that, if any.\<close>

definition newMetricsEndpoint :: "(string \<Rightarrow> string option) \<Rightarrow> cliConfigMetrics \<Rightarrow> string + (string \<times> string \<times> metricsCollector) option" where
  "newMetricsEndpoint listen config =
     (if \<not> cm_Enabled config then Inr None
      else
        (let addr = (if cm_Listen config = [] then ''127.0.0.1:9090'' else cm_Listen config);
             path = (if cm_Path config = [] then ''/metrics'' else cm_Path config);
             path = (if strings_HasPrefix path ''/'' then path else ''/'' @ path) in
         case listen addr of
           Some err \<Rightarrow> Inl err
         | None \<Rightarrow> Inr (Some (addr, path, new_collector))))"

definition saturatedSub :: "u64 \<Rightarrow> u64 \<Rightarrow> u64" where
  "saturatedSub current previous = (if current < previous then 0 else current - previous)"

text \<open>The interval and the threshold of the monitor, if it is started.\<close>

definition monitor_start :: "metricsCollector option \<Rightarrow> cliConfigMetrics \<Rightarrow> (int \<times> rat) option" where
  "monitor_start mo config =
     (case mo of
        None \<Rightarrow> None
      | Some m \<Rightarrow>
          if \<not> mc_packetIO m then None
          else
            (let interval = (if cm_PacketStatsInterval config \<le> 0 then 30 * 1000000000 else cm_PacketStatsInterval config);
                 threshold = (case cm_PacketDropWarnRate config of None \<Rightarrow> float64 (1 / 100) | Some r \<Rightarrow> r) in
             if threshold \<le> 0 then None else Some (interval, threshold)))"

record drop_warning =
  wn_packetDelta :: u64
  wn_dropDelta :: u64
  wn_dropRate :: rat
  wn_losingDelta :: u64
  wn_current :: PacketIOStats

definition monitor_tick :: "rat \<Rightarrow> PacketIOStats \<Rightarrow> PacketIOStats \<Rightarrow> drop_warning option" where
  "monitor_tick threshold previous current =
     (let packetDelta = saturatedSub (st_Packets current) (st_Packets previous);
          dropDelta = saturatedSub (st_Drops current) (st_Drops previous);
          losingDelta = saturatedSub (st_RingLosingBlocks current) (st_RingLosingBlocks previous) in
      if packetDelta = 0 \<and> dropDelta = 0 \<and> losingDelta = 0 then None
      else
        (let dropRate = PacketIODropRate packetDelta dropDelta in
         if threshold \<le> dropRate \<or> 0 < losingDelta
         then Some \<lparr>wn_packetDelta = packetDelta, wn_dropDelta = dropDelta, wn_dropRate = dropRate,
                    wn_losingDelta = losingDelta, wn_current = current\<rparr>
         else None))"

fun monitor_run :: "rat \<Rightarrow> PacketIOStats \<Rightarrow> PacketIOStats list \<Rightarrow> drop_warning list" where
  "monitor_run threshold previous [] = []"
| "monitor_run threshold previous (current # readings) =
     (case monitor_tick threshold previous current of None \<Rightarrow> [] | Some w \<Rightarrow> [w]) @ monitor_run threshold current readings"

section \<open>Labels on the page\<close>

definition escape_char :: "char \<Rightarrow> string" where
  "escape_char c =
     (if c = CHR 0x5C then [CHR 0x5C, CHR 0x5C] else if c = CHR 0x0A then [CHR 0x5C, CHR ''n'']
      else if c = CHR 0x22 then [CHR 0x5C, CHR 0x22] else [c])"

lemma escapePromLabel_conv: "escapePromLabel v = concat (map escape_char v)"
  by (induction v) (auto simp: escapePromLabel_def escape_char_def replace_char_def Let_def)

text \<open>How a reader of the page takes a label: up to the quote that no backslash precedes.\<close>

fun prom_read :: "string \<Rightarrow> (string \<times> string) option" where
  "prom_read [] = None"
| "prom_read (c # s) =
     (if c = CHR 0x22 then Some ([], s)
      else if c = CHR 0x5C then
        (case s of
           [] \<Rightarrow> None
         | d # s' \<Rightarrow> map_option (\<lambda>(v, r). ((if d = CHR ''n'' then CHR 0x0A else d) # v, r)) (prom_read s'))
      else map_option (\<lambda>(v, r). (c # v, r)) (prom_read s))"

lemma prom_read_escaped: "prom_read (escapePromLabel v @ dquote @ rest) = Some (v, rest)"
  unfolding escapePromLabel_conv
  by (induction v) (simp_all add: dquote_def escape_char_def)

lemma escaped_one_line: "CHR 0x0A \<notin> set (escapePromLabel v)"
  unfolding escapePromLabel_conv by (induction v) (auto simp: escape_char_def)

section \<open>What is counted\<close>

text \<open>The documented behaviour of quoting: it can be undone, and its result is valid UTF-8, without the byte \<open>0xFF\<close>.\<close>

definition quoting_documented :: "quoting \<Rightarrow> bool" where
  "quoting_documented q \<longleftrightarrow> (\<forall>s. qt_Unquote q (qt_Quote q s) = Some s \<and> CHR 0xFF \<notin> set (qt_Quote q s))"

lemma splitMetricKey_key:
  assumes "quoting_documented q"
  shows "splitMetricKey q (metricKey q [a, b]) = [a, b]"
proof -
  have "strings_Split (metricKey q [a, b]) [CHR 0xFF] = [qt_Quote q a, qt_Quote q b]"
    using strings_Split_Join [of "[qt_Quote q a, qt_Quote q b]" "CHR 0xFF"] assms
    by (simp add: metricKey_def quoting_documented_def)
  then show ?thesis using assms by (simp add: splitMetricKey_def quoting_documented_def)
qed

definition hit_counters :: "quoting \<Rightarrow> (string \<times> string) list \<Rightarrow> labeledCounters" where
  "hit_counters q hits = fold (\<lambda>(rule, severity) c. labeledCounters2_Add q c rule severity 1) hits []"

text \<open>An update of a list that binds the keys of some things to values.\<close>

lemma set_update_image:
  assumes "distinct (map fst c)" "inj key" "set c = (\<lambda>x. (key x, f x)) ` H"
  shows "set (AList.update (key h) v c) = (\<lambda>x. (key x, if x = h then v else f x)) ` insert h H"
proof -
  have old: "map_of c k = Some x \<longleftrightarrow> (\<exists>y \<in> H. k = key y \<and> x = f y)" for k x
    unfolding map_of_eq_Some_iff [OF assms(1)] assms(3) by auto
  have "(k, x) \<in> set (AList.update (key h) v c) \<longleftrightarrow> (if k = key h then x = v else map_of c k = Some x)" for k x
    unfolding map_of_eq_Some_iff [OF distinct_update [OF assms(1)], symmetric] by (auto simp: update_conv')
  moreover have "(k, x) \<in> (\<lambda>y. (key y, if y = h then v else f y)) ` insert h H \<longleftrightarrow>
      (if k = key h then x = v else \<exists>y \<in> H. k = key y \<and> x = f y)" for k x
  proof (cases "k = key h")
    case True
    then show ?thesis by (auto simp: image_iff inj_eq [OF assms(2)])
  next
    case False
    then have "k = key y \<longrightarrow> y \<noteq> h" for y by blast
    then show ?thesis using False by auto
  qed
  ultimately have "p \<in> set (AList.update (key h) v c) \<longleftrightarrow> p \<in> (\<lambda>y. (key y, if y = h then v else f y)) ` insert h H" for p
    unfolding old by (cases p) simp
  then show ?thesis by blast
qed

lemma hit_counters_conv:
  assumes "quoting_documented q"
  shows "distinct (map fst (hit_counters q hits))
     \<and> set (hit_counters q hits) = (\<lambda>h. (metricKey q [fst h, snd h], word_of_nat (count_list hits h))) ` set hits"
proof -
  define key where "key h = metricKey q [fst h, snd h]" for h
  have "splitMetricKey q (key h) = [fst h, snd h]" for h
    using splitMetricKey_key [OF assms] by (simp add: key_def)
  then have "key a = key b \<Longrightarrow> a = b" for a b by (metis list.inject prod.expand)
  then have key: "inj key" by (rule injI)
  have "distinct (map fst (hit_counters q hits))
     \<and> set (hit_counters q hits) = (\<lambda>h. (key h, word_of_nat (count_list hits h))) ` set hits"
  proof (induction hits rule: rev_induct)
    case (snoc h hits)
    let ?c = "hit_counters q hits"
    have d: "distinct (map fst ?c)" and s: "set ?c = (\<lambda>h. (key h, word_of_nat (count_list hits h))) ` set hits"
      using snoc.IH by blast+
    have "counter_value ?c (key h) = word_of_nat (count_list hits h)"
    proof (cases "h \<in> set hits")
      case True
      then have "(key h, word_of_nat (count_list hits h)) \<in> set ?c" unfolding s by blast
      then show ?thesis using d by (simp add: counter_value_def)
    next
      case False
      have "key h \<notin> fst ` set ?c"
      proof
        assume "key h \<in> fst ` set ?c"
        then obtain y where "y \<in> set hits" "key h = key y" by (auto simp: s)
        then show False using False injD [OF key, of h y] by simp
      qed
      then have "map_of ?c (key h) = None" unfolding map_of_eq_None_iff .
      then show ?thesis using False by (simp add: counter_value_def)
    qed
    then have step: "hit_counters q (hits @ [h]) = AList.update (key h) (word_of_nat (count_list (hits @ [h]) h)) ?c"
      by (simp add: hit_counters_def labeledCounters2_Add_def case_prod_unfold Let_def key_def add.commute)
    show ?case
      unfolding step set_update_image [OF d key s] using distinct_update [OF d]
      by (auto intro!: image_cong)
  qed (simp add: hit_counters_def)
  then show ?thesis by (simp add: key_def)
qed

text \<open>
  C19. The samples of the rule-hit counter list every rule with its severity once, with the number
  of its hits modulo 2 to the 64, whatever characters the names of rules contain.
\<close>

theorem rule_hits_counted:
  assumes "quoting_documented q"
    and "fold (\<lambda>(rule, severity). IncRuleHit q rule severity) hits (Some new_collector) = Some m"
  shows "(\<lambda>s. (ms_Labels s, ms_Value s)) ` set (labeledCounters2_Samples q (mc_ruleHits m))
       = (\<lambda>h. ([fst h, snd h], word_of_nat (count_list hits h))) ` set hits
     \<and> distinct (map ms_Labels (labeledCounters2_Samples q (mc_ruleHits m)))"
proof -
  have "fold (\<lambda>(rule, severity). IncRuleHit q rule severity) hits (Some m0) =
      Some (m0\<lparr>mc_ruleHits := fold (\<lambda>(rule, severity) c. labeledCounters2_Add q c rule severity 1) hits (mc_ruleHits m0)\<rparr>)" for m0
    by (induction hits arbitrary: m0) (auto simp: IncRuleHit_def)
  from this [of new_collector] have m: "mc_ruleHits m = hit_counters q hits"
    using assms(2) by (auto simp: new_collector_def hit_counters_def)
  let ?l = "map (\<lambda>(k, v). \<lparr>ms_Labels = splitMetricKey q k, ms_Value = v\<rparr>) (hit_counters q hits)"
  note c = hit_counters_conv [OF assms(1), of hits]
  have "(\<lambda>s. (ms_Labels s, ms_Value s)) ` set ?l = (\<lambda>h. ([fst h, snd h], word_of_nat (count_list hits h))) ` set hits"
    using splitMetricKey_key [OF assms(1)] by (simp add: c image_image)
  moreover have "distinct (map ms_Labels ?l)"
  proof -
    have "inj_on (splitMetricKey q) (fst ` set (hit_counters q hits))"
      using splitMetricKey_key [OF assms(1)] by (auto simp: c inj_on_def)
    then have "distinct (map (splitMetricKey q) (map fst (hit_counters q hits)))"
      unfolding distinct_map [of "splitMetricKey q"] using c by simp
    moreover have "map ms_Labels ?l = map (splitMetricKey q) (map fst (hit_counters q hits))" by (simp add: case_prod_unfold)
    ultimately show ?thesis by metis
  qed
  then have "distinct (map ms_Labels (sort_key (\<lambda>s. [go_bytes (ms_Labels s ! 0), go_bytes (ms_Labels s ! 1)]) ?l))"
    by (simp add: distinct_map flip: map_map)
  ultimately show ?thesis by (simp add: m labeledCounters2_Samples_def)
qed

section \<open>Instance\<close>

text \<open>A quoting with one escape character.\<close>

definition tilde_quote :: "string \<Rightarrow> string" where
  "tilde_quote s = concat (map (\<lambda>c. if c = CHR 0xFF then ''~f'' else if c = CHR ''~'' then ''~~'' else [c]) s)"

fun tilde_unquote :: "string \<Rightarrow> string option" where
  "tilde_unquote [] = Some []"
| "tilde_unquote (c # s) =
     (if c \<noteq> CHR ''~'' then map_option (Cons c) (tilde_unquote s)
      else (case s of [] \<Rightarrow> None
                    | d # s' \<Rightarrow> map_option (Cons (if d = CHR ''f'' then CHR 0xFF else d)) (tilde_unquote s')))"

definition tilde_quoting :: quoting where
  "tilde_quoting = \<lparr>qt_Quote = tilde_quote, qt_Unquote = tilde_unquote\<rparr>"

lemma tilde_documented: "quoting_documented tilde_quoting"
proof -
  have "tilde_unquote (tilde_quote s) = Some s \<and> CHR 0xFF \<notin> set (tilde_quote s)" for s
    by (induction s) (auto simp: tilde_quote_def)
  then show ?thesis by (simp add: quoting_documented_def tilde_quoting_def)
qed

lemma rule_hits_counted_witness:
  "\<exists>m. fold (\<lambda>(rule, severity). IncRuleHit tilde_quoting rule severity) [(''a'', ''low''), (''b'', ''low''), (''a'', ''low'')] (Some new_collector) = Some m
     \<and> ([''a'', ''low''], 2) \<in> (\<lambda>s. (ms_Labels s, ms_Value s)) ` set (labeledCounters2_Samples tilde_quoting (mc_ruleHits m))"
proof -
  let ?hits = "[(''a'', ''low''), (''b'', ''low''), (''a'', ''low'')]"
  obtain m where m: "fold (\<lambda>(rule, severity). IncRuleHit tilde_quoting rule severity) ?hits (Some new_collector) = Some m"
    by (simp add: IncRuleHit_def)
  from rule_hits_counted [OF tilde_documented m] have
    "(\<lambda>s. (ms_Labels s, ms_Value s)) ` set (labeledCounters2_Samples tilde_quoting (mc_ruleHits m))
       = (\<lambda>h. ([fst h, snd h], word_of_nat (count_list ?hits h))) ` set ?hits" by blast
  then show ?thesis using m by (intro exI [of _ m]) simp
qed

end
