(* ===== verification/Datasets.thy ===== *)
theory Datasets
  imports Ruleset
begin

text \<open>
  \<open>cmd/datasets.go\<close>: the lists of fingerprints that the configuration names files for. Reading a
  file, its two forms in YAML, and the operations on paths are parameters.
\<close>

record externalFingerprintFile =
  ef_Fingerprints :: FingerprintConfig
  ef_Suspicious :: "FingerprintEntry list"

record dataset_world =
  dw_Dir :: "string \<Rightarrow> string"
  dw_IsAbs :: "string \<Rightarrow> bool"
  dw_Join :: "string \<Rightarrow> string \<Rightarrow> string"
  dw_ReadFile :: "string \<Rightarrow> string + bytes"
  dw_yaml_entries :: "bytes \<Rightarrow> string + FingerprintEntry list"
  dw_yaml_file :: "bytes \<Rightarrow> string + externalFingerprintFile"

datatype dataset_error = ReadFailed string string | ParseFailed string string

definition fingerprintSetByName :: "FingerprintConfig \<Rightarrow> string \<Rightarrow> FingerprintSet" where
  "fingerprintSetByName config setName =
     (if setName = ''ja3'' then fc_JA3 config
      else if setName = ''ja4'' then fc_JA4 config
      else if setName = ''quicJa3'' then fc_QUICJA3 config
      else if setName = ''quicJa4'' then fc_QUICJA4 config
      else \<lparr>fs_Files = [], fs_Suspicious = []\<rparr>)"

definition readFingerprintEntries :: "dataset_world \<Rightarrow> string \<Rightarrow> string \<Rightarrow> dataset_error + FingerprintEntry list" where
  "readFingerprintEntries w path setName =
     (case dw_ReadFile w path of
        Inl err \<Rightarrow> Inl (ReadFailed path err)
      | Inr data \<Rightarrow>
          (let entries = (case dw_yaml_entries w data of Inr es \<Rightarrow> es | Inl _ \<Rightarrow> []) in
           if entries \<noteq> [] then Inr entries
           else
             (case dw_yaml_file w data of
                Inl err \<Rightarrow> Inl (ParseFailed path err)
              | Inr file \<Rightarrow>
                  if ef_Suspicious file \<noteq> [] then Inr (ef_Suspicious file)
                  else Inr (fs_Suspicious (fingerprintSetByName (ef_Fingerprints file) setName)))))"

definition dataset_path :: "dataset_world \<Rightarrow> string \<Rightarrow> string \<Rightarrow> string" where
  "dataset_path w baseDir file = (if dw_IsAbs w file then file else dw_Join w baseDir file)"

text \<open>The files of a set, one after the other; those read before an error stay in the set.\<close>

fun load_files :: "dataset_world \<Rightarrow> string \<Rightarrow> string \<Rightarrow> string list \<Rightarrow> FingerprintEntry list \<Rightarrow> dataset_error option \<times> FingerprintEntry list" where
  "load_files w baseDir setName [] acc = (None, acc)"
| "load_files w baseDir setName (file # files) acc =
     (case readFingerprintEntries w (dataset_path w baseDir file) setName of
        Inl err \<Rightarrow> (Some err, acc)
      | Inr entries \<Rightarrow> load_files w baseDir setName files (acc @ entries))"

definition loadFingerprintSetFiles :: "dataset_world \<Rightarrow> string \<Rightarrow> string \<Rightarrow> FingerprintSet \<Rightarrow> dataset_error option \<times> FingerprintSet" where
  "loadFingerprintSetFiles w baseDir setName s =
     (let (err, es) = load_files w baseDir setName (fs_Files s) (fs_Suspicious s) in (err, s\<lparr>fs_Suspicious := es\<rparr>))"

definition loadExternalDatasets :: "dataset_world \<Rightarrow> string \<Rightarrow> FingerprintConfig \<Rightarrow> dataset_error + FingerprintConfig" where
  "loadExternalDatasets w configFile c =
     (let baseDir = (if configFile = [] then ''.'' else dw_Dir w configFile) in
      case loadFingerprintSetFiles w baseDir ''ja3'' (fc_JA3 c) of (Some err, s) \<Rightarrow> Inl err | (None, s) \<Rightarrow>
      (let c = c\<lparr>fc_JA3 := s\<rparr> in
      case loadFingerprintSetFiles w baseDir ''ja4'' (fc_JA4 c) of (Some err, s) \<Rightarrow> Inl err | (None, s) \<Rightarrow>
      (let c = c\<lparr>fc_JA4 := s\<rparr> in
      case loadFingerprintSetFiles w baseDir ''quicJa3'' (fc_QUICJA3 c) of (Some err, s) \<Rightarrow> Inl err | (None, s) \<Rightarrow>
      (let c = c\<lparr>fc_QUICJA3 := s\<rparr> in
      case loadFingerprintSetFiles w baseDir ''quicJa4'' (fc_QUICJA4 c) of (Some err, s) \<Rightarrow> Inl err | (None, s) \<Rightarrow>
      Inr (c\<lparr>fc_QUICJA4 := s\<rparr>)))))"

lemma load_files_conv:
  "load_files w baseDir setName files acc = (None, es) \<longleftrightarrow>
     (\<exists>ess. list_all2 (\<lambda>f xs. readFingerprintEntries w (dataset_path w baseDir f) setName = Inr xs) files ess \<and> es = acc @ concat ess)"
proof (induction files arbitrary: acc)
  case (Cons f files)
  show ?case
  proof (cases "readFingerprintEntries w (dataset_path w baseDir f) setName")
    case (Inr xs)
    show ?thesis by (simp add: Inr Cons.IH list_all2_Cons1) fastforce
  qed (simp add: list_all2_Cons1)
qed auto

text \<open>
  What loading adds to a set: the entries of its files, in order, after those of the configuration.
  So a hash is found by the rules' functions exactly if the configuration or one of the files lists it.
\<close>

lemma loaded_hashes:
  assumes "loadFingerprintSetFiles w baseDir setName s = (None, s')"
  shows "(\<exists>e \<in> set (fs_Suspicious s'). P e) \<longleftrightarrow>
     (\<exists>e \<in> set (fs_Suspicious s). P e)
   \<or> (\<exists>f \<in> set (fs_Files s). \<exists>es. readFingerprintEntries w (dataset_path w baseDir f) setName = Inr es \<and> (\<exists>e \<in> set es. P e))"
proof -
  obtain ess where e: "list_all2 (\<lambda>f xs. readFingerprintEntries w (dataset_path w baseDir f) setName = Inr xs) (fs_Files s) ess"
    "fs_Suspicious s' = fs_Suspicious s @ concat ess"
  proof -
    have "load_files w baseDir setName (fs_Files s) (fs_Suspicious s) = (None, fs_Suspicious s')"
      using assms by (auto simp: loadFingerprintSetFiles_def split: prod.splits)
    then show ?thesis using that unfolding load_files_conv by blast
  qed
  from e(1) have "(\<exists>e \<in> set (concat ess). P e) \<longleftrightarrow>
      (\<exists>f \<in> set (fs_Files s). \<exists>es. readFingerprintEntries w (dataset_path w baseDir f) setName = Inr es \<and> (\<exists>e \<in> set es. P e))"
    by (induction rule: list_all2_induct) (auto simp: bex_Un)
  then show ?thesis by (simp only: e(2) set_append bex_Un)
qed

end
