(* ===== verification/DNSModifier.thy ===== *)
theory DNSModifier
  imports RuleCompile DNS
begin

text \<open>
  \<open>modifier/udp/dns.go\<close>: the modifier that replaces the answers of a DNS response. gopacket decodes and
  serializes a message: the parameters \<open>decode\<close> and \<open>serialize\<close>, the latter with its error, if any.
  What a message holds besides the fields that the code names is left open.
\<close>

record dnsModifierInstance =
  dm_A :: bytes
  dm_AAAA :: bytes

definition DNSModifier_Name :: string where "DNSModifier_Name = ''dns''"

text \<open>An argument of another type than string is ignored, as if it were missing.\<close>

fun string_arg :: "pval option \<Rightarrow> string option" where
  "string_arg (Some (PStr s)) = Some s"
| "string_arg _ = None"

definition arg_ip :: "(bytes \<Rightarrow> bytes) \<Rightarrow> pval option \<Rightarrow> string + bytes" where
  "arg_ip to v =
     (case string_arg v of
        None \<Rightarrow> Inr []
      | Some s \<Rightarrow> if to (net_ParseIP s) = [] then Inl ''invalid args: invalid ip'' else Inr (to (net_ParseIP s)))"

definition DNSModifier_New :: "PropMap \<Rightarrow> string + dnsModifierInstance" where
  "DNSModifier_New args =
     (case arg_ip IP_To4 (args ''a'') of
        Inl err \<Rightarrow> Inl err
      | Inr a \<Rightarrow>
          (case arg_ip IP_To16 (args ''aaaa'') of
             Inl err \<Rightarrow> Inl err
           | Inr aaaa \<Rightarrow> Inr \<lparr>dm_A = a, dm_AAAA = aaaa\<rparr>))"

definition answer_record :: "bytes \<Rightarrow> nat \<Rightarrow> bytes \<Rightarrow> DNSResourceRecord" where
  "answer_record name ty ip =
     \<lparr>rr_Name = name, rr_Type = ty, rr_Class = 1, rr_TTL = 0, rr_IP = ip, rr_NS = [], rr_CNAME = [], rr_PTR = [],
      rr_TXTs = [], rr_MX_Name = []\<rparr>"

definition set_answer :: "dnsModifierInstance \<Rightarrow> DNSQuestion \<Rightarrow> 'a DNSLayer_scheme \<Rightarrow> 'a DNSLayer_scheme" where
  "set_answer i q dns =
     (if q_Type q = 1 then
        (if dm_A i \<noteq> [] then dns\<lparr>dns_Answers := [answer_record (q_Name q) 1 (dm_A i)]\<rparr> else dns)
      else if q_Type q = 28 then
        (if dm_AAAA i \<noteq> [] then dns\<lparr>dns_Answers := [answer_record (q_Name q) 28 (dm_AAAA i)]\<rparr> else dns)
      else dns)"

definition dnsModifier_Process ::
    "(bytes \<Rightarrow> string + 'a DNSLayer_scheme) \<Rightarrow> ('a DNSLayer_scheme \<Rightarrow> bytes \<times> string option) \<Rightarrow> dnsModifierInstance \<Rightarrow>
     bytes \<Rightarrow> bytes option \<times> string option" where
  "dnsModifier_Process decode serialize i data =
     (case decode data of
        Inl err \<Rightarrow> (None, Some (''invalid packet: '' @ err))
      | Inr dns \<Rightarrow>
          if \<not> dns_QR dns \<or> dns_ResponseCode dns \<noteq> 0 then (None, Some ''invalid packet: not a valid dns response'')
          else if dns_Questions dns = [] then (None, Some ''invalid packet: empty dns question'')
          else (let (buf, err) = serialize (set_answer i (hd (dns_Questions dns)) dns) in (Some buf, err)))"

text \<open>The modifier as a rule names it.\<close>

definition DNSModifier ::
    "(bytes \<Rightarrow> string + 'a DNSLayer_scheme) \<Rightarrow> ('a DNSLayer_scheme \<Rightarrow> bytes \<times> string option) \<Rightarrow> modifier_api" where
  "DNSModifier decode serialize =
     \<lparr>md_Name = DNSModifier_Name,
      md_New = (\<lambda>args. map_sum id (\<lambda>i. UDPModifierInstance (dnsModifier_Process decode serialize i)) (DNSModifier_New args))\<rparr>"

section \<open>What a client is told\<close>

text \<open>
  The address that a rule's arguments give for a type of question: an IPv4 address for \<open>a\<close>, and for
  \<open>aaaa\<close> any address, an IPv4 one in its 16-byte form.
\<close>

definition configured_ip :: "PropMap \<Rightarrow> nat \<Rightarrow> bytes option" where
  "configured_ip args ty =
     (if ty = 1 then map_option (\<lambda>s. IP_To4 (net_ParseIP s)) (string_arg (args ''a''))
      else map_option (\<lambda>s. IP_To16 (net_ParseIP s)) (string_arg (args ''aaaa'')))"

lemma arg_ip_Inr:
  "arg_ip to v = Inr ip \<Longrightarrow> map_option (\<lambda>s. to (net_ParseIP s)) (string_arg v) = (if ip = [] then None else Some ip)"
  by (auto simp: arg_ip_def split: option.splits if_splits)

lemma New_configured:
  assumes "DNSModifier_New args = Inr i"
  shows "configured_ip args ty = (let ip = (if ty = 1 then dm_A i else dm_AAAA i) in if ip = [] then None else Some ip)"
proof -
  obtain a aaaa where "arg_ip IP_To4 (args ''a'') = Inr a" "arg_ip IP_To16 (args ''aaaa'') = Inr aaaa" "i = \<lparr>dm_A = a, dm_AAAA = aaaa\<rparr>"
    using assms by (auto simp: DNSModifier_New_def split: sum.splits)
  then show ?thesis by (simp add: configured_ip_def arg_ip_Inr)
qed

lemma To_lengths: "IP_To4 ip \<noteq> [] \<Longrightarrow> length (IP_To4 ip) = 4" "IP_To16 ip \<noteq> [] \<Longrightarrow> length (IP_To16 ip) = 16"
  by (auto simp: IP_To4_def IP_To16_def v4InV6Prefix_def split: if_splits)

text \<open>
  C4. A DNS response to a question for A or AAAA leaves the modifier with exactly one answer, the
  configured address under the name of the question, and that address has the length of its record
  type.
\<close>

theorem dns_modifier_answers:
  assumes "md_New (DNSModifier decode serialize) args = Inr (UDPModifierInstance process)"
    and "decode data = Inr dns" "dns_QR dns" "dns_ResponseCode dns = 0" "dns_Questions dns = q # qs" "q_Type q \<in> {1, 28}"
    and "configured_ip args (q_Type q) = Some ip"
    and "serialize (dns\<lparr>dns_Answers := [answer_record (q_Name q) (q_Type q) ip]\<rparr>) = (out, None)"
  shows "process data = (Some out, None)
     \<and> (q_Type q = 1 \<longrightarrow> length ip = 4) \<and> (q_Type q = 28 \<longrightarrow> length ip = 16)"
proof -
  obtain i where i: "DNSModifier_New args = Inr i" "process = dnsModifier_Process decode serialize i"
    using assms(1) by (cases "DNSModifier_New args") (auto simp: DNSModifier_def)
  have ip: "(if q_Type q = 1 then dm_A i else dm_AAAA i) = ip" "ip \<noteq> []"
    using assms(7) unfolding New_configured [OF i(1)] Let_def by (simp_all split: if_splits)
  have len: "(q_Type q = 1 \<longrightarrow> length ip = 4) \<and> (q_Type q = 28 \<longrightarrow> length ip = 16)"
    using assms(7) ip(2) To_lengths by (fastforce simp: configured_ip_def)
  have "set_answer i q dns = dns\<lparr>dns_Answers := [answer_record (q_Name q) (q_Type q) ip]\<rparr>"
  proof (cases "q_Type q = 1")
    case True
    then show ?thesis using ip by (simp add: set_answer_def)
  next
    case False
    then have "q_Type q = 28" using assms(6) by simp
    then show ?thesis using ip by (simp add: set_answer_def)
  qed
  then have "process data = (Some out, None)"
    using assms(2-5,8) by (simp add: i(2) dnsModifier_Process_def)
  then show ?thesis using len by blast
qed

text \<open>What is no response, or one with an error or without a question, is refused, and never changed.\<close>

lemma dns_modifier_refuses:
  assumes "fst (dnsModifier_Process decode serialize i data) \<noteq> None"
  shows "\<exists>dns. decode data = Inr dns \<and> dns_QR dns \<and> dns_ResponseCode dns = 0 \<and> dns_Questions dns \<noteq> []"
  using assms by (auto simp: dnsModifier_Process_def split: sum.splits if_splits)

text \<open>An IPv4 address is accepted where an IPv6 one is meant: the answer is its mapped form.\<close>

lemma aaaa_takes_v4: "DNSModifier_New [''aaaa'' \<mapsto> PStr ''1.2.3.4''] = Inr \<lparr>dm_A = [], dm_AAAA = v4InV6Prefix @ [1, 2, 3, 4]\<rparr>"
proof -
  have "IP_To16 (net_ParseIP ''1.2.3.4'') = v4InV6Prefix @ [1, 2, 3, 4]" by code_simp
  then show ?thesis by (simp add: DNSModifier_New_def arg_ip_def)
qed

section \<open>Instance\<close>

definition demo_response :: DNSLayer where
  "demo_response = \<lparr>dns_ID = 7, dns_QR = True, dns_OpCode = 0, dns_AA = False, dns_TC = False, dns_RD = True, dns_RA = True,
     dns_Z = 0, dns_ResponseCode = 0, dns_Questions = [\<lparr>q_Name = [97], q_Type = 28, q_Class = 1\<rparr>], dns_Answers = [],
     dns_Authorities = [], dns_Additionals = []\<rparr>"

definition demo_decode :: "bytes \<Rightarrow> string + DNSLayer" where
  "demo_decode data = (if data = [1] then Inr demo_response else Inl ''short'')"

definition demo_serialize :: "DNSLayer \<Rightarrow> bytes \<times> string option" where
  "demo_serialize dns = (concat (map rr_IP (dns_Answers dns)), None)"

lemma dns_modifier_answers_witness:
  "dnsModifier_Process demo_decode demo_serialize \<lparr>dm_A = [], dm_AAAA = v4InV6Prefix @ [1, 2, 3, 4]\<rparr> [1]
     = (Some (v4InV6Prefix @ [1, 2, 3, 4]), None)"
proof -
  let ?args = "[''aaaa'' \<mapsto> PStr ''1.2.3.4'']" and ?ip = "v4InV6Prefix @ [1, 2, 3, 4]"
  let ?process = "dnsModifier_Process demo_decode demo_serialize \<lparr>dm_A = [], dm_AAAA = ?ip\<rparr>"
  have a: "md_New (DNSModifier demo_decode demo_serialize) ?args = Inr (UDPModifierInstance ?process)"
    by (simp add: DNSModifier_def aaaa_takes_v4)
  have ip: "configured_ip ?args 28 = Some ?ip"
    using New_configured [OF aaaa_takes_v4, of 28] by (simp add: v4InV6Prefix_def)
  show ?thesis
    by (rule dns_modifier_answers [OF a, of "[1]" demo_response "\<lparr>q_Name = [97], q_Type = 28, q_Class = 1\<rparr>" "[]" ?ip, THEN conjunct1])
      (simp_all add: demo_decode_def demo_serialize_def demo_response_def ip answer_record_def)
qed

end
