(* ===== verification/CommandLine.thy ===== *)
theory CommandLine
  imports StreamRules NFQueue AFPacketOpen PacketHelpers RuleFuncs Metrics Datasets DNSModifier
begin

text \<open>
  \<open>cmd/root.go\<close>: the configuration, what it selects, and the order in which the program is put
  together; the first step that fails ends it with its error. Reading the configuration, the flags
  and the rules file is left to the libraries, and so are signals: a reload is a function.
\<close>

section \<open>Logging\<close>

datatype log_level = DebugLevel | InfoLevel | WarnLevel | ErrorLevel

definition logLevelMap :: "string \<Rightarrow> log_level option" where
  "logLevelMap = [''debug'' \<mapsto> DebugLevel, ''info'' \<mapsto> InfoLevel, ''warn'' \<mapsto> WarnLevel, ''error'' \<mapsto> ErrorLevel]"

definition initLogger :: "string \<Rightarrow> string \<Rightarrow> string + log_level \<times> string" where
  "initLogger logLevel logFormat =
     (case logLevelMap (strings_ToLower logLevel) of
        None \<Rightarrow> Inl (''unsupported log level: '' @ logLevel)
      | Some level \<Rightarrow>
          if strings_ToLower logFormat \<in> set [''console'', ''json''] then Inr (level, strings_ToLower logFormat)
          else Inl (''unsupported log format: '' @ logFormat))"

definition envOrDefaultString :: "(string \<Rightarrow> string) \<Rightarrow> string \<Rightarrow> string \<Rightarrow> string" where
  "envOrDefaultString getenv key def = (let v = getenv key in if v \<noteq> [] then v else def)"

text \<open>What the logger of the engine counts; the rest of it only writes log lines.\<close>

fun engineLogger_count :: "string \<Rightarrow> event list \<Rightarrow> metricsCollector option \<Rightarrow> metricsCollector option" where
  "engineLogger_count proto [] m = m"
| "engineLogger_count proto (StreamNew worker info # es) m = engineLogger_count proto es (IncStream proto m)"
| "engineLogger_count proto (e # es) m = engineLogger_count proto es m"

section \<open>Configuration\<close>

record cliConfigIO =
  ci_Mode :: string
  ci_Interface :: string
  ci_QueueSize :: u32
  ci_QueueNum :: "u16 option"
  ci_Table :: string
  ci_ConnMarkAccept :: u32
  ci_ConnMarkDrop :: u32
  ci_ReadBuffer :: int
  ci_WriteBuffer :: int
  ci_Local :: bool
  ci_RST :: bool
  ci_FrameSize :: int
  ci_BlockSize :: int
  ci_NumBlocks :: int
  ci_PollTimeout :: int
  ci_Ring :: bool
  ci_FanoutGroup :: "u16 option"
  ci_FanoutType :: string

record cliConfigWorkers =
  cw_Count :: int
  cw_QueueSize :: int
  cw_TCPMaxBufferedPagesTotal :: int
  cw_TCPMaxBufferedPagesPerConn :: int
  cw_TCPTimeout :: int
  cw_UDPMaxStreams :: int

record cliConfigRuleset =
  crs_GeoIp :: string
  crs_GeoSite :: string

record cliConfig =
  cc_IO :: cliConfigIO
  cc_Workers :: cliConfigWorkers
  cc_Ruleset :: cliConfigRuleset
  cc_ReplayRealtime :: bool
  cc_Alert :: cliConfigAlert
  cc_Identity :: cliConfigIdentity
  cc_Metrics :: cliConfigMetrics
  cc_Risk :: cliConfigRisk
  cc_Response :: cliConfigOVSResponse
  cc_Allowlist :: cliConfigAllowlist
  cc_Fingerprints :: FingerprintConfig
  cc_DomainKeywords :: "(string \<times> string list) list"

datatype packet_io =
    PcapIO string bool
  | NFQueueIO nfqueuePacketIO
  | AFPacketIO AFPacketIOConfig

definition strings_EqualFold :: "string \<Rightarrow> string \<Rightarrow> bool" where
  "strings_EqualFold a b \<longleftrightarrow> strings_ToLower a = strings_ToLower b"

record io_world =
  io_open_pcap :: "string \<Rightarrow> string option"
  io_nfq :: nfq_system
  io_sys :: "sys_call \<Rightarrow> string option"
  io_interfaceByName :: "string \<Rightarrow> string + int"
  io_pageSize :: int
  io_hdrSize :: int

definition afpacket_config :: "cliConfigIO \<Rightarrow> AFPacketIOConfig" where
  "afpacket_config c =
     NormalizeAFPacketIOConfig
       \<lparr>af_Interface = ci_Interface c, af_FrameSize = ci_FrameSize c, af_BlockSize = ci_BlockSize c,
        af_NumBlocks = ci_NumBlocks c, af_PollTimeout = ci_PollTimeout c, af_Ring = ci_Ring c,
        af_FanoutGroup = ci_FanoutGroup c, af_FanoutType = ci_FanoutType c\<rparr>"

definition nfqueue_config :: "cliConfigIO \<Rightarrow> NFQueuePacketIOConfig" where
  "nfqueue_config c =
     \<lparr>nc_QueueSize = ci_QueueSize c, nc_QueueNum = ci_QueueNum c, nc_Table = ci_Table c,
      nc_ConnMarkAccept = ci_ConnMarkAccept c, nc_ConnMarkDrop = ci_ConnMarkDrop c, nc_ReadBuffer = ci_ReadBuffer c,
      nc_WriteBuffer = ci_WriteBuffer c, nc_Local = ci_Local c, nc_RST = ci_RST c\<rparr>"

text \<open>An error of the configuration: the field and the error.\<close>

datatype config_error = configError string string

definition fillIO :: "io_world \<Rightarrow> string \<Rightarrow> cliConfig \<Rightarrow> config_error + packet_io" where
  "fillIO w pcapFile c =
     (let io = cc_IO c; fail = (\<lambda>err. Inl (configError ''io'' err)) in
      if pcapFile \<noteq> [] then
        (case io_open_pcap w pcapFile of
           Some err \<Rightarrow> fail err
         | None \<Rightarrow> Inr (PcapIO pcapFile (cc_ReplayRealtime c)))
      else if ci_Mode io = [] \<or> strings_EqualFold (ci_Mode io) ''nfqueue'' then
        (case NewNFQueuePacketIO (io_nfq w) (nfqueue_config io) of
           Inl err \<Rightarrow> fail ''nfqueue''
         | Inr n \<Rightarrow> Inr (NFQueueIO n))
      else if strings_EqualFold (ci_Mode io) ''afpacket'' then
        (let cfg = afpacket_config io in
         if af_Ring cfg \<and> isl (AFPacketRingConfigAdviceFor (io_pageSize w) (io_hdrSize w) cfg) then fail ''ring''
         else
           (case snd (NewAFPacketPacketIO (io_sys w) (io_interfaceByName w) (io_pageSize w) (io_hdrSize w) cfg) of
              Some err \<Rightarrow> fail err
            | None \<Rightarrow> Inr (AFPacketIO cfg)))
      else fail (''unsupported mode '' @ ci_Mode io))"

text \<open>Only AF_PACKET reports statistics.\<close>

fun has_stats :: "packet_io \<Rightarrow> bool" where
  "has_stats (AFPacketIO c) \<longleftrightarrow> True"
| "has_stats p \<longleftrightarrow> False"

definition fillWorkers :: "cliConfig \<Rightarrow> 'an engine_config \<Rightarrow> 'an engine_config" where
  "fillWorkers c config =
     config\<lparr>ec_Workers := cw_Count (cc_Workers c), ec_WorkerQueueSize := cw_QueueSize (cc_Workers c),
       ec_WorkerTCPMaxBufferedPagesTotal := cw_TCPMaxBufferedPagesTotal (cc_Workers c),
       ec_WorkerTCPMaxBufferedPagesPerConn := cw_TCPMaxBufferedPagesPerConn (cc_Workers c),
       ec_WorkerTCPTimeout := cw_TCPTimeout (cc_Workers c), ec_WorkerUDPMaxStreams := cw_UDPMaxStreams (cc_Workers c)\<rparr>"

definition fillIdentity :: "identity_world \<Rightarrow> cliConfig \<Rightarrow> 'an engine_config \<Rightarrow> config_error + identityEnricher option \<times> 'an engine_config" where
  "fillIdentity w c config =
     (case newIdentityEnricher w (cc_Identity c) of
        Inl err \<Rightarrow> Inl (configError ''identity'' err)
      | Inr e \<Rightarrow> Inr (e, if e \<noteq> None then config\<lparr>ec_MetadataEnricher := Some (Enrich e)\<rparr> else config))"

definition empty_config :: "'an engine_config" where
  "empty_config = \<lparr>ec_Ruleset = \<lparr>rs_Analyzers = (\<lambda>_. []), rs_Match = (\<lambda>_. \<lparr>mr_Action = ActionMaybe, mr_ModInstance = None\<rparr>)\<rparr>,
     ec_MetadataEnricher = None, ec_Workers = 0, ec_WorkerQueueSize = 0, ec_WorkerTCPMaxBufferedPagesTotal = 0,
     ec_WorkerTCPMaxBufferedPagesPerConn = 0, ec_WorkerTCPTimeout = 0, ec_WorkerUDPMaxStreams = 0\<rparr>"

definition cli_Config ::
    "io_world \<Rightarrow> identity_world \<Rightarrow> string \<Rightarrow> cliConfig \<Rightarrow>
     config_error + packet_io \<times> identityEnricher option \<times> 'an engine_config" where
  "cli_Config iw idw pcapFile c =
     (case fillIO iw pcapFile c of
        Inl err \<Rightarrow> Inl err
      | Inr io \<Rightarrow>
          (case fillIdentity idw c (fillWorkers c empty_config) of
             Inl err \<Rightarrow> Inl err
           | Inr (enricher, config) \<Rightarrow> Inr (io, enricher, config)))"

section \<open>Start\<close>

text \<open>
  What the functions of rules are made from (\<open>rsConfig\<close> in \<open>runMain\<close>); it outlives a reload.
\<close>

record rules_config =
  rc_Builtin :: BuiltinConfig
  rc_GeoMatcher :: GeoMatcher

text \<open>
  What the program starts from: the files and system calls, the compiler and interpreter of rule
  expressions (which call the functions made from the configuration), gopacket's DNS layer for the modifier, and the libraries of the engine.
\<close>

record ('p, 'c, 'pool) startup_world =
  su_dataset :: dataset_world
  su_listen :: "string \<Rightarrow> string option"
  su_io :: io_world
  su_identity :: identity_world
  su_rules :: "string \<Rightarrow> string + ExprRule list"
  su_compile :: "rules_config \<Rightarrow> ('p, Analyzer) compile_env"
  su_run :: "rules_config \<Rightarrow> 'p \<Rightarrow> expr_env \<Rightarrow> string + pval option"
  su_decode :: "bytes \<Rightarrow> string + DNSLayer"
  su_serialize :: "DNSLayer \<Rightarrow> bytes \<times> string option"
  su_libs :: "('c, 'pool) engine_libs"
  su_lookup :: "string option \<Rightarrow> string \<Rightarrow> string + string list"
  su_regexp :: "string \<Rightarrow> regexp option"

definition modifiers :: "('p, 'c, 'pool) startup_world \<Rightarrow> modifier_api list" where
  "modifiers w = [DNSModifier (su_decode w) (su_serialize w)]"

datatype startup_error =
    DatasetsFailed dataset_error
  | MetricsFailed string
  | ConfigFailed config_error
  | ResponseFailed string
  | RiskFailed string
  | AllowlistFailed allowlist_error
  | RulesFailed string
  | CompileFailed compile_error
  | EngineFailed string

record ('p, 'st, 'f, 'c, 'pool) program =
  pg_io :: packet_io
  pg_enricher :: "identityEnricher option"
  pg_logger :: rulesetLogger
  pg_metrics :: "metricsCollector option"
  pg_config :: rules_config
  pg_rules :: "('p, Analyzer) exprRuleset"
  pg_workers :: "(int \<times> int \<times> (Analyzer, 'st, 'f, 'c, 'pool) worker) list"

definition compile_file ::
    "('p, 'c, 'pool) startup_world \<Rightarrow> rules_config \<Rightarrow> string \<Rightarrow> (startup_error + ('p, Analyzer) exprRuleset) go" where
  "compile_file w cfg file =
     (case su_rules w file of
        Inl err \<Rightarrow> Some (Inl (RulesFailed err))
      | Inr rules \<Rightarrow>
          (case CompileExprRules (su_compile w cfg) rules analyzers (modifiers w) of
             None \<Rightarrow> None
           | Some (Inl err) \<Rightarrow> Some (Inl (CompileFailed err))
           | Some (Inr rs) \<Rightarrow> Some (Inr rs)))"

definition rules_configuration :: "('p, 'c, 'pool) startup_world \<Rightarrow> FingerprintConfig \<Rightarrow> cliConfig \<Rightarrow> rules_config" where
  "rules_configuration w fingerprints c =
     \<lparr>rc_Builtin = \<lparr>bc_Fingerprints = fingerprints, bc_DomainKeywords = cc_DomainKeywords c, bc_Lookup = su_lookup w,
        bc_Regexp = su_regexp w\<rparr>,
      rc_GeoMatcher = NewGeoMatcher (crs_GeoSite (cc_Ruleset c)) (crs_GeoIp (cc_Ruleset c))\<rparr>"

text \<open>The sinks and the aggregator that the logger of the rules uses.\<close>

definition start_logger :: "cliConfig \<Rightarrow> startup_error + rulesetLogger" where
  "start_logger c =
     (let alert = newAlertSink (cc_Alert c) in
      case newResponseSink (cc_Response c) of
        Inl err \<Rightarrow> Inl (ResponseFailed err)
      | Inr response \<Rightarrow>
          (case newRiskAggregator (cc_Risk c) (alert \<noteq> None) (response \<noteq> None) of
             Inl err \<Rightarrow> Inl (RiskFailed err)
           | Inr risk \<Rightarrow>
               (case newAllowlist (cc_Allowlist c) of
                  Inl err \<Rightarrow> Inl (AllowlistFailed err)
                | Inr al \<Rightarrow>
                    Inr \<lparr>rl_Alert = alert, rl_Risk = map_option (\<lambda>r. r\<lparr>ra_metrics := True\<rparr>) risk,
                         rl_Response = map_option fst response, rl_Allowlist = al\<rparr>)))"

definition runMain ::
    "('p, 'c, 'pool) startup_world \<Rightarrow> string \<Rightarrow> string \<Rightarrow> string \<Rightarrow> cliConfig \<Rightarrow>
     (startup_error + ('p, 'st, 'f, 'c, 'pool) program) go" where
  "runMain w configFile pcapFile ruleFile c =
     (case loadExternalDatasets (su_dataset w) configFile (cc_Fingerprints c) of
        Inl err \<Rightarrow> Some (Inl (DatasetsFailed err))
      | Inr fingerprints \<Rightarrow>
     (case newMetricsEndpoint (su_listen w) (cc_Metrics c) of
        Inl err \<Rightarrow> Some (Inl (MetricsFailed err))
      | Inr endpoint \<Rightarrow>
     (case cli_Config (su_io w) (su_identity w) pcapFile c of
        Inl err \<Rightarrow> Some (Inl (ConfigFailed err))
      | Inr (io, enricher, config) \<Rightarrow>
     (case start_logger c of
        Inl err \<Rightarrow> Some (Inl err)
      | Inr l \<Rightarrow>
     (let cfg = rules_configuration w fingerprints c in
      case compile_file w cfg ruleFile of
        None \<Rightarrow> None
      | Some (Inl err) \<Rightarrow> Some (Inl err)
      | Some (Inr rs) \<Rightarrow>
     (case NewEngine (su_libs w) (config\<lparr>ec_Ruleset := exprRuleset_Ruleset (su_run w cfg) rs\<rparr>) of
        Inl err \<Rightarrow> Some (Inl (EngineFailed err))
      | Inr ws \<Rightarrow>
          (let m = (case endpoint of Some (addr, path, m) \<Rightarrow> m | None \<Rightarrow> new_collector);
               m = SetRiskAggregator (rl_Risk l) (SetPacketIO (has_stats io) (Some m)) in
           Some (Inr \<lparr>pg_io = io, pg_enricher = enricher, pg_logger = l, pg_metrics = m, pg_config = cfg, pg_rules = rs, pg_workers = ws\<rparr>))))))))"

text \<open>A reload: rules that cannot be read or compiled leave the old ones in place.\<close>

definition reload ::
    "('p, 'c, 'pool) startup_world \<Rightarrow> string \<Rightarrow> ('p, 'st, 'f, 'c, 'pool) program \<Rightarrow> ('p, 'st, 'f, 'c, 'pool) program go" where
  "reload w ruleFile p =
     (case compile_file w (pg_config p) ruleFile of
        None \<Rightarrow> None
      | Some (Inl err) \<Rightarrow> Some p
      | Some (Inr rs) \<Rightarrow>
          Some (p\<lparr>pg_rules := rs, pg_workers := engine_UpdateRuleset (exprRuleset_Ruleset (su_run w (pg_config p)) rs) (pg_workers p)\<rparr>))"

section \<open>The rules in force\<close>

abbreviation program_ruleset ::
    "(rules_config \<Rightarrow> 'p \<Rightarrow> expr_env \<Rightarrow> string + pval option) \<Rightarrow> ('p, 'st, 'f, 'c, 'pool) program \<Rightarrow> Analyzer Ruleset" where
  "program_ruleset run p \<equiv> exprRuleset_Ruleset (run (pg_config p)) (pg_rules p)"

text \<open>
  The programs that a start, packets for the workers and reloads lead to, with the rulesets that were
  in force, the last one first. Between the steps the files, and everything else outside the program,
  may change. A packet that makes a worker panic ends the program.
\<close>

inductive running ::
    "(Analyzer, 'st, 'f, 't, 'c, 'pool) worker_env \<Rightarrow> ('pool \<Rightarrow> (Analyzer, 'ts) tcpStream set) \<Rightarrow>
     (rules_config \<Rightarrow> 'p \<Rightarrow> expr_env \<Rightarrow> string + pval option) \<Rightarrow> Analyzer Ruleset list \<Rightarrow> ('p, 'st, 'f, 'c, 'pool) program \<Rightarrow> bool"
  for env streams run where
  start: "runMain w configFile pcapFile ruleFile c = Some (Inr p) \<Longrightarrow> su_run w = run \<Longrightarrow> 0 < el_NumCPU (su_libs w) \<Longrightarrow>
    (\<forall>cfg. ce_name (su_compile w cfg) = Analyzer_Name) \<Longrightarrow> (\<forall>a b. streams (el_NewStreamPool (su_libs w) a b) = {}) \<Longrightarrow>
    running env streams run [program_ruleset run p] p"
| packet: "running env streams run hist p \<Longrightarrow> i < length (pg_workers p) \<Longrightarrow> pg_workers p ! i = (cap, timeout, k) \<Longrightarrow>
    worker_handle env sid pkt md k = Some (Some (out, k')) \<Longrightarrow>
    running env streams run hist (p\<lparr>pg_workers := (pg_workers p)[i := (cap, timeout, k')]\<rparr>)"
| reload: "running env streams run hist p \<Longrightarrow> reload w ruleFile p = Some p' \<Longrightarrow> su_run w = run \<Longrightarrow>
    (\<forall>cfg. ce_name (su_compile w cfg) = Analyzer_Name) \<Longrightarrow> running env streams run (program_ruleset run p' # hist) p'"

text \<open>The rulesets that the open streams of a worker match against, and the streams themselves.\<close>

definition open_rulesets :: "('pool \<Rightarrow> ('an, 'ts) tcpStream set) \<Rightarrow> ('an, 'st, 'f, 'c, 'pool) worker \<Rightarrow> 'an Ruleset set" where
  "open_rulesets streams k = ts_ruleset ` streams (wk_tcpPool k) \<union> set (store_rulesets (wk_udpStreamManager k))"

fun open_streams :: "int \<times> int \<times> ('an, 'st, 'f, 'c, 'pool) worker \<Rightarrow> 'pool \<times> ('an, 'st, 'f) udpStreamValue list" where
  "open_streams (cap, timeout, k) = (wk_tcpPool k, um_store (wk_udpStreamManager k))"

definition factories_have :: "'an Ruleset \<Rightarrow> int \<times> int \<times> ('an, 'st, 'f, 'c, 'pool) worker \<Rightarrow> bool" where
  "factories_have r sw \<longleftrightarrow>
     tf_Ruleset (wk_tcpStreamFactory (snd (snd sw))) = r \<and> uf_Ruleset (um_factory (wk_udpStreamManager (snd (snd sw)))) = r"

definition ruleset_ok :: "('p, Analyzer) exprRuleset \<Rightarrow> bool" where
  "ruleset_ok rs \<longleftrightarrow> (\<exists>rules. list_all2 rule_ok rules (xr_Rules rs))
     \<and> set (xr_Ans rs) \<subseteq> set analyzers \<and> distinct (map Analyzer_Name (xr_Ans rs))"

lemma compile_file_ok:
  assumes "compile_file w cfg file = Some (Inr rs)" "ce_name (su_compile w cfg) = Analyzer_Name"
  shows "ruleset_ok rs"
proof -
  obtain rules where "CompileExprRules (su_compile w cfg) rules analyzers (modifiers w) = Some (Inr rs)"
    using assms(1) by (auto simp: compile_file_def split: sum.splits option.splits)
  from compiled_ruleset_ok' [OF this] show ?thesis
    using assms(2) by (auto simp: ruleset_ok_def)
qed

lemma factories_have_ready: "worker_ready r i sw \<Longrightarrow> factories_have r sw"
  by (auto simp: worker_ready_def factories_have_def split: prod.splits)

lemma runMain_rules:
  assumes "runMain w configFile pcapFile ruleFile c = Some (Inr p)" "0 < el_NumCPU (su_libs w)"
  shows "compile_file w (pg_config p) ruleFile = Some (Inr (pg_rules p)) \<and> pg_workers p \<noteq> []
     \<and> (\<forall>sw \<in> set (pg_workers p). factories_have (program_ruleset (su_run w) p) sw)"
proof -
  obtain config where r: "compile_file w (pg_config p) ruleFile = Some (Inr (pg_rules p))"
    "NewEngine (su_libs w) (config\<lparr>ec_Ruleset := program_ruleset (su_run w) p\<rparr>) = Inr (pg_workers p)"
    using assms(1) by (auto simp: runMain_def Let_def split: sum.splits option.splits prod.splits)
  note e = new_engine_workers [OF r(2) assms(2)]
  then have "factories_have (program_ruleset (su_run w) p) sw" if sw: "sw \<in> set (pg_workers p)" for sw
  proof -
    obtain i where "i < length (pg_workers p)" "sw = pg_workers p ! i" using sw by (auto simp: in_set_conv_nth)
    with e have "worker_ready (program_ruleset (su_run w) p) (int i) sw" by simp
    then show ?thesis by (rule factories_have_ready)
  qed
  then show ?thesis using r(1) e by blast
qed

text \<open>
  The functions of the rules see the fingerprints of the configuration and of the files it names,
  before and after a reload.
\<close>

lemma runMain_config:
  assumes "runMain w configFile pcapFile ruleFile c = Some (Inr p)"
  shows "loadExternalDatasets (su_dataset w) configFile (cc_Fingerprints c) = Inr (bc_Fingerprints (rc_Builtin (pg_config p)))
     \<and> bc_DomainKeywords (rc_Builtin (pg_config p)) = cc_DomainKeywords c"
  using assms by (auto simp: runMain_def Let_def rules_configuration_def split: sum.splits option.splits prod.splits)

lemma reload_keeps:
  "reload w ruleFile p = Some p' \<Longrightarrow> pg_config p' = pg_config p \<and> pg_logger p' = pg_logger p \<and> pg_io p' = pg_io p
     \<and> pg_metrics p' = pg_metrics p"
  by (auto simp: reload_def split: option.splits sum.splits)

text \<open>The invariant: the factories have the last ruleset, the streams one that was in force.\<close>

definition workers_inv ::
    "('pool \<Rightarrow> (Analyzer, 'ts) tcpStream set) \<Rightarrow> Analyzer Ruleset list \<Rightarrow> (int \<times> int \<times> (Analyzer, 'st, 'f, 'c, 'pool) worker) list \<Rightarrow> bool" where
  "workers_inv streams hist ws \<longleftrightarrow>
     hist \<noteq> [] \<and> ws \<noteq> [] \<and> (\<forall>(cap, timeout, k) \<in> set ws. factories_have (hd hist) (cap, timeout, k) \<and> open_rulesets streams k \<subseteq> set hist)"

lemma ready_store: "worker_ready r i (cap, timeout, k) \<Longrightarrow> um_store (wk_udpStreamManager k) = []"
  by (simp add: worker_ready_def)

lemma start_inv:
  assumes "runMain w configFile pcapFile ruleFile c = Some (Inr p)" "0 < el_NumCPU (su_libs w)"
    and "\<forall>a b. streams (el_NewStreamPool (su_libs w) a b) = {}"
  shows "workers_inv streams [program_ruleset (su_run w) p] (pg_workers p)"
proof -
  obtain config where e: "NewEngine (su_libs w) (config\<lparr>ec_Ruleset := program_ruleset (su_run w) p\<rparr>) = Inr (pg_workers p)"
    using assms(1) by (auto simp: runMain_def Let_def split: sum.splits option.splits prod.splits)
  have "open_rulesets streams k = {}" if k: "(cap, timeout, k) \<in> set (pg_workers p)" for cap timeout k
  proof -
    obtain a b where "wk_tcpPool k = el_NewStreamPool (su_libs w) a b"
      using new_workers_pools [OF e [unfolded NewEngine_def] k] by blast
    then have "streams (wk_tcpPool k) = {}" using assms(3) by simp
    moreover obtain i where i: "i < length (pg_workers p)" "pg_workers p ! i = (cap, timeout, k)"
      using k by (auto simp: in_set_conv_nth)
    then have "\<exists>r j. worker_ready r j (cap, timeout, k)"
      using new_engine_workers [OF e assms(2)] by metis
    then have "um_store (wk_udpStreamManager k) = []" using ready_store by blast
    ultimately show ?thesis by (simp add: open_rulesets_def store_rulesets_def)
  qed
  note this runMain_rules [OF assms(1,2)]
  then show ?thesis unfolding workers_inv_def by fastforce
qed

lemma handle_inv:
  assumes "assembler_documented api feed close streams (we_assemble env)"
    and "worker_handle env sid pkt md k = Some (Some (out, k'))"
    and "factories_have r (cap, timeout, k)" "open_rulesets streams k \<subseteq> set hist" "r \<in> set hist"
  shows "factories_have r (cap, timeout, k') \<and> open_rulesets streams k' \<subseteq> set hist"
  using handle_rules [OF assms(1,2)] assms(3-5)
  by (fastforce simp: factories_have_def rules_kept_def open_rulesets_def same_tcp_def)

lemma update_rulesets:
  assumes "(cap, timeout, k) \<in> set (engine_UpdateRuleset r ws)"
  shows "\<exists>k0. (cap, timeout, k0) \<in> set ws \<and> open_rulesets streams k = open_rulesets streams k0"
  using assms by (auto simp: engine_UpdateRuleset_def worker_UpdateRuleset_def open_rulesets_def store_rulesets_def Let_def)

lemma update_inv:
  assumes "workers_inv streams hist ws"
  shows "workers_inv streams (r # hist) (engine_UpdateRuleset r ws)"
proof -
  have "factories_have r (cap, timeout, k) \<and> open_rulesets streams k \<subseteq> set (r # hist)"
    if k: "(cap, timeout, k) \<in> set (engine_UpdateRuleset r ws)" for cap timeout k
  proof -
    obtain k0 where "(cap, timeout, k0) \<in> set ws" "open_rulesets streams k = open_rulesets streams k0"
      using update_rulesets [OF k] by blast
    then have "open_rulesets streams k \<subseteq> set hist" using assms by (auto simp: workers_inv_def)
    then show ?thesis using update_reaches_workers [OF k] by (auto simp: factories_have_def)
  qed
  moreover have "engine_UpdateRuleset r ws \<noteq> []" using assms by (simp add: workers_inv_def engine_UpdateRuleset_def)
  ultimately show ?thesis by (auto simp: workers_inv_def)
qed

lemma reload_update:
  assumes "reload w ruleFile p = Some p'"
  shows "p' = p \<or> (\<exists>rs. compile_file w (pg_config p) ruleFile = Some (Inr rs) \<and>
     p' = p\<lparr>pg_rules := rs, pg_workers := engine_UpdateRuleset (exprRuleset_Ruleset (su_run w (pg_config p)) rs) (pg_workers p)\<rparr>)"
  using assms by (auto simp: reload_def split: option.splits sum.splits)

lemma reload_keeps_streams:
  "reload w ruleFile p = Some p' \<Longrightarrow> map open_streams (pg_workers p') = map open_streams (pg_workers p)"
  by (drule reload_update)
    (auto simp: engine_UpdateRuleset_def worker_UpdateRuleset_def Let_def)

lemma running_inv:
  assumes "assembler_documented api feed close streams (we_assemble env)" "running env streams run hist p"
  shows "ruleset_ok (pg_rules p) \<and> hist \<noteq> [] \<and> hd hist = program_ruleset run p \<and> workers_inv streams hist (pg_workers p)"
  using assms(2)
proof (induction rule: running.induct)
  case (start w configFile pcapFile ruleFile c p)
  have "ruleset_ok (pg_rules p)" using runMain_rules [OF start(1,3)] compile_file_ok start(4) by blast
  then show ?case using start_inv [OF start(1,3,5)] start(2) by simp
next
  case (packet hist p i cap timeout k sid pkt md out k')
  have k: "factories_have (hd hist) (cap, timeout, k)" "open_rulesets streams k \<subseteq> set hist"
    using packet.IH packet.hyps(2,3) nth_mem [of i "pg_workers p"] by (auto simp: workers_inv_def)
  have "hd hist \<in> set hist" using packet.IH hd_in_set by blast
  note k' = handle_inv [OF assms(1) packet.hyps(4) k this]
  have "factories_have (hd hist) (c, t, k1) \<and> open_rulesets streams k1 \<subseteq> set hist"
    if "(c, t, k1) \<in> set ((pg_workers p)[i := (cap, timeout, k')])" for c t k1
  proof -
    have "(c, t, k1) = (cap, timeout, k') \<or> (c, t, k1) \<in> set (pg_workers p)"
      using that set_update_subset_insert [of "pg_workers p" i "(cap, timeout, k')"] by blast
    then show ?thesis using packet.IH k' by (auto simp: workers_inv_def)
  qed
  then have "workers_inv streams hist ((pg_workers p)[i := (cap, timeout, k')])"
    using packet.IH by (auto simp: workers_inv_def)
  then show ?case using packet.IH by simp
next
  case (reload hist p w ruleFile p')
  consider "p' = p" | rs where "compile_file w (pg_config p) ruleFile = Some (Inr rs)"
    "p' = p\<lparr>pg_rules := rs, pg_workers := engine_UpdateRuleset (exprRuleset_Ruleset (su_run w (pg_config p)) rs) (pg_workers p)\<rparr>"
    using reload_update [OF reload.hyps(2)] by blast
  then show ?case
  proof cases
    case 1
    then show ?thesis using reload.IH by (cases hist) (auto simp: workers_inv_def)
  next
    case (2 rs)
    have "ruleset_ok rs" using compile_file_ok [OF 2(1)] reload.hyps(4) by blast
    moreover have "workers_inv streams (r # hist) (engine_UpdateRuleset r (pg_workers p))" for r
      using update_inv reload.IH by blast
    ultimately show ?thesis using reload.IH reload.hyps(3) by (simp add: 2(2))
  qed
qed

text \<open>
  C8. After a start and any packets and reloads, the ruleset last compiled is well formed, a
  stream that a packet opens matches against it, and every open stream, TCP or UDP, still has the
  ruleset it was created with, one of those in force since the start; a reload changes no open
  stream. The assembler is one that only calls the methods of the streams it holds or has the
  factory make.
\<close>

theorem rules_in_force:
  assumes "assembler_documented api feed close streams (we_assemble env)" "running env streams run hist p"
  shows "ruleset_ok (pg_rules p) \<and> hist \<noteq> [] \<and> hd hist = program_ruleset run p \<and> pg_workers p \<noteq> []
     \<and> (\<forall>(cap, timeout, k) \<in> set (pg_workers p).
          open_rulesets streams k \<subseteq> set hist
        \<and> (\<forall>sid pkt md out k'. worker_handle env sid pkt md k = Some (Some (out, k')) \<longrightarrow>
             (\<forall>s' \<in> streams (wk_tcpPool k'). (\<exists>s \<in> streams (wk_tcpPool k). same_tcp s s') \<or> ts_ruleset s' = program_ruleset run p)
           \<and> (\<exists>n \<le> 1. store_rulesets (wk_udpStreamManager k') =
                store_rulesets (wk_udpStreamManager k) @ replicate n (program_ruleset run p))))
     \<and> (\<forall>w file p'. reload w file p = Some p' \<longrightarrow> map open_streams (pg_workers p') = map open_streams (pg_workers p))"
proof -
  have inv: "ruleset_ok (pg_rules p)" "hist \<noteq> []" "hd hist = program_ruleset run p" "workers_inv streams hist (pg_workers p)"
    using running_inv [OF assms] by simp_all
  have "rules_kept streams k k' \<and> tf_Ruleset (wk_tcpStreamFactory k) = program_ruleset run p
      \<and> uf_Ruleset (um_factory (wk_udpStreamManager k)) = program_ruleset run p"
    if "(cap, timeout, k) \<in> set (pg_workers p)" "worker_handle env sid pkt md k = Some (Some (out, k'))"
    for cap timeout k sid pkt md out k'
    using handle_rules [OF assms(1) that(2)] inv(3,4) that(1) by (auto simp: workers_inv_def factories_have_def)
  then show ?thesis
    using inv reload_keeps_streams unfolding workers_inv_def rules_kept_def by fastforce
qed

text \<open>A rule that calls \<open>cidr\<close> with one argument stops the running program when the rules are loaded again.\<close>

lemma reload_panics:
  assumes "su_rules w file = Inr (rule # rules)" "er_Action rule \<noteq> [] \<or> er_Log rule" "normalizeSeverity (er_Severity rule) \<noteq> None"
    and "er_Action rule = [] \<or> actionStringToAction (er_Action rule) \<noteq> None"
    and "ce_nodes (su_compile w (pg_config p)) (er_Expr rule) = Inr nodes" "CallNode (Some ''cidr'') args \<in> set nodes" "length args < 2"
  shows "reload w file p = None"
  using cidr_arity_panics [OF assms(2-7)] assms(1) by (simp add: reload_def compile_file_def)

section \<open>Instance\<close>

text \<open>An assembler that makes a stream for every packet; its pool is the list of them.\<close>

type_synonym stream_pool = "(Analyzer, TCPStream) tcpStream list"

definition one_packet_assembler :: "Analyzer tcpStreamFactory \<Rightarrow> TCPInfo \<Rightarrow> metadata \<Rightarrow> stream_pool \<Rightarrow> (Verdict \<times> stream_pool) go option" where
  "one_packet_assembler f tcp md pool =
     Some (Some (VerdictAccept, pool @ [fst (tcpStreamFactory_New tcp_api f 1 tcp \<lparr>tc_Verdict = VerdictAccept, tc_Metadata = md\<rparr>)]))"

lemma one_packet_documented: "assembler_documented tcp_api feed close set one_packet_assembler"
  by (auto simp: assembler_documented_def one_packet_assembler_def intro: tcp_evolves.still)

definition replay_world :: "(unit, unit, stream_pool) startup_world" where
  "replay_world =
     \<lparr>su_dataset = \<lparr>dw_Dir = (\<lambda>f. f), dw_IsAbs = (\<lambda>f. True), dw_Join = (\<lambda>a b. a @ b), dw_ReadFile = (\<lambda>f. Inl ''no file''),
        dw_yaml_entries = (\<lambda>d. Inr []), dw_yaml_file = (\<lambda>d. Inl [])\<rparr>,
      su_listen = (\<lambda>a. None),
      su_io = \<lparr>io_open_pcap = (\<lambda>f. None), io_nfq = demo_system, io_sys = (\<lambda>c. None), io_interfaceByName = (\<lambda>n. Inr 1),
        io_pageSize = 4096, io_hdrSize = 48\<rparr>,
      su_identity = no_files, su_rules = (\<lambda>f. Inr []),
      su_compile = (\<lambda>cfg. \<lparr>ce_nodes = (\<lambda>e. Inl []), ce_gen = (\<lambda>e n. Inr ()), ce_builtins = [], ce_load = (\<lambda>n. None), ce_name = Analyzer_Name\<rparr>),
      su_run = (\<lambda>cfg p env. Inr None), su_decode = demo_decode, su_serialize = demo_serialize,
      su_libs = \<lparr>el_NumCPU = 2, el_NewNode = (\<lambda>i. Inr [1]), el_lru_New = (\<lambda>n. Inr ()), el_NewStreamPool = (\<lambda>a b. [])\<rparr>,
      su_lookup = (\<lambda>s n. Inl []), su_regexp = demo_regexp\<rparr>"

definition replay_config :: cliConfig where
  "replay_config =
     \<lparr>cc_IO = \<lparr>ci_Mode = [], ci_Interface = [], ci_QueueSize = 0, ci_QueueNum = None, ci_Table = [], ci_ConnMarkAccept = 0,
        ci_ConnMarkDrop = 0, ci_ReadBuffer = 0, ci_WriteBuffer = 0, ci_Local = False, ci_RST = False, ci_FrameSize = 0,
        ci_BlockSize = 0, ci_NumBlocks = 0, ci_PollTimeout = 0, ci_Ring = False, ci_FanoutGroup = None, ci_FanoutType = []\<rparr>,
      cc_Workers = \<lparr>cw_Count = 0, cw_QueueSize = 0, cw_TCPMaxBufferedPagesTotal = 0, cw_TCPMaxBufferedPagesPerConn = 0,
        cw_TCPTimeout = 0, cw_UDPMaxStreams = 0\<rparr>,
      cc_Ruleset = \<lparr>crs_GeoIp = [], crs_GeoSite = []\<rparr>, cc_ReplayRealtime = False,
      cc_Alert = \<lparr>cal_WebhookURL = [], cal_QueueSize = 0, cal_Timeout = 0, cal_Headers = []\<rparr>,
      cc_Identity = \<lparr>cid_Inventory = [], cid_Entries = [], cid_LibvirtEnabled = False, cid_LibvirtURI = []\<rparr>,
      cc_Metrics = \<lparr>cm_Enabled = False, cm_Listen = [], cm_Path = [], cm_PacketStatsInterval = 0, cm_PacketDropWarnRate = None\<rparr>,
      cc_Risk = \<lparr>crk_Enabled = False, crk_Window = 0, crk_AlertThreshold = 0, crk_ResponseThreshold = 0, crk_Weights = None\<rparr>,
      cc_Response = demo_ovs\<lparr>co_Enabled := False\<rparr>, cc_Allowlist = quiet_config,
      cc_Fingerprints = \<lparr>fc_JA3 = \<lparr>fs_Files = [], fs_Suspicious = []\<rparr>, fc_JA4 = \<lparr>fs_Files = [], fs_Suspicious = []\<rparr>,
        fc_QUICJA3 = \<lparr>fs_Files = [], fs_Suspicious = []\<rparr>, fc_QUICJA4 = \<lparr>fs_Files = [], fs_Suspicious = []\<rparr>\<rparr>,
      cc_DomainKeywords = []\<rparr>"

definition replay_env :: "(Analyzer, UDPStream, nat, TCPInfo, unit, stream_pool) worker_env" where
  "replay_env =
     \<lparr>we_api = udp_api, we_feed = (\<lambda>rv p s. Some (Some (((None, True), s), p))), we_close = UDPStream_Close,
      we_lru = \<lparr>lru_get = (\<lambda>sid c. (None, c)), lru_add = (\<lambda>sid a c. c)\<rparr>, we_flow_rev = (\<lambda>f. f),
      we_assemble = one_packet_assembler, we_serialize = (\<lambda>dg b. None)\<rparr>"

lemma rules_in_force_witness:
  "\<exists>hist p cap timeout k. running replay_env set (su_run replay_world) hist p \<and> length hist = 2
     \<and> (cap, timeout, k) \<in> set (pg_workers p) \<and> wk_tcpPool k \<noteq> [] \<and> open_rulesets set k \<subseteq> set hist"
proof -
  have rs: "compile_file replay_world cfg ''rules.yaml'' = Some (Inr \<lparr>xr_Rules = [], xr_Ans = []\<rparr>)" for cfg
    by (simp add: compile_file_def replay_world_def CompileExprRules_def)
  obtain l where l: "start_logger replay_config = Inr l"
    by (simp add: start_logger_def replay_config_def newAlertSink_def newResponseSink_def newRiskAggregator_def quiet_list)
  have c: "cli_Config (su_io replay_world) (su_identity replay_world) ''a.pcap'' replay_config =
      Inr (PcapIO ''a.pcap'' False, None, empty_config :: Analyzer engine_config)"
    by (simp add: cli_Config_def fillIO_def fillIdentity_def newIdentityEnricher_def replay_world_def replay_config_def
      fillWorkers_def empty_config_def)
  have d: "loadExternalDatasets (su_dataset replay_world) [] (cc_Fingerprints replay_config) = Inr (cc_Fingerprints replay_config)"
    by (simp add: loadExternalDatasets_def loadFingerprintSetFiles_def replay_config_def)
  obtain p :: "(unit, UDPStream, nat, unit, stream_pool) program"
    where p: "runMain replay_world [] ''a.pcap'' ''rules.yaml'' replay_config = Some (Inr p)"
    unfolding runMain_def d c l rs
    by (simp add: newMetricsEndpoint_def replay_config_def replay_world_def NewEngine_def NewEngine_workerCount_def empty_config_def
      numeral_2_eq_2 newWorker_def newUDPStreamManager_def Let_def)
  have s: "running replay_env set (su_run replay_world) [program_ruleset (su_run replay_world) p] p"
    by (rule running.start [OF p]) (simp_all add: replay_world_def)
  have doc: "assembler_documented tcp_api feed close set (we_assemble replay_env)" for feed close
    by (simp add: replay_env_def one_packet_documented)
  obtain cap timeout k ws where ws: "pg_workers p = (cap, timeout, k) # ws"
    using running_inv [OF doc s] by (cases "pg_workers p") (auto simp: workers_inv_def)
  let ?tcp = "\<lparr>ti_SrcIP = [10, 0, 0, 1], ti_DstIP = [10, 0, 0, 2], ti_SrcPort = 4000, ti_DstPort = 80\<rparr>"
  obtain s1 where h: "worker_handle replay_env 1 (TCPPacket ?tcp) None k = Some (Some ((VerdictAccept, None), k\<lparr>wk_tcpPool := wk_tcpPool k @ [s1]\<rparr>))"
    by (simp add: worker_handle_def replay_env_def one_packet_assembler_def)
  let ?k = "k\<lparr>wk_tcpPool := wk_tcpPool k @ [s1]\<rparr>" let ?p = "p\<lparr>pg_workers := (pg_workers p)[0 := (cap, timeout, k\<lparr>wk_tcpPool := wk_tcpPool k @ [s1]\<rparr>)]\<rparr>"
  have "running replay_env set (su_run replay_world) [program_ruleset (su_run replay_world) p] ?p"
    by (rule running.packet [OF s _ _ h]) (simp_all add: ws)
  moreover obtain q where q: "reload replay_world ''rules.yaml'' ?p = Some q"
    using rs by (simp add: reload_def)
  ultimately have r: "running replay_env set (su_run replay_world) [program_ruleset (su_run replay_world) q, program_ruleset (su_run replay_world) p] q"
    by (rule running.reload) (simp_all add: replay_world_def)
  have "map open_streams (pg_workers q) = map open_streams (pg_workers ?p)" by (rule reload_keeps_streams [OF q])
  then obtain c t k' qs where ks: "pg_workers q = (c, t, k') # qs" "wk_tcpPool k' = wk_tcpPool ?k"
    by (cases "pg_workers q") (auto simp: ws)
  then have k': "(c, t, k') \<in> set (pg_workers q)" "wk_tcpPool k' = wk_tcpPool ?k" by simp_all
  have "open_rulesets set k' \<subseteq> set [program_ruleset (su_run replay_world) q, program_ruleset (su_run replay_world) p]"
    using rules_in_force [OF doc r] k'(1) by fast
  then show ?thesis using r k' by (intro exI conjI) (assumption | simp)+
qed

end
