(* ===== verification/Spec2Isabelle.thy ===== *)
theory Spec2Isabelle
  imports CommandLine
begin

text \<open>
  A model of OpenGFW, a firewall that takes packets from the kernel, recognises protocols in the
  streams they form, and accepts, modifies, drops or blocks them by rules.

  \<^bold>\<open>The program.\<close> A packet source (\<open>io/\<close>) hands packets to the engine (\<open>engine/\<close>), which deals
  them out to workers by stream id. A worker keeps the TCP and UDP streams of its packets. A new
  stream asks the ruleset (\<open>ruleset/\<close>) which analyzers (\<open>analyzer/\<close>) the rules mention; every packet is
  fed to those that are still active, and what they publish is merged into the stream's properties.
  When properties changed, the ruleset is matched against them; the action of the first rule that
  holds is the verdict on the stream, and a modifier (\<open>modifier/\<close>) may rewrite a UDP packet. A rule
  that logs goes through the allowlist to the alert queue, the risk aggregator and the response,
  which quarantines machines with OVS flows; identities enrich the metadata of a stream (all in
  \<open>cmd/\<close>). \<open>cmd/root.go\<close> puts all this together from a configuration and reloads the rules.

  \<^bold>\<open>Conventions.\<close> A struct is a record, its fields with a prefix; an enum is a datatype; integers of
  fixed size are words where they wrap or are masked, and \<open>int\<close> with the wrap-around written out
  (\<open>int64\<close>) elsewhere. Bytes are words; a Go string is a \<open>string\<close> of its bytes. A panic is \<open>None\<close> of the
  type \<open>go\<close>; an error is \<open>Inl\<close>, or the second component of a pair as in the code. A map is \<open>\<rightharpoonup>\<close> where
  order does not matter and a list of pairs where the code ranges over it: the order of such a list
  stands for the arbitrary one of Go. State goes in and comes out; a goroutine with its
  channel is a function on a queue; the clock is an argument.

  \<^bold>\<open>Loops.\<close> No definition uses fuel. A loop that ends by its structure or a measure is a total
  function. Two loops may run for ever, and so are partial functions where not returning is \<open>None\<close>
  and a panic \<open>Some None\<close>: the loop of the state machine of the parsers (\<open>LSM\<close>) and the reader of
  CRYPTO frames (\<open>QUIC\<close>). That they return is proved: for every machine by the locales of \<open>LSM\<close>
  and their interpretations, for the frames from the fact that reading a number consumes a byte, and
  for the whole worker by \<open>worker_returns\<close>. \<open>max_make\<close> (QUIC) is the size above which the allocation
  of the runtime panics.

  \<^bold>\<open>Theories.\<close>

  \<^item> \<open>Prelude\<close>, \<open>GoStrings\<close>, \<open>GoTrim\<close>, \<open>GoNet\<close>, \<open>GoAddr\<close>, \<open>GoFloat\<close>, \<open>Hashes\<close>: what the code uses of
    Go and its standard library, with the collections and lemmas that all components share.
  \<^item> \<open>ByteBuffer\<close>, \<open>LSM\<close> (\<open>analyzer/utils\<close>): the buffer that reassembled bytes are appended to, and the
    machine of steps that wait for more of them. The locale \<open>stream_reader\<close> says that a reader is
    independent of how its bytes arrive; the locales of \<open>LSM\<close> give termination, the absence of
    panics, and that feeding in pieces equals feeding at once.
  \<^item> \<open>Props\<close> (\<open>analyzer/interface.go\<close>, \<open>engine/utils.go\<close>): property maps and their updates.
  \<^item> \<open>HTTP\<close>, \<open>SSH\<close>, \<open>TLSHello\<close>, \<open>HelloSpec\<close> and \<open>TLSStream\<close>, \<open>FET\<close>, \<open>Socks\<close>, \<open>Trojan\<close>, \<open>DNS\<close>, \<open>OpenVPN\<close>,
    \<open>WireGuard\<close>, \<open>UDPFlow\<close>, \<open>QUIC\<close> and \<open>QUICStream\<close>: one analyzer each, with an invariant that every
    step keeps, and what is published for which input. \<open>HelloSpec\<close> says what is to be published of
    a ClientHello without using the parser's functions. \<open>Analyzers\<close> is their sum: the state of
    any analyzer, and the functions that feed and close it.
  \<^item> \<open>EngineBase\<close>, \<open>TCPEngine\<close>, \<open>UDPEngine\<close>, \<open>Engine\<close>, \<open>EngineSetup\<close>, \<open>StreamRules\<close> (\<open>engine/\<close>): streams with their
    entries, the table of UDP streams with its store, the worker, the dispatch, and how an engine is
    made and given new rules. \<open>StreamRules\<close> follows the ruleset of a stream through packets and
    reloads. The locales \<open>tcp_analyzers\<close>, \<open>tcp_analyzers_safe\<close> and \<open>udp_analyzers\<close>
    are what the engine relies on; \<open>Engine\<close> interprets them with \<open>Analyzers\<close>. A stream refines a
    specification in which it is only undecided or decided (\<open>tcp_refines\<close>, \<open>udp_refines\<close>).
  \<^item> \<open>Ruleset\<close>, \<open>RuleCompile\<close>, \<open>RuleFuncs\<close>, \<open>Geo\<close> (\<open>ruleset/\<close>): matching a stream, compiling rules, the
    functions that rules call, and the geo data with its cache and loader (locale \<open>geo_loader\<close>).
  \<^item> \<open>DNSModifier\<close> (\<open>modifier/udp/dns.go\<close>).
  \<^item> \<open>NFQueue\<close>, \<open>AFPacket\<close>, \<open>AFPacketOpen\<close>, \<open>PacketHelpers\<close> (\<open>io/\<close>): the kernel's rules and verdicts of
    NFQUEUE, the ring of AF_PACKET and its configuration, opening and closing the socket, and what
    becomes of a frame or of a packet of a capture file.
  \<^item> \<open>Identity\<close>, \<open>Allowlist\<close>, \<open>Risk\<close>, \<open>Response\<close>, \<open>RuleLogger\<close>, \<open>Metrics\<close>, \<open>Datasets\<close>,
    \<open>CommandLine\<close> (\<open>cmd/\<close>): one file of the source each, except that \<open>Response\<close> also has
    \<open>cmd/ovs_quarantine.go\<close>, \<open>RuleLogger\<close> also \<open>cmd/alert.go\<close>, and \<open>CommandLine\<close> also
    \<open>cmd/errors.go\<close>.
  \<^item> This theory joins the capture to the engine.

  \<^bold>\<open>What is shown.\<close> Of the analyzers: what a well-formed message publishes, however it is cut into
  segments, and that nothing a peer sends makes them panic or loop, apart from the places where it
  does: SOCKS5 with a long domain, a short QUIC packet (both are theorems), a CRYPTO frame that
  announces more than can be allocated. Of the engine: a stream is decided once, the verdict on it stands, limits are kept, a worker returns from every run, both
  directions of a connection reach one worker, and after a reload new streams have the new rules
  while open ones keep theirs.
  Of rules: the first that holds decides, and compiled rulesets are well formed. Of NFQUEUE: the
  kernel's rules do to a connection what the verdict said. Of the management code: risk is counted
  per window, allowlisted events have no effects, attempts at quarantine are spaced and their flows name one machine,
  static identities survive a refresh, counters are exact modulo their size.

  \<^bold>\<open>Parameters.\<close> Code that is not in the repository is an argument of the definitions that use it:
  gopacket (decoded layers, the TCP assembler, serialization, the DNS layer), the LRU cache, the
  snowflake numbers, quicvarint, the ciphers and key derivation of QUIC, the expression language with its
  parser and interpreter, YAML, XML and protobuf decoding, regular expressions, files and
  downloads, the commands \<open>nft\<close>, \<open>iptables\<close>, \<open>ovs-ofctl\<close> and \<open>virsh\<close>, netlink, system calls, the HTTP client,
  and of the standard library \<open>strconv.Quote\<close>, the \<open>%.9g\<close> of a number and name resolution. What a
  theorem needs of one of them is a hypothesis with a name that ends in \<open>documented\<close> or says what
  it is (\<open>varint_consumes\<close>, \<open>quoting_documented\<close>, \<open>iptables_documented\<close>, \<open>assembler_documented\<close>), and its witness
  has an instance.

  \<^bold>\<open>Not modelled.\<close> Goroutines, channels and locks beyond a queue and a sequence of steps: so no
  races, no blocking and no order between workers. Timers, tickers and signals; the flush of idle TCP
  connections, which is the assembler's, and its delivery of
  queued data across a gap, which has the context of an earlier packet. The HTTP server and the dialers that mark
  their connections. Reading flags, the configuration and the rules file, and log lines. The
  generated protobuf code and the stubs for other systems. Letters outside ASCII: changing case and
  comparing without case is done for ASCII only, and white space is recognised in its UTF-8 encodings.
\<close>

section \<open>From the capture to the worker\<close>










end
